(* ===== verification/Prelude.thy ===== *)
theory Prelude
  imports Main "HOL-Library.Word" "HOL-Library.Char_ord" "HOL-Library.AList"
begin

text \<open>
  What every component shares: the names of the machine types, the character classes of
  the C locale, C++ input streams over a string, numbers written in base sixteen, and
  \<^verbatim>\<open>std::unordered_map<string, string>\<close> as an association list.
\<close>

unbundle bit_operations_syntax

named_theorems char_eval \<open>evaluation of the character classes\<close>
named_theorems stream_simps \<open>the operations of an input stream\<close>

type_synonym u8 = "8 word"
type_synonym u32 = "32 word"
type_synonym u64 = "64 word"

abbreviation ord :: "char \<Rightarrow> nat" where
  "ord c \<equiv> of_char c"

section \<open>Characters\<close>

text \<open>
  \<^verbatim>\<open>std::isdigit\<close>, \<^verbatim>\<open>std::isupper\<close>, \<^verbatim>\<open>std::isalpha\<close> and \<^verbatim>\<open>std::tolower\<close> of the C
  locale. A \<^verbatim>\<open>char\<close> is a byte; the ones with the top bit set belong to no class.
\<close>

definition isdigit :: "char \<Rightarrow> bool" where
  "isdigit c \<longleftrightarrow> 48 \<le> ord c \<and> ord c \<le> 57"

definition isupper :: "char \<Rightarrow> bool" where
  "isupper c \<longleftrightarrow> 65 \<le> ord c \<and> ord c \<le> 90"

definition islower :: "char \<Rightarrow> bool" where
  "islower c \<longleftrightarrow> 97 \<le> ord c \<and> ord c \<le> 122"

definition isalpha :: "char \<Rightarrow> bool" where
  "isalpha c \<longleftrightarrow> isupper c \<or> islower c"

definition isspace :: "char \<Rightarrow> bool" where
  "isspace c \<longleftrightarrow> ord c = 32 \<or> (9 \<le> ord c \<and> ord c \<le> 13)"

definition to_lower :: "char \<Rightarrow> char" where
  "to_lower c = (if isupper c then char_of (ord c + 32) else c)"

lemmas char_class_defs =
  isdigit_def isupper_def islower_def isalpha_def isspace_def

lemma ord_char_of [simp]: "n < 256 \<Longrightarrow> ord (char_of n) = n"
  by simp

lemma to_lower_idem [simp]: "to_lower (to_lower c) = to_lower c"
  by (auto simp: to_lower_def isupper_def)

lemma to_lower_id: "\<not> isupper c \<Longrightarrow> to_lower c = c"
  by (simp add: to_lower_def)

lemma map_to_lower_id: "\<forall>c \<in> set s. \<not> isupper c \<Longrightarrow> map to_lower s = s"
  by (induction s) (simp_all add: to_lower_id)

lemma byte_cases: "n < 256 \<Longrightarrow> \<exists>c. ord c = n"
  by (metis ord_char_of)

section \<open>Input streams\<close>

text \<open>
  A \<^verbatim>\<open>std::istream\<close> over a string: the characters not yet read and whether the fail bit is
  set. Only reading past the end sets it here. \<open>stream_get\<close> is \<^verbatim>\<open>in.get(ch)\<close>, with
  \<^term>\<open>None\<close> for a failed read (which leaves \<^verbatim>\<open>ch\<close> as it was); \<open>stream_putback\<close> is
  \<^verbatim>\<open>in.putback(ch)\<close> and \<open>stream_clear\<close> is \<^verbatim>\<open>in.clear()\<close>.
\<close>

record istream =
  rest :: string
  failed :: bool

definition istream_of :: "string \<Rightarrow> istream" where
  [stream_simps]: "istream_of s = \<lparr>rest = s, failed = False\<rparr>"

definition stream_get :: "istream \<Rightarrow> char option \<times> istream" where
  [stream_simps]: "stream_get i =
     (if failed i then (None, i)
      else case rest i of
             [] \<Rightarrow> (None, i\<lparr>failed := True\<rparr>)
           | c # cs \<Rightarrow> (Some c, i\<lparr>rest := cs\<rparr>))"

definition stream_putback :: "char \<Rightarrow> istream \<Rightarrow> istream" where
  [stream_simps]: "stream_putback c i = (if failed i then i else i\<lparr>rest := c # rest i\<rparr>)"

definition stream_clear :: "istream \<Rightarrow> istream" where
  [stream_simps]: "stream_clear i = i\<lparr>failed := False\<rparr>"

text \<open>
  \<open>stream_read n\<close> is \<^verbatim>\<open>in.read(buf, n)\<close>: \<^term>\<open>None\<close> when the stream has failed before or
  holds fewer than \<open>n\<close> characters (it then consumes them and fails).
\<close>

definition stream_read :: "nat \<Rightarrow> istream \<Rightarrow> string option \<times> istream" where
  [stream_simps]: "stream_read n i =
     (if failed i then (None, i)
      else if length (rest i) < n then (None, \<lparr>rest = [], failed = True\<rparr>)
      else (Some (take n (rest i)), i\<lparr>rest := drop n (rest i)\<rparr>))"

text \<open>\<^verbatim>\<open>std::getline(in, piece, delim)\<close> repeated until the stream is exhausted.\<close>

function getlines :: "char \<Rightarrow> string \<Rightarrow> string list" where
  "getlines d s =
     (if s = [] then []
      else takeWhile (\<lambda>c. c \<noteq> d) s # getlines d (tl (dropWhile (\<lambda>c. c \<noteq> d) s)))"
  by pat_completeness auto
termination
proof (relation "measure (\<lambda>(d, s). length s)")
  fix d :: char and s :: string
  assume "s \<noteq> []"
  moreover have "length (dropWhile (\<lambda>c. c \<noteq> d) s) \<le> length s"
    by (rule length_dropWhile_le)
  ultimately have "length (tl (dropWhile (\<lambda>c. c \<noteq> d) s)) < length s"
    by (cases s) (auto simp: less_Suc_eq_le)
  then show "((d, tl (dropWhile (\<lambda>c. c \<noteq> d) s)), (d, s)) \<in> measure (\<lambda>(d, s). length s)"
    by simp
qed simp

declare getlines.simps [simp del]

lemma getlines_Nil [simp]: "getlines d [] = []"
  by (simp add: getlines.simps)

section \<open>Decimal numbers\<close>

text \<open>
  \<open>int_str\<close> is \<^verbatim>\<open>std::to_string\<close> of an integer. \<open>extract_int\<close> is \<^verbatim>\<open>iss >> n\<close> for an
  \<^verbatim>\<open>int n = 0\<close> read off a fresh string stream: white space is skipped, then a sign and the
  longest run of digits are read; no digit leaves 0 and fails, a value outside of 32 bits
  gives the nearest bound and fails.
\<close>

fun dec_str :: "nat \<Rightarrow> string" where
  "dec_str n = (if n < 10 then [char_of (48 + n)] else dec_str (n div 10) @ [char_of (48 + n mod 10)])"

declare dec_str.simps [simp del]

definition int_str :: "int \<Rightarrow> string" where
  "int_str i = (if i < 0 then CHR ''-'' # dec_str (nat (- i)) else dec_str (nat i))"

definition dec_value :: "string \<Rightarrow> nat" where
  "dec_value s = foldl (\<lambda>r c. 10 * r + (ord c - 48)) 0 s"

definition INT_MAX :: int where "INT_MAX = 2147483647"
definition INT_MIN :: int where "INT_MIN = - 2147483648"

definition extract_int :: "string \<Rightarrow> bool \<times> int" where
  "extract_int s =
     (let s1 = dropWhile isspace s;
          (neg, s2) = (case s1 of
              [] \<Rightarrow> (False, [])
            | c # cs \<Rightarrow> if c = CHR ''-'' then (True, cs) else if c = CHR ''+'' then (False, cs)
                        else (False, s1));
          ds = takeWhile isdigit s2;
          v = (if neg then - int (dec_value ds) else int (dec_value ds))
      in if ds = [] then (False, 0)
         else if v > INT_MAX then (False, INT_MAX)
         else if v < INT_MIN then (False, INT_MIN)
         else (True, v))"

lemma dec_str_nonempty [simp]: "dec_str n \<noteq> []"
  by (subst dec_str.simps) simp

lemma dec_str_digits: "c \<in> set (dec_str n) \<Longrightarrow> isdigit c"
proof (induction n rule: dec_str.induct)
  case (1 n)
  then show ?case
    by (subst (asm) (2) dec_str.simps) (auto simp: isdigit_def split: if_splits)
qed

lemma dec_value_append: "dec_value (s @ [c]) = 10 * dec_value s + (ord c - 48)"
  by (simp add: dec_value_def)

lemma dec_value_dec_str [simp]: "dec_value (dec_str n) = n"
proof (induction n rule: dec_str.induct)
  case (1 n)
  then show ?case
    by (subst dec_str.simps) (auto simp: dec_value_append, simp add: dec_value_def)
qed

lemma extract_int_dec_str:
  assumes "int n \<le> INT_MAX" and "t = [] \<or> \<not> isdigit (hd t)"
  shows "extract_int (dec_str n @ t) = (True, int n)"
proof -
  obtain c cs where cs: "dec_str n = c # cs" by (cases "dec_str n") auto
  then have c: "isdigit c" using dec_str_digits[of c n] by simp
  then have nc: "\<not> isspace c" "c \<noteq> CHR ''-''" "c \<noteq> CHR ''+''"
    by (auto simp: isdigit_def isspace_def)
  let ?s = "dec_str n @ t"
  have d: "dropWhile isspace ?s = ?s" using nc cs by simp
  have k: "(case ?s of [] \<Rightarrow> (False, []) | c # cs \<Rightarrow> if c = CHR ''-'' then (True, cs)
      else if c = CHR ''+'' then (False, cs) else (False, ?s)) = (False, ?s)"
    using nc cs by simp
  have tw: "takeWhile isdigit ?s = dec_str n"
    using assms(2) dec_str_digits[of _ n] by (cases t) (simp_all add: takeWhile_tail)
  have m: "\<not> INT_MAX < int n" "\<not> int n < INT_MIN"
    using assms(1) by (auto simp: INT_MIN_def)
  show ?thesis
    unfolding extract_int_def Let_def d k by (simp add: tw m)
qed

section \<open>Narrow integers\<close>

definition in_int16 :: "int \<Rightarrow> bool" where
  "in_int16 n \<longleftrightarrow> -(2 ^ 15) \<le> n \<and> n < 2 ^ 15"

lemma sint16 [simp]: "in_int16 n \<Longrightarrow> sint (word_of_int n :: 16 word) = n"
  by (simp add: in_int16_def sint_sbintrunc' signed_take_bit_int_eq_self)

lemma sint32: "INT_MIN \<le> n \<Longrightarrow> n \<le> INT_MAX \<Longrightarrow> sint (word_of_int n :: 32 word) = n"
  by (simp add: sint_sbintrunc' signed_take_bit_int_eq_self INT_MIN_def INT_MAX_def)

text \<open>
  What an \<^verbatim>\<open>int\<close> holds after a conversion from a wider type, or after a sum that it cannot hold,
  on the compilers that wrap around.
\<close>

definition int32 :: "int \<Rightarrow> int" where
  "int32 n = sint (word_of_int n :: 32 word)"

lemma int32_id: "INT_MIN \<le> n \<Longrightarrow> n \<le> INT_MAX \<Longrightarrow> int32 n = n"
  by (simp add: int32_def sint32)

lemma int32_nonneg: "0 \<le> n \<Longrightarrow> n \<le> INT_MAX \<Longrightarrow> int32 n = n"
  by (rule int32_id) (simp_all add: INT_MIN_def)

section \<open>Exceptions\<close>

text \<open>A value, or the exception on the left: what follows runs on a value only.\<close>

definition bindE :: "'e + 'a \<Rightarrow> ('a \<Rightarrow> 'e + 'b) \<Rightarrow> 'e + 'b" where
  "bindE r f = (case r of Inl e \<Rightarrow> Inl e | Inr x \<Rightarrow> f x)"

lemma bindE_simps [simp]: "bindE (Inl e) f = Inl e" "bindE (Inr x) f = f x"
  by (simp_all add: bindE_def)

lemma bindE_Inr: "bindE r f = Inr y \<longleftrightarrow> (\<exists>x. r = Inr x \<and> f x = Inr y)"
  by (cases r) simp_all

section \<open>Lists updated by index\<close>

lemma filter_update:
  "i < length xs \<Longrightarrow> length (filter P (xs[i := x])) + of_bool (P (xs ! i)) = length (filter P xs) + of_bool (P x)"
proof (induction xs arbitrary: i)
  case (Cons y xs)
  show ?case using Cons.IH [of "i - 1"] Cons.prems by (cases i) auto
qed simp

end
