(* ===== verification/HexParsing.thy ===== *)
theory HexParsing
  imports Prelude
begin

text \<open>
  Numbers in base sixteen: what \<^verbatim>\<open>std::ostream\<close> prints for an unsigned value under
  \<^verbatim>\<open>std::hex\<close>, \<^verbatim>\<open>std::setw\<close> and \<^verbatim>\<open>std::setfill('0')\<close>, and the functions of
  \<^verbatim>\<open>utils/HexParsing.h\<close> that read it back: \<open>isHex\<close>, \<open>readSegment\<close>, \<open>decodeHex\<close>.
  \<open>decodeHex_hex_pad\<close> is the round trip; \<open>readSegment_delim\<close>, \<open>readSegment_full\<close> and
  \<open>readSegment_eof\<close> are the three ways a segment ends.
\<close>

section \<open>Printing\<close>

definition hex_digit :: "nat \<Rightarrow> char" where
  "hex_digit n = (if n < 10 then char_of (48 + n) else char_of (87 + n))"

fun hex_str :: "nat \<Rightarrow> string" where
  "hex_str n = (if n < 16 then [hex_digit n] else hex_str (n div 16) @ [hex_digit (n mod 16)])"

declare hex_str.simps [simp del]

definition pad :: "nat \<Rightarrow> string \<Rightarrow> string" where
  "pad w s = replicate (w - length s) (CHR ''0'') @ s"

definition put_hex :: "nat \<Rightarrow> 'a::len word \<Rightarrow> string" where
  "put_hex w v = pad w (hex_str (unat v))"

section \<open>Reading\<close>

definition isHex :: "char \<Rightarrow> bool" where
  "isHex ch \<longleftrightarrow>
     (CHR ''0'' \<le> ch \<and> ch \<le> CHR ''9'') \<or> (CHR ''A'' \<le> ch \<and> ch \<le> CHR ''F'') \<or>
     (CHR ''a'' \<le> ch \<and> ch \<le> CHR ''f'')"

fun readSegment_loop :: "nat \<Rightarrow> char \<Rightarrow> string \<Rightarrow> istream \<Rightarrow> string \<times> istream" where
  "readSegment_loop 0 delim buffer i = (buffer, i)"
| "readSegment_loop (Suc k) delim buffer i =
     (case stream_get i of
        (None, i') \<Rightarrow> (buffer, i')
      | (Some ch, i') \<Rightarrow>
          if \<not> isHex ch then
            if ch = delim then (buffer, stream_putback ch i') else ([], i')
          else readSegment_loop k delim (buffer @ [ch]) i')"

definition readSegment :: "istream \<Rightarrow> nat \<Rightarrow> char \<Rightarrow> string \<times> istream" where
  "readSegment i maxChars delim = readSegment_loop maxChars delim [] i"

definition hexDigit :: "char \<Rightarrow> int" where
  "hexDigit ch =
     (if isdigit ch then int (ord ch) - 48
      else if isupper ch then int (ord ch) - 65 + 10
      else int (ord ch) - 97 + 10)"

definition decodeHex :: "string \<Rightarrow> 'a::len word" where
  "decodeHex s = foldl (\<lambda>result ch. push_bit 4 result OR word_of_int (hexDigit ch)) 0 s"

section \<open>Facts\<close>

definition hex_string :: "string \<Rightarrow> bool" where
  "hex_string s \<longleftrightarrow> (\<forall>c \<in> set s. isHex c)"

definition hex_value :: "string \<Rightarrow> nat" where
  "hex_value s = foldl (\<lambda>r c. 16 * r + nat (hexDigit c)) 0 s"

lemma isHex_ord:
  "isHex c \<longleftrightarrow> (48 \<le> ord c \<and> ord c \<le> 57) \<or> (65 \<le> ord c \<and> ord c \<le> 70) \<or> (97 \<le> ord c \<and> ord c \<le> 102)"
  by (simp add: isHex_def less_eq_char_def)

lemma hexDigit_range: "isHex c \<Longrightarrow> 0 \<le> hexDigit c \<and> hexDigit c < 16"
  by (auto simp: isHex_ord hexDigit_def isdigit_def isupper_def)

lemma hex_digit_props:
  assumes "n < 16"
  shows "isHex (hex_digit n) \<and> hexDigit (hex_digit n) = int n"
  using assms
  by (auto simp: hex_digit_def isHex_ord hexDigit_def isdigit_def isupper_def)

lemma hex_string_simps [simp]:
  "hex_string []"
  "hex_string (c # s) \<longleftrightarrow> isHex c \<and> hex_string s"
  "hex_string (s @ t) \<longleftrightarrow> hex_string s \<and> hex_string t"
  by (auto simp: hex_string_def)

lemma hex_string_replicate [simp]: "hex_string (replicate k (CHR ''0''))"
  by (induction k) (simp_all add: isHex_ord)

lemma hex_str_hex_string [simp]: "hex_string (hex_str n)"
proof (induction n rule: hex_str.induct)
  case (1 n)
  then show ?case
    by (subst hex_str.simps) (auto simp: hex_digit_props)
qed

lemma hex_str_nonempty [simp]: "hex_str n \<noteq> []"
  by (subst hex_str.simps) simp

lemma hex_value_append: "hex_value (s @ [c]) = 16 * hex_value s + nat (hexDigit c)"
  by (simp add: hex_value_def)

lemma hex_value_Nil [simp]: "hex_value [] = 0"
  by (simp add: hex_value_def)

lemma hex_value_hex_str [simp]: "hex_value (hex_str n) = n"
proof (induction n rule: hex_str.induct)
  case (1 n)
  show ?case
  proof (cases "n < 16")
    case True
    then show ?thesis
      by (subst hex_str.simps) (simp add: hex_value_def hex_digit_props)
  next
    case False
    with 1 show ?thesis
      by (subst hex_str.simps) (simp add: hex_value_append hex_digit_props)
  qed
qed

lemma hexDigit_zero [simp]: "hexDigit (CHR ''0'') = 0"
  by (simp add: hexDigit_def isdigit_def)

lemma hex_value_pad [simp]: "hex_value (replicate k (CHR ''0'') @ s) = hex_value s"
  by (induction k) (simp_all add: hex_value_def)

lemma length_hex_str: "n < 16 ^ k \<Longrightarrow> 0 < k \<Longrightarrow> length (hex_str n) \<le> k"
proof (induction n arbitrary: k rule: hex_str.induct)
  case (1 n)
  show ?case
  proof (cases "n < 16")
    case True
    with "1.prems" show ?thesis by (subst hex_str.simps) simp
  next
    case False
    then obtain k' where k: "k = Suc k'" and "0 < k'"
      using "1.prems" by (cases k; cases "k - 1") auto
    moreover have "n div 16 < 16 ^ k'"
      using "1.prems"(1) k by (simp add: less_mult_imp_div_less mult.commute)
    ultimately show ?thesis
      using "1.IH"[OF False] False by (subst hex_str.simps) simp
  qed
qed

lemma push4_or_nat: "d < 16 \<Longrightarrow> push_bit 4 r OR d = 16 * r + (d :: nat)"
proof -
  assume "d < 16"
  then have d: "take_bit 4 d = d" by (simp add: take_bit_nat_eq_self)
  have "push_bit 4 r AND take_bit 4 d = 0"
    by (rule bit_eqI) (auto simp: bit_simps)
  then have "push_bit 4 r OR d = push_bit 4 r + d"
    by (simp add: d disjunctive_add_eq_or)
  then show ?thesis by (simp add: push_bit_eq_mult)
qed

lemma decodeHex_step:
  assumes "isHex c"
  shows "push_bit 4 (of_nat r :: 'a::len word) OR word_of_int (hexDigit c)
    = of_nat (16 * r + nat (hexDigit c))"
proof -
  define d where "d = nat (hexDigit c)"
  have d: "hexDigit c = int d" "d < 16"
    using hexDigit_range[OF assms] by (auto simp: d_def)
  have "push_bit 4 (of_nat r :: 'a word) OR of_nat d = of_nat (push_bit 4 r OR d)"
    by (simp only: of_nat_or_eq push_bit_of_nat)
  with d show ?thesis by (simp add: push4_or_nat)
qed

lemma decodeHex_foldl:
  "hex_string s \<Longrightarrow>
   foldl (\<lambda>result ch. push_bit 4 result OR word_of_int (hexDigit ch)) (of_nat r :: 'a::len word) s
     = of_nat (foldl (\<lambda>r c. 16 * r + nat (hexDigit c)) r s)"
proof (induction s arbitrary: r)
  case Nil
  then show ?case by simp
next
  case (Cons c s)
  then have step: "push_bit 4 (of_nat r :: 'a word) OR word_of_int (hexDigit c)
    = of_nat (16 * r + nat (hexDigit c))" and "hex_string s"
    by (simp_all only: hex_string_simps decodeHex_step)
  show ?case
    unfolding foldl_Cons step by (rule Cons.IH) fact
qed

lemma decodeHex_value: "hex_string s \<Longrightarrow> (decodeHex s :: 'a::len word) = of_nat (hex_value s)"
  using decodeHex_foldl[of s 0] by (simp add: decodeHex_def hex_value_def)

lemma decodeHex_hex_pad [simp]: "decodeHex (put_hex w v) = (v :: 'a::len word)"
  by (simp add: put_hex_def pad_def decodeHex_value)

lemma put_hex_hex_string [simp]: "hex_string (put_hex w v)"
  by (simp add: put_hex_def pad_def)

lemma put_hex_nonempty [simp]: "put_hex w v \<noteq> []"
  by (simp add: put_hex_def pad_def)

lemma length_put_hex:
  "unat v < 16 ^ w \<Longrightarrow> 0 < w \<Longrightarrow> length (put_hex w v) = w"
  using length_hex_str[of "unat v" w] by (simp add: put_hex_def pad_def)

lemma length_put_hex_64 [simp]: "length (put_hex 16 (v :: u64)) = 16"
  by (rule length_put_hex) (use unsigned_less[of v] in simp_all)

lemma length_put_hex_8 [simp]: "length (put_hex 2 (v :: u8)) = 2"
  by (rule length_put_hex) (use unsigned_less[of v] in simp_all)

lemma length_put_hex_8_min: "length (put_hex 0 (v :: u8)) \<le> 2"
  using length_hex_str[of "unat v" 2] unsigned_less[of v] by (simp add: put_hex_def pad_def)

lemma delims_not_hex [simp]: "\<not> isHex (CHR '':'')" "\<not> isHex (CHR ''-'')"
  by (simp_all add: isHex_ord)

section \<open>The three ways a segment ends\<close>

lemma readSegment_loop_hex:
  "hex_string s \<Longrightarrow> length s \<le> k \<Longrightarrow> \<not> failed i \<Longrightarrow> rest i = s @ t \<Longrightarrow>
   readSegment_loop k d buf i = readSegment_loop (k - length s) d (buf @ s) (i\<lparr>rest := t\<rparr>)"
proof (induction s arbitrary: k buf i)
  case Nil
  then have "i\<lparr>rest := t\<rparr> = i" by (cases i) simp
  then show ?case by simp
next
  case (Cons c s)
  then obtain k' where k: "k = Suc k'" by (cases k) auto
  from Cons.prems k have "readSegment_loop k d buf i
    = readSegment_loop k' d (buf @ [c]) (i\<lparr>rest := s @ t\<rparr>)"
    by (simp add: stream_get_def)
  also have "\<dots> = readSegment_loop (k' - length s) d ((buf @ [c]) @ s) (i\<lparr>rest := s @ t\<rparr>\<lparr>rest := t\<rparr>)"
    by (rule Cons.IH) (use Cons.prems k in auto)
  finally show ?case using k by simp
qed

lemma readSegment_full:
  "hex_string s \<Longrightarrow> length s = n \<Longrightarrow>
   readSegment (istream_of (s @ t)) n d = (s, istream_of t)"
  unfolding readSegment_def
  by (subst readSegment_loop_hex[where t = t and s = s]) (auto simp: istream_of_def)

lemma readSegment_delim:
  "hex_string s \<Longrightarrow> length s \<le> n \<Longrightarrow> \<not> isHex d \<Longrightarrow>
   readSegment (istream_of (s @ d # t)) n d = (s, istream_of (d # t))"
  unfolding readSegment_def
  by (subst readSegment_loop_hex[where t = "d # t" and s = s])
    (auto simp: stream_simps split: nat.split, cases "n - length s", auto simp: stream_simps)

lemma readSegment_eof:
  "hex_string s \<Longrightarrow> length s < n \<Longrightarrow>
   readSegment (istream_of s) n d = (s, \<lparr>rest = [], failed = True\<rparr>)"
  unfolding readSegment_def
  by (subst readSegment_loop_hex[where t = "[]" and s = s])
    (auto simp: stream_simps, cases "n - length s", auto simp: stream_simps)

lemma readSegment_hex:
  "readSegment i n d = (s, i') \<Longrightarrow> hex_string s \<and> length s \<le> n"
proof -
  have "readSegment_loop k d buf i = (s, i') \<Longrightarrow> hex_string buf \<Longrightarrow>
      hex_string s \<and> length s \<le> length buf + k" for k buf i
    by (induction k d buf i rule: readSegment_loop.induct)
      (force split: option.splits prod.splits if_splits)+
  from this[of n "[]"] show "readSegment i n d = (s, i') \<Longrightarrow> ?thesis"
    by (simp add: readSegment_def)
qed

text \<open>Whatever the input, a segment that is read is the hexadecimal prefix of it.\<close>

lemma readSegment_loop_prefix:
  "readSegment_loop k d buf i = (b, i') \<Longrightarrow> b \<noteq> [] \<Longrightarrow> \<not> failed i \<Longrightarrow>
   \<exists>s. b = buf @ s \<and> rest i = s @ rest i' \<and> hex_string s \<and> length s \<le> k \<and>
     (length s = k \<or> rest i' = [] \<or> hd (rest i') = d)"
proof (induction k d buf i rule: readSegment_loop.induct)
  case (2 k d buf i)
  show ?case
  proof (cases "rest i")
    case Nil
    then show ?thesis
      using 2 by (auto simp: stream_get_def intro!: exI[of _ "[]"])
  next
    case (Cons c cs)
    show ?thesis
    proof (cases "isHex c")
      case True
      then have "readSegment_loop k d (buf @ [c]) (i\<lparr>rest := cs\<rparr>) = (b, i')"
        using 2 Cons by (simp add: stream_get_def)
      then obtain s where "b = (buf @ [c]) @ s" "cs = s @ rest i'" "hex_string s" "length s \<le> k"
        "length s = k \<or> rest i' = [] \<or> hd (rest i') = d"
        using 2 Cons True by (fastforce simp: stream_get_def)
      then show ?thesis
        using Cons True by (intro exI[of _ "c # s"]) auto
    next
      case False
      then show ?thesis
        using 2 Cons by (auto simp: stream_get_def stream_putback_def split: if_splits)
    qed
  qed
qed auto

lemma readSegment_prefix:
  assumes "readSegment i n d = (b, i')" and "b \<noteq> []" and "\<not> failed i"
  shows "rest i = b @ rest i' \<and> hex_string b \<and> length b \<le> n \<and>
    (length b = n \<or> rest i' = [] \<or> hd (rest i') = d)"
  using readSegment_loop_prefix[of n d "[]" i b i'] assms by (auto simp: readSegment_def)

end
