(* ===== verification/URI.thy ===== *)
theory URI
  imports HexParsing
begin

text \<open>
  \<^verbatim>\<open>net/URI.h\<close> and \<^verbatim>\<open>net/URI.cpp\<close>: percent escaping and its inverse, the decomposition of a
  URI, its authority and request target, and the query string parser.
\<close>

section \<open>Percent escaping\<close>

definition URI_isHex :: "char \<Rightarrow> bool" where
  "URI_isHex ch \<longleftrightarrow>
     (CHR ''0'' \<le> ch \<and> ch \<le> CHR ''9'') \<or> (CHR ''A'' \<le> ch \<and> ch \<le> CHR ''F'') \<or>
     (CHR ''a'' \<le> ch \<and> ch \<le> CHR ''f'')"

definition URI_decodeHex :: "char \<Rightarrow> nat" where
  "URI_decodeHex ch =
     (if CHR ''0'' \<le> ch \<and> ch \<le> CHR ''9'' then ord ch - 48
      else if CHR ''A'' \<le> ch \<and> ch \<le> CHR ''F'' then ord ch - 65 + 10
      else ord ch - 97 + 10)"

definition isUnreserved :: "char \<Rightarrow> bool" where
  "isUnreserved ch \<longleftrightarrow> isalpha ch \<or> isdigit ch \<or>
     ch \<in> {CHR ''-'', CHR ''.'', CHR ''_'', CHR ''~''}"

text \<open>
  \<^verbatim>\<open>oss << std::uppercase << std::hex << static_cast<int>(ch)\<close>: a \<^verbatim>\<open>char\<close> is signed on the
  platforms the client is built for, and a negative \<^verbatim>\<open>int\<close> prints as the 32-bit unsigned
  value of the same bits. The digits are not padded.
\<close>

definition hex_digit_upper :: "nat \<Rightarrow> char" where
  "hex_digit_upper n = (if n < 10 then char_of (48 + n) else char_of (55 + n))"

fun hex_str_upper :: "nat \<Rightarrow> string" where
  "hex_str_upper n =
     (if n < 16 then [hex_digit_upper n]
      else hex_str_upper (n div 16) @ [hex_digit_upper (n mod 16)])"

declare hex_str_upper.simps [simp del]

definition char_to_int :: "char \<Rightarrow> int" where
  "char_to_int ch = (if ord ch < 128 then int (ord ch) else int (ord ch) - 256)"

definition escape_char :: "char \<Rightarrow> string" where
  "escape_char ch =
     (if isUnreserved ch then [ch]
      else CHR ''%'' # hex_str_upper (nat (char_to_int ch mod 2 ^ 32)))"

definition queryEscape :: "string \<Rightarrow> string" where
  "queryEscape input = concat (map escape_char input)"

datatype unescape_state = UDefault | UPercent | UFirstHex

record unescaper =
  un_state :: unescape_state
  un_hex :: nat
  un_out :: string

definition unescape_step :: "unescaper \<Rightarrow> char \<Rightarrow> unescaper" where
  "unescape_step u ch =
     (case un_state u of
        UDefault \<Rightarrow>
          if ch = CHR ''%'' then u\<lparr>un_state := UPercent\<rparr>
          else u\<lparr>un_out := un_out u @ [ch]\<rparr>
      | UPercent \<Rightarrow>
          if URI_isHex ch then u\<lparr>un_state := UFirstHex, un_hex := URI_decodeHex ch AND 255\<rparr>
          else u\<lparr>un_state := UDefault, un_out := un_out u @ [CHR ''%'', ch]\<rparr>
      | UFirstHex \<Rightarrow>
          if URI_isHex ch then
            u\<lparr>un_state := UDefault, un_hex := 0,
              un_out := un_out u @ [char_of (push_bit 4 (un_hex u) OR (URI_decodeHex ch AND 255))]\<rparr>
          else
            u\<lparr>un_state := UDefault, un_hex := 0,
              un_out := un_out u @ CHR ''%'' # hex_str (un_hex u) @ [ch]\<rparr>)"

definition unescape_run :: "string \<Rightarrow> unescaper" where
  "unescape_run input = foldl unescape_step \<lparr>un_state = UDefault, un_hex = 0, un_out = []\<rparr> input"

definition queryUnescape :: "string \<Rightarrow> string" where
  "queryUnescape input = un_out (unescape_run input)"

section \<open>Components of a URI\<close>

record uri =
  scheme :: string
  host :: string
  port :: int
  path :: string
  query :: string

definition URI0 :: uri where
  "URI0 = \<lparr>scheme = [], host = [], port = 0, path = [], query = []\<rparr>"

text \<open>
  The regular expression of \<^verbatim>\<open>URI::parse\<close>,
  \<^verbatim>\<open>^(([^:/?#]+):)?(//([^/?#]*))?([^?#]*)(\?([^#]*))?(#(.*))?\<close>,
  read from left to right: every group is as long as it can be and the characters that end
  it cannot occur in it, so there is one way to match. A part is \<^term>\<open>(value, remainder)\<close>.
\<close>

definition span_not :: "char set \<Rightarrow> string \<Rightarrow> string \<times> string" where
  "span_not D s = (takeWhile (\<lambda>c. c \<notin> D) s, dropWhile (\<lambda>c. c \<notin> D) s)"

definition match_scheme :: "string \<Rightarrow> string \<times> string" where
  "match_scheme s =
     (case span_not {CHR '':'', CHR ''/'', CHR ''?'', CHR ''#''} s of
        (p, []) \<Rightarrow> ([], s)
      | (p, c # r) \<Rightarrow> if p \<noteq> [] \<and> c = CHR '':'' then (p, r) else ([], s))"

definition match_authority :: "string \<Rightarrow> string \<times> string" where
  "match_authority s =
     (if take 2 s = ''//'' then span_not {CHR ''/'', CHR ''?'', CHR ''#''} (drop 2 s) else ([], s))"

definition match_path :: "string \<Rightarrow> string \<times> string" where
  "match_path s = span_not {CHR ''?'', CHR ''#''} s"

definition match_query :: "string \<Rightarrow> string \<times> string" where
  "match_query s =
     (case s of [] \<Rightarrow> ([], s) | c # r \<Rightarrow> if c = CHR ''?'' then span_not {CHR ''#''} r else ([], s))"

definition URI_parse :: "string \<Rightarrow> uri" where
  "URI_parse uriStr =
     (let (sch, r1) = match_scheme uriStr;
          (authority, r2) = match_authority r1;
          (pth, r3) = match_path r2;
          (qry, r4) = match_query r3;
          (h, pt) =
            (if CHR '':'' \<notin> set authority then (authority, 0)
             else (takeWhile (\<lambda>c. c \<noteq> CHR '':'') authority,
                   snd (extract_int (tl (dropWhile (\<lambda>c. c \<noteq> CHR '':'') authority)))))
      in \<lparr>scheme = sch, host = h, port = pt, path = pth, query = qry\<rparr>)"

definition URI_authority :: "uri \<Rightarrow> string" where
  "URI_authority u = (if port u \<noteq> 0 then host u @ '':'' @ int_str (port u) else host u)"

definition URI_target :: "uri \<Rightarrow> string" where
  "URI_target u =
     (let result = (if path u = [] then ''/'' else path u)
      in if query u \<noteq> [] then result @ ''?'' @ query u else result)"

definition URI_print :: "uri \<Rightarrow> string" where
  "URI_print u =
     ''{ scheme='' @ [CHR 0x22] @ scheme u @ [CHR 0x22] @ '', host='' @ [CHR 0x22] @ host u @ [CHR 0x22] @
     '', port='' @ int_str (port u) @ '', path='' @ [CHR 0x22] @ path u @ [CHR 0x22] @
     '', query='' @ [CHR 0x22] @ query u @ [CHR 0x22] @ '' }''"

section \<open>Query values\<close>

datatype query_state = QKey | QValue

record query_parser =
  qp_state :: query_state
  qp_key :: string
  qp_value :: string
  qp_values :: "(string \<times> string) list"

definition query_step :: "query_parser \<Rightarrow> char \<Rightarrow> query_parser" where
  "query_step p ch =
     (case qp_state p of
        QKey \<Rightarrow>
          if ch = CHR ''='' then p\<lparr>qp_value := [], qp_state := QValue\<rparr>
          else if ch = CHR ''&'' then
            p\<lparr>qp_values := qp_values p @ [(queryUnescape (qp_key p), [])], qp_key := [], qp_state := QKey\<rparr>
          else p\<lparr>qp_key := qp_key p @ [ch]\<rparr>
      | QValue \<Rightarrow>
          if ch = CHR ''&'' then
            p\<lparr>qp_values := qp_values p @ [(queryUnescape (qp_key p), queryUnescape (qp_value p))],
              qp_key := [], qp_state := QKey\<rparr>
          else p\<lparr>qp_value := qp_value p @ [ch]\<rparr>)"

text \<open>The multimap as the list of its insertions.\<close>

definition parseQueryValues :: "uri \<Rightarrow> (string \<times> string) list" where
  "parseQueryValues u =
     (if query u = [] then []
      else
        let p = foldl query_step \<lparr>qp_state = QKey, qp_key = [], qp_value = [], qp_values = []\<rparr> (query u)
        in if qp_key p \<noteq> [] then
             (case qp_state p of
                QKey \<Rightarrow> qp_values p @ [(queryUnescape (qp_key p), [])]
              | QValue \<Rightarrow> qp_values p @ [(queryUnescape (qp_key p), queryUnescape (qp_value p))])
           else qp_values p)"

section \<open>Escaping and unescaping\<close>

text \<open>The characters that \<open>queryEscape\<close> writes as two hexadecimal digits or leaves alone.\<close>

definition escapable :: "char \<Rightarrow> bool" where
  "escapable c \<longleftrightarrow> 16 \<le> ord c \<and> ord c < 128"

lemma URI_isHex_ord:
  "URI_isHex c \<longleftrightarrow> (48 \<le> ord c \<and> ord c \<le> 57) \<or> (65 \<le> ord c \<and> ord c \<le> 70) \<or> (97 \<le> ord c \<and> ord c \<le> 102)"
  by (simp add: URI_isHex_def less_eq_char_def)

lemma hex_digit_upper_props:
  "n < 16 \<Longrightarrow> URI_isHex (hex_digit_upper n) \<and> URI_decodeHex (hex_digit_upper n) = n"
  by (auto simp: hex_digit_upper_def URI_isHex_ord URI_decodeHex_def less_eq_char_def)

lemma mask_small: "n < 16 \<Longrightarrow> n AND 255 = (n :: nat)"
  using take_bit_nat_eq_self[of n 8] by (simp add: take_bit_eq_mask mask_eq_exp_minus_1)

lemma escape_char_two:
  assumes "escapable c" and "\<not> isUnreserved c"
  shows "escape_char c = [CHR ''%'', hex_digit_upper (ord c div 16), hex_digit_upper (ord c mod 16)]"
proof -
  have "hex_str_upper (ord c) = [hex_digit_upper (ord c div 16), hex_digit_upper (ord c mod 16)]"
    using assms(1) by (subst hex_str_upper.simps, subst hex_str_upper.simps) (auto simp: escapable_def)
  with assms show ?thesis
    by (simp add: escape_char_def char_to_int_def escapable_def nat_mod_as_int)
qed

lemma percent_reserved [simp]: "\<not> isUnreserved (CHR ''%'')"
  by (simp add: isUnreserved_def isalpha_def isupper_def islower_def isdigit_def)

lemma unescape_escape_char:
  assumes "escapable c"
  shows "foldl unescape_step \<lparr>un_state = UDefault, un_hex = 0, un_out = out\<rparr> (escape_char c)
    = \<lparr>un_state = UDefault, un_hex = 0, un_out = out @ [c]\<rparr>"
proof (cases "isUnreserved c")
  case True
  then have "c \<noteq> CHR ''%''" by auto
  with True show ?thesis by (simp add: escape_char_def unescape_step_def)
next
  case False
  have hi: "ord c div 16 < 16" and lo: "ord c mod 16 < 16"
    using assms by (auto simp: escapable_def)
  have "char_of (push_bit 4 (ord c div 16) OR ord c mod 16) = c"
    using push4_or_nat[OF lo, of "ord c div 16"] by (simp add: mult.commute)
  with False hi lo show ?thesis
    by (simp add: escape_char_two assms unescape_step_def hex_digit_upper_props mask_small)
qed

lemma unescape_escape_fold:
  "\<forall>c \<in> set s. escapable c \<Longrightarrow>
   foldl unescape_step \<lparr>un_state = UDefault, un_hex = 0, un_out = out\<rparr> (queryEscape s)
    = \<lparr>un_state = UDefault, un_hex = 0, un_out = out @ s\<rparr>"
  by (induction s arbitrary: out) (simp_all add: queryEscape_def unescape_escape_char)

lemma queryUnescape_queryEscape:
  "\<forall>c \<in> set s. escapable c \<Longrightarrow> queryUnescape (queryEscape s) = s"
  by (simp add: queryUnescape_def unescape_run_def unescape_escape_fold)

lemma queryUnescape_plain:
  "CHR ''%'' \<notin> set s \<Longrightarrow> queryUnescape s = s"
proof -
  have "CHR ''%'' \<notin> set s \<Longrightarrow>
    foldl unescape_step \<lparr>un_state = UDefault, un_hex = h, un_out = out\<rparr> s
      = \<lparr>un_state = UDefault, un_hex = h, un_out = out @ s\<rparr>" for h out
    by (induction s arbitrary: out) (auto simp: unescape_step_def)
  then show "CHR ''%'' \<notin> set s \<Longrightarrow> ?thesis"
    by (simp add: queryUnescape_def unescape_run_def)
qed

lemma hex_str_upper_unreserved: "c \<in> set (hex_str_upper n) \<Longrightarrow> isUnreserved c"
proof (induction n rule: hex_str_upper.induct)
  case (1 n)
  have "isUnreserved (hex_digit_upper k)" if "k < 16" for k
    using that
    by (auto simp: hex_digit_upper_def isUnreserved_def isalpha_def isupper_def isdigit_def)
  with 1 show ?case
    by (subst (asm) (2) hex_str_upper.simps) (auto split: if_splits)
qed

lemma queryEscape_alphabet:
  "c \<in> set (queryEscape s) \<Longrightarrow> isUnreserved c \<or> c = CHR ''%''"
  by (auto simp: queryEscape_def escape_char_def dest: hex_str_upper_unreserved split: if_splits)

section \<open>Printing and parsing a URI\<close>

lemma span_not_stop:
  "\<forall>c \<in> set s. c \<notin> D \<Longrightarrow> t = [] \<or> hd t \<in> D \<Longrightarrow> span_not D (s @ t) = (s, t)"
  by (cases t) (auto simp: span_not_def takeWhile_tail dropWhile_append)

definition uri_wf :: "uri \<Rightarrow> bool" where
  "uri_wf u \<longleftrightarrow>
     scheme u \<noteq> [] \<and>
     (\<forall>c \<in> set (scheme u). c \<notin> {CHR '':'', CHR ''/'', CHR ''?'', CHR ''#''}) \<and>
     (\<forall>c \<in> set (host u). c \<notin> {CHR '':'', CHR ''/'', CHR ''?'', CHR ''#''}) \<and>
     0 \<le> port u \<and> port u \<le> INT_MAX \<and>
     path u \<noteq> [] \<and> hd (path u) = CHR ''/'' \<and> (\<forall>c \<in> set (path u). c \<notin> {CHR ''?'', CHR ''#''}) \<and>
     CHR ''#'' \<notin> set (query u)"

lemma dec_str_host_char:
  "c \<in> set (dec_str n) \<Longrightarrow> c \<notin> {CHR '':'', CHR ''/'', CHR ''?'', CHR ''#''}"
  using dec_str_digits[of c n] by (auto simp: isdigit_def)

lemma URI_parse_authority_target:
  assumes wf: "uri_wf u"
  shows "URI_parse (scheme u @ ''://'' @ URI_authority u @ URI_target u) = u"
proof -
  let ?tail = "if query u \<noteq> [] then CHR ''?'' # query u else []"
  let ?auth = "URI_authority u"
  have pth: "path u \<noteq> []" "hd (path u) = CHR ''/''"
    using wf by (simp_all add: uri_wf_def)
  have target: "URI_target u = path u @ ?tail"
    using pth by (simp add: URI_target_def)
  have s1: "match_scheme (scheme u @ ''://'' @ ?auth @ URI_target u) = (scheme u, ''//'' @ ?auth @ URI_target u)"
    using wf span_not_stop[of "scheme u" "{CHR '':'', CHR ''/'', CHR ''?'', CHR ''#''}"
        "''://'' @ ?auth @ URI_target u"]
    by (simp add: match_scheme_def uri_wf_def)
  have auth: "\<forall>c \<in> set ?auth. c \<notin> {CHR ''/'', CHR ''?'', CHR ''#''}"
  proof -
    have "\<forall>c \<in> set (dec_str n). c \<notin> {CHR ''/'', CHR ''?'', CHR ''#''}" for n
      using dec_str_host_char by blast
    with wf show ?thesis
      by (simp add: URI_authority_def uri_wf_def int_str_def ball_Un)
  qed
  have s2: "match_authority (''//'' @ ?auth @ URI_target u) = (?auth, URI_target u)"
    using span_not_stop[OF auth, of "URI_target u"] pth by (simp add: match_authority_def target)
  have s3: "match_path (URI_target u) = (path u, ?tail)"
    unfolding match_path_def target by (rule span_not_stop) (use wf in \<open>auto simp: uri_wf_def\<close>)
  have s4: "match_query ?tail = (query u, [])"
    using wf span_not_stop[of "query u" "{CHR ''#''}" "[]"] by (auto simp: match_query_def uri_wf_def)
  have colon: "CHR '':'' \<notin> set (host u)"
    using wf by (auto simp: uri_wf_def)
  have "(if CHR '':'' \<notin> set ?auth then (?auth, 0)
     else (takeWhile (\<lambda>c. c \<noteq> CHR '':'') ?auth,
           snd (extract_int (tl (dropWhile (\<lambda>c. c \<noteq> CHR '':'') ?auth))))) = (host u, port u)"
  proof (cases "port u = 0")
    case True
    with colon show ?thesis by (simp add: URI_authority_def)
  next
    case False
    then have "int_str (port u) = dec_str (nat (port u))"
      using wf by (simp add: int_str_def uri_wf_def)
    then show ?thesis
      using wf False colon extract_int_dec_str[of "nat (port u)" "[]"]
      by (simp add: URI_authority_def uri_wf_def takeWhile_tail dropWhile_append3
          takeWhile_append2 dropWhile_append2)
  qed
  then show ?thesis
    unfolding URI_parse_def s1 Let_def prod.case s2 s3 s4 by simp
qed

section \<open>The query parser against splitting\<close>

text \<open>
  The specification: the query is cut at the ampersands and each piece at its first \<^verbatim>\<open>=\<close>;
  a last piece with an empty key is dropped.
\<close>

fun split_on :: "char \<Rightarrow> string \<Rightarrow> string list" where
  "split_on d [] = [[]]"
| "split_on d (c # s) =
     (if c = d then [] # split_on d s
      else (case split_on d s of [] \<Rightarrow> [[c]] | p # ps \<Rightarrow> (c # p) # ps))"

definition query_item :: "string \<Rightarrow> string \<times> string" where
  "query_item p =
     (queryUnescape (takeWhile (\<lambda>c. c \<noteq> CHR ''='') p),
      queryUnescape (tl (dropWhile (\<lambda>c. c \<noteq> CHR ''='') p)))"

definition query_spec :: "string \<Rightarrow> (string \<times> string) list" where
  "query_spec q =
     (let ps = split_on (CHR ''&'') q
      in map query_item (butlast ps) @
         (if takeWhile (\<lambda>c. c \<noteq> CHR ''='') (last ps) = [] then [] else [query_item (last ps)]))"

lemma split_on_nonempty [simp]: "split_on d s \<noteq> []"
  by (cases s) (auto split: list.splits)

lemma queryUnescape_Nil [simp]: "queryUnescape [] = []"
  by (simp add: queryUnescape_def unescape_run_def)

text \<open>The piece read so far, as the parser's buffers hold it.\<close>

definition qp_piece :: "query_parser \<Rightarrow> string" where
  "qp_piece p = (case qp_state p of QKey \<Rightarrow> qp_key p | QValue \<Rightarrow> qp_key p @ CHR ''='' # qp_value p)"

definition qp_finish :: "query_parser \<Rightarrow> (string \<times> string) list" where
  "qp_finish p =
     (if qp_key p \<noteq> [] then
        (case qp_state p of
           QKey \<Rightarrow> qp_values p @ [(queryUnescape (qp_key p), [])]
         | QValue \<Rightarrow> qp_values p @ [(queryUnescape (qp_key p), queryUnescape (qp_value p))])
      else qp_values p)"

definition qp_inv :: "query_parser \<Rightarrow> bool" where
  "qp_inv p \<longleftrightarrow> CHR ''='' \<notin> set (qp_key p)"

lemma key_value_split:
  assumes "CHR ''='' \<notin> set k"
  shows "takeWhile (\<lambda>c. c \<noteq> CHR ''='') (k @ CHR ''='' # v) = k"
    "dropWhile (\<lambda>c. c \<noteq> CHR ''='') (k @ CHR ''='' # v) = CHR ''='' # v"
    "takeWhile (\<lambda>c. c \<noteq> CHR ''='') k = k" "dropWhile (\<lambda>c. c \<noteq> CHR ''='') k = []"
  using assms by (induction k) auto

lemma query_item_piece:
  "qp_inv p \<Longrightarrow> query_item (qp_piece p) =
    (case qp_state p of QKey \<Rightarrow> (queryUnescape (qp_key p), [])
                      | QValue \<Rightarrow> (queryUnescape (qp_key p), queryUnescape (qp_value p)))"
  by (simp add: query_item_def qp_piece_def qp_inv_def key_value_split split: query_state.split)

lemma qp_finish_spec:
  "qp_inv p \<Longrightarrow> qp_finish p = qp_values p @
     (if takeWhile (\<lambda>c. c \<noteq> CHR ''='') (qp_piece p) = [] then [] else [query_item (qp_piece p)])"
  by (simp add: query_item_piece, simp add: qp_finish_def qp_piece_def qp_inv_def key_value_split
      split: query_state.split)

lemma query_fold_spec:
  assumes "qp_inv p"
  shows "qp_finish (foldl query_step p s) =
     (let ps = split_on (CHR ''&'') s; ps' = (qp_piece p @ hd ps) # tl ps
      in qp_values p @ map query_item (butlast ps') @
         (if takeWhile (\<lambda>c. c \<noteq> CHR ''='') (last ps') = [] then [] else [query_item (last ps')]))"
  using assms
proof (induction s arbitrary: p)
  case Nil
  then show ?case by (simp add: qp_finish_spec)
next
  case (Cons c s)
  let ?q = "query_step p c"
  obtain x xs where sp: "split_on (CHR ''&'') s = x # xs"
    by (cases "split_on (CHR ''&'') s") auto
  have inv: "qp_inv ?q"
    using Cons.prems by (auto simp: qp_inv_def query_step_def split: query_state.split)
  show ?case
  proof (cases "c = CHR ''&''")
    case True
    have "qp_values ?q = qp_values p @ [query_item (qp_piece p)]"
      using True query_item_piece[OF Cons.prems] by (simp add: query_step_def split: query_state.split)
    moreover have "qp_piece ?q = []"
      using True by (simp add: query_step_def qp_piece_def split: query_state.split)
    ultimately show ?thesis
      using Cons.IH[OF inv] True sp by (simp add: Let_def)
  next
    case False
    have "qp_piece ?q = qp_piece p @ [c]" "qp_values ?q = qp_values p"
      using False by (auto simp: query_step_def qp_piece_def split: query_state.split)
    with Cons.IH[OF inv] False sp show ?thesis by (simp add: Let_def)
  qed
qed

lemma parseQueryValues_spec:
  "parseQueryValues u = (if query u = [] then [] else query_spec (query u))"
proof -
  let ?p = "\<lparr>qp_state = QKey, qp_key = [], qp_value = [], qp_values = []\<rparr>"
  obtain x xs where "split_on (CHR ''&'') (query u) = x # xs"
    by (cases "split_on (CHR ''&'') (query u)") auto
  then have "qp_finish (foldl query_step ?p (query u)) = query_spec (query u)"
    using query_fold_spec[of ?p "query u"]
    by (simp add: qp_inv_def qp_piece_def query_spec_def Let_def)
  then show ?thesis
    by (simp add: parseQueryValues_def qp_finish_def Let_def)
qed

section \<open>Properties\<close>

text \<open>Percent encoding: unescaping undoes escaping on strings of characters 16 to 127.\<close>

theorem query_escape_roundtrip:
  assumes "\<forall>c \<in> set s. escapable c"
  shows "queryUnescape (queryEscape s) = s"
  using assms by (rule queryUnescape_queryEscape)

theorem query_escape_roundtrip_witness:
  "queryUnescape (queryEscape ''a b%c/d'') = ''a b%c/d''"
proof -
  have "\<forall>c \<in> set ''a b%c/d''. escapable c" by code_simp
  then show ?thesis by (rule query_escape_roundtrip)
qed

text \<open>Parsing the text of a well-formed URI, its scheme, authority and target, gives the URI
  back.\<close>

lemma uri_roundtrip:
  assumes "uri_wf u"
  shows "URI_parse (scheme u @ ''://'' @ URI_authority u @ URI_target u) = u"
  using assms by (rule URI_parse_authority_target)

lemma uri_roundtrip_witness:
  "URI_parse ''http://localhost:5778/sampling?service=x'' =
    \<lparr>scheme = ''http'', host = ''localhost'', port = 5778, path = ''/sampling'', query = ''service=x''\<rparr>"
proof -
  let ?u = "\<lparr>scheme = ''http'', host = ''localhost'', port = 5778, path = ''/sampling'', query = ''service=x''\<rparr>"
  have "uri_wf ?u" by (simp add: uri_wf_def INT_MAX_def)
  moreover have "scheme ?u @ ''://'' @ URI_authority ?u @ URI_target ?u = ''http://localhost:5778/sampling?service=x''"
    by (simp add: URI_target_def URI_authority_def int_str_def dec_str.simps char_of_def bit_0)
  ultimately show ?thesis using uri_roundtrip[of ?u] by simp
qed

text \<open>The character automaton of parseQueryValues computes what splitting the query at each
  ampersand and each piece at its first equals sign gives.\<close>

theorem query_values_spec:
  "parseQueryValues u = (if query u = [] then [] else query_spec (query u))"
  by (rule parseQueryValues_spec)

end
