(* ===== verification/Http.thy ===== *)
theory Http
  imports URI
begin

text \<open>
  \<^verbatim>\<open>net/http\<close>: the line reader, the header reader, the parsers of a status line and of a
  request line, the method table, the bounded socket reader and the request that
  \<^verbatim>\<open>http::get\<close> writes. The regular expressions are matched from left to right: no part can
  contain the character that ends it, so there is one way to match. The kernel's socket is
  the list of what successive calls of \<^verbatim>\<open>recv\<close> return.
\<close>

abbreviation CR :: char where "CR \<equiv> CHR 0x0D"
abbreviation LF :: char where "LF \<equiv> CHR 0x0A"

section \<open>Errors and headers\<close>

datatype http_error = ParseError string string

definition ParseError_what :: "http_error \<Rightarrow> string" where
  "ParseError_what e = (case e of ParseError expected actual \<Rightarrow>
     ''Parse error, expected '' @ expected @ '', encountered '' @ [CHR 0x22] @ actual @ [CHR 0x22])"

record header =
  hkey :: string
  hvalue :: string

definition Header :: "string \<Rightarrow> string \<Rightarrow> header" where
  "Header k v = \<lparr>hkey = k, hvalue = v\<rparr>"

fun readLine_loop :: "bool \<Rightarrow> string \<Rightarrow> string \<Rightarrow> string \<times> istream" where
  "readLine_loop sawCR line [] = (line, \<lparr>rest = [], failed = True\<rparr>)"
| "readLine_loop sawCR line (ch # s) =
     (if sawCR then
        if ch = LF then (line, \<lparr>rest = s, failed = False\<rparr>)
        else readLine_loop False (line @ [CR, ch]) s
      else
        if ch = CR then readLine_loop True line s
        else readLine_loop False (line @ [ch]) s)"

definition readLineCRLF :: "istream \<Rightarrow> string \<times> istream" where
  "readLineCRLF i = (if failed i then ([], i) else readLine_loop False [] (rest i))"

text \<open>\<^verbatim>\<open>([^:]+): (.+)$\<close>\<close>

definition match_header :: "string \<Rightarrow> (string \<times> string) option" where
  "match_header line =
     (case span_not {CHR '':''} line of (k, r) \<Rightarrow>
        if k \<noteq> [] \<and> take 2 r = '': '' \<and> drop 2 r \<noteq> [] \<and> set (drop 2 r) \<inter> {CR, LF} = {}
        then Some (k, drop 2 r) else None)"

lemma readLine_loop_shorter:
  "readLine_loop b line s = (l, i) \<Longrightarrow> \<not> failed i \<Longrightarrow> length (rest i) < length s"
  by (induction b line s rule: readLine_loop.induct)
    (auto split: if_splits simp: less_Suc_eq)

lemma readLineCRLF_shorter:
  "readLineCRLF i = (l, i') \<Longrightarrow> \<not> failed i' \<Longrightarrow> length (rest i') < length (rest i)"
  by (auto simp: readLineCRLF_def dest: readLine_loop_shorter split: if_splits)

function readHeaders :: "istream \<Rightarrow> header list \<Rightarrow> http_error + header list \<times> istream" where
  "readHeaders i headers =
     (case readLineCRLF i of (line, i') \<Rightarrow>
        if failed i' then Inr (headers, i')
        else if line = [] then Inr (headers, i')
        else case match_header line of
               None \<Rightarrow> Inl (ParseError ''header'' line)
             | Some (k, v) \<Rightarrow> readHeaders i' (headers @ [Header k v]))"
  by pat_completeness auto
termination
  by (relation "measure (\<lambda>(i, hs). length (rest i))") (auto dest: readLineCRLF_shorter [OF sym])

declare readHeaders.simps [simp del]

section \<open>Methods\<close>

datatype http_method = OPTIONS | GET | HEAD | POST | PUT | DELETE | TRACE | CONNECT | EXTENSION

definition kMethodNames :: "(string \<times> http_method) list" where
  "kMethodNames = [(''OPTIONS'', OPTIONS), (''GET'', GET), (''HEAD'', HEAD), (''POST'', POST),
     (''PUT'', PUT), (''DELETE'', DELETE), (''TRACE'', TRACE), (''CONNECT'', CONNECT)]"

definition parseMethod :: "string \<Rightarrow> http_method" where
  "parseMethod name = (case map_of kMethodNames name of None \<Rightarrow> EXTENSION | Some m \<Rightarrow> m)"

section \<open>Responses\<close>

record response =
  resp_version :: string
  resp_statusCode :: int
  resp_reason :: string
  resp_headers :: "header list"
  resp_body :: string

text \<open>\<^verbatim>\<open>HTTP/([0-9]\.[0-9]) ([0-9]+) (.+)$\<close>\<close>

definition match_version :: "string \<Rightarrow> bool" where
  "match_version v \<longleftrightarrow> length v = 3 \<and> isdigit (v ! 0) \<and> v ! 1 = CHR ''.'' \<and> isdigit (v ! 2)"

definition match_status_line :: "string \<Rightarrow> (string \<times> string \<times> string) option" where
  "match_status_line line =
     (let v = take 3 (drop 5 line); r = drop 8 line; ds = takeWhile isdigit (tl r);
          r' = dropWhile isdigit (tl r)
      in if take 5 line = ''HTTP/'' \<and> match_version v \<and> take 1 r = '' '' \<and> ds \<noteq> [] \<and>
            take 1 r' = '' '' \<and> tl r' \<noteq> [] \<and> set (tl r') \<inter> {CR, LF} = {}
         then Some (v, ds, tl r') else None)"

definition Response_parse :: "istream \<Rightarrow> http_error + response" where
  "Response_parse i =
     (case readLineCRLF i of (line, i1) \<Rightarrow>
        if failed i1 then Inl (ParseError ''status line'' line)
        else case match_status_line line of
               None \<Rightarrow> Inl (ParseError ''status line'' line)
             | Some (version, code, reason) \<Rightarrow>
                 case readHeaders i1 [] of
                   Inl e \<Rightarrow> Inl e
                 | Inr (headers, i2) \<Rightarrow>
                     Inr \<lparr>resp_version = version, resp_statusCode = snd (extract_int code),
                       resp_reason = reason, resp_headers = headers, resp_body = rest i2\<rparr>)"

section \<open>Requests\<close>

record request =
  req_method :: http_method
  req_target :: string
  req_version :: string
  req_headers :: "header list"
  req_body :: string

text \<open>\<^verbatim>\<open>([A-Z]+) ([^ ]+) HTTP/([0-9]\.[0-9])$\<close>\<close>

definition match_request_line :: "string \<Rightarrow> (string \<times> string \<times> string) option" where
  "match_request_line line =
     (let m = takeWhile isupper line; r = dropWhile isupper line;
          (t, r') = span_not {CHR '' ''} (tl r); v = drop 6 r'
      in if m \<noteq> [] \<and> take 1 r = '' '' \<and> t \<noteq> [] \<and> take 6 r' = '' HTTP/'' \<and> match_version v
         then Some (m, t, v) else None)"

definition Request_parse :: "istream \<Rightarrow> http_error + request" where
  "Request_parse i =
     (case readLineCRLF i of (line, i1) \<Rightarrow>
        if failed i1 then Inl (ParseError ''request line'' line)
        else case match_request_line line of
               None \<Rightarrow> Inl (ParseError ''request line'' line)
             | Some (meth, target, version) \<Rightarrow>
                 case readHeaders i1 [] of
                   Inl e \<Rightarrow> Inl e
                 | Inr (headers, i2) \<Rightarrow>
                     Inr \<lparr>req_method = parseMethod meth, req_target = target,
                       req_version = version, req_headers = headers, req_body = rest i2\<rparr>)"

section \<open>The socket\<close>

text \<open>
  \<^verbatim>\<open>SocketReader::read\<close>: blocks of at most \<^verbatim>\<open>kBufferSize\<close> bytes are read until a call returns
  nothing (end of file or an error, an empty block here) or less than a full buffer.
\<close>

definition kBufferSize :: nat where "kBufferSize = 1024"

fun SocketReader_read :: "string list \<Rightarrow> string" where
  "SocketReader_read [] = []"
| "SocketReader_read (block # blocks) =
     (if block = [] then []
      else if length block < kBufferSize then block
      else block @ SocketReader_read blocks)"

definition http_read :: "string list \<Rightarrow> http_error + response" where
  "http_read blocks = Response_parse (istream_of (SocketReader_read blocks))"

definition Request_read :: "string list \<Rightarrow> http_error + request" where
  "Request_read blocks = Request_parse (istream_of (SocketReader_read blocks))"

text \<open>
  \<^verbatim>\<open>http::get\<close>: the request is written in one call and the response read. \<open>written\<close> is what
  \<^verbatim>\<open>write\<close> returns and \<open>version\<close> the version constant CMake configures.
\<close>

datatype get_error = SystemError string | GetParse http_error

definition get_request :: "string \<Rightarrow> uri \<Rightarrow> string" where
  "get_request version u =
     ''GET '' @ URI_target u @ '' HTTP/1.1'' @ [CR, LF] @
     ''Host: '' @ URI_authority u @ [CR, LF] @
     ''User-Agent: jaegertracing/'' @ version @ [CR, LF, CR, LF]"

definition http_get :: "string \<Rightarrow> uri \<Rightarrow> int \<Rightarrow> string list \<Rightarrow> get_error + response" where
  "http_get version u written blocks =
     (let request = get_request version u
      in if written \<noteq> int (length request) then
           Inl (SystemError (''Failed to write entire HTTP request, uri='' @ URI_print u @
             '', request='' @ request))
         else case http_read blocks of Inl e \<Rightarrow> Inl (GetParse e) | Inr r \<Rightarrow> Inr r)"

section \<open>Lines\<close>

lemma readLine_loop_line:
  "CR \<notin> set s \<Longrightarrow> readLine_loop False line (s @ CR # LF # t) = (line @ s, \<lparr>rest = t, failed = False\<rparr>)"
  by (induction s arbitrary: line) auto

lemma readLineCRLF_line:
  "CR \<notin> set s \<Longrightarrow> readLineCRLF (istream_of (s @ CR # LF # t)) = (s, istream_of t)"
  by (simp add: readLineCRLF_def istream_of_def readLine_loop_line)

text \<open>A header and a header block as text.\<close>

definition header_wf :: "header \<Rightarrow> bool" where
  "header_wf h \<longleftrightarrow> hkey h \<noteq> [] \<and> hvalue h \<noteq> [] \<and>
     set (hkey h) \<inter> {CHR '':'', CR, LF} = {} \<and> set (hvalue h) \<inter> {CR, LF} = {}"

definition print_header :: "header \<Rightarrow> string" where
  "print_header h = hkey h @ '': '' @ hvalue h"

definition print_headers :: "header list \<Rightarrow> string" where
  "print_headers hs = concat (map (\<lambda>h. print_header h @ [CR, LF]) hs) @ [CR, LF]"

lemma match_header_print:
  "header_wf h \<Longrightarrow> match_header (print_header h) = Some (hkey h, hvalue h)"
proof -
  assume wf: "header_wf h"
  then have "span_not {CHR '':''} (hkey h @ '': '' @ hvalue h) = (hkey h, '': '' @ hvalue h)"
    by (intro span_not_stop) (auto simp: header_wf_def)
  with wf show ?thesis
    by (auto simp: match_header_def print_header_def header_wf_def)
qed

lemma readHeaders_print:
  "\<forall>h \<in> set hs. header_wf h \<Longrightarrow>
   readHeaders (istream_of (print_headers hs @ t)) acc = Inr (acc @ hs, istream_of t)"
proof (induction hs arbitrary: acc)
  case Nil
  then show ?case
    using readLineCRLF_line[of "[]" t]
    by (simp add: print_headers_def istream_of_def readHeaders.simps[of "\<lparr>rest = CR # LF # t, failed = False\<rparr>"])
next
  case (Cons h hs)
  then have wf: "header_wf h" by simp
  have line: "readLineCRLF (istream_of (print_headers (h # hs) @ t))
    = (print_header h, istream_of (print_headers hs @ t))"
    using readLineCRLF_line[of "print_header h" "print_headers hs @ t"] wf
    by (simp add: print_headers_def print_header_def header_wf_def)
  have "print_header h \<noteq> []" by (simp add: print_header_def)
  moreover have "acc @ [Header (hkey h) (hvalue h)] = acc @ [h]"
    by (simp add: Header_def)
  ultimately show ?case
    using Cons line match_header_print[OF wf]
    by (subst readHeaders.simps) (simp add: istream_of_def)
qed

section \<open>What a parser accepts\<close>

lemma SocketReader_read_full:
  "\<forall>b \<in> set (butlast blocks). length b = kBufferSize \<Longrightarrow> blocks \<noteq> [] \<Longrightarrow>
   length (last blocks) < kBufferSize \<Longrightarrow> SocketReader_read blocks = concat blocks"
proof (induction blocks)
  case Nil
  then show ?case by simp
next
  case (Cons b blocks)
  then show ?case by (cases "blocks = []") (auto simp: kBufferSize_def)
qed

lemma match_request_line_print:
  assumes "m \<noteq> []" "\<forall>c \<in> set m. isupper c" "t \<noteq> []" "CHR '' '' \<notin> set t" "match_version v"
  shows "match_request_line (m @ '' '' @ t @ '' HTTP/'' @ v) = Some (m, t, v)"
proof -
  have up: "\<not> isupper (CHR '' '')" by (simp add: isupper_def)
  have "takeWhile isupper (m @ CHR '' '' # x) = m" "dropWhile isupper (m @ CHR '' '' # x) = CHR '' '' # x" for x
    using assms(2) up by (simp_all add: takeWhile_tail dropWhile_append)
  moreover have "span_not {CHR '' ''} (t @ '' HTTP/'' @ v) = (t, '' HTTP/'' @ v)"
    using assms(4) by (intro span_not_stop) auto
  ultimately show ?thesis
    using assms by (simp add: match_request_line_def)
qed

lemma Request_parse_print:
  assumes m: "m \<noteq> []" "\<forall>c \<in> set m. isupper c"
    and t: "t \<noteq> []" "set t \<inter> {CHR '' '', CR} = {}"
    and v: "match_version v" "CR \<notin> set v" and hs: "\<forall>h \<in> set hs. header_wf h"
  shows "Request_parse (istream_of (m @ '' '' @ t @ '' HTTP/'' @ v @ [CR, LF] @ print_headers hs @ b)) =
    Inr \<lparr>req_method = parseMethod m, req_target = t, req_version = v, req_headers = hs, req_body = b\<rparr>"
proof -
  let ?line = "m @ '' '' @ t @ '' HTTP/'' @ v"
  have "CR \<notin> set m" using m(2) by (auto simp: isupper_def)
  then have "CR \<notin> set ?line" using t v by auto
  then have "readLineCRLF (istream_of (?line @ CR # LF # print_headers hs @ b)) = (?line, istream_of (print_headers hs @ b))"
    by (rule readLineCRLF_line)
  moreover have "match_request_line ?line = Some (m, t, v)"
    using m t v by (intro match_request_line_print) auto
  ultimately show ?thesis
    using readHeaders_print[OF hs, of b "[]"] by (simp add: Request_parse_def istream_of_def)
qed

lemma Request_parse_get_request:
  assumes t: "set (URI_target u) \<inter> {CHR '' '', CR} = {}"
    and a: "URI_authority u \<noteq> []" "set (URI_authority u) \<inter> {CR, LF} = {}"
    and ver: "set version \<inter> {CR, LF} = {}"
  shows "Request_parse (istream_of (get_request version u)) =
    Inr \<lparr>req_method = GET, req_target = URI_target u, req_version = ''1.1'',
      req_headers = [Header ''Host'' (URI_authority u),
        Header ''User-Agent'' (''jaegertracing/'' @ version)], req_body = []\<rparr>"
proof -
  let ?hs = "[Header ''Host'' (URI_authority u), Header ''User-Agent'' (''jaegertracing/'' @ version)]"
  have "get_request version u =
      ''GET'' @ '' '' @ URI_target u @ '' HTTP/'' @ ''1.1'' @ [CR, LF] @ print_headers ?hs @ []"
    by (simp add: get_request_def print_headers_def print_header_def Header_def)
  moreover have "URI_target u \<noteq> []"
    by (simp add: URI_target_def Let_def)
  moreover have "\<forall>h \<in> set ?hs. header_wf h"
    using a ver by (auto simp: header_wf_def Header_def)
  moreover have "parseMethod ''GET'' = GET" by (simp add: parseMethod_def kMethodNames_def)
  moreover have "match_version ''1.1''" by (simp add: match_version_def isdigit_def)
  ultimately show ?thesis
    using t Request_parse_print[of "''GET''" "URI_target u" "''1.1''" ?hs "[]"]
    by (simp add: isupper_def)
qed

lemma match_status_line_print:
  assumes "match_version v" "ds \<noteq> []" "\<forall>c \<in> set ds. isdigit c" "r \<noteq> []" "set r \<inter> {CR, LF} = {}"
  shows "match_status_line (''HTTP/'' @ v @ '' '' @ ds @ '' '' @ r) = Some (v, ds, r)"
proof -
  obtain a b c where v: "v = [a, b, c]"
    using assms(1) by (auto simp: match_version_def length_Suc_conv numeral_3_eq_3)
  have "\<not> isdigit (CHR '' '')" by (simp add: isdigit_def)
  then have "takeWhile isdigit (ds @ CHR '' '' # x) = ds" "dropWhile isdigit (ds @ CHR '' '' # x) = CHR '' '' # x" for x
    using assms(3) by (simp_all add: takeWhile_tail dropWhile_append)
  with assms v show ?thesis
    by (simp add: match_status_line_def)
qed

lemma Response_parse_print:
  assumes v: "match_version v" "CR \<notin> set v" and n: "int n \<le> INT_MAX"
    and r: "r \<noteq> []" "set r \<inter> {CR, LF} = {}" and hs: "\<forall>h \<in> set hs. header_wf h"
  shows "Response_parse (istream_of (''HTTP/'' @ v @ '' '' @ dec_str n @ '' '' @ r @ [CR, LF] @ print_headers hs @ b)) =
    Inr \<lparr>resp_version = v, resp_statusCode = int n, resp_reason = r, resp_headers = hs, resp_body = b\<rparr>"
proof -
  let ?line = "''HTTP/'' @ v @ '' '' @ dec_str n @ '' '' @ r"
  have "CR \<notin> set (dec_str n)" using dec_str_digits[of CR n] by (auto simp: isdigit_def)
  then have "CR \<notin> set ?line" using v r by auto
  then have "readLineCRLF (istream_of (?line @ CR # LF # print_headers hs @ b)) = (?line, istream_of (print_headers hs @ b))"
    by (rule readLineCRLF_line)
  moreover have "match_status_line ?line = Some (v, dec_str n, r)"
    using v r dec_str_digits by (intro match_status_line_print) auto
  moreover have "snd (extract_int (dec_str n)) = int n"
    using extract_int_dec_str[OF n, of "[]"] by simp
  ultimately show ?thesis
    using readHeaders_print[OF hs, of b "[]"] by (simp add: Response_parse_def istream_of_def)
qed

text \<open>How a stream that comes whole is read with a buffer of \<open>n\<close> bytes.\<close>

function blocks_of :: "nat \<Rightarrow> string \<Rightarrow> string list" where
  "blocks_of n s = (if s = [] \<or> n = 0 then [] else take n s # blocks_of n (drop n s))"
  by pat_completeness auto
termination
  by (relation "measure (\<lambda>(n, s). length s)") auto

declare blocks_of.simps [simp del]

lemma blocks_of_Nil [simp]: "blocks_of n [] = []"
  by (simp add: blocks_of.simps)

text \<open>A reader that goes on after full blocks: what it makes of the stream, and when it has to wait.\<close>

lemma blocks_of_induct [case_names Pos Short Nil Full]:
  assumes "0 < n" and "\<And>s. s \<noteq> [] \<Longrightarrow> length s < n \<Longrightarrow> P s (blocks_of n s)" and "P [] []"
    and "\<And>s. s \<noteq> [] \<Longrightarrow> n \<le> length s \<Longrightarrow> P (drop n s) (blocks_of n (drop n s)) \<Longrightarrow>
      P s (take n s # blocks_of n (drop n s))"
  shows "P s (blocks_of n s)"
proof (induction "length s" arbitrary: s rule: less_induct)
  case less
  consider "s = []" | "s \<noteq> []" "length s < n" | "s \<noteq> []" "n \<le> length s" by linarith
  then show ?case
  proof cases
    case 3
    then have "length (drop n s) < length s" using assms(1) by (cases s) auto
    from assms(4)[OF 3 less[OF this]] show ?thesis using 3 assms(1) by (subst blocks_of.simps) simp
  qed (use assms in auto)
qed

lemma dvd_drop: "n \<le> length s \<Longrightarrow> n dvd length (drop n s) \<longleftrightarrow> n dvd length s"
  by (metis dvd_minus_self length_drop linorder_not_less)

lemma SocketReader_read_blocks: "SocketReader_read (blocks_of kBufferSize s) = s"
proof (induction s rule: blocks_of_induct[where n = kBufferSize])
  case (Short s)
  then show ?case by (simp add: blocks_of.simps[of _ s] kBufferSize_def)
qed (simp_all add: kBufferSize_def)

section \<open>Properties\<close>

text \<open>The request http::get writes is one the request parser accepts, with the method GET,
  the URI's target, the two headers and no body.\<close>

theorem get_request_parses:
  assumes "set (URI_target u) \<inter> {CHR '' '', CR} = {}"
    and "URI_authority u \<noteq> []" and "set (URI_authority u) \<inter> {CR, LF} = {}"
    and "set version \<inter> {CR, LF} = {}"
  shows "Request_parse (istream_of (get_request version u)) =
    Inr \<lparr>req_method = GET, req_target = URI_target u, req_version = ''1.1'',
      req_headers = [Header ''Host'' (URI_authority u),
        Header ''User-Agent'' (''jaegertracing/'' @ version)], req_body = []\<rparr>"
  using assms by (rule Request_parse_get_request)

theorem get_request_parses_witness:
  "Request_parse (istream_of (get_request ''0.6.0''
     \<lparr>scheme = ''http'', host = ''agent'', port = 5778, path = ''/sampling'', query = ''service=x''\<rparr>)) =
    Inr \<lparr>req_method = GET, req_target = ''/sampling?service=x'', req_version = ''1.1'',
      req_headers = [Header ''Host'' ''agent:5778'', Header ''User-Agent'' ''jaegertracing/0.6.0''],
      req_body = []\<rparr>"
proof -
  let ?u = "\<lparr>scheme = ''http'', host = ''agent'', port = 5778, path = ''/sampling'', query = ''service=x''\<rparr>"
  have e: "URI_target ?u = ''/sampling?service=x''" "URI_authority ?u = ''agent:5778''"
    by (simp_all add: URI_target_def URI_authority_def int_str_def dec_str.simps char_of_def bit_0)
  show ?thesis
    using get_request_parses[of ?u "''0.6.0''"] unfolding e by simp
qed

text \<open>A well-formed response is parsed into its parts, the status code by its decimal
  value.\<close>

theorem response_parses:
  assumes "match_version v" and "CR \<notin> set v" and "int n \<le> INT_MAX"
    and "r \<noteq> []" and "set r \<inter> {CR, LF} = {}" and "\<forall>h \<in> set hs. header_wf h"
  shows "Response_parse (istream_of (''HTTP/'' @ v @ '' '' @ dec_str n @ '' '' @ r @ [CR, LF] @ print_headers hs @ b)) =
    Inr \<lparr>resp_version = v, resp_statusCode = int n, resp_reason = r, resp_headers = hs, resp_body = b\<rparr>"
  using assms by (rule Response_parse_print)

theorem response_parses_witness:
  "Response_parse (istream_of (''HTTP/1.1 '' @ dec_str 200 @ '' OK'' @ [CR, LF] @
     print_headers [Header ''A'' ''b''] @ ''body'')) =
    Inr \<lparr>resp_version = ''1.1'', resp_statusCode = 200, resp_reason = ''OK'',
      resp_headers = [Header ''A'' ''b''], resp_body = ''body''\<rparr>"
  using response_parses[of "''1.1''" 200 "''OK''" "[Header ''A'' ''b'']" "''body''"]
  by (simp add: match_version_def isdigit_def INT_MAX_def header_wf_def Header_def)

end
