(* ===== verification/SpanContexts.thy ===== *)
theory SpanContexts
  imports HexParsing
begin

text \<open>
  Trace identifiers (\<^verbatim>\<open>TraceID.h\<close>, \<^verbatim>\<open>TraceID.cpp\<close>) and span contexts (\<^verbatim>\<open>SpanContext.h\<close>,
  \<^verbatim>\<open>SpanContext.cpp\<close>): the data, the predicates on it, the textual form
  \<^verbatim>\<open>trace:span:parent:flags\<close> and its parser. The mutex of a context guards copies only and has
  no place in a functional model.
\<close>

section \<open>Baggage\<close>

text \<open>
  \<^verbatim>\<open>StrMap\<close> is \<^verbatim>\<open>std::unordered_map<string, string>\<close>: an association list with distinct keys,
  in the order an iteration over the container visits it. That order is not specified by
  C++, so equality (\<open>strmap_eq\<close>, \<^verbatim>\<open>operator==\<close> of the container) compares the mappings only,
  and what depends on the order is stated for every list.
\<close>

type_synonym strmap = "(string \<times> string) list"

definition strmap_ok :: "strmap \<Rightarrow> bool" where
  "strmap_ok m \<longleftrightarrow> distinct (map fst m)"

definition strmap_eq :: "strmap \<Rightarrow> strmap \<Rightarrow> bool" where
  "strmap_eq m n \<longleftrightarrow>
     set (map fst m) = set (map fst n) \<and> list_all (\<lambda>k. map_of m k = map_of n k) (map fst m)"

lemma strmap_eq_iff: "strmap_eq m n \<longleftrightarrow> map_of m = map_of n"
proof
  assume eq: "strmap_eq m n"
  show "map_of m = map_of n"
  proof
    fix k
    show "map_of m k = map_of n k"
    proof (cases "k \<in> fst ` set m")
      case True
      then obtain v where "(k, v) \<in> set m" by auto
      with eq show ?thesis by (force simp: strmap_eq_def list_all_iff)
    next
      case False
      with eq have "k \<notin> fst ` set n" by (simp add: strmap_eq_def)
      with False show ?thesis by (metis map_of_eq_None_iff)
    qed
  qed
next
  assume eq: "map_of m = map_of n"
  then have "fst ` set m = fst ` set n"
    by (simp flip: dom_map_of_conv_image_fst)
  with eq show "strmap_eq m n"
    by (simp add: strmap_eq_def list_all_iff)
qed

lemma strmap_eq_refl [simp]: "strmap_eq m m"
  by (simp add: strmap_eq_iff)

section \<open>Trace identifiers\<close>

record trace_id =
  high :: u64
  low :: u64

definition TraceID :: "u64 \<Rightarrow> u64 \<Rightarrow> trace_id" where
  "TraceID h l = \<lparr>high = h, low = l\<rparr>"

definition TraceID_isValid :: "trace_id \<Rightarrow> bool" where
  "TraceID_isValid t \<longleftrightarrow> high t \<noteq> 0 \<or> low t \<noteq> 0"

definition TraceID_print :: "trace_id \<Rightarrow> string" where
  "TraceID_print t =
     (if high t = 0 then put_hex 16 (low t) else put_hex 16 (high t) @ put_hex 16 (low t))"

definition TraceID_eq :: "trace_id \<Rightarrow> trace_id \<Rightarrow> bool" where
  "TraceID_eq t u \<longleftrightarrow> high t = high u \<and> low t = low u"

definition TraceID_fromStream :: "istream \<Rightarrow> trace_id \<times> istream" where
  "TraceID_fromStream i =
     (let kMaxChars = 32; (buffer, i') = readSegment i kMaxChars (CHR '':'') in
      if buffer = [] then (TraceID 0 0, i')
      else if length buffer < kMaxChars div 2 then
        (TraceID 0 (decodeHex buffer), i')
      else
        let beginLowStr = length buffer - kMaxChars div 2 in
        (TraceID (decodeHex (take beginLowStr buffer)) (decodeHex (drop beginLowStr buffer)), i'))"

lemmas trace_id_defs = TraceID_def TraceID_isValid_def TraceID_eq_def

lemma TraceID_sel [simp]: "high (TraceID h l) = h" "low (TraceID h l) = l"
  by (simp_all add: TraceID_def)

lemma TraceID_collapse [simp]: "TraceID (high t) (low t) = t"
  by (simp add: TraceID_def)

lemma TraceID_eq_iff [simp]: "TraceID_eq t u \<longleftrightarrow> t = u"
  by (cases t; cases u) (simp add: TraceID_eq_def)

lemma TraceID_print_hex [simp]: "hex_string (TraceID_print t)"
  by (simp add: TraceID_print_def)

lemma TraceID_print_length [simp]:
  "length (TraceID_print t) = (if high t = 0 then 16 else 32)"
  by (simp add: TraceID_print_def)

lemma decodeHex_Nil [simp]: "decodeHex [] = 0"
  by (simp add: decodeHex_def)

lemma TraceID_fromStream_print:
  "TraceID_fromStream (istream_of (TraceID_print t @ CHR '':'' # s)) = (t, istream_of (CHR '':'' # s))"
proof -
  let ?b = "TraceID_print t"
  have seg: "readSegment (istream_of (?b @ CHR '':'' # s)) 32 (CHR '':'') = (?b, istream_of (CHR '':'' # s))"
    by (rule readSegment_delim) simp_all
  have "?b \<noteq> []" by (simp add: TraceID_print_def)
  moreover have "TraceID (decodeHex (take (length ?b - 16) ?b)) (decodeHex (drop (length ?b - 16) ?b)) = t"
    by (cases "high t = 0") (simp_all add: TraceID_print_def TraceID_def)
  ultimately show ?thesis
    using TraceID_print_length[of t]
    by (simp add: TraceID_fromStream_def seg del: TraceID_print_length)
qed

section \<open>Span contexts\<close>

record span_context =
  traceID :: trace_id
  spanID :: u64
  parentID :: u64
  flags :: u8
  baggage :: strmap
  debugID :: string
  traceState :: string

definition kSampled :: u8 where "kSampled = 1"
definition kDebug :: u8 where "kDebug = 2"

definition SpanContext0 :: span_context where
  "SpanContext0 = \<lparr>traceID = TraceID 0 0, spanID = 0, parentID = 0, flags = 0, baggage = [],
     debugID = [], traceState = []\<rparr>"

definition SpanContext :: "trace_id \<Rightarrow> u64 \<Rightarrow> u64 \<Rightarrow> u8 \<Rightarrow> strmap \<Rightarrow> string \<Rightarrow> string \<Rightarrow> span_context" where
  "SpanContext t s p f b d ts = \<lparr>traceID = t, spanID = s, parentID = p, flags = f, baggage = b,
     debugID = d, traceState = ts\<rparr>"

definition withBaggage :: "span_context \<Rightarrow> strmap \<Rightarrow> span_context" where
  "withBaggage c b =
     SpanContext (traceID c) (spanID c) (parentID c) (flags c) b (debugID c) (traceState c)"

text \<open>
  \<^verbatim>\<open>forEachBaggageItem\<close> runs \<open>f\<close> over the items until it returns \<^verbatim>\<open>false\<close>; \<open>f\<close>'s effects are
  the state it threads.
\<close>

fun forEachBaggageItem :: "(string \<Rightarrow> string \<Rightarrow> 's \<Rightarrow> bool \<times> 's) \<Rightarrow> strmap \<Rightarrow> 's \<Rightarrow> 's" where
  "forEachBaggageItem f [] s = s"
| "forEachBaggageItem f ((k, v) # m) s =
     (case f k v s of (go, s') \<Rightarrow> if go then forEachBaggageItem f m s' else s')"

definition isSampled :: "span_context \<Rightarrow> bool" where
  "isSampled c \<longleftrightarrow> flags c AND kSampled \<noteq> 0"

definition isDebug :: "span_context \<Rightarrow> bool" where
  "isDebug c \<longleftrightarrow> flags c AND kDebug \<noteq> 0"

definition isDebugIDContainerOnly :: "span_context \<Rightarrow> bool" where
  "isDebugIDContainerOnly c \<longleftrightarrow> \<not> TraceID_isValid (traceID c) \<and> debugID c \<noteq> []"

definition isValid :: "span_context \<Rightarrow> bool" where
  "isValid c \<longleftrightarrow> TraceID_isValid (traceID c) \<and> spanID c \<noteq> 0"

definition SpanContext_print :: "span_context \<Rightarrow> string" where
  "SpanContext_print c =
     TraceID_print (traceID c) @ '':'' @ put_hex 16 (spanID c) @ '':'' @
     put_hex 16 (parentID c) @ '':'' @ put_hex 0 (flags c)"

definition SpanContext_eq :: "span_context \<Rightarrow> span_context \<Rightarrow> bool" where
  "SpanContext_eq l r \<longleftrightarrow>
     (if \<not> strmap_eq (baggage l) (baggage r) then False
      else TraceID_eq (traceID l) (traceID r) \<and> spanID l = spanID r \<and>
        parentID l = parentID r \<and> flags l = flags r \<and> debugID l = debugID r \<and>
        traceState l = traceState r)"

text \<open>
  \<^verbatim>\<open>in.get(ch) && ch == ':'\<close>, the separator test between two fields.
\<close>

definition expect :: "char \<Rightarrow> istream \<Rightarrow> bool \<times> istream" where
  "expect d i = (case stream_get i of (None, i') \<Rightarrow> (False, i') | (Some ch, i') \<Rightarrow> (ch = d, i'))"

definition SpanContext_fromStream :: "istream \<Rightarrow> span_context \<times> istream" where
  "SpanContext_fromStream i0 =
     (let (tid, i1) = TraceID_fromStream i0 in
      if \<not> TraceID_isValid tid then (SpanContext0, i1) else
      let (ok1, i2) = expect (CHR '':'') i1 in
      if \<not> ok1 then (SpanContext0, i2) else
      let (buffer1, i3) = readSegment i2 16 (CHR '':'') in
      if buffer1 = [] then (SpanContext0, i3) else
      let (ok2, i4) = expect (CHR '':'') i3 in
      if \<not> ok2 then (SpanContext0, i4) else
      let (buffer2, i5) = readSegment i4 16 (CHR '':'') in
      if buffer2 = [] then (SpanContext0, i5) else
      let (ok3, i6) = expect (CHR '':'') i5 in
      if \<not> ok3 then (SpanContext0, i6) else
      let (buffer3, i7) = readSegment i6 2 (CHR '':'') in
      if buffer3 = [] then (SpanContext0, i7) else
      (SpanContext0\<lparr>traceID := tid, spanID := decodeHex buffer1, parentID := decodeHex buffer2,
         flags := decodeHex buffer3\<rparr>, stream_clear i7))"

text \<open>The bits of the flags byte.\<close>

lemma flag_or [simp]:
  "(f OR kSampled OR kDebug) AND kSampled \<noteq> 0"
  "(f OR kSampled) AND kSampled \<noteq> 0"
  "(f AND NOT kSampled) AND kSampled = 0"
  "(kSampled OR kDebug) AND kSampled \<noteq> 0"
  "(f OR kSampled OR kDebug) AND kDebug \<noteq> 0"
  "(f OR (kSampled OR kDebug)) AND kSampled \<noteq> 0"
  "(f OR (kSampled OR kDebug)) AND kDebug \<noteq> 0"
  "(f AND NOT kSampled) AND kDebug = f AND kDebug"
proof -
  have s: "x AND kSampled \<noteq> 0 \<longleftrightarrow> bit x 0" for x :: u8
    unfolding kSampled_def by (auto simp: and_one_eq odd_iff_mod_2_eq_one even_iff_mod_2_eq_zero bit_0)
  have d: "bit kDebug n \<longleftrightarrow> n = 1" and s': "bit kSampled n \<longleftrightarrow> n = 0" for n
    unfolding kDebug_def kSampled_def by (auto simp: bit_simps bit_2_iff bit_1_iff)
  have dd: "x AND kDebug \<noteq> 0" if "bit x 1" for x :: u8
    using that d[of 1] by (metis bit_and_iff bit_0_eq bot_apply bot_bool_def)
  show "(f OR kSampled OR kDebug) AND kSampled \<noteq> 0" "(f OR kSampled) AND kSampled \<noteq> 0"
    "(kSampled OR kDebug) AND kSampled \<noteq> 0" "(f OR (kSampled OR kDebug)) AND kSampled \<noteq> 0"
    by (simp_all only: s bit_or_iff s' simp_thms)
  show "(f OR kSampled OR kDebug) AND kDebug \<noteq> 0" "(f OR (kSampled OR kDebug)) AND kDebug \<noteq> 0"
    by (rule dd, simp add: bit_simps d)+
  show "(f AND NOT kSampled) AND kSampled = 0"
    by (rule bit_eqI) (auto simp: bit_simps)
  show "(f AND NOT kSampled) AND kDebug = f AND kDebug"
    by (rule bit_eqI) (auto simp: bit_simps d s')
qed

lemma SpanContext_sel [simp]:
  "traceID (SpanContext t s p f b d ts) = t" "spanID (SpanContext t s p f b d ts) = s"
  "parentID (SpanContext t s p f b d ts) = p" "flags (SpanContext t s p f b d ts) = f"
  "baggage (SpanContext t s p f b d ts) = b" "debugID (SpanContext t s p f b d ts) = d"
  "traceState (SpanContext t s p f b d ts) = ts"
  by (simp_all add: SpanContext_def)

lemma SpanContext0_sel [simp]:
  "traceID SpanContext0 = TraceID 0 0" "spanID SpanContext0 = 0" "parentID SpanContext0 = 0"
  "flags SpanContext0 = 0" "baggage SpanContext0 = []" "debugID SpanContext0 = []"
  "traceState SpanContext0 = []"
  by (simp_all add: SpanContext0_def)

lemma SpanContext0_invalid [simp]: "\<not> isValid SpanContext0" "\<not> TraceID_isValid (TraceID 0 0)"
  by (simp_all add: isValid_def TraceID_isValid_def)

lemma SpanContext_eq_refl [simp]: "SpanContext_eq c c"
  by (simp add: SpanContext_eq_def)

lemma SpanContext_eqD:
  "SpanContext_eq c d \<Longrightarrow> traceID c = traceID d \<and> spanID c = spanID d \<and> parentID c = parentID d \<and>
     flags c = flags d \<and> map_of (baggage c) = map_of (baggage d) \<and> debugID c = debugID d \<and>
     traceState c = traceState d"
  by (auto simp: SpanContext_eq_def strmap_eq_iff split: if_splits)

lemma expect_hit [simp]: "expect d (istream_of (d # s)) = (True, istream_of s)"
  by (simp add: expect_def stream_simps)

lemma SpanContext_fromStream_print:
  assumes "TraceID_isValid (traceID c)"
  shows "fst (SpanContext_fromStream (istream_of (SpanContext_print c))) =
      SpanContext0\<lparr>traceID := traceID c, spanID := spanID c, parentID := parentID c, flags := flags c\<rparr>
    \<and> \<not> failed (snd (SpanContext_fromStream (istream_of (SpanContext_print c))))"
proof -
  obtain i7 where last: "readSegment (istream_of (put_hex 0 (flags c))) 2 (CHR '':'')
      = (put_hex 0 (flags c), i7)"
    using readSegment_full[of "put_hex 0 (flags c)" 2 "[]"] readSegment_eof[of "put_hex 0 (flags c)" 2]
      length_put_hex_8_min[of "flags c"]
    by (cases "length (put_hex 0 (flags c)) = 2") auto
  show ?thesis
    using assms
    by (simp add: SpanContext_fromStream_def SpanContext_print_def TraceID_fromStream_print
        readSegment_delim last stream_clear_def)
qed

section \<open>What the parser accepts\<close>

lemma expect_True: "expect d i = (True, i') \<Longrightarrow> \<not> failed i \<and> rest i = d # rest i' \<and> \<not> failed i'"
  by (auto simp: expect_def stream_get_def split: if_splits list.splits)

lemma TraceID_fromStream_prefix:
  assumes "TraceID_fromStream i = (t, i')" and "TraceID_isValid t" and "\<not> failed i"
  shows "\<exists>a. a \<noteq> [] \<and> rest i = a @ rest i' \<and> hex_string a \<and> length a \<le> 32 \<and>
    t = TraceID (decodeHex (take (length a - 16) a)) (decodeHex (drop (length a - 16) a))"
proof -
  obtain b j where seg: "readSegment i 32 (CHR '':'') = (b, j)" by fastforce
  have b: "b \<noteq> []" and j: "j = i'"
    using assms seg by (auto simp: TraceID_fromStream_def Let_def split: if_splits)
  show ?thesis
    using readSegment_prefix[OF seg b assms(3)] b assms j seg
    by (intro exI[of _ b]) (auto simp: TraceID_fromStream_def Let_def split: if_splits)
qed

lemma SpanContext_fromStream_prefix:
  assumes r: "SpanContext_fromStream i = (c, i')" and v: "TraceID_isValid (traceID c)" and nf: "\<not> failed i"
  shows "\<exists>a b p f t. rest i = a @ '':'' @ b @ '':'' @ p @ '':'' @ f @ t \<and>
    a \<noteq> [] \<and> b \<noteq> [] \<and> p \<noteq> [] \<and> f \<noteq> [] \<and>
    length a \<le> 32 \<and> length b \<le> 16 \<and> length p \<le> 16 \<and> length f \<le> 2 \<and>
    hex_string (a @ b @ p @ f) \<and> (length f = 2 \<or> t = [] \<or> hd t = CHR '':'') \<and>
    rest i' = t \<and> \<not> failed i' \<and>
    c = SpanContext (TraceID (decodeHex (take (length a - 16) a)) (decodeHex (drop (length a - 16) a)))
          (decodeHex b) (decodeHex p) (decodeHex f) [] [] []"
proof -
  obtain tid i1 where 1: "TraceID_fromStream i = (tid, i1)" by fastforce
  obtain ok1 i2 where 2: "expect (CHR '':'') i1 = (ok1, i2)" by fastforce
  obtain b i3 where 3: "readSegment i2 16 (CHR '':'') = (b, i3)" by fastforce
  obtain ok2 i4 where 4: "expect (CHR '':'') i3 = (ok2, i4)" by fastforce
  obtain p i5 where 5: "readSegment i4 16 (CHR '':'') = (p, i5)" by fastforce
  obtain ok3 i6 where 6: "expect (CHR '':'') i5 = (ok3, i6)" by fastforce
  obtain f i7 where 7: "readSegment i6 2 (CHR '':'') = (f, i7)" by fastforce
  note steps = 1 2 3 4 5 6 7
  have ok: "TraceID_isValid tid" "ok1" "b \<noteq> []" "ok2" "p \<noteq> []" "ok3" "f \<noteq> []"
    and c: "c = SpanContext tid (decodeHex b) (decodeHex p) (decodeHex f) [] [] []" "rest i' = rest i7" "\<not> failed i'"
    using r v steps
    by (auto simp: SpanContext_fromStream_def SpanContext_def SpanContext0_def stream_clear_def
        simp del: SpanContext0_sel split: if_splits)
  have e: "\<not> failed i1" "rest i1 = CHR '':'' # rest i2" "\<not> failed i2" "rest i3 = CHR '':'' # rest i4"
    "\<not> failed i4" "rest i5 = CHR '':'' # rest i6" "\<not> failed i6"
    using expect_True 2 4 6 ok by simp_all
  from TraceID_fromStream_prefix[OF 1 ok(1) nf] obtain a where a: "a \<noteq> []" "rest i = a @ rest i1"
    "hex_string a" "length a \<le> 32"
    "tid = TraceID (decodeHex (take (length a - 16) a)) (decodeHex (drop (length a - 16) a))"
    by auto
  note segs = readSegment_prefix[OF 3 ok(3) e(3)] readSegment_prefix[OF 5 ok(5) e(5)]
    readSegment_prefix[OF 7 ok(7) e(7)]
  show ?thesis
    by (rule exI[of _ a], rule exI[of _ b], rule exI[of _ p], rule exI[of _ f], rule exI[of _ "rest i7"])
      (use a segs e ok c in auto)
qed

section \<open>Properties\<close>

text \<open>C36. Whenever the parser of the uber-trace-id value gives a context with a valid trace id, the text
  begins with four hexadecimal numbers of at most 32, 16, 16 and 2 digits separated by colons, and the
  context has their values. It stops after the second digit of the flags, or before: at the end of the
  text or at a colon. What follows there is not looked at and stays in the stream, which is not failed.\<close>

theorem context_parser_sound:
  assumes "SpanContext_fromStream (istream_of s) = (c, i')" and "TraceID_isValid (traceID c)"
  shows "\<exists>a b p f t. s = a @ '':'' @ b @ '':'' @ p @ '':'' @ f @ t \<and>
    a \<noteq> [] \<and> b \<noteq> [] \<and> p \<noteq> [] \<and> f \<noteq> [] \<and>
    length a \<le> 32 \<and> length b \<le> 16 \<and> length p \<le> 16 \<and> length f \<le> 2 \<and>
    hex_string (a @ b @ p @ f) \<and> (length f = 2 \<or> t = [] \<or> hd t = CHR '':'') \<and>
    rest i' = t \<and> \<not> failed i' \<and>
    c = SpanContext (TraceID (decodeHex (take (length a - 16) a)) (decodeHex (drop (length a - 16) a)))
          (decodeHex b) (decodeHex p) (decodeHex f) [] [] []"
  using SpanContext_fromStream_prefix[OF assms] by (simp add: istream_of_def)

theorem context_parser_sound_witness:
  "\<exists>a b p f t. ''abc:2A:0:01garbage'' = a @ '':'' @ b @ '':'' @ p @ '':'' @ f @ t \<and>
    hex_string (a @ b @ p @ f) \<and> rest (snd (SpanContext_fromStream (istream_of ''abc:2A:0:01garbage''))) = t"
proof -
  let ?s = "istream_of ''abc:2A:0:01garbage''"
  obtain c i where r: "SpanContext_fromStream ?s = (c, i)" by fastforce
  have "TraceID_isValid (traceID (fst (SpanContext_fromStream ?s)))" by code_simp
  then have "TraceID_isValid (traceID c)" by (simp add: r)
  from context_parser_sound[OF r this] show ?thesis unfolding r snd_conv by blast
qed

end
