(* ===== verification/Metrics.thy ===== *)
theory Metrics
  imports Prelude "HOL-Library.List_Lexorder"
begin

text \<open>
  \<^verbatim>\<open>metrics\<close>: the counters and the gauge of \<^verbatim>\<open>Metrics.h\<close>, the name a metric is reported under,
  the factories that create them, and the in-memory and the null reporter. The rest of the
  development counts on the abstract state \<open>metrics\<close>, one number per metric;
  \<open>stats_reporter\<close> is the interface a reporter offers and the lemmas in it show that a
  reporter that keeps it refines the abstract state. An \<^verbatim>\<open>int64_t\<close> is an \<open>int\<close>: its overflow is
  undefined in C++.
\<close>

section \<open>The metrics of a tracer\<close>

datatype metric =
  TracesStartedSampled | TracesStartedNotSampled | SpansStarted | SpansFinished | SpansSampled
  | SpansNotSampled | DecodingErrors | ReporterSuccess | ReporterFailure | ReporterDropped
  | ReporterQueueLength | SamplerRetrieved | SamplerUpdated | SamplerUpdateFailure
  | SamplerQueryFailure | SamplerParsingFailure | BaggageUpdateSuccess | BaggageUpdateFailure
  | BaggageTruncate | BaggageRestrictionsUpdateSuccess | BaggageRestrictionsUpdateFailure

type_synonym tag_map = "(string \<times> string) list"

fun metric_spec :: "metric \<Rightarrow> string \<times> tag_map" where
  "metric_spec TracesStartedSampled = (''jaeger.traces'', [(''state'', ''started''), (''sampled'', ''y'')])"
| "metric_spec TracesStartedNotSampled = (''jaeger.traces'', [(''state'', ''started''), (''sampled'', ''n'')])"
| "metric_spec SpansStarted = (''jaeger.spans'', [(''state'', ''started''), (''group'', ''lifecycle'')])"
| "metric_spec SpansFinished = (''jaeger.spans'', [(''state'', ''finished''), (''group'', ''lifecycle'')])"
| "metric_spec SpansSampled = (''jaeger.spans'', [(''group'', ''sampling''), (''sampled'', ''y'')])"
| "metric_spec SpansNotSampled = (''jaeger.spans'', [(''group'', ''sampling''), (''sampled'', ''n'')])"
| "metric_spec DecodingErrors = (''jaeger.decoding-errors'', [])"
| "metric_spec ReporterSuccess = (''jaeger.reporter-spans'', [(''state'', ''success'')])"
| "metric_spec ReporterFailure = (''jaeger.reporter-spans'', [(''state'', ''failure'')])"
| "metric_spec ReporterDropped = (''jaeger.reporter-spans'', [(''state'', ''dropped'')])"
| "metric_spec ReporterQueueLength = (''jaeger.reporter-queue'', [])"
| "metric_spec SamplerRetrieved = (''jaeger.sampler'', [(''state'', ''retrieved'')])"
| "metric_spec SamplerUpdated = (''jaeger.sampler'', [(''state'', ''updated'')])"
| "metric_spec SamplerUpdateFailure = (''jaeger.sampler'', [(''state'', ''failure''), (''phase'', ''updating'')])"
| "metric_spec SamplerQueryFailure = (''jaeger.sampler'', [(''state'', ''failure''), (''phase'', ''query'')])"
| "metric_spec SamplerParsingFailure = (''jaeger.sampler'', [(''state'', ''failure''), (''phase'', ''parsing'')])"
| "metric_spec BaggageUpdateSuccess = (''jaeger.baggage-update'', [(''result'', ''ok'')])"
| "metric_spec BaggageUpdateFailure = (''jaeger.baggage-update'', [(''result'', ''err'')])"
| "metric_spec BaggageTruncate = (''jaeger.baggage-truncate'', [])"
| "metric_spec BaggageRestrictionsUpdateSuccess = (''jaeger.baggage-restrictions-update'', [(''result'', ''ok'')])"
| "metric_spec BaggageRestrictionsUpdateFailure = (''jaeger.baggage-restrictions-update'', [(''result'', ''err'')])"

definition all_metrics :: "metric list" where
  "all_metrics = [TracesStartedSampled, TracesStartedNotSampled, SpansStarted, SpansFinished,
     SpansSampled, SpansNotSampled, DecodingErrors, ReporterSuccess, ReporterFailure,
     ReporterDropped, ReporterQueueLength, SamplerRetrieved, SamplerUpdated, SamplerUpdateFailure,
     SamplerQueryFailure, SamplerParsingFailure, BaggageUpdateSuccess, BaggageUpdateFailure,
     BaggageTruncate, BaggageRestrictionsUpdateSuccess, BaggageRestrictionsUpdateFailure]"

lemma all_metrics_complete: "m \<in> set all_metrics"
  by (cases m) (simp_all add: all_metrics_def)

text \<open>The tags in the order of \<^verbatim>\<open>std::map\<close>, which compares bytes.\<close>

definition addTagsToMetricName :: "string \<Rightarrow> tag_map \<Rightarrow> string" where
  "addTagsToMetricName name tags =
     name @ concat (map (\<lambda>(k, v). ''.'' @ k @ ''='' @ v) (sort_key fst tags))"

definition metric_name :: "metric \<Rightarrow> string" where
  "metric_name m = addTagsToMetricName (fst (metric_spec m)) (snd (metric_spec m))"

text \<open>The abstract state: \<open>inc\<close> for a counter, \<open>update\<close> for the gauge.\<close>

type_synonym metrics = "metric \<Rightarrow> int"

definition metrics0 :: metrics where
  "metrics0 = (\<lambda>_. 0)"

definition inc :: "metric \<Rightarrow> int \<Rightarrow> metrics \<Rightarrow> metrics" where
  "inc m delta s = s(m := s m + delta)"

definition update_gauge :: "metric \<Rightarrow> int \<Rightarrow> metrics \<Rightarrow> metrics" where
  "update_gauge m amount s = s(m := amount)"

lemma inc_apply [simp]: "inc m d s n = (if n = m then s m + d else s n)"
  by (simp add: inc_def)

lemma update_gauge_apply [simp]: "update_gauge m a s n = (if n = m then a else s n)"
  by (simp add: update_gauge_def)

section \<open>The in-memory reporter\<close>

type_synonym value_map = "(string \<times> int) list"

record in_memory =
  counters :: value_map
  gauges :: value_map
  timers :: value_map

definition in_memory0 :: in_memory where
  "in_memory0 = \<lparr>counters = [], gauges = [], timers = []\<rparr>"

definition updateMap ::
  "value_map \<Rightarrow> string \<Rightarrow> int \<Rightarrow> tag_map \<Rightarrow> (int \<Rightarrow> int \<Rightarrow> int) \<Rightarrow> value_map" where
  "updateMap mp name newValue tags f =
     (let metricName = addTagsToMetricName name tags;
          initialValue = (case map_of mp metricName of None \<Rightarrow> 0 | Some v \<Rightarrow> v)
      in AList.update metricName (f initialValue newValue) mp)"

definition InMemory_incCounter :: "string \<Rightarrow> int \<Rightarrow> tag_map \<Rightarrow> in_memory \<Rightarrow> in_memory" where
  "InMemory_incCounter name delta tags r =
     r\<lparr>counters := updateMap (counters r) name delta tags (\<lambda>initial new. initial + new)\<rparr>"

definition InMemory_recordTimer :: "string \<Rightarrow> int \<Rightarrow> tag_map \<Rightarrow> in_memory \<Rightarrow> in_memory" where
  "InMemory_recordTimer name time tags r =
     r\<lparr>timers := updateMap (timers r) name time tags (\<lambda>initial new. initial + new)\<rparr>"

definition InMemory_updateGauge :: "string \<Rightarrow> int \<Rightarrow> tag_map \<Rightarrow> in_memory \<Rightarrow> in_memory" where
  "InMemory_updateGauge name amount tags r =
     r\<lparr>gauges := updateMap (gauges r) name amount tags (\<lambda>_ new. new)\<rparr>"

definition InMemory_reset :: "in_memory \<Rightarrow> in_memory" where
  "InMemory_reset r = r\<lparr>counters := [], gauges := [], timers := []\<rparr>"

definition Null_report :: "string \<Rightarrow> int \<Rightarrow> tag_map \<Rightarrow> 'r \<Rightarrow> 'r" where
  "Null_report name value tags r = r"

definition map_value :: "value_map \<Rightarrow> string \<Rightarrow> int" where
  "map_value mp k = (case map_of mp k of None \<Rightarrow> 0 | Some v \<Rightarrow> v)"

lemma map_value_updateMap:
  "map_value (updateMap mp name v tags f) k =
     (if k = addTagsToMetricName name tags then f (map_value mp k) v else map_value mp k)"
  by (simp add: map_value_def updateMap_def Let_def AList.update_conv')

section \<open>Factories\<close>

text \<open>
  A metric object is what its factory made it: a name and tags to report under, or nothing.
\<close>

datatype stats_factory = StatsFactoryImpl | NullStatsFactory

datatype metric_object = ReportedMetric string tag_map | NullMetric

definition createMetric :: "stats_factory \<Rightarrow> string \<Rightarrow> tag_map \<Rightarrow> metric_object" where
  "createMetric f name tags =
     (case f of StatsFactoryImpl \<Rightarrow> ReportedMetric name tags | NullStatsFactory \<Rightarrow> NullMetric)"

definition Metrics_make :: "stats_factory \<Rightarrow> metric \<Rightarrow> metric_object" where
  "Metrics_make f m = createMetric f (fst (metric_spec m)) (snd (metric_spec m))"

definition Metric_report ::
  "(string \<Rightarrow> int \<Rightarrow> tag_map \<Rightarrow> 'r \<Rightarrow> 'r) \<Rightarrow> metric_object \<Rightarrow> int \<Rightarrow> 'r \<Rightarrow> 'r" where
  "Metric_report report obj v r =
     (case obj of ReportedMetric name tags \<Rightarrow> report name v tags r | NullMetric \<Rightarrow> r)"

datatype metric_op = Inc metric int | Update metric int

text \<open>One operation on a metrics object whose reporter has the two calls given.\<close>

definition Metrics_apply ::
  "(string \<Rightarrow> int \<Rightarrow> tag_map \<Rightarrow> 'r \<Rightarrow> 'r) \<Rightarrow> (string \<Rightarrow> int \<Rightarrow> tag_map \<Rightarrow> 'r \<Rightarrow> 'r) \<Rightarrow>
   stats_factory \<Rightarrow> metric_op \<Rightarrow> 'r \<Rightarrow> 'r" where
  "Metrics_apply incCounter updateGauge f op r =
     (case op of
        Inc m d \<Rightarrow> Metric_report incCounter (Metrics_make f m) d r
      | Update m a \<Rightarrow> Metric_report updateGauge (Metrics_make f m) a r)"

definition abs_apply :: "metric_op \<Rightarrow> metrics \<Rightarrow> metrics" where
  "abs_apply op s = (case op of Inc m d \<Rightarrow> inc m d s | Update m a \<Rightarrow> update_gauge m a s)"

definition op_ok :: "metric_op \<Rightarrow> bool" where
  "op_ok op = (case op of Inc m d \<Rightarrow> m \<noteq> ReporterQueueLength | Update m a \<Rightarrow> m = ReporterQueueLength)"

text \<open>No two metrics share the name they are reported under.\<close>

lemma metric_names_distinct: "distinct (map metric_name all_metrics)"
  unfolding all_metrics_def by code_simp

lemma metric_name_inj: "metric_name m = metric_name n \<longleftrightarrow> m = n"
  using metric_names_distinct all_metrics_complete[of m] all_metrics_complete[of n]
  by (metis distinct_map inj_onD)

section \<open>The reporter interface\<close>

locale stats_reporter =
  fixes incCounter updateGauge :: "string \<Rightarrow> int \<Rightarrow> tag_map \<Rightarrow> 'r \<Rightarrow> 'r"
    and counter gauge :: "'r \<Rightarrow> string \<Rightarrow> int"
  assumes counter_inc: "counter (incCounter n d ts r) k =
      (if k = addTagsToMetricName n ts then counter r k + d else counter r k)"
    and gauge_inc: "gauge (incCounter n d ts r) k = gauge r k"
    and gauge_update: "gauge (updateGauge n a ts r) k =
      (if k = addTagsToMetricName n ts then a else gauge r k)"
    and counter_update: "counter (updateGauge n a ts r) k = counter r k"
begin

lemma apply_refines:
  assumes "op_ok op"
  defines "read r m \<equiv> (if m = ReporterQueueLength then gauge r (metric_name m) else counter r (metric_name m))"
  shows "read (Metrics_apply incCounter updateGauge StatsFactoryImpl op r) = abs_apply op (read r)"
proof
  fix m
  have nm: "addTagsToMetricName (fst (metric_spec n)) (snd (metric_spec n)) = metric_name n" for n
    by (simp add: metric_name_def)
  show "read (Metrics_apply incCounter updateGauge StatsFactoryImpl op r) m = abs_apply op (read r) m"
    using assms(1)
    by (cases op) (auto simp: read_def Metrics_apply_def abs_apply_def Metric_report_def
        Metrics_make_def createMetric_def counter_inc gauge_inc gauge_update counter_update nm
        metric_name_inj op_ok_def simp del: metric_spec.simps)
qed

lemma run_refines:
  assumes "list_all op_ok ops"
  defines "read r m \<equiv> (if m = ReporterQueueLength then gauge r (metric_name m) else counter r (metric_name m))"
  shows "read (fold (Metrics_apply incCounter updateGauge StatsFactoryImpl) ops r) = fold abs_apply ops (read r)"
  using assms(1)
proof (induction ops arbitrary: r)
  case Nil
  then show ?case by simp
next
  case (Cons op ops)
  then show ?case
    using apply_refines[of op r] by (simp add: read_def)
qed

end

interpretation inmem: stats_reporter InMemory_incCounter InMemory_updateGauge
  "\<lambda>r. map_value (counters r)" "\<lambda>r. map_value (gauges r)"
  by unfold_locales
    (simp_all add: InMemory_incCounter_def InMemory_updateGauge_def map_value_updateMap)

text \<open>What the in-memory reporter holds for each metric.\<close>

definition read_metrics :: "in_memory \<Rightarrow> metrics" where
  "read_metrics r m =
     (if m = ReporterQueueLength then map_value (gauges r) (metric_name m)
      else map_value (counters r) (metric_name m))"

lemma read_metrics_run:
  "list_all op_ok ops \<Longrightarrow>
   read_metrics (fold (Metrics_apply InMemory_incCounter InMemory_updateGauge StatsFactoryImpl) ops r)
     = fold abs_apply ops (read_metrics r)"
  using inmem.run_refines[of ops r] by (simp add: read_metrics_def [abs_def])

lemma null_metrics_run:
  "fold (Metrics_apply incCounter updateGauge NullStatsFactory) ops r = r"
  by (induction ops arbitrary: r)
    (auto simp: Metrics_apply_def Metrics_make_def createMetric_def Metric_report_def split: metric_op.split)

text \<open>C39. Reporting refines counting: after any sequence of metric operations through the
  factory of the in-memory reporter, the value stored under each metric's own name and tags is
  what the sequence makes of it, and no operation touches another metric.\<close>

theorem metrics_refinement:
  assumes "list_all op_ok ops"
  shows "read_metrics (fold (Metrics_apply InMemory_incCounter InMemory_updateGauge StatsFactoryImpl) ops r)
     = fold abs_apply ops (read_metrics r)"
  using assms by (rule read_metrics_run)

theorem metrics_refinement_witness:
  "read_metrics (fold (Metrics_apply InMemory_incCounter InMemory_updateGauge StatsFactoryImpl)
     [Inc DecodingErrors 1, Update ReporterQueueLength 5, Inc DecodingErrors 2] in_memory0) DecodingErrors = 3"
  using metrics_refinement[of "[Inc DecodingErrors 1, Update ReporterQueueLength 5, Inc DecodingErrors 2]" in_memory0]
  by (simp add: op_ok_def abs_apply_def inc_def update_gauge_def)
     (simp add: read_metrics_def in_memory0_def map_value_def)

end
