(* ===== verification/Propagation.thy ===== *)
theory Propagation
  imports SpanContexts URI Metrics "HOL-Library.Multiset"
begin

text \<open>
  \<^verbatim>\<open>propagation\<close>: the configured header names, the Jaeger and the W3C text formats over text
  maps and HTTP headers, and the binary format. A carrier belongs to the application; a
  reader is the sequence of pairs it hands to the callback of \<^verbatim>\<open>ForeachKey\<close>, which stops at
  the first error the callback returns, and a writer is the sequence of its \<^verbatim>\<open>Set\<close> calls.
  The template classes differ in three virtual functions, the fields of \<open>codec\<close>.
\<close>

section \<open>Configuration\<close>

definition kJaegerDebugHeader :: string where "kJaegerDebugHeader = ''jaeger-debug-id''"
definition kJaegerBaggageHeader :: string where "kJaegerBaggageHeader = ''jaeger-baggage''"
definition kTraceContextHeaderName :: string where "kTraceContextHeaderName = ''uber-trace-id''"
definition kTraceBaggageHeaderPrefix :: string where "kTraceBaggageHeaderPrefix = ''uberctx-''"
definition kW3CTraceParentHeaderName :: string where "kW3CTraceParentHeaderName = ''traceparent''"
definition kW3CTraceStateHeaderName :: string where "kW3CTraceStateHeaderName = ''tracestate''"

lemmas header_constants =
  kJaegerDebugHeader_def kJaegerBaggageHeader_def kTraceContextHeaderName_def
  kTraceBaggageHeaderPrefix_def kW3CTraceParentHeaderName_def kW3CTraceStateHeaderName_def

record headers_config =
  jaegerDebugHeader :: string
  jaegerBaggageHeader :: string
  traceContextHeaderName :: string
  traceBaggageHeaderPrefix :: string

definition HeadersConfig :: "string \<Rightarrow> string \<Rightarrow> string \<Rightarrow> string \<Rightarrow> headers_config" where
  "HeadersConfig dbg bag ctx pre =
     \<lparr>jaegerDebugHeader = (if dbg = [] then kJaegerDebugHeader else dbg),
       jaegerBaggageHeader = (if bag = [] then kJaegerBaggageHeader else bag),
       traceContextHeaderName = (if ctx = [] then kTraceContextHeaderName else ctx),
       traceBaggageHeaderPrefix = (if pre = [] then kTraceBaggageHeaderPrefix else pre)\<rparr>"

definition HeadersConfig0 :: headers_config where
  "HeadersConfig0 = HeadersConfig [] [] [] []"

text \<open>\<^verbatim>\<open>propagation::Format\<close>\<close>

datatype format = FormatJAEGER | FormatW3C

record codec =
  encodeValue :: "string \<Rightarrow> string"
  decodeValue :: "string \<Rightarrow> string"
  normalizeKey :: "string \<Rightarrow> string"

definition text_map_codec :: codec where
  "text_map_codec = \<lparr>encodeValue = (\<lambda>s. s), decodeValue = (\<lambda>s. s), normalizeKey = (\<lambda>s. s)\<rparr>"

definition http_codec :: codec where
  "http_codec = \<lparr>encodeValue = queryEscape, decodeValue = queryUnescape, normalizeKey = map to_lower\<rparr>"

section \<open>The common part\<close>

text \<open>\<^verbatim>\<open>Propagator::extract\<close>: the debug header is looked for first, then the format's own part runs.\<close>

definition find_debugID :: "headers_config \<Rightarrow> codec \<Rightarrow> strmap \<Rightarrow> string" where
  "find_debugID hk cd reader =
     foldl (\<lambda>debugID (rawKey, value).
       if normalizeKey cd rawKey = jaegerDebugHeader hk then value else debugID) [] reader"

definition Propagator_extract ::
  "(strmap \<Rightarrow> metrics \<Rightarrow> span_context \<times> metrics) \<Rightarrow> headers_config \<Rightarrow> codec \<Rightarrow> strmap \<Rightarrow> metrics \<Rightarrow>
   span_context \<times> metrics" where
  "Propagator_extract doExtract hk cd reader ms =
     (let debugid = find_debugID hk cd reader; (ctx, ms') = doExtract reader ms in
      if \<not> TraceID_isValid (traceID ctx) \<and> baggage ctx = [] \<and> debugid = [] then (SpanContext0, ms')
      else
        let fl = (if debugid \<noteq> [] then flags ctx OR (kDebug OR kSampled) else flags ctx)
        in (SpanContext (traceID ctx) (spanID ctx) (parentID ctx) fl (baggage ctx) debugid (traceState ctx), ms'))"

section \<open>The Jaeger format\<close>

definition parseCommaSeparatedMap :: "string \<Rightarrow> strmap" where
  "parseCommaSeparatedMap escapedValue =
     foldl (\<lambda>m piece.
       if CHR ''='' \<in> set piece then
         AList.update (takeWhile (\<lambda>c. c \<noteq> CHR ''='') piece)
           (tl (dropWhile (\<lambda>c. c \<noteq> CHR ''='') piece)) m
       else m) [] (getlines (CHR '','') (queryUnescape escapedValue))"

definition addBaggageKeyPrefix :: "headers_config \<Rightarrow> string \<Rightarrow> string" where
  "addBaggageKeyPrefix hk key = traceBaggageHeaderPrefix hk @ key"

definition removeBaggageKeyPrefix :: "headers_config \<Rightarrow> string \<Rightarrow> string" where
  "removeBaggageKeyPrefix hk key = drop (length (traceBaggageHeaderPrefix hk)) key"

text \<open>One call of the callback; \<^term>\<open>None\<close> is \<^verbatim>\<open>span_context_corrupted_error\<close>.\<close>

definition jaeger_step ::
  "headers_config \<Rightarrow> codec \<Rightarrow> string \<times> string \<Rightarrow> span_context \<times> strmap \<Rightarrow>
   (span_context \<times> strmap) option" where
  "jaeger_step hk cd kv st =
     (case (kv, st) of ((rawKey, value), (ctx, bag)) \<Rightarrow>
        let key = normalizeKey cd rawKey in
        if key = traceContextHeaderName hk then
          let safeValue = decodeValue cd value;
              (ctx', iss) = SpanContext_fromStream (istream_of safeValue)
          in if failed iss \<or> SpanContext_eq ctx' SpanContext0 then None else Some (ctx', bag)
        else if key = jaegerBaggageHeader hk then
          Some (ctx, foldl (\<lambda>b (k, v). AList.update k v b) bag (parseCommaSeparatedMap value))
        else
          let prefix = traceBaggageHeaderPrefix hk in
          if length prefix \<le> length key \<and> take (length prefix) key = prefix then
            Some (ctx, AList.update (removeBaggageKeyPrefix hk key) (decodeValue cd value) bag)
          else Some (ctx, bag))"

fun ForeachKey :: "('kv \<Rightarrow> 's \<Rightarrow> 's option) \<Rightarrow> 'kv list \<Rightarrow> 's \<Rightarrow> 's option" where
  "ForeachKey f [] s = Some s"
| "ForeachKey f (kv # kvs) s = (case f kv s of None \<Rightarrow> None | Some s' \<Rightarrow> ForeachKey f kvs s')"

definition jaeger_doExtract ::
  "headers_config \<Rightarrow> codec \<Rightarrow> strmap \<Rightarrow> metrics \<Rightarrow> span_context \<times> metrics" where
  "jaeger_doExtract hk cd reader ms =
     (case ForeachKey (jaeger_step hk cd) reader (SpanContext0, []) of
        None \<Rightarrow> (SpanContext0, inc DecodingErrors 1 ms)
      | Some (ctx, bag) \<Rightarrow>
          (SpanContext (traceID ctx) (spanID ctx) (parentID ctx) (flags ctx) bag [] [], ms))"

definition jaeger_doInject :: "headers_config \<Rightarrow> codec \<Rightarrow> span_context \<Rightarrow> strmap \<Rightarrow> strmap" where
  "jaeger_doInject hk cd ctx writer =
     forEachBaggageItem
       (\<lambda>key value w. (True, w @ [(addBaggageKeyPrefix hk key, encodeValue cd value)]))
       (baggage ctx) (writer @ [(traceContextHeaderName hk, SpanContext_print ctx)])"

definition jaeger_extract ::
  "headers_config \<Rightarrow> codec \<Rightarrow> strmap \<Rightarrow> metrics \<Rightarrow> span_context \<times> metrics" where
  "jaeger_extract hk cd = Propagator_extract (jaeger_doExtract hk cd) hk cd"

section \<open>The W3C format\<close>

definition w3c_readTraceID :: "istream \<Rightarrow> trace_id \<times> istream" where
  "w3c_readTraceID i =
     (let kMaxChars = 32; (buffer, i') = readSegment i kMaxChars (CHR ''-'') in
      if buffer = [] \<or> length buffer \<noteq> kMaxChars then (TraceID 0 0, i')
      else (TraceID (decodeHex (take (length buffer - kMaxChars div 2) buffer))
              (decodeHex (drop (length buffer - kMaxChars div 2) buffer)), i'))"

definition readTraceParent :: "istream \<Rightarrow> span_context \<times> istream" where
  "readTraceParent i0 =
     (let (a, i1) = expect (CHR ''0'') i0 in if \<not> a then (SpanContext0, i1) else
      let (b, i2) = expect (CHR ''0'') i1 in if \<not> b then (SpanContext0, i2) else
      let (c, i3) = expect (CHR ''-'') i2 in if \<not> c then (SpanContext0, i3) else
      let (tid, i4) = w3c_readTraceID i3 in
      if \<not> TraceID_isValid tid then (SpanContext0, i4) else
      let (d, i5) = expect (CHR ''-'') i4 in if \<not> d then (SpanContext0, i5) else
      let (buffer1, i6) = readSegment i5 16 (CHR ''-'') in
      if buffer1 = [] then (SpanContext0, i6) else
      let (e, i7) = expect (CHR ''-'') i6 in if \<not> e then (SpanContext0, i7) else
      let (buffer2, i8) = readSegment i7 2 (CHR ''-'') in
      if buffer2 = [] \<or> length buffer2 \<noteq> 2 then (SpanContext0, i8) else
      (SpanContext tid (decodeHex buffer1) 0 (decodeHex buffer2) [] [] [], stream_clear i8))"

definition w3c_step ::
  "codec \<Rightarrow> string \<times> string \<Rightarrow> span_context \<times> string \<Rightarrow> (span_context \<times> string) option" where
  "w3c_step cd kv st =
     (case (kv, st) of ((rawKey, value), (ctx, ts)) \<Rightarrow>
        let key = normalizeKey cd rawKey in
        if key = kW3CTraceParentHeaderName then
          let (ctx', iss) = readTraceParent (istream_of (decodeValue cd value))
          in if failed iss \<or> SpanContext_eq ctx' SpanContext0 then None else Some (ctx', ts)
        else if key = kW3CTraceStateHeaderName then Some (ctx, decodeValue cd value)
        else Some (ctx, ts))"

definition w3c_doExtract :: "codec \<Rightarrow> strmap \<Rightarrow> metrics \<Rightarrow> span_context \<times> metrics" where
  "w3c_doExtract cd reader ms =
     (case ForeachKey (w3c_step cd) reader (SpanContext0, []) of
        None \<Rightarrow> (SpanContext0, inc DecodingErrors 1 ms)
      | Some (ctx, ts) \<Rightarrow>
          (SpanContext (traceID ctx) (spanID ctx) (parentID ctx) (flags ctx) [] [] ts, ms))"

definition w3c_writeTraceID :: "trace_id \<Rightarrow> string" where
  "w3c_writeTraceID t = put_hex 16 (high t) @ put_hex 16 (low t)"

definition writeTraceParent :: "span_context \<Rightarrow> string" where
  "writeTraceParent ctx =
     ''00'' @ ''-'' @ w3c_writeTraceID (traceID ctx) @ ''-'' @ put_hex 16 (spanID ctx) @ ''-'' @
     put_hex 2 (flags ctx)"

definition w3c_doInject :: "span_context \<Rightarrow> strmap \<Rightarrow> strmap" where
  "w3c_doInject ctx writer =
     (let w = writer @ [(kW3CTraceParentHeaderName, writeTraceParent ctx)]
      in if traceState ctx \<noteq> [] then w @ [(kW3CTraceStateHeaderName, traceState ctx)] else w)"

definition w3c_extract ::
  "headers_config \<Rightarrow> codec \<Rightarrow> strmap \<Rightarrow> metrics \<Rightarrow> span_context \<times> metrics" where
  "w3c_extract hk cd = Propagator_extract (w3c_doExtract cd) hk cd"

section \<open>The binary format\<close>

text \<open>
  \<open>horner\<close> is the loop of \<^verbatim>\<open>readBinary\<close> and \<open>octets\<close> that of \<^verbatim>\<open>writeBinary\<close>. The conversion
  between host and big-endian order (\<^verbatim>\<open>htobe32\<close> and its kin) reverses the octets on a
  little-endian host and is the identity on a big-endian one; \<open>le\<close> says which host it is.
\<close>

definition octets :: "'a::len word \<Rightarrow> string" where
  "octets v = map (\<lambda>i. char_of (unat (drop_bit ((LENGTH('a) div 8 - i - 1) * 8) v AND 255)))
     [0..<LENGTH('a) div 8]"

definition horner :: "string \<Rightarrow> 'a::len word" where
  "horner s = foldl (\<lambda>value ch. push_bit 8 value OR of_nat (ord ch)) 0 s"

definition toBigEndian :: "bool \<Rightarrow> 'a::len word \<Rightarrow> 'a word" where
  "toBigEndian le v = (if le then horner (rev (octets v)) else v)"

definition fromBigEndian :: "bool \<Rightarrow> 'a::len word \<Rightarrow> 'a word" where
  "fromBigEndian le v = (if le then horner (rev (octets v)) else v)"

definition writeBinary :: "bool \<Rightarrow> 'a::len word \<Rightarrow> string" where
  "writeBinary le value = octets (toBigEndian le value)"

fun read_octets :: "nat \<Rightarrow> istream \<Rightarrow> string \<times> istream" where
  "read_octets 0 i = ([], i)"
| "read_octets (Suc n) i =
     (case stream_get i of
        (None, i') \<Rightarrow> ([], i')
      | (Some ch, i') \<Rightarrow> (case read_octets n i' of (s, i'') \<Rightarrow> (ch # s, i'')))"

definition readBinary :: "bool \<Rightarrow> istream \<Rightarrow> 'a::len word \<times> istream" where
  "readBinary le i =
     (case read_octets (LENGTH('a) div 8) i of (s, i') \<Rightarrow> (fromBigEndian le (horner s), i'))"

definition binary_inject :: "bool \<Rightarrow> span_context \<Rightarrow> string" where
  "binary_inject le ctx =
     writeBinary le (high (traceID ctx)) @ writeBinary le (low (traceID ctx)) @
     writeBinary le (spanID ctx) @ writeBinary le (parentID ctx) @
     [char_of (unat (flags ctx))] @
     writeBinary le (of_nat (length (baggage ctx)) :: u32) @
     concat (map (\<lambda>(key, value).
       writeBinary le (of_nat (length key) :: u32) @ key @
       writeBinary le (of_nat (length value) :: u32) @ value) (baggage ctx))"

text \<open>The loop over the items; \<^term>\<open>None\<close> is the early return that counts a decoding error.\<close>

fun read_items :: "bool \<Rightarrow> nat \<Rightarrow> istream \<Rightarrow> strmap \<Rightarrow> strmap option \<times> istream" where
  "read_items le 0 i bag = (Some bag, i)"
| "read_items le (Suc n) i bag =
     (let (keyLength :: u32, i1) = readBinary le i in
      case stream_read (unat keyLength) i1 of
        (None, i2) \<Rightarrow> (None, i2)
      | (Some key, i2) \<Rightarrow>
          let (valueLength :: u32, i3) = readBinary le i2 in
          (case stream_read (unat valueLength) i3 of
             (None, i4) \<Rightarrow> (None, i4)
           | (Some value, i4) \<Rightarrow> read_items le n i4 (AList.update key value bag)))"

definition binary_extract :: "bool \<Rightarrow> istream \<Rightarrow> metrics \<Rightarrow> span_context \<times> metrics \<times> istream" where
  "binary_extract le i0 ms =
     (let (traceIDHigh, i1) = readBinary le i0;
          (traceIDLow, i2) = readBinary le i1;
          (spanid, i3) = readBinary le i2;
          (parentid, i4) = readBinary le i3;
          (ch, i5) = stream_get i4;
          fl = (case ch of None \<Rightarrow> 0 | Some c \<Rightarrow> of_nat (ord c));
          (numBaggageItems :: u32, i6) = readBinary le i5
      in case read_items le (unat numBaggageItems) i6 [] of
           (None, i7) \<Rightarrow> (SpanContext0, inc DecodingErrors 1 ms, i7)
         | (Some bag, i7) \<Rightarrow>
             (SpanContext (TraceID traceIDHigh traceIDLow) spanid parentid fl bag [] [], ms, i7))"

end
