(* ===== verification/PropagationLaws.thy ===== *)
theory PropagationLaws
  imports Propagation
begin

text \<open>
  What the text propagators promise: a receiver extracts the span context the sender has
  injected, whatever the order the carrier hands the headers out in and whatever else it
  holds. The proof needs three laws of a codec only, stated by the locale
  \<open>lossless_codec\<close> and discharged for the text map and the HTTP header codecs.
\<close>

section \<open>Carriers\<close>

lemma ForeachKey_append:
  "ForeachKey f (xs @ ys) s = (case ForeachKey f xs s of None \<Rightarrow> None | Some s' \<Rightarrow> ForeachKey f ys s')"
  by (induction xs arbitrary: s) (auto split: option.splits)

lemma forEachBaggageItem_append:
  "forEachBaggageItem (\<lambda>k v w. (True, w @ [g k v])) m w = w @ map (\<lambda>(k, v). g k v) m"
  by (induction m arbitrary: w) auto

lemma ForeachKey_fails:
  "kv \<in> set kvs \<Longrightarrow> (\<And>st. f kv st = None) \<Longrightarrow> ForeachKey f kvs st = None"
  by (induction kvs arbitrary: st) (auto split: option.split)

lemma find_debugID_empty:
  "\<forall>(k, v) \<in> set hs. normalizeKey cd k = jaegerDebugHeader hk \<longrightarrow> v = [] \<Longrightarrow> find_debugID hk cd hs = []"
  unfolding find_debugID_def by (induction hs) (auto split: prod.splits)

lemma find_debugID_none:
  "\<forall>kv \<in> set hs. normalizeKey cd (fst kv) \<noteq> jaegerDebugHeader hk \<Longrightarrow> find_debugID hk cd hs = []"
  unfolding find_debugID_def by (induction hs) (auto split: prod.splits)

lemma map_of_foldl_update:
  "map_of (foldl (\<lambda>b (k, v). AList.update k v b) bag kvs) = map_of bag ++ map_of (rev kvs)"
  by (induction kvs arbitrary: bag) (auto simp: update_conv' map_add_def split: option.splits)

lemma map_of_mset_eq:
  assumes "mset xs = mset ys" and "distinct (map fst ys)"
  shows "map_of (rev xs) = map_of ys"
proof -
  have "mset (map fst xs) = mset (map fst ys)" using assms(1) by simp
  then have "distinct (map fst xs)" using assms(2) by (metis mset_eq_imp_distinct_iff)
  then have "distinct (map fst (rev xs))" by (simp add: rev_map[symmetric])
  then show ?thesis
    using assms mset_eq_setD[OF assms(1)] by (subst map_of_inject_set) auto
qed

section \<open>Codecs\<close>

definition key_in :: "string \<Rightarrow> string \<Rightarrow> bool" where
  "key_in prefix k \<longleftrightarrow> length prefix \<le> length k \<and> take (length prefix) k = prefix"

lemma key_in_append [simp]: "key_in p (p @ k)"
  by (simp add: key_in_def)

text \<open>
  The headers of a configuration can be told apart: the three names differ and none
  begins with the prefix of the baggage headers. \<open>irrelevant\<close> headers of a carrier are
  none of the tracer's.
\<close>

definition headers_ok :: "headers_config \<Rightarrow> bool" where
  "headers_ok hk \<longleftrightarrow>
     traceContextHeaderName hk \<noteq> jaegerBaggageHeader hk \<and>
     traceContextHeaderName hk \<noteq> jaegerDebugHeader hk \<and>
     \<not> key_in (traceBaggageHeaderPrefix hk) (traceContextHeaderName hk) \<and>
     \<not> key_in (traceBaggageHeaderPrefix hk) (jaegerBaggageHeader hk) \<and>
     \<not> key_in (traceBaggageHeaderPrefix hk) (jaegerDebugHeader hk)"

definition irrelevant :: "headers_config \<Rightarrow> codec \<Rightarrow> string \<times> string \<Rightarrow> bool" where
  "irrelevant hk cd kv \<longleftrightarrow>
     (let k = normalizeKey cd (fst kv)
      in k \<noteq> traceContextHeaderName hk \<and> k \<noteq> jaegerBaggageHeader hk \<and>
         k \<noteq> jaegerDebugHeader hk \<and> \<not> key_in (traceBaggageHeaderPrefix hk) k)"

definition jaeger_pair :: "headers_config \<Rightarrow> codec \<Rightarrow> string \<times> string \<Rightarrow> string \<times> string" where
  "jaeger_pair hk cd kv = (addBaggageKeyPrefix hk (fst kv), encodeValue cd (snd kv))"

lemma jaeger_doInject_eq:
  "jaeger_doInject hk cd c w =
     w @ (traceContextHeaderName hk, SpanContext_print c) # map (jaeger_pair hk cd) (baggage c)"
  unfolding jaeger_doInject_def by (subst forEachBaggageItem_append) (simp add: jaeger_pair_def split_def)

lemma SpanContext_print_plain: "CHR ''%'' \<notin> set (SpanContext_print c)"
proof -
  have n: "CHR ''%'' \<notin> set s" if "hex_string s" for s
    using that by (auto simp: hex_string_def isHex_ord)
  show ?thesis
    unfolding SpanContext_print_def
    using n[OF TraceID_print_hex[of "traceID c"]] n[OF put_hex_hex_string[of 16 "spanID c"]]
      n[OF put_hex_hex_string[of 16 "parentID c"]] n[OF put_hex_hex_string[of 0 "flags c"]]
    by simp
qed

definition baggage_pairs :: "headers_config \<Rightarrow> codec \<Rightarrow> strmap \<Rightarrow> strmap" where
  "baggage_pairs hk cd hs =
     map (\<lambda>kv. (removeBaggageKeyPrefix hk (normalizeKey cd (fst kv)), decodeValue cd (snd kv)))
       (filter (\<lambda>kv. key_in (traceBaggageHeaderPrefix hk) (normalizeKey cd (fst kv))) hs)"

locale lossless_codec =
  fixes cd :: codec
    and valid_value :: "string \<Rightarrow> bool"
    and valid_key :: "string \<Rightarrow> bool"
  assumes decode_encode: "valid_value v \<Longrightarrow> decodeValue cd (encodeValue cd v) = v"
    and decode_plain: "CHR ''%'' \<notin> set v \<Longrightarrow> decodeValue cd v = v"
    and normalize_key: "valid_key k \<Longrightarrow> normalizeKey cd k = k"
begin

lemma step_context:
  assumes "valid_key (traceContextHeaderName hk)" and "TraceID_isValid (traceID c)"
  shows "jaeger_step hk cd (traceContextHeaderName hk, SpanContext_print c) (ctx, bag) =
    Some (SpanContext (traceID c) (spanID c) (parentID c) (flags c) [] [] [], bag)"
proof -
  obtain c' i where r: "SpanContext_fromStream (istream_of (SpanContext_print c)) = (c', i)"
    by fastforce
  have c': "c' = SpanContext (traceID c) (spanID c) (parentID c) (flags c) [] [] []" "\<not> failed i"
    using SpanContext_fromStream_print[OF assms(2)] unfolding r
    by (simp_all add: SpanContext_def SpanContext0_def)
  have "\<not> SpanContext_eq c' SpanContext0"
    using assms(2) unfolding c' by (auto dest!: SpanContext_eqD)
  then show ?thesis
    unfolding jaeger_step_def prod.case Let_def
    by (simp add: normalize_key assms(1) decode_plain SpanContext_print_plain r c')
qed

lemma step_invalid:
  assumes "valid_key (traceContextHeaderName hk)" and "\<not> TraceID_isValid (traceID c)"
  shows "jaeger_step hk cd (traceContextHeaderName hk, SpanContext_print c) st = None"
proof -
  have "traceID c = TraceID 0 0"
    using assms(2) by (cases "traceID c") (simp add: TraceID_isValid_def TraceID_def)
  then obtain i where "SpanContext_fromStream (istream_of (SpanContext_print c)) = (SpanContext0, i)"
    unfolding SpanContext_fromStream_def SpanContext_print_def
    by (simp add: TraceID_fromStream_print)
  then show ?thesis
    unfolding jaeger_step_def prod.case Let_def
    by (cases st) (simp add: normalize_key assms(1) decode_plain SpanContext_print_plain)
qed

lemma step_baggage:
  assumes "headers_ok hk" and "valid_key (addBaggageKeyPrefix hk (fst kv))" and "valid_value (snd kv)"
  shows "jaeger_step hk cd (jaeger_pair hk cd kv) (ctx, bag) =
    Some (ctx, AList.update (fst kv) (snd kv) bag)"
proof -
  have "addBaggageKeyPrefix hk (fst kv) \<noteq> traceContextHeaderName hk"
    "addBaggageKeyPrefix hk (fst kv) \<noteq> jaegerBaggageHeader hk"
    using assms(1) by (metis headers_ok_def key_in_append addBaggageKeyPrefix_def)+
  then show ?thesis
    using normalize_key[OF assms(2)] decode_encode[OF assms(3)]
    by (simp add: jaeger_step_def jaeger_pair_def Let_def)
      (simp add: addBaggageKeyPrefix_def removeBaggageKeyPrefix_def)
qed

lemma step_irrelevant:
  "irrelevant hk cd kv \<Longrightarrow> jaeger_step hk cd kv st = Some st"
  by (cases kv; cases st) (auto simp: irrelevant_def jaeger_step_def Let_def key_in_def)

text \<open>
  A carrier that holds the injected headers and irrelevant ones only is folded header by
  header: \<open>baggage_pairs\<close> are the items read out of it.
\<close>

lemma pair_key_in:
  "valid_key (addBaggageKeyPrefix hk (fst kv)) \<Longrightarrow>
   key_in (traceBaggageHeaderPrefix hk) (normalizeKey cd (fst (jaeger_pair hk cd kv)))"
  by (simp add: jaeger_pair_def normalize_key) (simp add: addBaggageKeyPrefix_def)

lemma foreach_classified:
  assumes hk: "headers_ok hk" and vk: "valid_key (traceContextHeaderName hk)"
    and tid: "TraceID_isValid (traceID c)"
    and vb: "\<forall>kv \<in> set b. valid_key (addBaggageKeyPrefix hk (fst kv)) \<and> valid_value (snd kv)"
    and good: "\<forall>kv \<in> set hs. kv = (traceContextHeaderName hk, SpanContext_print c) \<or>
      irrelevant hk cd kv \<or> kv \<in> jaeger_pair hk cd ` set b"
  shows "ForeachKey (jaeger_step hk cd) hs (ctx, bag) =
    Some (if (traceContextHeaderName hk, SpanContext_print c) \<in> set hs
          then SpanContext (traceID c) (spanID c) (parentID c) (flags c) [] [] [] else ctx,
       foldl (\<lambda>b (k, v). AList.update k v b) bag (baggage_pairs hk cd hs))"
  using good
proof (induction hs arbitrary: ctx bag)
  case Nil
  then show ?case by (simp add: baggage_pairs_def)
next
  case (Cons kv hs)
  let ?cp = "(traceContextHeaderName hk, SpanContext_print c)"
  have nkc: "\<not> key_in (traceBaggageHeaderPrefix hk) (normalizeKey cd (traceContextHeaderName hk))"
    using hk by (simp add: normalize_key vk headers_ok_def)
  consider (ctx) "kv = ?cp" | (irr) "irrelevant hk cd kv" | (bag) i where "i \<in> set b" "kv = jaeger_pair hk cd i"
    using Cons.prems by auto
  then show ?case
  proof cases
    case ctx
    then show ?thesis
      using Cons nkc by (simp add: step_context[OF vk tid] baggage_pairs_def)
  next
    case irr
    then have "kv \<noteq> ?cp" "\<not> key_in (traceBaggageHeaderPrefix hk) (normalizeKey cd (fst kv))"
      using vk by (auto simp: irrelevant_def Let_def normalize_key)
    then show ?thesis
      using Cons by (simp add: step_irrelevant[OF irr] baggage_pairs_def)
  next
    case (bag i)
    have vi: "valid_key (addBaggageKeyPrefix hk (fst i))" "valid_value (snd i)" using vb bag(1) by auto
    have ki: "key_in (traceBaggageHeaderPrefix hk) (normalizeKey cd (fst kv))"
      using pair_key_in[OF vi(1)] bag(2) by simp
    then have "kv \<noteq> ?cp" using nkc by auto
    moreover have "baggage_pairs hk cd (kv # hs) = i # baggage_pairs hk cd hs"
      using ki vi unfolding bag(2)
      by (cases i) (simp add: baggage_pairs_def jaeger_pair_def normalize_key decode_encode,
        simp add: addBaggageKeyPrefix_def removeBaggageKeyPrefix_def)
    ultimately show ?thesis
      using Cons bag(2) by (simp add: step_baggage[OF hk vi] split_def)
  qed
qed

lemma pairs_of_injected:
  assumes hk: "headers_ok hk" and vk: "valid_key (traceContextHeaderName hk)"
    and vb: "\<forall>kv \<in> set b. valid_key (addBaggageKeyPrefix hk (fst kv)) \<and> valid_value (snd kv)"
    and irr: "\<forall>kv \<in> set extra. irrelevant hk cd kv"
    and perm: "mset hs = mset ((traceContextHeaderName hk, x) # map (jaeger_pair hk cd) b) + mset extra"
  shows "mset (baggage_pairs hk cd hs) = mset b"
proof -
  have ctx: "\<not> key_in (traceBaggageHeaderPrefix hk) (normalizeKey cd (traceContextHeaderName hk))"
    using hk by (simp add: normalize_key vk headers_ok_def)
  have inj: "baggage_pairs hk cd (map (jaeger_pair hk cd) b) = b"
    using vb
  proof (induction b)
    case (Cons i b)
    then show ?case
      using pair_key_in[of hk i]
      by (cases i) (simp add: baggage_pairs_def jaeger_pair_def normalize_key decode_encode,
        simp add: addBaggageKeyPrefix_def removeBaggageKeyPrefix_def)
  qed (simp add: baggage_pairs_def)
  have none: "baggage_pairs hk cd extra = []"
    using irr by (auto simp: baggage_pairs_def irrelevant_def Let_def filter_empty_conv)
  have "mset (baggage_pairs hk cd hs)
      = mset (baggage_pairs hk cd ((traceContextHeaderName hk, x) # map (jaeger_pair hk cd) b @ extra))"
    unfolding baggage_pairs_def using perm by (simp flip: image_mset_filter_mset_swap)
  also have "\<dots> = mset (baggage_pairs hk cd (map (jaeger_pair hk cd) b) @ baggage_pairs hk cd extra)"
    using ctx by (simp add: baggage_pairs_def)
  finally show ?thesis by (simp add: inj none)
qed

lemma extract_injected:
  assumes hk: "headers_ok hk" and vk: "valid_key (traceContextHeaderName hk)"
    and tid: "TraceID_isValid (traceID c)" and ok: "strmap_ok (baggage c)"
    and vb: "\<forall>kv \<in> set (baggage c). valid_key (addBaggageKeyPrefix hk (fst kv)) \<and> valid_value (snd kv)"
    and irr: "\<forall>kv \<in> set extra. irrelevant hk cd kv"
    and perm: "mset hs = mset (jaeger_doInject hk cd c []) + mset extra"
  shows "snd (jaeger_extract hk cd hs ms) = ms \<and>
    SpanContext_eq (fst (jaeger_extract hk cd hs ms)) (c\<lparr>debugID := [], traceState := []\<rparr>)"
proof -
  let ?cp = "(traceContextHeaderName hk, SpanContext_print c)"
  have perm': "mset hs = mset (?cp # map (jaeger_pair hk cd) (baggage c)) + mset extra"
    using perm by (simp add: jaeger_doInject_eq)
  then have sh: "set hs = insert ?cp (jaeger_pair hk cd ` set (baggage c) \<union> set extra)"
    by (metis mset_append set_mset_mset set_append list.simps(15) set_map Un_insert_left)
  then have "\<forall>kv \<in> set hs. kv = ?cp \<or> irrelevant hk cd kv \<or> kv \<in> jaeger_pair hk cd ` set (baggage c)"
    using irr by auto
  from foreach_classified[OF hk vk tid vb this]
  have each: "ForeachKey (jaeger_step hk cd) hs (SpanContext0, []) =
      Some (SpanContext (traceID c) (spanID c) (parentID c) (flags c) [] [] [],
        foldl (\<lambda>b (k, v). AList.update k v b) [] (baggage_pairs hk cd hs))" (is "_ = Some (_, ?bag)")
    by (simp add: sh)
  have bag: "map_of ?bag = map_of (baggage c)"
    using map_of_mset_eq[OF pairs_of_injected[OF hk vk vb irr perm']] ok
    by (simp add: map_of_foldl_update strmap_ok_def)
  have "find_debugID hk cd hs = []"
  proof (rule find_debugID_none, rule ballI)
    fix kv assume "kv \<in> set hs"
    then consider "kv = ?cp" | "irrelevant hk cd kv" | i where "i \<in> set (baggage c)" "kv = jaeger_pair hk cd i"
      using sh irr by auto
    then show "normalizeKey cd (fst kv) \<noteq> jaegerDebugHeader hk"
    proof cases
      case 1 then show ?thesis using hk by (simp add: normalize_key vk headers_ok_def)
    next
      case 2 then show ?thesis by (simp add: irrelevant_def Let_def)
    next
      case (3 i)
      then have "key_in (traceBaggageHeaderPrefix hk) (normalizeKey cd (fst kv))"
        using pair_key_in[of hk i] vb by auto
      then show ?thesis using hk by (auto simp: headers_ok_def)
    qed
  qed
  then show ?thesis
    using tid bag
    by (simp add: jaeger_extract_def Propagator_extract_def jaeger_doExtract_def each SpanContext_eq_def
        strmap_eq_iff)
qed

lemma extract_invalid:
  assumes "valid_key (traceContextHeaderName hk)" and "\<not> TraceID_isValid (traceID c)"
    and "set (jaeger_doInject hk cd c []) \<subseteq> set hs"
  shows "jaeger_extract hk cd hs ms =
    (if find_debugID hk cd hs = [] then SpanContext0
     else SpanContext (TraceID 0 0) 0 0 (kDebug OR kSampled) [] (find_debugID hk cd hs) [], inc DecodingErrors 1 ms)"
proof -
  have "(traceContextHeaderName hk, SpanContext_print c) \<in> set hs" using assms(3) by (simp add: jaeger_doInject_eq)
  then have "ForeachKey (jaeger_step hk cd) hs st = None" for st
    by (rule ForeachKey_fails) (rule step_invalid[OF assms(1,2)])
  then show ?thesis
    by (simp add: jaeger_extract_def Propagator_extract_def jaeger_doExtract_def Let_def TraceID_isValid_def)
qed

end

section \<open>The W3C headers\<close>

lemma hex_string_plain: "hex_string s \<Longrightarrow> CHR ''%'' \<notin> set s"
  by (auto simp: hex_string_def isHex_ord)

lemma writeTraceParent_plain: "CHR ''%'' \<notin> set (writeTraceParent c)"
  by (simp add: writeTraceParent_def w3c_writeTraceID_def hex_string_plain)

lemma w3c_readTraceID_write:
  "w3c_readTraceID (istream_of (w3c_writeTraceID t @ s)) = (t, istream_of s)"
proof -
  have "readSegment (istream_of (w3c_writeTraceID t @ s)) 32 (CHR ''-'') = (w3c_writeTraceID t, istream_of s)"
    by (rule readSegment_full) (simp_all add: w3c_writeTraceID_def)
  then show ?thesis
    by (simp add: w3c_readTraceID_def) (simp add: w3c_writeTraceID_def)
qed

lemma readTraceParent_write:
  assumes "TraceID_isValid (traceID c)"
  shows "readTraceParent (istream_of (writeTraceParent c)) =
    (SpanContext (traceID c) (spanID c) 0 (flags c) [] [] [], istream_of [])"
proof -
  have last: "readSegment (istream_of (put_hex 2 (flags c))) 2 (CHR ''-'')
      = (put_hex 2 (flags c), istream_of [])"
    using readSegment_full[of "put_hex 2 (flags c)" 2 "[]"] by simp
  show ?thesis
    using assms
    by (simp add: readTraceParent_def writeTraceParent_def w3c_readTraceID_write readSegment_delim last
        stream_clear_def) (simp add: istream_of_def)
qed

definition w3c_irrelevant :: "headers_config \<Rightarrow> codec \<Rightarrow> string \<times> string \<Rightarrow> bool" where
  "w3c_irrelevant hk cd kv \<longleftrightarrow>
     (let k = normalizeKey cd (fst kv)
      in k \<noteq> kW3CTraceParentHeaderName \<and> k \<noteq> kW3CTraceStateHeaderName \<and> k \<noteq> jaegerDebugHeader hk)"

context lossless_codec
begin

lemma w3c_step_context:
  assumes "valid_key kW3CTraceParentHeaderName" and "TraceID_isValid (traceID c)"
  shows "w3c_step cd (kW3CTraceParentHeaderName, writeTraceParent c) (ctx, ts) =
    Some (SpanContext (traceID c) (spanID c) 0 (flags c) [] [] [], ts)"
proof -
  have "\<not> SpanContext_eq (SpanContext (traceID c) (spanID c) 0 (flags c) [] [] []) SpanContext0"
    using assms(2) by (auto dest!: SpanContext_eqD)
  then show ?thesis
    using assms
    by (simp add: w3c_step_def Let_def normalize_key decode_plain writeTraceParent_plain
        readTraceParent_write) (simp add: istream_of_def)
qed

lemma w3c_foreach:
  assumes vk: "valid_key kW3CTraceParentHeaderName" "valid_key kW3CTraceStateHeaderName"
    and tid: "TraceID_isValid (traceID c)" and ts: "CHR ''%'' \<notin> set (traceState c)"
    and good: "\<forall>kv \<in> set hs. kv = (kW3CTraceParentHeaderName, writeTraceParent c) \<or>
      kv = (kW3CTraceStateHeaderName, traceState c) \<or> w3c_irrelevant hk cd kv"
  shows "ForeachKey (w3c_step cd) hs (ctx, st) =
    Some (if (kW3CTraceParentHeaderName, writeTraceParent c) \<in> set hs
          then SpanContext (traceID c) (spanID c) 0 (flags c) [] [] [] else ctx,
       if (kW3CTraceStateHeaderName, traceState c) \<in> set hs then traceState c else st)"
  using good
proof (induction hs arbitrary: ctx st)
  case (Cons kv hs)
  have ne: "kW3CTraceParentHeaderName \<noteq> kW3CTraceStateHeaderName"
    by (simp add: header_constants)
  consider (p) "kv = (kW3CTraceParentHeaderName, writeTraceParent c)"
    | (s) "kv = (kW3CTraceStateHeaderName, traceState c)" | (i) "w3c_irrelevant hk cd kv"
    using Cons.prems by auto
  then show ?case
  proof cases
    case p
    then show ?thesis
      using Cons ne by (simp add: w3c_step_context[OF vk(1) tid])
  next
    case s
    have "w3c_step cd (kW3CTraceStateHeaderName, traceState c) (ctx, st) = Some (ctx, traceState c)"
      using ne by (simp add: w3c_step_def Let_def normalize_key vk decode_plain ts)
    with s show ?thesis using Cons ne by simp
  next
    case i
    then have k: "normalizeKey cd (fst kv) \<noteq> kW3CTraceParentHeaderName"
      "normalizeKey cd (fst kv) \<noteq> kW3CTraceStateHeaderName"
      by (simp_all add: w3c_irrelevant_def Let_def)
    then have "w3c_step cd kv (ctx, st) = Some (ctx, st)"
      by (cases kv) (simp add: w3c_step_def Let_def)
    moreover have "kv \<noteq> (kW3CTraceParentHeaderName, writeTraceParent c)"
      "kv \<noteq> (kW3CTraceStateHeaderName, traceState c)"
      using k vk by (auto simp: normalize_key)
    ultimately show ?thesis using Cons by auto
  qed
qed simp

lemma w3c_extract_injected:
  assumes vk: "valid_key kW3CTraceParentHeaderName" "valid_key kW3CTraceStateHeaderName"
    and dbg: "jaegerDebugHeader hk \<notin> {kW3CTraceParentHeaderName, kW3CTraceStateHeaderName}"
    and tid: "TraceID_isValid (traceID c)" and ts: "CHR ''%'' \<notin> set (traceState c)"
    and irr: "\<forall>kv \<in> set extra. w3c_irrelevant hk cd kv"
    and perm: "mset hs = mset (w3c_doInject c []) + mset extra"
  shows "w3c_extract hk cd hs ms =
    (SpanContext (traceID c) (spanID c) 0 (flags c) [] [] (traceState c), ms)"
proof -
  let ?p = "(kW3CTraceParentHeaderName, writeTraceParent c)"
  let ?s = "(kW3CTraceStateHeaderName, traceState c)"
  have sh: "set hs = insert ?p ((if traceState c = [] then {} else {?s}) \<union> set extra)"
  proof -
    have "set hs = set (w3c_doInject c []) \<union> set extra"
      using perm by (metis mset_append set_mset_mset set_append)
    then show ?thesis by (simp add: w3c_doInject_def Let_def)
  qed
  then have "\<forall>kv \<in> set hs. kv = ?p \<or> kv = ?s \<or> w3c_irrelevant hk cd kv"
    using irr by (auto split: if_splits)
  note each = w3c_foreach[OF vk tid ts this, of SpanContext0 "[]"]
  have "find_debugID hk cd hs = []"
    using sh irr dbg vk
    by (intro find_debugID_none) (auto simp: w3c_irrelevant_def Let_def normalize_key split: if_splits)
  moreover have "?p \<in> set hs" "?s \<in> set hs \<or> traceState c = []"
    using sh by auto
  ultimately show ?thesis
    using tid
    by (cases "traceState c = []")
      (simp_all add: w3c_extract_def Propagator_extract_def w3c_doExtract_def each)
qed

end

section \<open>The baggage of an extracted context\<close>

lemma foldl_updates_distinct:
  "distinct (map fst b) \<Longrightarrow> distinct (map fst (foldl (\<lambda>b (k, v). AList.update k v b) b kvs))"
  by (induction kvs arbitrary: b) (auto simp: AList.distinct_update)

lemma jaeger_step_distinct:
  "jaeger_step hk cd kv (c, b) = Some (c', b') \<Longrightarrow> distinct (map fst b) \<Longrightarrow> distinct (map fst b')"
  by (cases kv) (auto simp: jaeger_step_def Let_def foldl_updates_distinct AList.distinct_update split: if_splits prod.splits)

lemma ForeachKey_distinct:
  "ForeachKey (jaeger_step hk cd) hs (c, b) = Some (c', b') \<Longrightarrow> distinct (map fst b) \<Longrightarrow> distinct (map fst b')"
proof (induction hs arbitrary: c b)
  case (Cons kv hs)
  then obtain c1 b1 where "jaeger_step hk cd kv (c, b) = Some (c1, b1)" "ForeachKey (jaeger_step hk cd) hs (c1, b1) = Some (c', b')"
    by (auto split: option.splits)
  then show ?case using Cons jaeger_step_distinct by blast
qed simp

lemma jaeger_extract_baggage: "strmap_ok (baggage (fst (jaeger_extract hk cd hs ms)))"
proof -
  have "distinct (map fst (baggage (fst (jaeger_doExtract hk cd hs ms))))"
    by (auto simp: jaeger_doExtract_def SpanContext_def SpanContext0_def dest: ForeachKey_distinct split: option.splits)
  then show ?thesis
    by (cases "jaeger_doExtract hk cd hs ms")
      (auto simp: jaeger_extract_def Propagator_extract_def strmap_ok_def Let_def SpanContext_def SpanContext0_def)
qed

section \<open>The two codecs\<close>

definition escapable_string :: "string \<Rightarrow> bool" where
  "escapable_string v \<longleftrightarrow> (\<forall>c \<in> set v. escapable c)"

definition lowercase :: "string \<Rightarrow> bool" where
  "lowercase k \<longleftrightarrow> (\<forall>c \<in> set k. \<not> isupper c)"

interpretation text_codec: lossless_codec text_map_codec "\<lambda>_. True" "\<lambda>_. True"
  by unfold_locales (simp_all add: text_map_codec_def)

interpretation headers_codec: lossless_codec http_codec escapable_string lowercase
  by unfold_locales
    (simp_all add: http_codec_def escapable_string_def lowercase_def queryUnescape_queryEscape
      queryUnescape_plain map_to_lower_id)

section \<open>Properties\<close>


definition example_context :: span_context where
  "example_context = SpanContext (TraceID 1 0xFF) 0x2A 7 3
     [(''user'', ''a b&c''), (''k'', ''100 %'')] ''dbg'' ''vendor=1''"

definition example_extra :: strmap where
  "example_extra = [(''Accept'', ''*/*''), (''X-Request-Id'', ''17'')]"

lemma example_irrelevant:
  "\<forall>kv \<in> set example_extra. irrelevant HeadersConfig0 http_codec kv \<and>
    irrelevant HeadersConfig0 text_map_codec kv \<and> w3c_irrelevant HeadersConfig0 http_codec kv"
  by code_simp

lemma example_headers:
  "headers_ok HeadersConfig0" "lowercase (traceContextHeaderName HeadersConfig0)"
  "TraceID_isValid (traceID example_context)" "strmap_ok (baggage example_context)"
  "\<forall>kv \<in> set (baggage example_context).
     lowercase (addBaggageKeyPrefix HeadersConfig0 (fst kv)) \<and> escapable_string (snd kv)"
  by code_simp+


text \<open>Text maps: the same round trip, for every baggage.\<close>

theorem jaeger_text_map_roundtrip:
  assumes "headers_ok hk" and "TraceID_isValid (traceID c)" and "strmap_ok (baggage c)"
    and "\<forall>kv \<in> set extra. irrelevant hk text_map_codec kv"
    and "mset hs = mset (jaeger_doInject hk text_map_codec c []) + mset extra"
  shows "snd (jaeger_extract hk text_map_codec hs ms) = ms \<and>
    SpanContext_eq (fst (jaeger_extract hk text_map_codec hs ms)) (c\<lparr>debugID := [], traceState := []\<rparr>)"
  using assms by (intro text_codec.extract_injected) auto

theorem jaeger_text_map_roundtrip_witness:
  "SpanContext_eq (fst (jaeger_extract HeadersConfig0 text_map_codec
     (rev (example_extra @ jaeger_doInject HeadersConfig0 text_map_codec example_context [])) metrics0))
     (example_context\<lparr>debugID := [], traceState := []\<rparr>)"
  using jaeger_text_map_roundtrip[OF example_headers(1,3,4), of example_extra] example_irrelevant
  by (simp add: ac_simps)

text \<open>C34. W3C headers: trace id, span id, flags and trace state survive, in any order and among
  other headers; the parent id and the baggage are not carried. Injection does not escape the
  trace state and extraction unescapes it, hence the condition on the percent sign.\<close>

theorem w3c_headers_roundtrip:
  assumes "jaegerDebugHeader hk \<notin> {kW3CTraceParentHeaderName, kW3CTraceStateHeaderName}"
    and "TraceID_isValid (traceID c)" and "CHR ''%'' \<notin> set (traceState c)"
    and "\<forall>kv \<in> set extra. w3c_irrelevant hk http_codec kv"
    and "mset hs = mset (w3c_doInject c []) + mset extra"
  shows "w3c_extract hk http_codec hs ms =
    (SpanContext (traceID c) (spanID c) 0 (flags c) [] [] (traceState c), ms)"
proof -
  have "lowercase kW3CTraceParentHeaderName" "lowercase kW3CTraceStateHeaderName"
    by code_simp+
  then show ?thesis using assms by (rule headers_codec.w3c_extract_injected)
qed

theorem w3c_headers_roundtrip_witness:
  "w3c_extract HeadersConfig0 http_codec (rev (example_extra @ w3c_doInject example_context [])) metrics0 =
    (SpanContext (TraceID 1 0xFF) 0x2A 0 3 [] [] ''vendor=1'', metrics0)"
proof -
  have "jaegerDebugHeader HeadersConfig0 \<notin> {kW3CTraceParentHeaderName, kW3CTraceStateHeaderName}"
    "CHR ''%'' \<notin> set (traceState example_context)"
    by code_simp+
  then show ?thesis
    using w3c_headers_roundtrip[of HeadersConfig0 example_context example_extra
        "rev (example_extra @ w3c_doInject example_context [])" metrics0]
      example_irrelevant example_headers(3)
    by (simp add: ac_simps) (simp add: example_context_def)
qed

text \<open>C35. A context without a valid trace id is rejected by the receiver: if the headers that carry it
  are among those received, in whatever order and with whatever others, extraction counts one
  decoding error and gives no trace id, no baggage and, unless there is a debug header with a value,
  the empty context. The name of the trace context header is in lower case.\<close>

theorem jaeger_invalid_rejected:
  assumes "lowercase (traceContextHeaderName hk)" and "\<not> TraceID_isValid (traceID c)"
    and "set (jaeger_doInject hk http_codec c []) \<subseteq> set hs"
  shows "snd (jaeger_extract hk http_codec hs ms) = inc DecodingErrors 1 ms \<and>
    traceID (fst (jaeger_extract hk http_codec hs ms)) = TraceID 0 0 \<and>
    baggage (fst (jaeger_extract hk http_codec hs ms)) = [] \<and>
    ((\<forall>(k, v) \<in> set hs. normalizeKey http_codec k = jaegerDebugHeader hk \<longrightarrow> v = []) \<longrightarrow>
      fst (jaeger_extract hk http_codec hs ms) = SpanContext0)"
  using find_debugID_empty[of hs http_codec hk]
  by (simp add: headers_codec.extract_invalid[OF assms] SpanContext_def)

theorem jaeger_invalid_rejected_witness:
  "jaeger_extract HeadersConfig0 http_codec
     (rev (example_extra @ jaeger_doInject HeadersConfig0 http_codec (example_context\<lparr>traceID := TraceID 0 0\<rparr>) [])) metrics0
   = (SpanContext0, inc DecodingErrors 1 metrics0)"
proof -
  let ?c = "example_context\<lparr>traceID := TraceID 0 0\<rparr>"
  let ?hs = "rev (example_extra @ jaeger_doInject HeadersConfig0 http_codec ?c [])"
  have "\<forall>(k, v) \<in> set ?hs. normalizeKey http_codec k \<noteq> jaegerDebugHeader HeadersConfig0" by code_simp
  then have "\<forall>(k, v) \<in> set ?hs. normalizeKey http_codec k = jaegerDebugHeader HeadersConfig0 \<longrightarrow> v = []" by auto
  moreover have "\<not> TraceID_isValid (traceID ?c)" by (simp add: TraceID_isValid_def)
  ultimately show ?thesis
    using jaeger_invalid_rejected[OF example_headers(2), of ?c ?hs metrics0]
    by (intro prod_eqI) auto
qed

end
