(* ===== verification/BinaryFormat.thy ===== *)
theory BinaryFormat
  imports Propagation
begin

text \<open>
  The binary carrier: integers survive the conversion to octets and back on a host of
  either byte order, and a span context survives \<open>binary_inject\<close> and \<open>binary_extract\<close>.
\<close>

section \<open>Octets of a word\<close>

lemma horner_snoc: "horner (s @ [c]) = push_bit 8 (horner s) OR of_nat (ord c)"
  by (simp add: horner_def)

lemma horner_Nil [simp]: "horner [] = 0"
  by (simp add: horner_def)

lemma ord_lt_256: "ord c < 2 ^ 8"
  using nat_of_char_less_256[of c] by simp

lemma bit_ord_high: "8 \<le> i \<Longrightarrow> \<not> bit (ord c) i"
proof -
  have "ord c < 2 ^ 8" by (rule ord_lt_256)
  then have "take_bit 8 (ord c) = ord c" by (rule take_bit_nat_eq_self)
  then show "8 \<le> i \<Longrightarrow> ?thesis" by (metis bit_take_bit_iff not_le)
qed

lemma bit_horner:
  "bit (horner s :: 'a::len word) i \<longleftrightarrow>
     i < LENGTH('a) \<and> i div 8 < length s \<and> bit (ord (rev s ! (i div 8))) (i mod 8)"
proof (induction s arbitrary: i rule: rev_induct)
  case (snoc c s)
  show ?case
  proof (cases "i < 8")
    case True
    then show ?thesis by (auto simp: horner_snoc bit_simps)
  next
    case False
    then obtain j where i: "i = j + 8" by (metis add.commute le_add_diff_inverse not_less)
    have "(j + 8) div 8 = Suc (j div 8)" "(j + 8) mod 8 = j mod 8" by simp_all
    then show ?thesis
      using snoc[of j] by (auto simp: horner_snoc bit_simps i bit_ord_high)
  qed
qed simp

lemma length_octets [simp]: "length (octets (v :: 'a::len word)) = LENGTH('a) div 8"
  by (simp add: octets_def)

lemma octets_nth:
  fixes v :: "'a::len word"
  assumes "i < LENGTH('a) div 8" and "k < 8" and "8 dvd LENGTH('a)"
  shows "bit (ord (octets v ! i)) k \<longleftrightarrow> bit v ((LENGTH('a) div 8 - i - 1) * 8 + k)"
proof -
  let ?w = "drop_bit ((LENGTH('a) div 8 - i - 1) * 8) v AND 255"
  have m: "(255 :: 'a word) = mask 8" by (simp add: mask_eq_exp_minus_1)
  have le: "8 \<le> LENGTH('a)" using assms by (auto elim!: dvdE)
  have "?w = take_bit 8 (drop_bit ((LENGTH('a) div 8 - i - 1) * 8) v)"
    unfolding m by (simp add: take_bit_eq_mask)
  then have "unat ?w = take_bit 8 (unat (drop_bit ((LENGTH('a) div 8 - i - 1) * 8) v))"
    using le by (simp add: unsigned_take_bit_eq)
  then have lt: "unat ?w < 256"
    using take_bit_nat_less_exp[of 8] by simp
  have "bit (ord (octets v ! i)) k \<longleftrightarrow> bit (unat ?w) k"
    using assms(1) lt by (simp add: octets_def)
  also have "\<dots> \<longleftrightarrow> bit v ((LENGTH('a) div 8 - i - 1) * 8 + k)"
  proof -
    have "(LENGTH('a) div 8 - i - 1) * 8 + k < LENGTH('a)"
      using assms by (auto elim!: dvdE)
    then show ?thesis
      using assms(2) le unfolding m by (auto simp: bit_simps)
  qed
  finally show ?thesis .
qed

lemma byte_eqI:
  assumes "\<And>k. k < 8 \<Longrightarrow> bit (ord c) k = bit (ord d) k"
  shows "c = d"
proof -
  have "ord c = ord d"
    by (rule bit_eqI) (metis assms bit_ord_high not_le)
  then show ?thesis by (metis char_of_char)
qed

lemma octets_horner:
  assumes "length s = LENGTH('a) div 8" and "8 dvd LENGTH('a)"
  shows "octets (horner s :: 'a::len word) = s"
proof (rule nth_equalityI)
  show "length (octets (horner s :: 'a word)) = length s" using assms by simp
next
  fix i assume "i < length (octets (horner s :: 'a word))"
  then have i: "i < LENGTH('a) div 8" by simp
  show "octets (horner s :: 'a word) ! i = s ! i"
  proof (rule byte_eqI)
    fix k :: nat assume k: "k < 8"
    let ?p = "(LENGTH('a) div 8 - i - 1) * 8 + k"
    have "?p div 8 = LENGTH('a) div 8 - i - 1" "?p mod 8 = k" using k by simp_all
    moreover have "?p < LENGTH('a)" using i k assms(2) by (auto elim!: dvdE)
    moreover have "rev s ! (LENGTH('a) div 8 - i - 1) = s ! i"
      using i assms(1) by (simp add: rev_nth)
    ultimately show "bit (ord (octets (horner s :: 'a word) ! i)) k = bit (ord (s ! i)) k"
      using i assms by (simp add: octets_nth[OF i k assms(2)] bit_horner)
  qed
qed

lemma horner_octets:
  assumes "8 dvd LENGTH('a)"
  shows "horner (octets v) = (v :: 'a::len word)"
proof (rule bit_word_eqI)
  fix n assume n: "n < LENGTH('a)"
  have d: "n div 8 < LENGTH('a) div 8" using n assms by (auto elim!: dvdE)
  have i: "LENGTH('a) div 8 - Suc (n div 8) < LENGTH('a) div 8" using d by simp
  have "bit (horner (octets v) :: 'a word) n
      \<longleftrightarrow> bit (ord (octets v ! (LENGTH('a) div 8 - Suc (n div 8)))) (n mod 8)"
    using n d by (simp add: bit_horner rev_nth)
  also have "\<dots> \<longleftrightarrow> bit v ((n div 8) * 8 + n mod 8)"
    using d octets_nth[OF i _ assms, of "n mod 8" v] by simp
  finally show "bit (horner (octets v) :: 'a word) n \<longleftrightarrow> bit v n" by simp
qed

lemma BigEndian_inverse:
  "8 dvd LENGTH('a) \<Longrightarrow> fromBigEndian le (toBigEndian le v) = (v :: 'a::len word)"
  by (simp add: fromBigEndian_def toBigEndian_def octets_horner horner_octets)

lemma length_writeBinary [simp]: "length (writeBinary le (v :: 'a::len word)) = LENGTH('a) div 8"
  by (simp add: writeBinary_def)

section \<open>Reading what was written\<close>

lemma read_octets_append:
  "read_octets (length s) (istream_of (s @ t)) = (s, istream_of t)"
  by (induction s) (simp_all add: stream_simps)

lemma readBinary_writeBinary:
  assumes "8 dvd LENGTH('a)"
  shows "readBinary le (istream_of (writeBinary le (v :: 'a::len word) @ t)) = (v, istream_of t)"
  using read_octets_append[of "writeBinary le v" t] assms
  by (simp add: readBinary_def) (simp add: writeBinary_def horner_octets BigEndian_inverse)

lemmas readBinary_64 = readBinary_writeBinary[where 'a = 64, simplified]
lemmas readBinary_32 = readBinary_writeBinary[where 'a = 32, simplified]

definition fits32 :: "strmap \<Rightarrow> bool" where
  "fits32 b \<longleftrightarrow> length b < 2 ^ 32 \<and>
     (\<forall>kv \<in> set b. length (fst kv) < 2 ^ 32 \<and> length (snd kv) < 2 ^ 32)"

lemma stream_read_append:
  "stream_read (length s) (istream_of (s @ t)) = (Some s, istream_of t)"
  by (simp add: stream_simps)

lemma unat_u32: "n < 2 ^ 32 \<Longrightarrow> unat (of_nat n :: u32) = n"
  by (simp add: unat_of_nat take_bit_nat_eq_self)

lemma read_items_written:
  assumes "\<forall>kv \<in> set b. length (fst kv) < 2 ^ 32 \<and> length (snd kv) < 2 ^ 32"
  shows "read_items le (length b) (istream_of (concat (map (\<lambda>(key, value).
      writeBinary le (of_nat (length key) :: u32) @ key @
      writeBinary le (of_nat (length value) :: u32) @ value) b) @ t)) bag =
    (Some (foldl (\<lambda>b (k, v). AList.update k v b) bag b), istream_of t)"
  using assms
proof (induction b arbitrary: bag)
  case (Cons kv b)
  then show ?case
    by (cases kv) (simp add: readBinary_32 unat_u32 stream_read_append)
qed simp

lemma foldl_update_distinct:
  "distinct (map fst (bag @ b)) \<Longrightarrow> foldl (\<lambda>b (k, v). AList.update k v b) bag b = bag @ b"
proof (induction b arbitrary: bag)
  case (Cons kv b)
  obtain k v where kv: "kv = (k, v)" by fastforce
  have "AList.update k v bag = bag @ [(k, v)]"
    using Cons.prems kv by (induction bag) auto
  then show ?case
    using Cons.IH[of "bag @ [(k, v)]"] Cons.prems kv by auto
qed simp

lemma binary_extract_inject:
  assumes "strmap_ok (baggage c)" and "fits32 (baggage c)"
  shows "binary_extract le (istream_of (binary_inject le c @ t)) ms =
    (c\<lparr>debugID := [], traceState := []\<rparr>, ms, istream_of t)"
proof -
  have f: "\<forall>kv \<in> set (baggage c). length (fst kv) < 2 ^ 32 \<and> length (snd kv) < 2 ^ 32"
    and n: "length (baggage c) < 2 ^ 32"
    using assms(2) by (auto simp: fits32_def)
  have get: "stream_get (istream_of (char_of (unat (flags c)) # s)) = (Some (char_of (unat (flags c))), istream_of s)" for s
    by (simp add: stream_simps)
  have fl: "of_nat (ord (char_of (unat (flags c)))) = flags c"
    using unsigned_less[of "flags c", where 'a = nat] by simp
  have m: "unat (flags c) mod 256 = unat (flags c)"
    using unsigned_less[of "flags c", where 'a = nat] by simp
  have upd: "foldl (\<lambda>b (k, v). AList.update k v b) [] (baggage c) = baggage c"
    using foldl_update_distinct[of "[]"] assms(1) by (simp add: strmap_ok_def)
  show ?thesis
    unfolding binary_extract_def binary_inject_def append_assoc append_Cons append_Nil
    by (simp add: readBinary_64 readBinary_32 get fl unat_u32[OF n] read_items_written[OF f] upd)
      (simp add: SpanContext_def m)
qed

text \<open>C9. The binary carrier: on a host of either byte order a context whose baggage sizes fit
  32 bits is read back as it was written, and the stream is left right behind it.\<close>

theorem binary_carrier_roundtrip:
  assumes "strmap_ok (baggage c)" and "fits32 (baggage c)"
  shows "binary_extract le (istream_of (binary_inject le c @ t)) ms =
    (c\<lparr>debugID := [], traceState := []\<rparr>, ms, istream_of t)"
  using assms by (rule binary_extract_inject)

theorem binary_carrier_roundtrip_witness:
  "binary_extract True (istream_of (binary_inject True
     (SpanContext (TraceID 1 2) 3 4 1 [(''k'', ''v''), (''l'', [])] ''d'' ''ts'') @ ''rest'')) metrics0 =
   (SpanContext (TraceID 1 2) 3 4 1 [(''k'', ''v''), (''l'', [])] [] [], metrics0, istream_of ''rest'')"
  using binary_carrier_roundtrip[of "SpanContext (TraceID 1 2) 3 4 1 [(''k'', ''v''), (''l'', [])] ''d'' ''ts''"]
  by (simp add: strmap_ok_def fits32_def SpanContext_def)

end
