(* ===== verification/Floating.thy ===== *)
theory Floating
  imports Prelude "HOL-Library.Log_Nat"
begin

text \<open>
  Floating-point numbers. A \<^verbatim>\<open>double\<close> is the rational it denotes; the value of an operation
  is the exact one rounded to the nearest number of \<open>p\<close> significant bits, ties to even
  (\<^verbatim>\<open>p = 53\<close> for \<^verbatim>\<open>double\<close>; the precision of \<^verbatim>\<open>long double\<close> depends on the platform and stays a
  parameter). The exponent is not bounded: infinities, NaN and subnormal numbers are not
  modelled. \<open>fl\<close> computes; what the clients need of it is the locale \<open>rounding\<close>.
\<close>

type_synonym double = rat

section \<open>Rounding to nearest\<close>

definition round_even :: "rat \<Rightarrow> int" where
  "round_even y =
     (let f = \<lfloor>y\<rfloor>; d = y - of_int f
      in if d < 1 / 2 then f else if d > 1 / 2 then f + 1 else if even f then f else f + 1)"

definition ilog2 :: "rat \<Rightarrow> int" where
  "ilog2 x =
     (if 1 \<le> x then int (floorlog 2 (nat \<lfloor>x\<rfloor>)) - 1
      else - int (floorlog 2 (nat (\<lceil>1 / x\<rceil> - 1))))"

definition pow2 :: "int \<Rightarrow> rat" where
  "pow2 e = (if 0 \<le> e then 2 ^ nat e else 1 / 2 ^ nat (- e))"

definition fl_pos :: "nat \<Rightarrow> rat \<Rightarrow> rat" where
  "fl_pos p x =
     (let s = pow2 (ilog2 x + 1 - int p) in of_int (round_even (x / s)) * s)"

definition fl :: "nat \<Rightarrow> rat \<Rightarrow> rat" where
  "fl p x = (if x = 0 then 0 else if x < 0 then - fl_pos p (- x) else fl_pos p x)"

lemma round_even_mono: "x \<le> y \<Longrightarrow> round_even x \<le> round_even y"
proof (cases "\<lfloor>x\<rfloor> = \<lfloor>y\<rfloor>")
  case True
  then show "x \<le> y \<Longrightarrow> ?thesis" by (auto simp: round_even_def Let_def)
next
  case False
  assume "x \<le> y"
  then have "\<lfloor>x\<rfloor> + 1 \<le> \<lfloor>y\<rfloor>" using False floor_mono[of x y] by linarith
  then show ?thesis by (auto simp: round_even_def Let_def)
qed

lemma round_even_of_int [simp]: "round_even (of_int n) = n"
  by (simp add: round_even_def)

lemma round_even_error: "\<bar>of_int (round_even y) - y\<bar> \<le> 1 / 2"
proof -
  define f where "f = (of_int \<lfloor>y\<rfloor> :: rat)"
  have f: "f \<le> y" "y < f + 1" unfolding f_def by linarith+
  have "of_int (round_even y) =
    (if y - f < 1 / 2 then f else if y - f > 1 / 2 then f + 1 else if even \<lfloor>y\<rfloor> then f else f + 1)"
    by (simp add: round_even_def Let_def f_def)
  with f show ?thesis by (simp add: abs_if split: if_splits)
qed

lemma pow2_pos [simp]: "0 < pow2 e"
  by (simp add: pow2_def)

lemma pow2_add: "pow2 (a + b) = pow2 a * pow2 b"
proof -
  have p: "pow2 e = 2 powi e" for e
    by (simp add: pow2_def power_int_def inverse_eq_divide power_one_over)
  show ?thesis by (simp add: p power_int_add)
qed

lemma pow2_Suc: "pow2 (e + 1) = 2 * pow2 e"
  by (simp add: pow2_add) (simp add: pow2_def)

lemma pow2_mono: "a \<le> b \<Longrightarrow> pow2 a \<le> pow2 b"
proof -
  assume "a \<le> b"
  then have "pow2 b = pow2 a * 2 ^ nat (b - a)"
    using pow2_add[of a "b - a"] by (simp add: pow2_def)
  moreover have "(1::rat) \<le> 2 ^ nat (b - a)" by simp
  ultimately show ?thesis
    using mult_left_mono[of 1 "2 ^ nat (b - a)" "pow2 a"] by (simp add: less_imp_le)
qed

lemma pow2_nat [simp]: "pow2 (int n) = 2 ^ n"
  by (simp add: pow2_def)

lemma pow_of_nat:
  "2 ^ k \<le> n \<Longrightarrow> (2 :: rat) ^ k \<le> of_nat n" "n < 2 ^ k \<Longrightarrow> of_nat n + 1 \<le> (2 :: rat) ^ k"
proof -
  show "2 ^ k \<le> n \<Longrightarrow> (2 :: rat) ^ k \<le> of_nat n" by simp
  assume "n < 2 ^ k"
  then have "Suc n \<le> 2 ^ k" by simp
  then have "of_nat (Suc n) \<le> (of_nat (2 ^ k) :: rat)" by (rule of_nat_mono)
  then show "of_nat n + 1 \<le> (2 :: rat) ^ k" by simp
qed

lemma floorlog2:
  assumes "0 < n"
  shows "0 < floorlog 2 n" "2 ^ (floorlog 2 n - 1) \<le> n" "n < 2 ^ floorlog 2 n"
proof -
  show b: "2 ^ (floorlog 2 n - 1) \<le> n" "n < 2 ^ floorlog 2 n"
    using floorlog_bounds[of n 2] assms by auto
  show "0 < floorlog 2 n" using b assms by (cases "floorlog 2 n") auto
qed

lemma ilog2_bounds_ge:
  assumes "1 \<le> x"
  shows "pow2 (ilog2 x) \<le> x \<and> x < pow2 (ilog2 x + 1)"
proof -
  define n where "n = nat \<lfloor>x\<rfloor>"
  have "1 \<le> \<lfloor>x\<rfloor>" using assms by simp
  then have n: "0 < n" and f: "\<lfloor>x\<rfloor> = int n" by (simp_all add: n_def)
  have nx: "of_nat n \<le> x" "x < of_nat n + 1"
    using of_int_floor_le[of x] floor_correct[of x] by (simp_all add: f)
  note b = floorlog2[OF n]
  have "ilog2 x = int (floorlog 2 n - 1)" "ilog2 x + 1 = int (floorlog 2 n)"
    using assms b(1) by (simp_all add: ilog2_def n_def of_nat_diff)
  then have e: "pow2 (ilog2 x) = 2 ^ (floorlog 2 n - 1)" "pow2 (ilog2 x + 1) = 2 ^ floorlog 2 n"
    by (simp_all only: pow2_nat)
  show ?thesis
    unfolding e using pow_of_nat(1)[OF b(2)] pow_of_nat(2)[OF b(3)] nx by linarith
qed

lemma ilog2_bounds_less:
  assumes "0 < x" and "x < 1"
  shows "pow2 (ilog2 x) \<le> x \<and> x < pow2 (ilog2 x + 1)"
proof -
  define y where "y = 1 / x"
  define m where "m = nat (\<lceil>y\<rceil> - 1)"
  define k where "k = floorlog 2 m"
  have "1 < y" using assms by (simp add: y_def)
  then have c: "1 < \<lceil>y\<rceil>" by linarith
  then have mi: "\<lceil>y\<rceil> = int m + 1" unfolding m_def int_nat_eq by presburger
  then have m: "0 < m" using c by linarith
  have up: "y \<le> of_nat m + 1" "of_nat m < y"
    using ceiling_correct[of y] unfolding mi by simp_all
  note b = floorlog2[OF m, folded k_def]
  have y: "y \<le> 2 ^ k" "2 ^ (k - 1) < y"
    using pow_of_nat(1)[OF b(2)] pow_of_nat(2)[OF b(3)] up by linarith+
  have x: "x = 1 / y" by (simp add: y_def)
  have "1 / 2 ^ k \<le> x" "x < 1 / 2 ^ (k - 1)"
    unfolding x using y \<open>1 < y\<close> by (simp_all add: frac_le divide_strict_left_mono)
  moreover have i: "ilog2 x = - int k"
    using assms by (simp add: ilog2_def m_def k_def y_def)
  have "pow2 (ilog2 x) = 1 / 2 ^ k" using b(1) by (simp add: i pow2_def)
  moreover have "pow2 (ilog2 x + 1) = 1 / 2 ^ (k - 1)"
    using b(1) by (cases k) (auto simp: i pow2_def)
  ultimately show ?thesis by simp
qed

lemma ilog2_bounds: "0 < x \<Longrightarrow> pow2 (ilog2 x) \<le> x \<and> x < pow2 (ilog2 x + 1)"
  using ilog2_bounds_ge[of x] ilog2_bounds_less[of x] by (cases "1 \<le> x") auto

lemma ilog2_unique:
  assumes "pow2 e \<le> x" and "x < pow2 (e + 1)"
  shows "ilog2 x = e"
proof -
  have "0 < x" using assms(1) pow2_pos[of e] by linarith
  then have b: "pow2 (ilog2 x) \<le> x" "x < pow2 (ilog2 x + 1)"
    using ilog2_bounds by auto
  show ?thesis
  proof (rule antisym; rule ccontr)
    assume "\<not> ilog2 x \<le> e"
    then have "pow2 (e + 1) \<le> pow2 (ilog2 x)" by (intro pow2_mono) simp
    then show False using assms b by linarith
  next
    assume "\<not> e \<le> ilog2 x"
    then have "pow2 (ilog2 x + 1) \<le> pow2 e" by (intro pow2_mono) simp
    then show False using assms b by linarith
  qed
qed


section \<open>The laws of rounding\<close>

lemma fl_pos_bounds:
  assumes "0 < x" and "0 < p"
  shows "pow2 (ilog2 x) \<le> fl_pos p x \<and> fl_pos p x \<le> pow2 (ilog2 x + 1)"
proof -
  let ?s = "pow2 (ilog2 x + 1 - int p)"
  have lo: "pow2 (ilog2 x) = of_int (2 ^ (p - 1)) * ?s"
    using assms(2) pow2_add[of "int (p - 1)" "ilog2 x + 1 - int p"]
    by (simp only: pow2_nat) (simp add: of_nat_diff)
  have hi: "pow2 (ilog2 x + 1) = of_int (2 ^ p) * ?s"
    using pow2_add[of "int p" "ilog2 x + 1 - int p"] by simp
  have "of_int (2 ^ (p - 1)) \<le> x / ?s" "x / ?s \<le> of_int (2 ^ p)"
    using ilog2_bounds[OF assms(1)] unfolding lo hi by (simp_all add: field_simps)
  from this[THEN round_even_mono]
  have "2 ^ (p - 1) \<le> round_even (x / ?s)" "round_even (x / ?s) \<le> 2 ^ p"
    by (simp_all only: round_even_of_int)
  then have "(of_int (2 ^ (p - 1)) :: rat) \<le> of_int (round_even (x / ?s))"
    "of_int (round_even (x / ?s)) \<le> (of_int (2 ^ p) :: rat)"
    by (simp_all only: of_int_le_iff)
  then show ?thesis
    unfolding lo hi fl_pos_def Let_def by (intro conjI mult_right_mono) (simp_all add: less_imp_le)
qed

lemma fl_pos_pos: "0 < x \<Longrightarrow> 0 < p \<Longrightarrow> 0 < fl_pos p x"
  using fl_pos_bounds[of x p] pow2_pos[of "ilog2 x"] by linarith

lemma fl_pos_mono:
  assumes "0 < x" and "x \<le> y" and "0 < p"
  shows "fl_pos p x \<le> fl_pos p y"
proof (cases "ilog2 x = ilog2 y")
  case True
  let ?s = "pow2 (ilog2 y + 1 - int p)"
  have "x / ?s \<le> y / ?s" using assms(2) by (simp add: divide_right_mono less_imp_le)
  then have "(of_int (round_even (x / ?s)) :: rat) \<le> of_int (round_even (y / ?s))"
    by (simp add: round_even_mono)
  then show ?thesis
    unfolding fl_pos_def Let_def True by (rule mult_right_mono) (simp add: less_imp_le)
next
  case False
  have y: "0 < y" using assms by simp
  have "ilog2 x < ilog2 y"
  proof (rule ccontr)
    assume "\<not> ?thesis"
    then have "pow2 (ilog2 y + 1) \<le> pow2 (ilog2 x)" using False by (intro pow2_mono) simp
    then show False using ilog2_bounds[OF assms(1)] ilog2_bounds[OF y] assms(2) by linarith
  qed
  then have "pow2 (ilog2 x + 1) \<le> pow2 (ilog2 y)" by (intro pow2_mono) simp
  then show ?thesis
    using fl_pos_bounds[OF assms(1,3)] fl_pos_bounds[OF y assms(3)] by linarith
qed

lemma fl_pos_error:
  assumes "0 < x" and "0 < p"
  shows "\<bar>fl_pos p x - x\<bar> \<le> x / 2 ^ p"
proof -
  define s where "s = pow2 (ilog2 x + 1 - int p)"
  have s: "0 < s" by (simp add: s_def)
  have "pow2 (ilog2 x + 1) = 2 ^ p * s"
    using pow2_add[of "int p" "ilog2 x + 1 - int p"] by (simp add: s_def)
  then have half: "s / 2 \<le> x / 2 ^ p"
    using ilog2_bounds[OF assms(1)] pow2_Suc[of "ilog2 x"] by (simp add: field_simps)
  have "fl_pos p x - x = (of_int (round_even (x / s)) - x / s) * s"
    using s unfolding fl_pos_def Let_def s_def[symmetric] by (simp add: left_diff_distrib)
  then have "\<bar>fl_pos p x - x\<bar> = \<bar>of_int (round_even (x / s)) - x / s\<bar> * s"
    using s by (simp add: abs_mult)
  also have "\<dots> \<le> 1 / 2 * s"
    using round_even_error[of "x / s"] s by (intro mult_right_mono) auto
  finally show ?thesis using half by linarith
qed

lemma fl_pos_exact:
  assumes "x = of_int n * pow2 e" and "0 < n" and "n \<le> 2 ^ p" and "0 < p"
  shows "fl_pos p x = x"
proof -
  have x: "0 < x" using assms by simp
  define d where "d = ilog2 x + 1 - int p"
  have "(of_int n :: rat) \<le> of_int (2 ^ p)" using assms(3) by (simp only: of_int_le_iff)
  then have "x \<le> 2 ^ p * pow2 e"
    unfolding assms(1) by (intro mult_right_mono) (simp_all add: less_imp_le)
  also have "\<dots> = pow2 (int p + e)" by (simp add: pow2_add)
  finally have le: "x \<le> pow2 (int p + e)" .
  consider "d \<le> e" | "e < d" "x = pow2 (int p + e)"
  proof (cases "d \<le> e")
    case False
    then have "pow2 (int p + e) \<le> pow2 (ilog2 x)" by (intro pow2_mono) (simp add: d_def)
    then have "x = pow2 (int p + e)" using ilog2_bounds[OF x] le by linarith
    then show thesis using False that(2) by simp
  qed (use that in blast)
  then have "\<exists>m. x / pow2 d = of_int m"
  proof cases
    case 1
    have "pow2 e = pow2 d * 2 ^ nat (e - d)"
      using pow2_add[of d "e - d"] 1 by (simp add: pow2_def)
    then have "x / pow2 d = of_int (n * 2 ^ nat (e - d))"
      unfolding assms(1) using pow2_pos[of d] by (simp add: less_imp_neq[THEN not_sym])
    then show ?thesis by blast
  next
    case 2
    have "ilog2 x = int p + e"
      by (rule ilog2_unique) (simp_all add: 2(2) pow2_Suc add.assoc[symmetric])
    then have "d = e + 1" by (simp add: d_def)
    then have "int p + e = int (p - 1) + d" using assms(4) by simp
    then have "x = 2 ^ (p - 1) * pow2 d" unfolding 2(2) by (simp only: pow2_add pow2_nat)
    then have "x / pow2 d = of_int (2 ^ (p - 1))"
      using pow2_pos[of d] by (simp add: less_imp_neq[THEN not_sym])
    then show ?thesis by blast
  qed
  then obtain m where m: "x / pow2 d = of_int m" by blast
  then have "x = of_int m * pow2 d"
    using pow2_pos[of d] by (simp add: divide_eq_eq less_imp_neq[THEN not_sym])
  then show ?thesis unfolding fl_pos_def Let_def d_def[symmetric] m by simp
qed

lemma fl_pos_idem:
  assumes "0 < x" and "0 < p"
  shows "fl_pos p (fl_pos p x) = fl_pos p x"
proof (rule fl_pos_exact)
  let ?s = "pow2 (ilog2 x + 1 - int p)"
  show e: "fl_pos p x = of_int (round_even (x / ?s)) * ?s" by (simp add: fl_pos_def Let_def)
  show "0 < round_even (x / ?s)"
    using fl_pos_pos[OF assms] unfolding e by (metis pow2_pos zero_less_mult_pos2 of_int_0_less_iff)
  have "of_int (round_even (x / ?s)) * ?s \<le> of_int (2 ^ p) * ?s"
    using fl_pos_bounds[OF assms] pow2_add[of "int p" "ilog2 x + 1 - int p"] unfolding e by simp
  then have "(of_int (round_even (x / ?s)) :: rat) \<le> of_int (2 ^ p)"
    by (rule mult_right_le_imp_le) simp
  then show "round_even (x / ?s) \<le> 2 ^ p" by (simp only: of_int_le_iff)
qed (fact assms(2))

lemma fl_0 [simp]: "fl p 0 = 0"
  by (simp add: fl_def)

lemma fl_mono:
  assumes "0 < p" and "x \<le> y"
  shows "fl p x \<le> fl p y"
proof -
  consider "x < 0" "y < 0" | "x < 0" "0 \<le> y" | "x = 0" | "0 < x" using assms by linarith
  then show ?thesis
  proof cases
    case 1
    then show ?thesis using fl_pos_mono[of "- y" "- x" p] assms by (simp add: fl_def)
  next
    case 2
    then show ?thesis using fl_pos_pos[of "- x" p] fl_pos_pos[of y p] assms by (auto simp: fl_def)
  next
    case 3
    then show ?thesis using fl_pos_pos[of y p] assms by (auto simp: fl_def)
  next
    case 4
    then show ?thesis using fl_pos_mono[of x y p] assms by (simp add: fl_def)
  qed
qed

lemma fl_error: "0 < p \<Longrightarrow> \<bar>fl p x - x\<bar> \<le> \<bar>x\<bar> / 2 ^ p"
  using fl_pos_error[of x p] fl_pos_error[of "- x" p]
  by (cases "x < 0") (auto simp: fl_def abs_minus_commute)

lemma fl_idem: "0 < p \<Longrightarrow> fl p (fl p x) = fl p x"
  using fl_pos_idem[of x p] fl_pos_idem[of "- x" p] fl_pos_pos[of x p] fl_pos_pos[of "- x" p]
  by (auto simp: fl_def)

lemma fl_of_int:
  assumes "0 < p" and "\<bar>n\<bar> \<le> 2 ^ p"
  shows "fl p (of_int n) = of_int n"
proof -
  have "fl_pos p (of_int m) = of_int m" if "0 < m" "m \<le> 2 ^ p" for m
    using fl_pos_exact[of "of_int m" m 0 p] that assms(1) by (simp add: pow2_def)
  from this[of n] this[of "- n"] show ?thesis
    using assms(2) by (auto simp: fl_def)
qed

lemma fl_pow2: "0 < p \<Longrightarrow> fl p (2 ^ k) = 2 ^ k"
  using fl_pos_exact[of "2 ^ k" 1 "int k" p] by (simp add: fl_def)

text \<open>What a client relies on: a monotone function that is idempotent and whose relative error
  is at most \<open>u\<close>.\<close>

locale rounding =
  fixes rnd :: "rat \<Rightarrow> rat" and u :: rat
  assumes rnd_mono: "x \<le> y \<Longrightarrow> rnd x \<le> rnd y"
    and rnd_0: "rnd 0 = 0"
    and rnd_1: "rnd 1 = 1"
    and rnd_idem: "rnd (rnd x) = rnd x"
    and rnd_error: "\<bar>rnd x - x\<bar> \<le> \<bar>x\<bar> * u"
    and u_nonneg: "0 \<le> u"
begin

lemma rnd_nonneg: "0 \<le> x \<Longrightarrow> 0 \<le> rnd x"
  using rnd_mono[of 0 x] by (simp add: rnd_0)

lemma rnd_nonpos: "x \<le> 0 \<Longrightarrow> rnd x \<le> 0"
  using rnd_mono[of x 0] by (simp add: rnd_0)

lemma rnd_upper: "0 \<le> x \<Longrightarrow> rnd x \<le> x * (1 + u)"
  using rnd_error[of x] by (simp add: abs_le_iff algebra_simps)

lemma rnd_le: "x \<le> y \<Longrightarrow> rnd y = y \<Longrightarrow> rnd x \<le> y"
  using rnd_mono by metis

end

lemma rounding_fl: "0 < p \<Longrightarrow> rounding (fl p) (1 / 2 ^ p)"
  using fl_error fl_of_int[of p 1]
  by unfold_locales (auto simp: fl_mono fl_idem)

interpretation ieee: rounding "fl 53" "1 / 2 ^ 53"
  by (rule rounding_fl) simp

end
