(* ===== verification/Tags.thy ===== *)
theory Tags
  imports SpanContexts Floating
begin

text \<open>
  Tags, log records and references (\<^verbatim>\<open>Tag.h\<close>, \<^verbatim>\<open>Tag.cpp\<close>, \<^verbatim>\<open>LogRecord.cpp\<close>,
  \<^verbatim>\<open>Reference.cpp\<close>) and the Thrift structures they are converted to
  (\<^verbatim>\<open>thrift-gen/jaeger_types.h\<close>). \<open>tag_value\<close> is \<^verbatim>\<open>opentracing::Value\<close>, the variant that
  OpenTracing documents. A time point is its count of nanoseconds since the epoch. An optional
  Thrift field and its \<^verbatim>\<open>__isset\<close> bit are one option.
\<close>

section \<open>Values and tags\<close>

type_synonym i64 = "64 word"
type_synonym time = int

datatype tag_value =
    VBool bool
  | VDouble double
  | VInt64 i64
  | VUInt64 u64
  | VString string
  | VNull
  | VCString string
  | VList "tag_value list"
  | VDict "(string \<times> tag_value) list"

record tag =
  tkey :: string
  tvalue :: tag_value

definition Tag :: "string \<Rightarrow> tag_value \<Rightarrow> tag" where
  "Tag k v = \<lparr>tkey = k, tvalue = v\<rparr>"

lemma Tag_sel [simp]: "tkey (Tag k v) = k" "tvalue (Tag k v) = v"
  by (simp_all add: Tag_def)

lemma Tag_inj [simp]: "Tag k v = Tag k' v' \<longleftrightarrow> k = k' \<and> v = v'"
  by (simp add: Tag_def)

section \<open>The Thrift structures\<close>

datatype tag_type = STRING | DOUBLE | BOOL | LONG | BINARY

record thrift_tag =
  tag_key :: string
  vType :: tag_type
  vStr :: "string option"
  vDouble :: "double option"
  vBool :: "bool option"
  vLong :: "i64 option"
  vBinary :: "string option"

definition thrift_tag0 :: thrift_tag where
  "thrift_tag0 = \<lparr>tag_key = [], vType = STRING, vStr = None, vDouble = None, vBool = None,
     vLong = None, vBinary = None\<rparr>"

record thrift_log =
  log_timestamp :: i64
  log_fields :: "thrift_tag list"

datatype span_ref_type = CHILD_OF | FOLLOWS_FROM

record thrift_span_ref =
  refType :: span_ref_type
  ref_traceIdLow :: i64
  ref_traceIdHigh :: i64
  ref_spanId :: i64

record thrift_span =
  span_traceIdLow :: i64
  span_traceIdHigh :: i64
  span_spanId :: i64
  span_parentSpanId :: i64
  span_operationName :: string
  span_references :: "thrift_span_ref list option"
  span_flags :: "32 word"
  span_startTime :: i64
  span_duration :: i64
  span_tags :: "thrift_tag list option"
  span_logs :: "thrift_log list option"

record thrift_process =
  process_serviceName :: string
  process_tags :: "thrift_tag list option"

definition thrift_process0 :: thrift_process where
  "thrift_process0 = \<lparr>process_serviceName = [], process_tags = None\<rparr>"

record thrift_batch =
  batch_process :: thrift_process
  batch_spans :: "thrift_span list"

section \<open>Conversions\<close>

text \<open>
  \<^verbatim>\<open>ThriftVisitor\<close>: a null, a list and a dictionary fall to the template overload, which
  does nothing.
\<close>

definition setString :: "string \<Rightarrow> thrift_tag \<Rightarrow> thrift_tag" where
  "setString value t = t\<lparr>vType := STRING, vStr := Some value\<rparr>"

definition setLong :: "i64 \<Rightarrow> thrift_tag \<Rightarrow> thrift_tag" where
  "setLong value t = t\<lparr>vType := LONG, vLong := Some value\<rparr>"

definition ThriftVisitor :: "tag_value \<Rightarrow> thrift_tag \<Rightarrow> thrift_tag" where
  "ThriftVisitor v t =
     (case v of
        VString value \<Rightarrow> setString value t
      | VCString value \<Rightarrow> setString value t
      | VDouble value \<Rightarrow> t\<lparr>vType := DOUBLE, vDouble := Some value\<rparr>
      | VBool value \<Rightarrow> t\<lparr>vType := BOOL, vBool := Some value\<rparr>
      | VInt64 value \<Rightarrow> setLong value t
      | VUInt64 value \<Rightarrow> setLong value t
      | VNull \<Rightarrow> t
      | VList _ \<Rightarrow> t
      | VDict _ \<Rightarrow> t)"

definition Tag_thrift :: "tag \<Rightarrow> thrift_tag \<Rightarrow> thrift_tag" where
  "Tag_thrift tg t = ThriftVisitor (tvalue tg) (t\<lparr>tag_key := tkey tg\<rparr>)"

definition thrift_tags :: "tag list \<Rightarrow> thrift_tag list" where
  "thrift_tags = map (\<lambda>tg. Tag_thrift tg thrift_tag0)"

text \<open>\<^verbatim>\<open>duration_cast<microseconds>\<close> divides and truncates toward zero.\<close>

definition microseconds :: "time \<Rightarrow> int" where
  "microseconds t = (if t < 0 then - (- t div 1000) else t div 1000)"

record log_record =
  timestamp :: time
  log_tags :: "tag list"

definition LogRecord :: "time \<Rightarrow> tag list \<Rightarrow> log_record" where
  "LogRecord t fs = \<lparr>timestamp = t, log_tags = fs\<rparr>"

definition LogRecord_thrift :: "log_record \<Rightarrow> thrift_log" where
  "LogRecord_thrift l =
     \<lparr>log_timestamp = word_of_int (microseconds (timestamp l)), log_fields = thrift_tags (log_tags l)\<rparr>"

text \<open>
  \<^verbatim>\<open>SpanReferenceType\<close> is an enumeration with the values 1 and 2; any other integer can be
  cast into it, and \<^verbatim>\<open>Reference::thrift\<close> throws \<^verbatim>\<open>invalid_argument\<close> on it.
\<close>

datatype reference_type = ChildOfRef | FollowsFromRef | OtherRef int

record reference =
  ref_context :: span_context
  ref_type :: reference_type

datatype exception = InvalidArgument string | SysError string int | LogicError string
  | SenderException string int | RuntimeError string | UnknownException

definition Reference_thrift :: "reference \<Rightarrow> exception + thrift_span_ref" where
  "Reference_thrift r =
     (let mk = (\<lambda>ty. \<lparr>refType = ty, ref_traceIdLow = low (traceID (ref_context r)),
          ref_traceIdHigh = high (traceID (ref_context r)), ref_spanId = spanID (ref_context r)\<rparr>)
      in case ref_type r of
           ChildOfRef \<Rightarrow> Inr (mk CHILD_OF)
         | FollowsFromRef \<Rightarrow> Inr (mk FOLLOWS_FROM)
         | OtherRef n \<Rightarrow> Inl (InvalidArgument (''Invalid span reference type '' @ int_str n @
             '', context '' @ SpanContext_print (ref_context r))))"

section \<open>What a reader of the Thrift tag sees\<close>

text \<open>
  The reader dispatches on \<open>vType\<close> and takes the field of that type. \<open>supported\<close> values are
  the ones the visitor has an overload for.
\<close>

definition thrift_value :: "thrift_tag \<Rightarrow> tag_value option" where
  "thrift_value t =
     (case vType t of
        STRING \<Rightarrow> map_option VString (vStr t)
      | DOUBLE \<Rightarrow> map_option VDouble (vDouble t)
      | BOOL \<Rightarrow> map_option VBool (vBool t)
      | LONG \<Rightarrow> map_option VInt64 (vLong t)
      | BINARY \<Rightarrow> None)"

definition supported :: "tag_value \<Rightarrow> bool" where
  "supported v = (case v of VNull \<Rightarrow> False | VList _ \<Rightarrow> False | VDict _ \<Rightarrow> False | _ \<Rightarrow> True)"

definition thrift_view :: "tag_value \<Rightarrow> tag_value" where
  "thrift_view v = (case v of VCString s \<Rightarrow> VString s | VUInt64 n \<Rightarrow> VInt64 n | _ \<Rightarrow> v)"

definition payload_fields :: "thrift_tag \<Rightarrow> nat" where
  "payload_fields t = length (filter id
     [vStr t \<noteq> None, vDouble t \<noteq> None, vBool t \<noteq> None, vLong t \<noteq> None, vBinary t \<noteq> None])"

lemmas thrift_tag_defs =
  Tag_thrift_def ThriftVisitor_def setString_def setLong_def thrift_tag0_def

lemma Tag_thrift_key [simp]: "tag_key (Tag_thrift tg t) = tkey tg"
  by (simp add: thrift_tag_defs split: tag_value.split)

lemma thrift_value_Tag:
  "thrift_value (Tag_thrift tg thrift_tag0) = (if supported (tvalue tg) then Some (thrift_view (tvalue tg)) else None)"
  by (simp add: thrift_tag_defs thrift_value_def supported_def thrift_view_def split: tag_value.split)

lemma payload_fields_Tag:
  "payload_fields (Tag_thrift tg thrift_tag0) = (if supported (tvalue tg) then 1 else 0)"
  by (simp add: thrift_tag_defs payload_fields_def supported_def split: tag_value.split)

lemma thrift_tags_keys: "map tag_key (thrift_tags tgs) = map tkey tgs"
  by (simp add: thrift_tags_def)

lemma microseconds_bounds: "\<bar>microseconds t * 1000 - t\<bar> < 1000 \<and> \<bar>microseconds t * 1000\<bar> \<le> \<bar>t\<bar>"
  by (auto simp: microseconds_def abs_if; presburger)

lemma microseconds_nonneg: "0 \<le> t \<Longrightarrow> microseconds t = t div 1000"
  by (simp add: microseconds_def)

lemma Reference_thrift_total:
  "(\<exists>s. Reference_thrift r = Inr s) \<longleftrightarrow> ref_type r \<in> {ChildOfRef, FollowsFromRef}"
  by (cases "ref_type r") (simp_all add: Reference_thrift_def)

text \<open>A tag of a supported type becomes a Thrift tag with its key, exactly one payload field,
  the one its type names, and that field reads back as the value (a C string as a string, an
  unsigned integer as the signed one with the same bits); null, list and dictionary values are
  sent as a string tag without any payload.\<close>

theorem tag_thrift_faithful:
  "tag_key (Tag_thrift tg thrift_tag0) = tkey tg \<and>
   thrift_value (Tag_thrift tg thrift_tag0) =
     (if supported (tvalue tg) then Some (thrift_view (tvalue tg)) else None) \<and>
   payload_fields (Tag_thrift tg thrift_tag0) = (if supported (tvalue tg) then 1 else 0)"
  by (simp add: thrift_value_Tag payload_fields_Tag)

end
