(* ===== verification/Samplers.thy ===== *)
theory Samplers
  imports Tags Metrics
begin

text \<open>
  The samplers (\<^verbatim>\<open>samplers/*\<close>) and the rate limiter (\<^verbatim>\<open>utils/RateLimiter.h\<close>). One record per
  class, a datatype for the class hierarchy, \<open>Sampler_isSampled\<close> for the virtual call. A call
  is given what it reads off the clock, in nanoseconds; \<open>ld\<close> is the precision of \<^verbatim>\<open>long double\<close>.
\<close>

definition kSamplerTypeTagKey :: string where "kSamplerTypeTagKey = ''sampler.type''"
definition kSamplerParamTagKey :: string where "kSamplerParamTagKey = ''sampler.param''"
definition kSamplerTypeConst :: string where "kSamplerTypeConst = ''const''"
definition kSamplerTypeRemote :: string where "kSamplerTypeRemote = ''remote''"
definition kSamplerTypeProbabilistic :: string where "kSamplerTypeProbabilistic = ''probabilistic''"
definition kSamplerTypeRateLimiting :: string where "kSamplerTypeRateLimiting = ''ratelimiting''"
definition kSamplerTypeLowerBound :: string where "kSamplerTypeLowerBound = ''lowerbound''"

lemmas sampler_constants =
  kSamplerTypeTagKey_def kSamplerParamTagKey_def kSamplerTypeConst_def kSamplerTypeRemote_def
  kSamplerTypeProbabilistic_def kSamplerTypeRateLimiting_def kSamplerTypeLowerBound_def

record sampling_status =
  st_isSampled :: bool
  st_tags :: "tag list"

definition SamplingStatus :: "bool \<Rightarrow> tag list \<Rightarrow> sampling_status" where
  "SamplingStatus b ts = \<lparr>st_isSampled = b, st_tags = ts\<rparr>"

section \<open>The rate limiter\<close>

record rate_limiter =
  creditsPerSecond :: double
  maxBalance :: double
  balance :: double
  lastTick :: time

definition RateLimiter :: "double \<Rightarrow> double \<Rightarrow> time \<Rightarrow> rate_limiter" where
  "RateLimiter credits maxb now =
     \<lparr>creditsPerSecond = credits, maxBalance = maxb, balance = maxb, lastTick = now\<rparr>"

text \<open>\<^verbatim>\<open>duration<double>\<close> of a difference of nanosecond counts.\<close>

definition seconds :: "time \<Rightarrow> double" where
  "seconds ns = fl 53 (fl 53 (of_int ns) / 1000000000)"

definition checkCredit :: "double \<Rightarrow> time \<Rightarrow> rate_limiter \<Rightarrow> bool \<times> rate_limiter" where
  "checkCredit itemCost currentTime r =
     (let elapsed = seconds (currentTime - lastTick r);
          b1 = fl 53 (balance r + fl 53 (elapsed * creditsPerSecond r));
          b2 = (if b1 > maxBalance r then maxBalance r else b1);
          r' = r\<lparr>lastTick := currentTime\<rparr>
      in if b2 \<ge> itemCost then (True, r'\<lparr>balance := fl 53 (b2 - itemCost)\<rparr>)
         else (False, r'\<lparr>balance := b2\<rparr>))"

section \<open>The simple samplers\<close>

record const_sampler =
  decision :: bool
  const_tags :: "tag list"

definition ConstSampler :: "bool \<Rightarrow> const_sampler" where
  "ConstSampler sample = \<lparr>decision = sample,
     const_tags = [Tag kSamplerTypeTagKey (VCString kSamplerTypeConst), Tag kSamplerParamTagKey (VBool sample)]\<rparr>"

definition Const_isSampled :: "const_sampler \<Rightarrow> sampling_status" where
  "Const_isSampled s = SamplingStatus (decision s) (const_tags s)"

record probabilistic_sampler =
  samplingRate :: double
  samplingBoundary :: u64
  prob_tags :: "tag list"

definition kMaxRandomNumber :: u64 where "kMaxRandomNumber = 0xFFFFFFFFFFFFFFFF"

definition computeSamplingBoundary :: "nat \<Rightarrow> double \<Rightarrow> u64" where
  "computeSamplingBoundary ld rate =
     (let maxRandNumber = fl ld (of_nat (unat kMaxRandomNumber));
          boundary = fl ld (rate * maxRandNumber)
      in if boundary = maxRandNumber then kMaxRandomNumber else word_of_int \<lfloor>boundary\<rfloor>)"

definition ProbabilisticSampler :: "nat \<Rightarrow> double \<Rightarrow> probabilistic_sampler" where
  "ProbabilisticSampler ld rate =
     (let r = max 0 (min rate 1)
      in \<lparr>samplingRate = r, samplingBoundary = computeSamplingBoundary ld r,
          prob_tags = [Tag kSamplerTypeTagKey (VCString kSamplerTypeProbabilistic),
            Tag kSamplerParamTagKey (VDouble r)]\<rparr>)"

definition Prob_isSampled :: "trace_id \<Rightarrow> probabilistic_sampler \<Rightarrow> sampling_status" where
  "Prob_isSampled tid s = SamplingStatus (samplingBoundary s \<ge> low tid) (prob_tags s)"

record rate_limiting_sampler =
  maxTracesPerSecond :: double
  rateLimiter :: rate_limiter
  rate_tags :: "tag list"

definition RateLimitingSampler :: "double \<Rightarrow> time \<Rightarrow> rate_limiting_sampler" where
  "RateLimitingSampler mx now =
     \<lparr>maxTracesPerSecond = mx, rateLimiter = RateLimiter mx (max mx 1) now,
      rate_tags = [Tag kSamplerTypeTagKey (VCString kSamplerTypeRateLimiting),
        Tag kSamplerParamTagKey (VDouble mx)]\<rparr>"

definition Rate_isSampled :: "time \<Rightarrow> rate_limiting_sampler \<Rightarrow> sampling_status \<times> rate_limiting_sampler" where
  "Rate_isSampled now s =
     (case checkCredit 1 now (rateLimiter s) of
        (ok, r) \<Rightarrow> (SamplingStatus ok (rate_tags s), s\<lparr>rateLimiter := r\<rparr>))"

section \<open>The guaranteed throughput sampler\<close>

record guaranteed_sampler =
  g_probabilistic :: probabilistic_sampler
  g_samplingRate :: double
  g_lowerBoundSampler :: rate_limiting_sampler
  g_lowerBound :: double
  g_tags :: "tag list"

definition lower_bound_tags :: "double \<Rightarrow> tag list" where
  "lower_bound_tags r = [Tag kSamplerTypeTagKey (VCString kSamplerTypeLowerBound),
     Tag kSamplerParamTagKey (VDouble r)]"

definition GuaranteedSampler :: "nat \<Rightarrow> double \<Rightarrow> double \<Rightarrow> time \<Rightarrow> guaranteed_sampler" where
  "GuaranteedSampler ld lowerBound rate now =
     (let p = ProbabilisticSampler ld rate
      in \<lparr>g_probabilistic = p, g_samplingRate = samplingRate p,
          g_lowerBoundSampler = RateLimitingSampler lowerBound now, g_lowerBound = lowerBound,
          g_tags = lower_bound_tags (samplingRate p)\<rparr>)"

definition Guaranteed_isSampled ::
  "time \<Rightarrow> trace_id \<Rightarrow> guaranteed_sampler \<Rightarrow> sampling_status \<times> guaranteed_sampler" where
  "Guaranteed_isSampled now tid s =
     (let samplingStatus = Prob_isSampled tid (g_probabilistic s);
          (lb, ls) = Rate_isSampled now (g_lowerBoundSampler s);
          s' = s\<lparr>g_lowerBoundSampler := ls\<rparr>
      in if st_isSampled samplingStatus then (samplingStatus, s')
         else (SamplingStatus (st_isSampled lb) (g_tags s), s'))"

definition Guaranteed_update ::
  "nat \<Rightarrow> double \<Rightarrow> double \<Rightarrow> time \<Rightarrow> guaranteed_sampler \<Rightarrow> guaranteed_sampler" where
  "Guaranteed_update ld lowerBound rate now s =
     (let s1 = (if g_samplingRate s \<noteq> rate then
                  let p = ProbabilisticSampler ld rate
                  in s\<lparr>g_probabilistic := p, g_samplingRate := samplingRate p,
                       g_tags := lower_bound_tags (samplingRate p)\<rparr>
                else s)
      in if g_lowerBound s1 \<noteq> lowerBound then
           s1\<lparr>g_lowerBoundSampler := RateLimitingSampler lowerBound now, g_lowerBound := lowerBound\<rparr>
         else s1)"

section \<open>The adaptive sampler\<close>

record operation_strategy =
  os_operation :: string
  os_samplingRate :: double

record per_operation_strategies =
  defaultSamplingProbability :: double
  defaultLowerBoundTracesPerSecond :: double
  perOperationStrategies :: "operation_strategy list"
  defaultUpperBoundTracesPerSecond :: "double option"

record adaptive_sampler =
  a_samplers :: "(string \<times> guaranteed_sampler) list"
  a_defaultSampler :: probabilistic_sampler
  a_lowerBound :: double
  a_maxOperations :: nat

definition samplersFromStrategies ::
  "nat \<Rightarrow> per_operation_strategies \<Rightarrow> time \<Rightarrow> (string \<times> guaranteed_sampler) list" where
  "samplersFromStrategies ld strategies now =
     foldl (\<lambda>m s. AList.update (os_operation s)
         (GuaranteedSampler ld (defaultLowerBoundTracesPerSecond strategies) (os_samplingRate s) now) m)
       [] (perOperationStrategies strategies)"

definition AdaptiveSampler :: "nat \<Rightarrow> per_operation_strategies \<Rightarrow> nat \<Rightarrow> time \<Rightarrow> adaptive_sampler" where
  "AdaptiveSampler ld strategies maxOperations now =
     \<lparr>a_samplers = samplersFromStrategies ld strategies now,
      a_defaultSampler = ProbabilisticSampler ld (defaultSamplingProbability strategies),
      a_lowerBound = defaultLowerBoundTracesPerSecond strategies,
      a_maxOperations = maxOperations\<rparr>"

text \<open>\<open>t0\<close> is what the constructor of a new rate limiter reads off the clock, \<open>now\<close> the check.\<close>

definition Adaptive_isSampled ::
  "nat \<Rightarrow> time \<Rightarrow> time \<Rightarrow> trace_id \<Rightarrow> string \<Rightarrow> adaptive_sampler \<Rightarrow> sampling_status \<times> adaptive_sampler" where
  "Adaptive_isSampled ld t0 now tid operation s =
     (case map_of (a_samplers s) operation of
        Some g \<Rightarrow>
          (case Guaranteed_isSampled now tid g of
             (st, g') \<Rightarrow> (st, s\<lparr>a_samplers := AList.update operation g' (a_samplers s)\<rparr>))
      | None \<Rightarrow>
          if length (a_samplers s) \<ge> a_maxOperations s then (Prob_isSampled tid (a_defaultSampler s), s)
          else
            let newSampler = GuaranteedSampler ld (a_lowerBound s) (samplingRate (a_defaultSampler s)) t0
            in case Guaranteed_isSampled now tid newSampler of
                 (st, g') \<Rightarrow> (st, s\<lparr>a_samplers := AList.update operation g' (a_samplers s)\<rparr>))"

definition Adaptive_update ::
  "nat \<Rightarrow> per_operation_strategies \<Rightarrow> time \<Rightarrow> adaptive_sampler \<Rightarrow> adaptive_sampler" where
  "Adaptive_update ld strategies now s =
     (let lowerBound = defaultLowerBoundTracesPerSecond strategies
      in foldl (\<lambda>s strategy.
           let rate = os_samplingRate strategy in
           case map_of (a_samplers s) (os_operation strategy) of
             Some g \<Rightarrow> s\<lparr>a_samplers := AList.update (os_operation strategy)
               (Guaranteed_update ld lowerBound rate now g) (a_samplers s)\<rparr>
           | None \<Rightarrow> s\<lparr>a_samplers := AList.update (os_operation strategy)
               (GuaranteedSampler ld lowerBound rate now) (a_samplers s)\<rparr>)
         s (perOperationStrategies strategies))"

section \<open>The class hierarchy\<close>

datatype sampler =
    SConst const_sampler
  | SProbabilistic probabilistic_sampler
  | SRateLimiting rate_limiting_sampler
  | SGuaranteed guaranteed_sampler
  | SAdaptive adaptive_sampler
  | SRemote (remote_inner: sampler) (remote_maxOperations: int) (remote_running: bool)

datatype sampler_type = kAdaptiveSampler | kConstSampler | kGuaranteedThroughputProbabilisticSampler
  | kProbabilisticSampler | kRateLimitingSampler | kRemotelyControlledSampler

fun Sampler_type :: "sampler \<Rightarrow> sampler_type" where
  "Sampler_type (SConst _) = kConstSampler"
| "Sampler_type (SProbabilistic _) = kProbabilisticSampler"
| "Sampler_type (SRateLimiting _) = kRateLimitingSampler"
| "Sampler_type (SGuaranteed _) = kGuaranteedThroughputProbabilisticSampler"
| "Sampler_type (SAdaptive _) = kAdaptiveSampler"
| "Sampler_type (SRemote _ _ _) = kRemotelyControlledSampler"

fun Sampler_isSampled ::
  "nat \<Rightarrow> time \<Rightarrow> time \<Rightarrow> trace_id \<Rightarrow> string \<Rightarrow> sampler \<Rightarrow> sampling_status \<times> sampler" where
  "Sampler_isSampled ld t0 now tid operation (SConst s) = (Const_isSampled s, SConst s)"
| "Sampler_isSampled ld t0 now tid operation (SProbabilistic s) = (Prob_isSampled tid s, SProbabilistic s)"
| "Sampler_isSampled ld t0 now tid operation (SRateLimiting s) =
     (case Rate_isSampled now s of (st, s') \<Rightarrow> (st, SRateLimiting s'))"
| "Sampler_isSampled ld t0 now tid operation (SGuaranteed s) =
     (case Guaranteed_isSampled now tid s of (st, s') \<Rightarrow> (st, SGuaranteed s'))"
| "Sampler_isSampled ld t0 now tid operation (SAdaptive s) =
     (case Adaptive_isSampled ld t0 now tid operation s of (st, s') \<Rightarrow> (st, SAdaptive s'))"
| "Sampler_isSampled ld t0 now tid operation (SRemote s m r) =
     (case Sampler_isSampled ld t0 now tid operation s of (st, s') \<Rightarrow> (st, SRemote s' m r))"

fun Sampler_close :: "sampler \<Rightarrow> sampler" where
  "Sampler_close (SRemote s m r) = SRemote s m False"
| "Sampler_close s = s"

section \<open>Remote control\<close>

datatype strategy_type = PROBABILISTIC | RATE_LIMITING

record strategy_response =
  strategyType :: strategy_type
  resp_probabilistic :: "double option"
  resp_rateLimiting :: "int option"
  resp_operation :: "per_operation_strategies option"

definition strategy_response0 :: strategy_response where
  "strategy_response0 = \<lparr>strategyType = PROBABILISTIC, resp_probabilistic = None,
     resp_rateLimiting = None, resp_operation = None\<rparr>"

definition updateAdaptiveSampler ::
  "nat \<Rightarrow> per_operation_strategies \<Rightarrow> int \<Rightarrow> time \<Rightarrow> sampler \<Rightarrow> sampler" where
  "updateAdaptiveSampler ld strategies maxOperations now s =
     (case s of
        SAdaptive a \<Rightarrow> SAdaptive (Adaptive_update ld strategies now a)
      | _ \<Rightarrow> SAdaptive (AdaptiveSampler ld strategies (unat (word_of_int maxOperations :: u64)) now))"

text \<open>\<^term>\<open>None\<close> is the \<^verbatim>\<open>runtime_error\<close> of an unsupported strategy.\<close>

definition updateRateLimitingOrProbabilisticSampler ::
  "nat \<Rightarrow> strategy_response \<Rightarrow> time \<Rightarrow> sampler option" where
  "updateRateLimitingOrProbabilisticSampler ld response now =
     (case resp_probabilistic response of
        Some rate \<Rightarrow> Some (SProbabilistic (ProbabilisticSampler ld rate))
      | None \<Rightarrow>
          case resp_rateLimiting response of
            Some mx \<Rightarrow> Some (SRateLimiting (RateLimitingSampler (of_int mx) now))
          | None \<Rightarrow> None)"

text \<open>\<open>fetched\<close> is what the sampling manager gives: an exception, or a response.\<close>

definition updateSampler ::
  "nat \<Rightarrow> strategy_response option \<Rightarrow> time \<Rightarrow> sampler \<Rightarrow> metrics \<Rightarrow> sampler \<times> metrics" where
  "updateSampler ld fetched now s ms =
     (case s of
        SRemote inner maxOperations running \<Rightarrow>
          (case fetched of
             None \<Rightarrow> (s, inc SamplerQueryFailure 1 ms)
           | Some response \<Rightarrow>
               let ms1 = inc SamplerRetrieved 1 ms in
               case resp_operation response of
                 Some strategies \<Rightarrow>
                   (SRemote (updateAdaptiveSampler ld strategies maxOperations now inner) maxOperations running,
                    inc SamplerUpdated 1 ms1)
               | None \<Rightarrow>
                   case updateRateLimitingOrProbabilisticSampler ld response now of
                     None \<Rightarrow> (s, inc SamplerUpdateFailure 1 ms1)
                   | Some inner' \<Rightarrow> (SRemote inner' maxOperations running, inc SamplerUpdated 1 ms1))
      | _ \<Rightarrow> (s, ms))"

end
