(* ===== verification/SamplerLaws.thy ===== *)
theory SamplerLaws
  imports Samplers
begin

text \<open>
  What the samplers guarantee: the probabilistic boundary never overflows, is monotone in the
  rate and selects the right share of all trace ids; the rate limiter is a token bucket, the
  rounding of \<^verbatim>\<open>double\<close> included; the adaptive sampler tracks a bounded number of
  operations and keeps them apart; every sampler tags what it samples.
\<close>

section \<open>The probabilistic boundary\<close>

definition max_random :: "nat \<Rightarrow> double" where
  "max_random ld = fl ld (2 ^ 64 - 1)"

definition boundary_of :: "nat \<Rightarrow> double \<Rightarrow> double" where
  "boundary_of ld r = fl ld (r * max_random ld)"

lemma computeSamplingBoundary_eq:
  "computeSamplingBoundary ld r =
     (if boundary_of ld r = max_random ld then 0xFFFFFFFFFFFFFFFF else word_of_int \<lfloor>boundary_of ld r\<rfloor>)"
  by (simp add: computeSamplingBoundary_def boundary_of_def max_random_def kMaxRandomNumber_def)

lemma max_random_bounds:
  assumes "0 < ld"
  shows "0 \<le> max_random ld" "max_random ld \<le> 2 ^ 64"
proof -
  show "0 \<le> max_random ld"
    using fl_mono[OF assms, of 0 "2 ^ 64 - 1"] by (simp add: max_random_def)
  show "max_random ld \<le> 2 ^ 64"
    using fl_mono[OF assms, of "2 ^ 64 - 1" "2 ^ 64"] fl_pow2[OF assms, of 64]
    by (simp add: max_random_def)
qed

lemma max_random_pos: "0 < ld \<Longrightarrow> max_random ld \<noteq> 0"
  using fl_mono[of ld 1 "2 ^ 64 - 1"] fl_pow2[of ld 0] by (simp add: max_random_def)

lemma boundary_mono:
  "0 < ld \<Longrightarrow> r \<le> r' \<Longrightarrow> boundary_of ld r \<le> boundary_of ld r'"
  unfolding boundary_of_def
  by (intro fl_mono mult_right_mono) (simp_all add: max_random_bounds)

lemma boundary_0 [simp]: "boundary_of ld 0 = 0"
  by (simp add: boundary_of_def)

lemma boundary_1: "0 < ld \<Longrightarrow> boundary_of ld 1 = max_random ld"
  by (simp add: boundary_of_def max_random_def fl_idem)

lemma boundary_range:
  assumes "0 < ld" and "0 \<le> r" and "r \<le> 1"
  shows "0 \<le> boundary_of ld r" "boundary_of ld r \<le> max_random ld"
  using boundary_mono[OF assms(1,2)] boundary_mono[OF assms(1,3)] boundary_1[OF assms(1)] by simp_all

lemma boundary_floor_range:
  assumes "0 < ld" and "0 \<le> r" and "r \<le> 1" and "boundary_of ld r \<noteq> max_random ld"
  shows "0 \<le> \<lfloor>boundary_of ld r\<rfloor>" "\<lfloor>boundary_of ld r\<rfloor> < 2 ^ 64"
proof -
  have "boundary_of ld r < 2 ^ 64"
    using boundary_range[OF assms(1-3)] max_random_bounds[OF assms(1)] assms(4) by linarith
  then show "0 \<le> \<lfloor>boundary_of ld r\<rfloor>" "\<lfloor>boundary_of ld r\<rfloor> < 2 ^ 64"
    using boundary_range(1)[OF assms(1-3)] by (simp_all add: floor_less_iff)
qed

lemma int_unat_word_of_int: "0 \<le> k \<Longrightarrow> k < 2 ^ 64 \<Longrightarrow> int (unat (word_of_int k :: u64)) = k"
  by (simp add: unat_eq_nat_uint uint_word_of_int_eq take_bit_int_eq_self)

lemma unat_boundary:
  assumes "0 < ld" and "0 \<le> r" and "r \<le> 1"
  shows "int (unat (computeSamplingBoundary ld r)) =
    (if boundary_of ld r = max_random ld then 2 ^ 64 - 1 else \<lfloor>boundary_of ld r\<rfloor>)"
proof (cases "boundary_of ld r = max_random ld")
  case True
  then show ?thesis by (simp add: computeSamplingBoundary_eq)
next
  case False
  then show ?thesis
    using int_unat_word_of_int[OF boundary_floor_range[OF assms False]]
    by (simp only: computeSamplingBoundary_eq if_False)
qed

lemma computeSamplingBoundary_mono:
  assumes "0 < ld" and "0 \<le> r" and "r \<le> r'" and "r' \<le> 1"
  shows "computeSamplingBoundary ld r \<le> computeSamplingBoundary ld r'"
proof -
  have r: "0 \<le> r" "r \<le> 1" and r': "0 \<le> r'" "r' \<le> 1" using assms by simp_all
  have le: "boundary_of ld r \<le> boundary_of ld r'" by (rule boundary_mono[OF assms(1,3)])
  have "int (unat (computeSamplingBoundary ld r)) \<le> int (unat (computeSamplingBoundary ld r'))"
    using boundary_floor_range(2)[OF assms(1) r] floor_mono[OF le] le boundary_range(2)[OF assms(1) r']
    unfolding unat_boundary[OF assms(1) r] unat_boundary[OF assms(1) r'] by (auto split: if_splits)
  then show ?thesis by (simp only: of_nat_le_iff word_le_nat_alt)
qed

lemma card_word_atMost: "card {l. l \<le> (b :: u64)} = unat b + 1"
proof -
  have "unat ` {l. l \<le> b} = {..unat b}"
  proof (intro equalityI subsetI)
    fix n assume "n \<in> {..unat b}"
    then have le: "n \<le> unat b" by simp
    then have "unat (of_nat n :: u64) = n"
      using unsigned_less[of b, where 'a = nat] by (simp add: unat_of_nat take_bit_nat_eq_self)
    then show "n \<in> unat ` {l. l \<le> b}"
      using le by (intro image_eqI[of _ _ "of_nat n"]) (auto simp: word_le_nat_alt)
  qed (auto simp: word_le_nat_alt)
  moreover have "inj_on unat {l. l \<le> b}"
    by (rule inj_onI) (simp add: word_eq_iff_unsigned[where 'a = nat])
  ultimately show ?thesis using card_image by fastforce
qed

lemma sampled_share:
  assumes "64 \<le> ld" and "0 \<le> r" and "r \<le> 1"
  shows "\<bar>of_nat (card {l. l \<le> computeSamplingBoundary ld r}) - r * 2 ^ 64\<bar> \<le> (3 :: rat)"
proof -
  have ld: "0 < ld" using assms(1) by simp
  have M: "max_random ld = 2 ^ 64 - 1"
  proof -
    have "(2 :: int) ^ 64 \<le> 2 ^ ld" using assms(1) by (rule power_increasing) simp
    then show ?thesis
      using fl_of_int[OF ld, of "2 ^ 64 - 1"] by (simp add: max_random_def)
  qed
  define x where "x = r * (2 ^ 64 - 1)"
  have x: "0 \<le> x" "x \<le> 2 ^ 64 - 1" using assms by (simp_all add: x_def)
  have e: "\<bar>boundary_of ld r - x\<bar> \<le> 1"
  proof -
    have "\<bar>fl ld x - x\<bar> \<le> \<bar>x\<bar> / 2 ^ ld" by (rule fl_error[OF ld])
    also have "\<dots> \<le> 2 ^ 64 / 2 ^ 64"
      using x assms(1) by (intro frac_le power_increasing) simp_all
    finally show ?thesis by (simp add: boundary_of_def M x_def)
  qed
  define b where "b = unat (computeSamplingBoundary ld r)"
  have "of_int (int b) = (of_int (if boundary_of ld r = max_random ld then 2 ^ 64 - 1
      else \<lfloor>boundary_of ld r\<rfloor>) :: rat)"
    unfolding b_def unat_boundary[OF ld assms(2,3)] ..
  then have b: "boundary_of ld r - 1 < of_nat b \<and> of_nat b \<le> boundary_of ld r"
    using M floor_correct[of "boundary_of ld r"] by (simp split: if_splits)
  have "r * 2 ^ 64 = x + r" by (simp add: x_def algebra_simps)
  then show ?thesis
    using b e assms(2,3) unfolding card_word_atMost b_def[symmetric] by simp linarith
qed

section \<open>The token bucket\<close>

abbreviation eps :: rat where "eps \<equiv> 1 / 2 ^ 53"

definition limiter_ok :: "rate_limiter \<Rightarrow> bool" where
  "limiter_ok r \<longleftrightarrow> 0 \<le> creditsPerSecond r \<and> 0 \<le> balance r \<and> balance r \<le> maxBalance r \<and>
     fl 53 (maxBalance r) = maxBalance r"

lemma limiter_ok_new: "0 \<le> c \<Longrightarrow> 0 \<le> m \<Longrightarrow> fl 53 m = m \<Longrightarrow> limiter_ok (RateLimiter c m now)"
  by (simp add: limiter_ok_def RateLimiter_def)

lemma seconds_bounds:
  assumes "0 \<le> ns"
  shows "0 \<le> seconds ns" "seconds ns \<le> of_int ns / 1000000000 * (1 + eps) ^ 2"
proof -
  have a: "0 \<le> fl 53 (of_int ns)" using assms by (simp add: ieee.rnd_nonneg)
  then show "0 \<le> seconds ns" by (simp add: seconds_def ieee.rnd_nonneg)
  have "seconds ns \<le> fl 53 (of_int ns) / 1000000000 * (1 + eps)"
    unfolding seconds_def using a by (intro ieee.rnd_upper) simp
  also have "\<dots> \<le> (of_int ns * (1 + eps)) / 1000000000 * (1 + eps)"
    using assms by (intro mult_right_mono divide_right_mono ieee.rnd_upper) simp_all
  finally show "seconds ns \<le> of_int ns / 1000000000 * (1 + eps) ^ 2"
    by (simp add: power2_eq_square)
qed

lemma checkCredit_unchanged:
  assumes "checkCredit cost now r = (ok, r')"
  shows "creditsPerSecond r' = creditsPerSecond r" "maxBalance r' = maxBalance r" "lastTick r' = now"
  using assms by (auto simp: checkCredit_def Let_def split: if_splits)

text \<open>The balance after the refill, and what a check makes of it.\<close>

definition refilled :: "time \<Rightarrow> rate_limiter \<Rightarrow> double" where
  "refilled now r =
     min (fl 53 (balance r + fl 53 (seconds (now - lastTick r) * creditsPerSecond r))) (maxBalance r)"

lemma checkCredit_cases:
  "checkCredit cost now r =
     (if refilled now r \<ge> cost then (True, r\<lparr>lastTick := now, balance := fl 53 (refilled now r - cost)\<rparr>)
      else (False, r\<lparr>lastTick := now, balance := refilled now r\<rparr>))"
proof -
  have "refilled now r =
    (let b1 = fl 53 (balance r + fl 53 (seconds (now - lastTick r) * creditsPerSecond r))
     in if b1 > maxBalance r then maxBalance r else b1)"
    by (simp add: refilled_def min_def Let_def)
  then show ?thesis by (simp add: checkCredit_def Let_def)
qed

lemma refilled_bounds:
  assumes "limiter_ok r" and "lastTick r \<le> now"
  shows "0 \<le> refilled now r" "refilled now r \<le> maxBalance r"
    "refilled now r \<le> (balance r + of_int (now - lastTick r) / 1000000000 * creditsPerSecond r) * (1 + eps) ^ 4"
proof -
  let ?s = "seconds (now - lastTick r)" and ?c = "creditsPerSecond r"
  let ?t = "of_int (now - lastTick r) / 1000000000 :: rat"
  have c: "0 \<le> ?c" and b: "0 \<le> balance r" "balance r \<le> maxBalance r"
    using assms(1) by (simp_all add: limiter_ok_def)
  note s = seconds_bounds[of "now - lastTick r"]
  have s0: "0 \<le> ?s" using s assms(2) by simp
  have i0: "0 \<le> fl 53 (?s * ?c)" using s0 c by (simp add: ieee.rnd_nonneg)
  show "0 \<le> refilled now r" "refilled now r \<le> maxBalance r"
    using i0 b by (simp_all add: refilled_def ieee.rnd_nonneg)
  have "fl 53 (?s * ?c) \<le> ?s * ?c * (1 + eps)" using s0 c by (intro ieee.rnd_upper) simp
  also have "\<dots> \<le> (?t * (1 + eps) ^ 2) * ?c * (1 + eps)"
    using s(2) assms(2) c by (intro mult_right_mono) simp_all
  finally have i: "fl 53 (?s * ?c) \<le> ?t * ?c * (1 + eps) ^ 3"
    by (simp add: power2_eq_square power3_eq_cube mult_ac)
  have "balance r \<le> balance r * (1 + eps) ^ 3"
    using b mult_left_mono[of 1 "(1 + eps) ^ 3" "balance r"] by simp
  then have "balance r + fl 53 (?s * ?c) \<le> (balance r + ?t * ?c) * (1 + eps) ^ 3"
    using i by (simp only: distrib_right)
  moreover have "refilled now r \<le> (balance r + fl 53 (?s * ?c)) * (1 + eps)"
    using ieee.rnd_upper[of "balance r + fl 53 (?s * ?c)"] i0 b by (simp add: refilled_def)
  ultimately have "refilled now r \<le> ((balance r + ?t * ?c) * (1 + eps) ^ 3) * (1 + eps)"
    by (meson order_trans mult_right_mono[of _ _ "1 + eps"] le_add_same_cancel1 zero_le_divide_1_iff
        zero_le_numeral zero_le_power add_nonneg_nonneg zero_le_one)
  also have "\<dots> = (balance r + ?t * ?c) * (1 + eps) ^ 4"
    by (simp only: mult.assoc flip: power_Suc2) simp
  finally show "refilled now r \<le> (balance r + ?t * ?c) * (1 + eps) ^ 4" .
qed

lemma checkCredit_step:
  assumes "limiter_ok r" and "lastTick r \<le> now" and "checkCredit 1 now r = (ok, r')"
  shows "limiter_ok r'"
    "of_bool ok + balance r' \<le>
      (balance r + of_int (now - lastTick r) / 1000000000 * creditsPerSecond r) * (1 + eps) ^ 5"
proof -
  note f = refilled_bounds[OF assms(1,2)]
  have c: "0 \<le> creditsPerSecond r" and m: "fl 53 (maxBalance r) = maxBalance r"
    using assms(1) by (simp_all add: limiter_ok_def)
  let ?x = "balance r + of_int (now - lastTick r) / 1000000000 * creditsPerSecond r"
  have e: "(1 :: rat) \<le> 1 + eps" by simp
  have gen: "(y - 1) * (1 + d) \<le> y * (1 + d) - 1" if "0 \<le> d" for y d :: rat
    using that by (simp add: algebra_simps)
  have x5: "refilled now r * (1 + eps) \<le> ?x * (1 + eps) ^ 5"
    using mult_right_mono[OF f(3), of "1 + eps"] by (simp only: mult.assoc flip: power_Suc2) simp
  have r1: "refilled now r \<le> refilled now r * (1 + eps)"
    using mult_left_mono[OF e f(1)] by simp
  have "limiter_ok r' \<and> of_bool ok + balance r' \<le> ?x * (1 + eps) ^ 5"
  proof (cases "1 \<le> refilled now r")
    case True
    then have r': "ok" "r' = r\<lparr>lastTick := now, balance := fl 53 (refilled now r - 1)\<rparr>"
      using assms(3) by (simp_all add: checkCredit_cases)
    have "fl 53 (refilled now r - 1) \<le> (refilled now r - 1) * (1 + eps)"
      using True by (intro ieee.rnd_upper) simp
    also have "\<dots> \<le> refilled now r * (1 + eps) - 1" by (rule gen) simp
    finally have up: "1 + fl 53 (refilled now r - 1) \<le> refilled now r * (1 + eps)" by simp
    have "fl 53 (refilled now r - 1) \<le> maxBalance r"
      using assms(1) f(2) ieee.rnd_mono[of "refilled now r - 1" "maxBalance r"]
      by (simp add: limiter_ok_def)
    then show ?thesis
      using r' True c m up x5 by (simp add: limiter_ok_def ieee.rnd_nonneg)
  next
    case False
    then have r': "\<not> ok" "r' = r\<lparr>lastTick := now, balance := refilled now r\<rparr>"
      using assms(3) by (simp_all add: checkCredit_cases)
    then show ?thesis
      using f c m r1 x5 by (simp add: limiter_ok_def)
  qed
  then show "limiter_ok r'" "of_bool ok + balance r' \<le> ?x * (1 + eps) ^ 5" by simp_all
qed

text \<open>A run of checks at the given times, with the number that were granted.\<close>

fun check_run :: "time list \<Rightarrow> rate_limiter \<Rightarrow> nat \<times> rate_limiter" where
  "check_run [] r = (0, r)"
| "check_run (t # ts) r =
     (case checkCredit 1 t r of (ok, r1) \<Rightarrow>
        case check_run ts r1 of (n, r2) \<Rightarrow> (of_bool ok + n, r2))"

lemma token_bucket:
  assumes "limiter_ok r" and "sorted (lastTick r # ts)" and "check_run ts r = (n, r')"
  shows "limiter_ok r' \<and> of_nat n + balance r' \<le>
    (balance r + of_int (last (lastTick r # ts) - lastTick r) / 1000000000 * creditsPerSecond r)
      * (1 + eps) ^ (5 * length ts)"
  using assms
proof (induction ts arbitrary: r n r')
  case Nil
  then show ?case by simp
next
  case (Cons t ts)
  obtain ok r1 where 1: "checkCredit 1 t r = (ok, r1)" by fastforce
  obtain m where m: "check_run ts r1 = (m, r')" "n = of_bool ok + m"
    using Cons.prems(3) 1 by (auto split: prod.splits)
  have t: "lastTick r \<le> t" using Cons.prems(2) by simp
  note u = checkCredit_unchanged[OF 1]
  note st = checkCredit_step[OF Cons.prems(1) t 1]
  have so: "sorted (lastTick r1 # ts)" using Cons.prems(2) u(3) by simp
  define c where "c = creditsPerSecond r"
  define d1 where "d1 = (of_int (t - lastTick r) / 1000000000 :: rat)"
  define d2 where "d2 = (of_int (last (t # ts) - t) / 1000000000 :: rat)"
  define k where "k = (1 + eps) ^ (5 * length ts)"
  have c: "0 \<le> c" using Cons.prems(1) by (simp add: c_def limiter_ok_def)
  have "t \<le> last (t # ts)"
    using Cons.prems(2) by (cases "ts = []") auto
  then have d2: "0 \<le> d2 * c" using c by (simp add: d2_def)
  have k: "0 \<le> k" by (simp add: k_def)
  have IH: "limiter_ok r'" "of_nat m + balance r' \<le> (balance r1 + d2 * c) * k"
    using Cons.IH[OF st(1) so m(1)] by (simp_all add: u c_def d2_def k_def)
  have "1 \<le> k" unfolding k_def by (rule one_le_power) simp
  then have "of_bool ok \<le> of_bool ok * k" by simp
  then have "of_nat n + balance r' \<le> of_bool ok * k + (balance r1 + d2 * c) * k"
    using IH(2) m(2) by simp
  also have "\<dots> = (of_bool ok + balance r1 + d2 * c) * k" by (simp add: algebra_simps)
  also have "\<dots> \<le> ((balance r + d1 * c) * (1 + eps) ^ 5 + d2 * c * (1 + eps) ^ 5) * k"
  proof (rule mult_right_mono[OF _ k])
    have "d2 * c \<le> d2 * c * (1 + eps) ^ 5"
      using mult_left_mono[OF _ d2, of 1 "(1 + eps) ^ 5"] by simp
    then show "of_bool ok + balance r1 + d2 * c \<le> (balance r + d1 * c) * (1 + eps) ^ 5 + d2 * c * (1 + eps) ^ 5"
      using st(2) unfolding c_def[symmetric] d1_def[symmetric] by linarith
  qed
  also have "\<dots> = (balance r + (d1 + d2) * c) * ((1 + eps) ^ 5 * k)" by (simp only: algebra_simps)
  also have "(1 + eps) ^ 5 * k = (1 + eps) ^ (5 * length (t # ts))"
    by (simp only: k_def power_add[symmetric] length_Cons mult_Suc_right)
  also have "d1 + d2 = of_int (last (lastTick r # t # ts) - lastTick r) / 1000000000"
    by (simp add: d1_def d2_def diff_divide_distrib)
  finally show ?case using IH(1) by (simp only: c_def)
qed

section \<open>The guaranteed throughput sampler\<close>

lemma Guaranteed_isSampled_sampled:
  assumes "Guaranteed_isSampled now tid s = (st, s')"
  shows "st_isSampled st \<longleftrightarrow> low tid \<le> samplingBoundary (g_probabilistic s) \<or>
      fst (checkCredit 1 now (rateLimiter (g_lowerBoundSampler s)))"
    "rateLimiter (g_lowerBoundSampler s') = snd (checkCredit 1 now (rateLimiter (g_lowerBoundSampler s)))"
    "g_probabilistic s' = g_probabilistic s" "g_tags s' = g_tags s"
  using assms
  by (auto simp: Guaranteed_isSampled_def Let_def Prob_isSampled_def Rate_isSampled_def
      SamplingStatus_def split: prod.splits if_splits)

lemma Guaranteed_update_rates:
  assumes "g_samplingRate s = samplingRate (g_probabilistic s)"
  shows "g_lowerBound (Guaranteed_update ld lb r now s) = lb \<and>
    g_samplingRate (Guaranteed_update ld lb r now s) =
      (if g_samplingRate s \<noteq> r then max 0 (min r 1) else r) \<and>
    g_samplingRate (Guaranteed_update ld lb r now s)
      = samplingRate (g_probabilistic (Guaranteed_update ld lb r now s))"
  using assms by (auto simp: Guaranteed_update_def Let_def ProbabilisticSampler_def)

section \<open>The adaptive sampler\<close>

lemma length_update:
  "length (AList.update k v m) = (if k \<in> fst ` set m then length m else Suc (length m))"
  by (induction m) auto

lemma distinct_update_keys: "distinct (map fst m) \<Longrightarrow> distinct (map fst (AList.update k v m))"
  by (rule distinct_update)

lemma Adaptive_isSampled_size:
  assumes "Adaptive_isSampled ld t0 now tid operation s = (st, s')"
  shows "length (a_samplers s') \<le> max (a_maxOperations s) (length (a_samplers s))"
    "a_maxOperations s' = a_maxOperations s" "length (a_samplers s) \<le> length (a_samplers s')"
proof -
  have dom: "map_of m k = Some v \<Longrightarrow> k \<in> fst ` set m" for m :: "(string \<times> guaranteed_sampler) list" and k v
    by (force dest: map_of_SomeD)
  show "length (a_samplers s') \<le> max (a_maxOperations s) (length (a_samplers s))"
    "a_maxOperations s' = a_maxOperations s" "length (a_samplers s) \<le> length (a_samplers s')"
    using assms dom
    by (auto simp: Adaptive_isSampled_def Let_def length_update split: option.splits if_splits prod.splits)
qed

lemma Adaptive_isSampled_other:
  assumes "Adaptive_isSampled ld t0 now tid operation s = (st, s')" and "op \<noteq> operation"
  shows "map_of (a_samplers s') op = map_of (a_samplers s) op"
  using assms
  by (auto simp: Adaptive_isSampled_def Let_def update_conv' split: option.splits if_splits prod.splits)

lemma Adaptive_isSampled_own:
  assumes "Adaptive_isSampled ld t0 now tid operation s = (st, s')"
    and "map_of (a_samplers s) operation = Some g"
  shows "map_of (a_samplers s') operation = Some (snd (Guaranteed_isSampled now tid g)) \<and>
    st = fst (Guaranteed_isSampled now tid g)"
  using assms by (auto simp: Adaptive_isSampled_def update_conv' split: prod.splits)

text \<open>A run of requests, each with the clock readings, the trace id and the operation.\<close>

fun adaptive_run ::
  "nat \<Rightarrow> (time \<times> time \<times> trace_id \<times> string) list \<Rightarrow> adaptive_sampler \<Rightarrow> adaptive_sampler" where
  "adaptive_run ld [] s = s"
| "adaptive_run ld ((t0, t, tid, operation) # rs) s =
     adaptive_run ld rs (snd (Adaptive_isSampled ld t0 t tid operation s))"

lemma adaptive_run_size:
  "length (a_samplers (adaptive_run ld rs s)) \<le> max (a_maxOperations s) (length (a_samplers s))"
proof (induction ld rs s rule: adaptive_run.induct)
  case (2 ld t0 t tid operation rs s)
  obtain st s1 where 1: "Adaptive_isSampled ld t0 t tid operation s = (st, s1)" by fastforce
  show ?case using 2 Adaptive_isSampled_size[OF 1] 1 by simp
qed simp

section \<open>The sampler contract\<close>

text \<open>
  What a tracer relies on, whichever sampler it has: a decision comes with the tags that tell which
  sampler made it and by which parameter, so that a decision on the trace id can be made again from them.
\<close>

definition names_sampler :: "string \<Rightarrow> tag_value \<Rightarrow> tag list" where
  "names_sampler kind v = [Tag kSamplerTypeTagKey (VCString kind), Tag kSamplerParamTagKey v]"


definition prob_ok :: "nat \<Rightarrow> probabilistic_sampler \<Rightarrow> bool" where
  "prob_ok ld s \<longleftrightarrow> 0 \<le> samplingRate s \<and> samplingRate s \<le> 1 \<and>
     samplingBoundary s = computeSamplingBoundary ld (samplingRate s) \<and>
     prob_tags s = names_sampler kSamplerTypeProbabilistic (VDouble (samplingRate s))"

definition guaranteed_ok :: "nat \<Rightarrow> guaranteed_sampler \<Rightarrow> bool" where
  "guaranteed_ok ld s \<longleftrightarrow> prob_ok ld (g_probabilistic s) \<and>
     g_tags s = names_sampler kSamplerTypeLowerBound (VDouble (samplingRate (g_probabilistic s)))"

definition adaptive_ok :: "nat \<Rightarrow> adaptive_sampler \<Rightarrow> bool" where
  "adaptive_ok ld s \<longleftrightarrow> prob_ok ld (a_defaultSampler s) \<and>
     (\<forall>operation g. map_of (a_samplers s) operation = Some g \<longrightarrow> guaranteed_ok ld g)"

fun sampler_ok :: "nat \<Rightarrow> sampler \<Rightarrow> bool" where
  "sampler_ok ld (SConst s) \<longleftrightarrow> const_tags s = names_sampler kSamplerTypeConst (VBool (decision s))"
| "sampler_ok ld (SProbabilistic s) \<longleftrightarrow> prob_ok ld s"
| "sampler_ok ld (SRateLimiting s) \<longleftrightarrow> (\<exists>m. rate_tags s = names_sampler kSamplerTypeRateLimiting (VDouble m))"
| "sampler_ok ld (SGuaranteed s) \<longleftrightarrow> guaranteed_ok ld s"
| "sampler_ok ld (SAdaptive s) \<longleftrightarrow> adaptive_ok ld s"
| "sampler_ok ld (SRemote s _ _) \<longleftrightarrow> sampler_ok ld s"

lemma sampler_ok_new [simp]:
  "const_tags (ConstSampler b) = names_sampler kSamplerTypeConst (VBool b)" "decision (ConstSampler b) = b"
  "prob_ok ld (ProbabilisticSampler ld r)"
  "rate_tags (RateLimitingSampler m now) = names_sampler kSamplerTypeRateLimiting (VDouble m)"
  "guaranteed_ok ld (GuaranteedSampler ld l r now)"
  by (simp_all add: names_sampler_def prob_ok_def guaranteed_ok_def ConstSampler_def
      ProbabilisticSampler_def RateLimitingSampler_def GuaranteedSampler_def lower_bound_tags_def Let_def)


lemma Guaranteed_update_ok: "guaranteed_ok ld s \<Longrightarrow> guaranteed_ok ld (Guaranteed_update ld lb r now s)"
  by (auto simp: Guaranteed_update_def Let_def guaranteed_ok_def lower_bound_tags_def names_sampler_def)








section \<open>Remote control\<close>

lemma foldl_preserves: "P s \<Longrightarrow> (\<And>s x. P s \<Longrightarrow> P (f s x)) \<Longrightarrow> P (foldl f s xs)"
  by (induction xs arbitrary: s) auto

lemma Adaptive_update_ok:
  assumes "adaptive_ok ld s"
  shows "adaptive_ok ld (Adaptive_update ld strategies now s)"
  unfolding Adaptive_update_def Let_def
  by (rule foldl_preserves[where P = "adaptive_ok ld", OF assms])
    (auto simp: adaptive_ok_def update_conv' Guaranteed_update_ok split: option.splits)

lemma AdaptiveSampler_ok: "adaptive_ok ld (AdaptiveSampler ld strategies m now)"
proof -
  let ?P = "\<lambda>m. \<forall>operation g. map_of m operation = Some g \<longrightarrow> guaranteed_ok ld g"
  have "?P (samplersFromStrategies ld strategies now)"
    unfolding samplersFromStrategies_def
    by (rule foldl_preserves[where P = ?P]) (auto simp: update_conv')
  then show ?thesis by (simp add: AdaptiveSampler_def adaptive_ok_def)
qed

lemma updateSampler_ok:
  "sampler_ok ld s \<Longrightarrow> sampler_ok ld (fst (updateSampler ld fetched now s ms))"
  by (cases s) (auto simp: updateSampler_def updateAdaptiveSampler_def Let_def Adaptive_update_ok
      AdaptiveSampler_ok updateRateLimitingOrProbabilisticSampler_def split: option.splits sampler.splits)



lemma updateSampler_metrics:
  assumes "updateSampler ld fetched now (SRemote inner m running) ms = (s', ms')"
  shows "ms' SamplerQueryFailure + ms' SamplerUpdateFailure + ms' SamplerUpdated
      = ms SamplerQueryFailure + ms SamplerUpdateFailure + ms SamplerUpdated + 1"
    "ms' SamplerQueryFailure + ms' SamplerRetrieved = ms SamplerQueryFailure + ms SamplerRetrieved + 1"
    "ms' SamplerUpdated = ms SamplerUpdated \<Longrightarrow> s' = SRemote inner m running"
  using assms by (auto simp: updateSampler_def Let_def split: option.splits)

section \<open>Properties\<close>

text \<open>The boundary of a probabilistic sampler: whatever the precision of long double the
  conversion to 64 bits stays in range; with 64 bits or more the number of low trace id words
  that are sampled is the rate's share of 2^64, up to 3.\<close>

lemma sampling_boundary_share:
  assumes "0 < ld" and "0 \<le> r" and "r \<le> 1"
  shows "int (unat (computeSamplingBoundary ld r)) =
      (if boundary_of ld r = max_random ld then 2 ^ 64 - 1 else \<lfloor>boundary_of ld r\<rfloor>) \<and>
    (64 \<le> ld \<longrightarrow> \<bar>of_nat (card {l. l \<le> computeSamplingBoundary ld r}) - r * 2 ^ 64\<bar> \<le> (3 :: rat))"
  using unat_boundary[OF assms] sampled_share[OF _ assms(2,3)] by blast

lemma sampling_boundary_share_witness:
  "\<bar>of_nat (card {l. l \<le> computeSamplingBoundary 64 (1 / 1024)}) - 2 ^ 54\<bar> \<le> (3 :: rat)"
  using sampling_boundary_share[of 64 "1 / 1024"] by simp

text \<open>C37. Probabilistic decisions are consistent between services, for any precision of \<^verbatim>\<open>long double\<close>:
  they depend on the low half of the trace id only, and a trace sampled at one rate is sampled at every
  higher rate; a rate is clamped to the unit interval, a rate of at least one samples every trace, and
  one of at most zero only those whose low half is zero.\<close>

theorem probabilistic_consistent:
  assumes "0 < ld" and "low tid = low tid'" and "r \<le> r'"
  shows "(st_isSampled (Prob_isSampled tid (ProbabilisticSampler ld r)) \<longrightarrow>
      st_isSampled (Prob_isSampled tid' (ProbabilisticSampler ld r'))) \<and>
    ProbabilisticSampler ld r = ProbabilisticSampler ld (max 0 (min r 1)) \<and>
    samplingRate (ProbabilisticSampler ld r) = max 0 (min r 1) \<and>
    (1 \<le> r \<longrightarrow> st_isSampled (Prob_isSampled tid (ProbabilisticSampler ld r))) \<and>
    (r \<le> 0 \<longrightarrow> (st_isSampled (Prob_isSampled tid (ProbabilisticSampler ld r)) \<longleftrightarrow> low tid = 0))"
proof -
  let ?c = "\<lambda>x :: rat. max 0 (min x 1)"
  have sampled: "st_isSampled (Prob_isSampled t (ProbabilisticSampler ld x)) \<longleftrightarrow>
      low t \<le> computeSamplingBoundary ld (?c x)" for t x
    by (simp add: Prob_isSampled_def ProbabilisticSampler_def SamplingStatus_def Let_def)
  have m: "computeSamplingBoundary ld (?c r) \<le> computeSamplingBoundary ld (?c r')"
    by (rule computeSamplingBoundary_mono) (use assms in auto)
  have "computeSamplingBoundary ld 1 = 0xFFFFFFFFFFFFFFFF"
    using boundary_1[OF assms(1)] by (simp add: computeSamplingBoundary_eq)
  then have one: "low tid \<le> computeSamplingBoundary ld 1"
    using unsigned_less[of "low tid", where 'a = nat] by (simp add: word_le_nat_alt)
  have zero: "computeSamplingBoundary ld 0 = 0"
    using max_random_pos[OF assms(1)] by (simp add: computeSamplingBoundary_eq)
  have clamp: "?c (?c r) = ?c r" by simp
  show ?thesis
  proof (intro conjI impI)
    show "st_isSampled (Prob_isSampled tid (ProbabilisticSampler ld r)) \<Longrightarrow>
      st_isSampled (Prob_isSampled tid' (ProbabilisticSampler ld r'))"
      using assms(2) m unfolding sampled by simp
    show "ProbabilisticSampler ld r = ProbabilisticSampler ld (?c r)"
      unfolding ProbabilisticSampler_def clamp ..
    show "samplingRate (ProbabilisticSampler ld r) = ?c r" by (simp add: ProbabilisticSampler_def Let_def)
    show "1 \<le> r \<Longrightarrow> st_isSampled (Prob_isSampled tid (ProbabilisticSampler ld r))"
      using one unfolding sampled by simp
    assume "r \<le> 0"
    then have "?c r = 0" by simp
    then show "st_isSampled (Prob_isSampled tid (ProbabilisticSampler ld r)) \<longleftrightarrow> low tid = 0"
      unfolding sampled by (simp add: zero)
  qed
qed

theorem probabilistic_consistent_witness:
  "st_isSampled (Prob_isSampled (TraceID 7 0) (ProbabilisticSampler 64 (1 / 2))) \<and>
   st_isSampled (Prob_isSampled (TraceID 7 0xFFFFFFFFFFFFFFFF) (ProbabilisticSampler 64 2))"
proof (rule conjI)
  note zero = probabilistic_consistent[of 64 "TraceID 0 0" "TraceID 7 0" 0 "1 / 2"]
  have l: "low (TraceID 0 0) = low (TraceID 7 0)" by simp
  have "st_isSampled (Prob_isSampled (TraceID 0 0) (ProbabilisticSampler 64 0))"
    by (simp add: Prob_isSampled_def ProbabilisticSampler_def SamplingStatus_def Let_def)
  then show "st_isSampled (Prob_isSampled (TraceID 7 0) (ProbabilisticSampler 64 (1 / 2)))"
    by (rule zero[OF _ l, THEN conjunct1, THEN mp, rotated 2]) simp_all
  note one = probabilistic_consistent[of 64 "TraceID 7 0xFFFFFFFFFFFFFFFF" "TraceID 7 0xFFFFFFFFFFFFFFFF" 2 2]
  show "st_isSampled (Prob_isSampled (TraceID 7 0xFFFFFFFFFFFFFFFF) (ProbabilisticSampler 64 2))"
    by (rule one[OF zero_less_numeral refl order_refl, THEN conjunct2, THEN conjunct2, THEN conjunct2, THEN conjunct1, THEN mp])
      simp
qed

text \<open>C11. The rate limiter is a token bucket: its balance stays between 0 and the maximum, and n
  checks at times that do not decrease grant no more than the initial balance plus the credits of
  the time elapsed, up to the relative error of 5 roundings of a double per check.\<close>

theorem rate_limiter_token_bucket:
  assumes "limiter_ok r" and "sorted (lastTick r # ts)" and "check_run ts r = (n, r')"
  shows "limiter_ok r' \<and> of_nat n + balance r' \<le>
    (balance r + of_int (last (lastTick r # ts) - lastTick r) / 1000000000 * creditsPerSecond r)
      * (1 + 1 / 2 ^ 53) ^ (5 * length ts)"
  using assms by (rule token_bucket)

theorem rate_limiter_token_bucket_witness:
  "fst (check_run [0, 0, 1000000000] (RateLimiter 2 2 0)) = 3 \<and>
   of_nat 3 + 1 \<le> (2 + 1 * 2) * (1 + 1 / 2 ^ 53 :: rat) ^ 15"
proof -
  have f: "fl 53 2 = 2" "fl 53 1 = 1" "fl 53 1000000000 = 1000000000"
    using fl_of_int[of 53 2] fl_of_int[of 53 1] fl_of_int[of 53 1000000000] by simp_all
  have run: "check_run [0, 0, 1000000000] (RateLimiter 2 2 0) =
      (3, (RateLimiter 2 2 0)\<lparr>balance := 1, lastTick := 1000000000\<rparr>)"
    by (simp add: RateLimiter_def checkCredit_def Let_def seconds_def f)
  have "limiter_ok (RateLimiter 2 2 0)" by (rule limiter_ok_new) (simp_all add: f)
  from rate_limiter_token_bucket[OF this _ run] show ?thesis
    unfolding run by (simp add: RateLimiter_def)
qed

text \<open>The adaptive sampler never tracks more operations than its limit (or than the
  strategies it was made from name), whatever requests come; a request for one operation leaves
  the sampler of every other one alone.\<close>

lemma adaptive_bounded:
  "length (a_samplers (adaptive_run ld rs s)) \<le> max (a_maxOperations s) (length (a_samplers s)) \<and>
   (Adaptive_isSampled ld t0 now tid operation s = (st, s') \<longrightarrow> op \<noteq> operation \<longrightarrow>
      map_of (a_samplers s') op = map_of (a_samplers s) op)"
  using adaptive_run_size Adaptive_isSampled_other by blast

lemma adaptive_bounded_witness:
  "length (a_samplers (adaptive_run 64 [(0, 0, TraceID 0 1, ''a''), (0, 0, TraceID 0 2, ''b'')]
     (AdaptiveSampler 64 \<lparr>defaultSamplingProbability = 1, defaultLowerBoundTracesPerSecond = 1,
        perOperationStrategies = [], defaultUpperBoundTracesPerSecond = None\<rparr> 1 0))) \<le> 1"
  using adaptive_bounded[of 64 "[(0, 0, TraceID 0 1, ''a''), (0, 0, TraceID 0 2, ''b'')]"
     "AdaptiveSampler 64 \<lparr>defaultSamplingProbability = 1, defaultLowerBoundTracesPerSecond = 1,
        perOperationStrategies = [], defaultUpperBoundTracesPerSecond = None\<rparr> 1 0"]
  by (simp add: AdaptiveSampler_def samplersFromStrategies_def)

text \<open>The guaranteed throughput sampler samples what the probabilistic one samples or what its
  lower-bound limiter has credit for, and charges the limiter for every request, so that the
  lower bound holds for the two together.\<close>

theorem guaranteed_throughput_decision:
  assumes "Guaranteed_isSampled now tid s = (st, s')"
  shows "(st_isSampled st \<longleftrightarrow> low tid \<le> samplingBoundary (g_probabilistic s) \<or>
      fst (checkCredit 1 now (rateLimiter (g_lowerBoundSampler s)))) \<and>
    rateLimiter (g_lowerBoundSampler s') = snd (checkCredit 1 now (rateLimiter (g_lowerBoundSampler s)))"
  using Guaranteed_isSampled_sampled[OF assms] by blast

theorem guaranteed_throughput_decision_witness:
  "st_isSampled (fst (Guaranteed_isSampled 0 (TraceID 0 0) (GuaranteedSampler 64 1 (1 / 2) 0)))"
proof -
  let ?g = "GuaranteedSampler 64 1 (1 / 2) 0"
  obtain st s' where "Guaranteed_isSampled 0 (TraceID 0 0) ?g = (st, s')" by fastforce
  with guaranteed_throughput_decision[OF this] show ?thesis by simp
qed

text \<open>An update of a remotely controlled sampler counts exactly one of query failure, update
  failure and success, counts a retrieval unless the query failed, and leaves the sampler as it
  was unless it counts a success; the sampler it installs obeys the contract.\<close>

theorem remote_update_accounting:
  assumes "updateSampler ld fetched now (SRemote inner m running) ms = (s', ms')" and "sampler_ok ld inner"
  shows "ms' SamplerQueryFailure + ms' SamplerUpdateFailure + ms' SamplerUpdated
      = ms SamplerQueryFailure + ms SamplerUpdateFailure + ms SamplerUpdated + 1 \<and>
    ms' SamplerQueryFailure + ms' SamplerRetrieved = ms SamplerQueryFailure + ms SamplerRetrieved + 1 \<and>
    (ms' SamplerUpdated = ms SamplerUpdated \<longrightarrow> s' = SRemote inner m running) \<and> sampler_ok ld s'"
  using updateSampler_metrics[OF assms(1)] updateSampler_ok[of ld "SRemote inner m running" fetched now ms]
    assms by simp

theorem remote_update_accounting_witness:
  "snd (updateSampler 64 (Some strategy_response0) 0 (SRemote (SConst (ConstSampler True)) 1 True) metrics0)
     SamplerUpdateFailure = 1"
proof -
  obtain s' ms' where u: "updateSampler 64 (Some strategy_response0) 0
      (SRemote (SConst (ConstSampler True)) 1 True) metrics0 = (s', ms')" by fastforce
  have n: "ms' SamplerUpdated = 0" "ms' SamplerQueryFailure = 0"
    using u by (auto simp: updateSampler_def strategy_response0_def Let_def metrics0_def
        updateRateLimitingOrProbabilisticSampler_def)
  show ?thesis
    using remote_update_accounting[OF u] n u by (simp add: metrics0_def)
qed



end
