(* ===== verification/Baggage.thy ===== *)
theory Baggage
  imports Tags Metrics Http
begin

text \<open>
  Baggage restrictions (\<^verbatim>\<open>baggage/*\<close>): the restriction of a key, the default manager and the
  one that polls an agent, and \<^verbatim>\<open>BaggageSetter\<close>, which checks, truncates, stores and logs an
  item. The library that parses JSON is a parameter: \<open>json_restrictions\<close> maps a body to the
  list of key and length pairs it holds, or to \<^term>\<open>None\<close> when it throws.
\<close>

section \<open>Restrictions and their managers\<close>

record restriction =
  keyAllowed :: bool
  maxValueLength :: int

definition Restriction :: "bool \<Rightarrow> int \<Rightarrow> restriction" where
  "Restriction a m = \<lparr>keyAllowed = a, maxValueLength = m\<rparr>"

lemma Restriction_sel [simp]: "keyAllowed (Restriction a m) = a" "maxValueLength (Restriction a m) = m"
  by (simp_all add: Restriction_def)

definition kDefaultMaxValueLength :: int where "kDefaultMaxValueLength = 2048"

record remote_manager =
  rm_serviceName :: string
  rm_denyBaggageOnInitializationFailure :: bool
  rm_restrictions :: "(string \<times> restriction) list"
  rm_running :: bool
  rm_initialized :: bool

datatype restriction_manager = DefaultManager restriction | RemoteManager remote_manager

definition DefaultRestrictionManager :: "int \<Rightarrow> restriction_manager" where
  "DefaultRestrictionManager m =
     DefaultManager (Restriction True (if m = 0 then kDefaultMaxValueLength else m))"

definition RemoteRestrictionManager :: "string \<Rightarrow> bool \<Rightarrow> restriction_manager" where
  "RemoteRestrictionManager service deny =
     RemoteManager \<lparr>rm_serviceName = service, rm_denyBaggageOnInitializationFailure = deny,
       rm_restrictions = [], rm_running = True, rm_initialized = False\<rparr>"

definition getRestriction :: "restriction_manager \<Rightarrow> string \<Rightarrow> string \<Rightarrow> restriction" where
  "getRestriction m service key =
     (case m of
        DefaultManager r \<Rightarrow> r
      | RemoteManager rm \<Rightarrow>
          if \<not> rm_initialized rm then
            (if rm_denyBaggageOnInitializationFailure rm then Restriction False 0
             else Restriction True kDefaultMaxValueLength)
          else case map_of (rm_restrictions rm) key of
                 Some r \<Rightarrow> r
               | None \<Rightarrow> Restriction False 0)"

definition RestrictionManager_close :: "restriction_manager \<Rightarrow> restriction_manager" where
  "RestrictionManager_close m =
     (case m of DefaultManager r \<Rightarrow> DefaultManager r
              | RemoteManager rm \<Rightarrow> RemoteManager (rm\<lparr>rm_running := False\<rparr>))"

text \<open>The URI polled, and one poll. An \<^verbatim>\<open>inserter\<close> into an unordered map keeps the first of two
  entries with one key.\<close>

definition remote_uri :: "string \<Rightarrow> string \<Rightarrow> uri" where
  "remote_uri authority service =
     URI_parse (''http://'' @ authority @ ''/baggageRestrictions?service='' @ queryEscape service)"

definition insert_first :: "'k \<times> 'v \<Rightarrow> ('k \<times> 'v) list \<Rightarrow> ('k \<times> 'v) list" where
  "insert_first kv m = (if fst kv \<in> fst ` set m then m else m @ [kv])"

record restriction_list =
  rl_success :: "(string \<times> int) list option"

definition restriction_list_from_json ::
  "(string \<Rightarrow> (string \<times> int) list option) \<Rightarrow> string \<Rightarrow> restriction_list option" where
  "restriction_list_from_json json_restrictions body =
     map_option (\<lambda>xs. \<lparr>rl_success = Some xs\<rparr>) (json_restrictions body)"

definition updateRestrictions ::
  "(string \<Rightarrow> (string \<times> int) list option) \<Rightarrow> uri \<Rightarrow> get_error + response \<Rightarrow> remote_manager \<Rightarrow>
   metrics \<Rightarrow> string list \<Rightarrow> remote_manager \<times> metrics \<times> string list" where
  "updateRestrictions json_restrictions remoteURI got rm ms out =
     (case got of
        Inl _ \<Rightarrow> (rm, inc BaggageRestrictionsUpdateFailure 1 ms, out @ [''Failed to update baggage restrictions''])
      | Inr responseHTTP \<Rightarrow>
          if resp_statusCode responseHTTP \<noteq> 200 then
            (rm, ms, out @ [''Received HTTP error response, uri='' @ URI_print remoteURI @
               '', statusCode='' @ int_str (resp_statusCode responseHTTP) @
               '', reason='' @ resp_reason responseHTTP])
          else
            case restriction_list_from_json json_restrictions (resp_body responseHTTP) of
              None \<Rightarrow> (rm, inc BaggageRestrictionsUpdateFailure 1 ms, out @ [''Failed to update baggage restrictions''])
            | Some response \<Rightarrow>
                (case rl_success response of
                   Some success \<Rightarrow>
                     (rm\<lparr>rm_restrictions := foldl (\<lambda>m (k, len). insert_first (k, Restriction True len) m) [] success,
                         rm_initialized := True\<rparr>,
                      inc BaggageRestrictionsUpdateSuccess 1 ms, out)
                 | None \<Rightarrow>
                     (rm, inc BaggageRestrictionsUpdateFailure 1 ms,
                      out @ [''Failed to update baggage restrictions, response='' @ resp_body responseHTTP])))"

section \<open>The setter\<close>

definition logFields ::
  "bool \<Rightarrow> string \<Rightarrow> string \<Rightarrow> string \<Rightarrow> bool \<Rightarrow> bool \<Rightarrow> tag list option" where
  "logFields sampled key value prevItem truncated valid =
     (if \<not> sampled then None
      else Some
        ([Tag ''event'' (VCString ''baggage''), Tag ''key'' (VString key), Tag ''value'' (VString value)] @
         (if prevItem \<noteq> [] then [Tag ''override'' (VCString ''true'')] else []) @
         (if truncated then [Tag ''truncated'' (VCString ''true'')] else []) @
         (if \<not> valid then [Tag ''invalid'' (VCString ''true'')] else [])))"

text \<open>
  \<open>setBaggage\<close> gives the new baggage, the fields of the out record the callback is called with
  (if it is) and the metrics. The length is converted to an \<^verbatim>\<open>int\<close> to be compared, which makes
  one of \<open>2 ^ 31\<close> bytes negative; the bound is an \<^verbatim>\<open>int\<close> that \<^verbatim>\<open>substr\<close> takes as a \<^verbatim>\<open>size_t\<close>.
\<close>

definition setBaggage ::
  "restriction_manager \<Rightarrow> string \<Rightarrow> bool \<Rightarrow> strmap \<Rightarrow> string \<Rightarrow> string \<Rightarrow> metrics \<Rightarrow>
   strmap \<times> tag list option \<times> metrics" where
  "setBaggage manager service sampled bag key value ms =
     (let r = getRestriction manager service key in
      if \<not> keyAllowed r then
        (bag, logFields sampled key value [] False (keyAllowed r), inc BaggageUpdateFailure 1 ms)
      else
        let truncated = int32 (int (length value)) > maxValueLength r;
            value' = (if truncated then take (unat (word_of_int (maxValueLength r) :: u64)) value else value);
            ms1 = (if truncated then inc BaggageTruncate 1 ms else ms);
            prevItem = (case map_of bag key of None \<Rightarrow> [] | Some v \<Rightarrow> v)
        in (AList.update key value' bag, logFields sampled key value' prevItem truncated (keyAllowed r),
            inc BaggageUpdateSuccess 1 ms1))"

section \<open>The interface between them\<close>

definition manager_ok :: "restriction_manager \<Rightarrow> bool" where
  "manager_ok m =
     (case m of
        DefaultManager r \<Rightarrow> 0 \<le> maxValueLength r \<and> maxValueLength r \<le> INT_MAX
      | RemoteManager rm \<Rightarrow>
          list_all (\<lambda>(k, r). 0 \<le> maxValueLength r \<and> maxValueLength r \<le> INT_MAX) (rm_restrictions rm))"

text \<open>A value as it is stored: cut to the bound, but for one whose length an \<^verbatim>\<open>int\<close> cannot hold.\<close>

definition cut_length :: "int \<Rightarrow> string \<Rightarrow> string" where
  "cut_length m value = (if int32 (int (length value)) > m then take (nat m) value else value)"

definition bounded_length :: "int \<Rightarrow> string \<Rightarrow> bool" where
  "bounded_length m value \<longleftrightarrow> int (length value) \<le> m \<or> INT_MAX < int (length value)"

lemma cut_length_eq: "int (length value) \<le> INT_MAX \<Longrightarrow> 0 \<le> m \<Longrightarrow> cut_length m value = take (nat m) value"
  by (simp add: cut_length_def int32_nonneg)

lemma bounded_length_cut: "0 \<le> m \<Longrightarrow> bounded_length m (cut_length m value)"
  using int32_nonneg[of "int (length value)"] by (auto simp: bounded_length_def cut_length_def)

definition set_item ::
  "(string \<Rightarrow> string \<Rightarrow> restriction) \<Rightarrow> string \<Rightarrow> string \<Rightarrow> string \<Rightarrow> strmap \<Rightarrow> strmap" where
  "set_item get service key value b =
     (if keyAllowed (get service key) then AList.update key (cut_length (maxValueLength (get service key)) value) b else b)"

text \<open>
  A provider of restrictions bounds every value by a length a string can be cut to. The client
  of the interface then knows what a sequence of settings leaves in the baggage.
\<close>

locale restriction_provider =
  fixes get :: "string \<Rightarrow> string \<Rightarrow> restriction"
  assumes length_range: "0 \<le> maxValueLength (get s k) \<and> maxValueLength (get s k) \<le> INT_MAX"
begin

lemma set_items_bounded:
  assumes "list_all (\<lambda>(k, v). keyAllowed (get s k) \<and> bounded_length (maxValueLength (get s k)) v) b"
  shows "list_all (\<lambda>(k, v). keyAllowed (get s k) \<and> bounded_length (maxValueLength (get s k)) v)
    (fold (\<lambda>(k, v). set_item get s k v) kvs b)"
  using assms
proof (induction kvs arbitrary: b)
  case (Cons kv kvs)
  obtain k v where kv: "kv = (k, v)" by fastforce
  let ?P = "\<lambda>(k, v). keyAllowed (get s k) \<and> bounded_length (maxValueLength (get s k)) v"
  have upd: "list_all ?P (AList.update k' v' b)" if "?P (k', v')" "list_all ?P b" for k' v' b
    using that by (induction b) auto
  have "list_all ?P (set_item get s k v b)"
    using upd[of k "cut_length (maxValueLength (get s k)) v" b] Cons.prems length_range[of s k]
    by (simp add: set_item_def bounded_length_cut)
  then show ?case using Cons.IH kv by simp
qed simp

lemma set_item_other: "k' \<noteq> k \<Longrightarrow> map_of (set_item get s k v b) k' = map_of b k'"
  by (simp add: set_item_def update_conv')

lemma set_item_own:
  "keyAllowed (get s k) \<Longrightarrow>
   map_of (set_item get s k v b) k = Some (cut_length (maxValueLength (get s k)) v)"
  by (simp add: set_item_def update_conv')

end

lemma getRestriction_range:
  assumes "manager_ok m"
  shows "0 \<le> maxValueLength (getRestriction m s k) \<and> maxValueLength (getRestriction m s k) \<le> INT_MAX"
proof -
  have "P r" if "list_all (\<lambda>(k, r). P r) xs" "map_of xs k = Some r" for P :: "restriction \<Rightarrow> bool" and xs r
    using that by (induction xs) (auto split: if_splits)
  then show ?thesis
    using assms
    by (auto simp: manager_ok_def getRestriction_def kDefaultMaxValueLength_def INT_MAX_def
        split: restriction_manager.splits option.splits)
qed

interpretation manager: restriction_provider "if manager_ok m then getRestriction m else (\<lambda>_ _. Restriction False 0)"
  for m
  using getRestriction_range[of m] by unfold_locales (auto simp: INT_MAX_def)

lemma setBaggage_refines:
  assumes "manager_ok m"
  shows "fst (setBaggage m s sampled b k v ms) = set_item (getRestriction m) s k v b"
proof -
  let ?n = "maxValueLength (getRestriction m s k)"
  have r: "0 \<le> ?n" "?n \<le> INT_MAX" using getRestriction_range[OF assms] by simp_all
  then have "unat (word_of_int ?n :: u64) = nat ?n"
    by (simp add: unat_eq_nat_uint uint_word_of_int_eq take_bit_int_eq_self INT_MAX_def)
  then show ?thesis using r by (simp add: setBaggage_def set_item_def cut_length_def Let_def)
qed

lemma setBaggage_metrics:
  assumes "setBaggage m s sampled b k v ms = (b', fs, ms')"
  shows "ms' BaggageUpdateSuccess + ms' BaggageUpdateFailure
      = ms BaggageUpdateSuccess + ms BaggageUpdateFailure + 1"
    "ms' BaggageUpdateFailure \<noteq> ms BaggageUpdateFailure \<longleftrightarrow> \<not> keyAllowed (getRestriction m s k)"
    "fs = None \<longleftrightarrow> \<not> sampled"
  using assms by (auto simp: setBaggage_def Let_def logFields_def split: if_splits)

lemma insert_first_map_of:
  "map_of (foldl (\<lambda>m (k, len). insert_first (k, f len) m) acc xs) k =
     (case map_of acc k of Some v \<Rightarrow> Some v | None \<Rightarrow> map_option f (map_of xs k))"
proof (induction xs arbitrary: acc)
  case (Cons x xs)
  obtain k' len where x: "x = (k', len)" by fastforce
  have "map_of (insert_first (k', f len) acc) k =
      (case map_of acc k of Some v \<Rightarrow> Some v | None \<Rightarrow> if k = k' then Some (f len) else None)"
    using map_of_eq_None_iff[of acc k']
    by (auto simp: insert_first_def map_add_def split: option.splits)
  then show ?case
    using Cons x by (auto split: option.splits)
qed (simp split: option.split)

lemma updateRestrictions_cases:
  assumes "updateRestrictions js u got rm ms out = (rm', ms', out')"
  shows "ms' BaggageRestrictionsUpdateSuccess = ms BaggageRestrictionsUpdateSuccess \<longrightarrow> rm' = rm"
    "rm_initialized rm \<longrightarrow> rm_initialized rm'"
    "ms' BaggageRestrictionsUpdateSuccess \<noteq> ms BaggageRestrictionsUpdateSuccess \<longrightarrow>
       (\<exists>r xs. got = Inr r \<and> resp_statusCode r = 200 \<and> js (resp_body r) = Some xs \<and> rm_initialized rm' \<and>
          (\<forall>s k. getRestriction (RemoteManager rm') s k =
             (case map_of xs k of Some len \<Rightarrow> Restriction True len | None \<Rightarrow> Restriction False 0)))"
proof -
  show "ms' BaggageRestrictionsUpdateSuccess = ms BaggageRestrictionsUpdateSuccess \<longrightarrow> rm' = rm"
    "rm_initialized rm \<longrightarrow> rm_initialized rm'"
    using assms by (auto simp: updateRestrictions_def restriction_list_from_json_def
        split: sum.splits if_splits option.splits)
  show "ms' BaggageRestrictionsUpdateSuccess \<noteq> ms BaggageRestrictionsUpdateSuccess \<longrightarrow>
       (\<exists>r xs. got = Inr r \<and> resp_statusCode r = 200 \<and> js (resp_body r) = Some xs \<and> rm_initialized rm' \<and>
          (\<forall>s k. getRestriction (RemoteManager rm') s k =
             (case map_of xs k of Some len \<Rightarrow> Restriction True len | None \<Rightarrow> Restriction False 0)))"
    using assms
    by (auto simp: updateRestrictions_def restriction_list_from_json_def getRestriction_def
        insert_first_map_of split: sum.splits if_splits option.splits)
qed

section \<open>Properties\<close>

definition set_items ::
  "restriction_manager \<Rightarrow> string \<Rightarrow> bool \<Rightarrow> (string \<times> string) list \<Rightarrow> strmap \<times> metrics \<Rightarrow> strmap \<times> metrics" where
  "set_items m s sampled kvs st =
     fold (\<lambda>(k, v) (b, ms). case setBaggage m s sampled b k v ms of (b', fs, ms') \<Rightarrow> (b', ms')) kvs st"

lemma set_items_refines:
  "manager_ok m \<Longrightarrow> fst (set_items m s sampled kvs (b, ms)) = fold (\<lambda>(k, v). set_item (getRestriction m) s k v) kvs b"
proof (induction kvs arbitrary: b ms)
  case (Cons kv kvs)
  obtain k v where kv: "kv = (k, v)" by fastforce
  obtain b' fs ms' where 1: "setBaggage m s sampled b k v ms = (b', fs, ms')" by (metis prod_cases3)
  have "b' = set_item (getRestriction m) s k v b"
    using setBaggage_refines[OF Cons.prems, of s sampled b k v ms] 1 by simp
  then show ?case using Cons.IH[OF Cons.prems, of b' ms'] kv 1 by (simp add: set_items_def)
qed (simp add: set_items_def)

lemma set_items_short:
  "(\<forall>(k, v) \<in> set kvs. int (length v) \<le> INT_MAX) \<Longrightarrow> list_all (\<lambda>(k, v). int (length v) \<le> INT_MAX) b \<Longrightarrow>
   list_all (\<lambda>(k, v). int (length v) \<le> INT_MAX) (fold (\<lambda>(k, v). set_item get s k v) kvs b)"
proof (induction kvs arbitrary: b)
  case (Cons kv kvs)
  obtain k v where kv: "kv = (k, v)" by fastforce
  have upd: "list_all (\<lambda>(k, v). int (length v) \<le> INT_MAX) (AList.update k' v' b)"
    if "int (length v') \<le> INT_MAX" "list_all (\<lambda>(k, v). int (length v) \<le> INT_MAX) b" for k' v' and b :: strmap
    using that by (induction b) auto
  have "int (length (cut_length m v)) \<le> INT_MAX" for m
    using Cons.prems(1) by (auto simp: kv cut_length_def)
  then have "list_all (\<lambda>(k, v). int (length v) \<le> INT_MAX) (set_item get s k v b)"
    using upd Cons.prems(2) by (simp add: set_item_def)
  then show ?case using Cons kv by simp
qed simp

text \<open>C31. Baggage is bounded: whatever sequence of items a program sets on a span, starting from
  an empty baggage, every item in it has a key its restriction manager allows and a value no
  longer than the manager's bound, or else one of \<open>2 ^ 31\<close> bytes or more, whose length an
  \<^verbatim>\<open>int\<close> cannot hold; so if every value set is shorter than that, none is longer than the bound.
  The bounds of the manager are not negative.\<close>

theorem baggage_items_bounded:
  assumes "manager_ok m"
  shows "list_all (\<lambda>(k, v). keyAllowed (getRestriction m s k) \<and>
      (int (length v) \<le> maxValueLength (getRestriction m s k) \<or> INT_MAX < int (length v)))
    (fst (set_items m s sampled kvs ([], ms))) \<and>
   ((\<forall>(k, v) \<in> set kvs. int (length v) \<le> INT_MAX) \<longrightarrow>
    list_all (\<lambda>(k, v). int (length v) \<le> maxValueLength (getRestriction m s k))
      (fst (set_items m s sampled kvs ([], ms))))"
proof (intro conjI impI)
  note b = manager.set_items_bounded[of m s "[]" kvs]
  show "list_all (\<lambda>(k, v). keyAllowed (getRestriction m s k) \<and>
      (int (length v) \<le> maxValueLength (getRestriction m s k) \<or> INT_MAX < int (length v)))
    (fst (set_items m s sampled kvs ([], ms)))"
    using b assms by (simp add: set_items_refines[OF assms] bounded_length_def)
  assume short: "\<forall>(k, v) \<in> set kvs. int (length v) \<le> INT_MAX"
  have "list_all (\<lambda>(k, v). int (length v) \<le> INT_MAX) (fst (set_items m s sampled kvs ([], ms)))"
    using set_items_short[of kvs "[]"] short by (simp add: set_items_refines[OF assms])
  with b assms show "list_all (\<lambda>(k, v). int (length v) \<le> maxValueLength (getRestriction m s k))
      (fst (set_items m s sampled kvs ([], ms)))"
    by (fastforce simp: set_items_refines[OF assms] bounded_length_def list_all_iff)
qed

theorem baggage_items_bounded_witness:
  "list_all (\<lambda>(k, v). length v \<le> 3)
    (fst (set_items (DefaultRestrictionManager 3) ''svc'' True [(''a'', ''12345''), (''b'', ''x'')] ([], metrics0)))"
proof -
  have "manager_ok (DefaultRestrictionManager 3)"
    by (simp add: manager_ok_def DefaultRestrictionManager_def INT_MAX_def)
  from baggage_items_bounded[OF this, of "''svc''" True "[(''a'', ''12345''), (''b'', ''x'')]" metrics0]
  show ?thesis by (simp add: getRestriction_def DefaultRestrictionManager_def INT_MAX_def)
qed

text \<open>Setting an item: it stores the value, cut to the bound, under its key if the key is
  allowed and changes nothing otherwise; no other key is touched; exactly one of success and
  failure is counted; a log record is written if and only if the span is sampled.\<close>

lemma set_baggage_item:
  assumes "manager_ok m" and "int (length v) \<le> INT_MAX" and "setBaggage m s sampled b k v ms = (b', fs, ms')"
  shows "(if keyAllowed (getRestriction m s k)
      then map_of b' k = Some (take (nat (maxValueLength (getRestriction m s k))) v) else b' = b) \<and>
    (\<forall>k'. k' \<noteq> k \<longrightarrow> map_of b' k' = map_of b k') \<and>
    ms' BaggageUpdateSuccess + ms' BaggageUpdateFailure = ms BaggageUpdateSuccess + ms BaggageUpdateFailure + 1 \<and>
    (fs = None \<longleftrightarrow> \<not> sampled)"
proof -
  have "b' = set_item (getRestriction m) s k v b"
    using setBaggage_refines[OF assms(1), of s sampled b k v ms] assms(3) by simp
  moreover have "restriction_provider (getRestriction m)"
    using getRestriction_range[OF assms(1)] by unfold_locales
  ultimately show ?thesis
    using setBaggage_metrics[OF assms(3)] restriction_provider.set_item_own[of "getRestriction m" s k v b]
      restriction_provider.set_item_other[of "getRestriction m" _ k s v b] getRestriction_range[OF assms(1), of s k]
    by (simp add: set_item_def cut_length_eq[OF assms(2)])
qed

text \<open>A value of \<open>2 ^ 31\<close> bytes is not cut.\<close>

lemma huge_value_kept:
  assumes "keyAllowed (getRestriction m s k)" and "length v = 2 ^ 31" and "0 \<le> maxValueLength (getRestriction m s k)"
  shows "map_of (fst (setBaggage m s sampled b k v ms)) k = Some v"
  using assms by (simp add: setBaggage_def Let_def int32_def update_conv')

text \<open>A poll of the agent: unless it counts a success the restrictions stay what they were,
  a success means a response with status 200 whose body parsed, and from then on exactly the
  keys of that response are allowed, with the first length given for each.\<close>

theorem update_restrictions_atomic:
  assumes "updateRestrictions js u got rm ms out = (rm', ms', out')"
  shows "(ms' BaggageRestrictionsUpdateSuccess = ms BaggageRestrictionsUpdateSuccess \<longrightarrow> rm' = rm) \<and>
    (rm_initialized rm \<longrightarrow> rm_initialized rm') \<and>
    (ms' BaggageRestrictionsUpdateSuccess \<noteq> ms BaggageRestrictionsUpdateSuccess \<longrightarrow>
       (\<exists>r xs. got = Inr r \<and> resp_statusCode r = 200 \<and> js (resp_body r) = Some xs \<and> rm_initialized rm' \<and>
          (\<forall>s k. getRestriction (RemoteManager rm') s k =
             (case map_of xs k of Some len \<Rightarrow> Restriction True len | None \<Rightarrow> Restriction False 0))))"
  using updateRestrictions_cases[OF assms] by blast

definition example_response :: response where
  "example_response = \<lparr>resp_version = ''1.1'', resp_statusCode = 200, resp_reason = ''OK'',
     resp_headers = [], resp_body = ''[]''\<rparr>"

definition example_manager :: remote_manager where
  "example_manager = \<lparr>rm_serviceName = ''s'', rm_denyBaggageOnInitializationFailure = True,
     rm_restrictions = [], rm_running = True, rm_initialized = False\<rparr>"

theorem update_restrictions_atomic_witness:
  "\<exists>rm ms out. updateRestrictions (\<lambda>_. Some [(''k'', 7)]) URI0 (Inr example_response) example_manager
      metrics0 [] = (rm, ms, out) \<and> getRestriction (RemoteManager rm) ''s'' ''k'' = Restriction True 7"
proof -
  obtain rm ms out where u: "updateRestrictions (\<lambda>_. Some [(''k'', 7)]) URI0 (Inr example_response)
      example_manager metrics0 [] = (rm, ms, out)"
    by (metis prod_cases3)
  have n: "ms BaggageRestrictionsUpdateSuccess \<noteq> metrics0 BaggageRestrictionsUpdateSuccess"
    using u by (auto simp: updateRestrictions_def restriction_list_from_json_def example_response_def)
  from update_restrictions_atomic[OF u] n have "getRestriction (RemoteManager rm) ''s'' ''k'' = Restriction True 7"
    by auto
  with u show ?thesis by blast
qed

end
