(* ===== verification/Spans.thy ===== *)
theory Spans
  imports Baggage
begin

text \<open>
  Spans (\<^verbatim>\<open>Span.h\<close>, \<^verbatim>\<open>Span.cpp\<close>). An operation that holds the span's mutex is atomic and is
  one function of the record. A tracer is known by what a span asks of it: its service name
  and its restriction manager. \<^verbatim>\<open>FinishWithOptions\<close> returns whether the span goes to
  \<^verbatim>\<open>Tracer::reportSpan\<close>.
\<close>

section \<open>The state of a span\<close>

record span =
  sp_tracer :: "string option"
  sp_context :: span_context
  sp_operationName :: string
  sp_startTimeSystem :: time
  sp_startTimeSteady :: time
  sp_duration :: int
  sp_tags :: "tag list"
  sp_logs :: "log_record list"
  sp_references :: "reference list"

definition Span ::
  "string option \<Rightarrow> span_context \<Rightarrow> string \<Rightarrow> time \<Rightarrow> time \<Rightarrow> tag list \<Rightarrow> reference list \<Rightarrow> span" where
  "Span tracer ctx name sys steady tags refs =
     \<lparr>sp_tracer = tracer, sp_context = ctx, sp_operationName = name, sp_startTimeSystem = sys,
      sp_startTimeSteady = steady, sp_duration = 0, sp_tags = tags, sp_logs = [], sp_references = refs\<rparr>"

definition isFinished :: "span \<Rightarrow> bool" where
  "isFinished s \<longleftrightarrow> sp_duration s \<noteq> 0"

definition serviceName :: "span \<Rightarrow> string" where
  "serviceName s = (case sp_tracer s of None \<Rightarrow> [] | Some name \<Rightarrow> name)"

definition Span_print :: "span \<Rightarrow> string" where
  "Span_print s = SpanContext_print (sp_context s)"

section \<open>Operations\<close>

definition SetOperationName :: "string \<Rightarrow> span \<Rightarrow> span" where
  "SetOperationName name s = (if isFinished s then s else s\<lparr>sp_operationName := name\<rparr>)"

text \<open>The visitor that reads a value as a sampling priority.\<close>

definition sampling_priority :: "tag_value \<Rightarrow> bool" where
  "sampling_priority v =
     (case v of
        VBool b \<Rightarrow> b
      | VDouble d \<Rightarrow> d > 0
      | VInt64 i \<Rightarrow> 0 <s i
      | VUInt64 u \<Rightarrow> u > 0
      | VString str \<Rightarrow> (case extract_int str of (ok, n) \<Rightarrow> if \<not> ok then False else n > 0)
      | VNull \<Rightarrow> False
      | VCString str \<Rightarrow> (case extract_int str of (ok, n) \<Rightarrow> if \<not> ok then False else n > 0)
      | VList _ \<Rightarrow> False
      | VDict _ \<Rightarrow> False)"

definition setSamplingPriority :: "tag_value \<Rightarrow> span \<Rightarrow> span" where
  "setSamplingPriority v s =
     (let c = sp_context s;
          newFlags = (if sampling_priority v then flags c OR (kSampled OR kDebug) else flags c AND NOT kSampled)
      in s\<lparr>sp_context := SpanContext (traceID c) (spanID c) (parentID c) newFlags (baggage c) (debugID c) []\<rparr>)"

definition SetTag :: "string \<Rightarrow> tag_value \<Rightarrow> span \<Rightarrow> span" where
  "SetTag key v s =
     (if key = ''sampling.priority'' then setSamplingPriority v s
      else if isFinished s \<or> \<not> isSampled (sp_context s) then s
      else s\<lparr>sp_tags := sp_tags s @ [Tag key v]\<rparr>)"

definition logFieldsNoLocking :: "time \<Rightarrow> tag list \<Rightarrow> span \<Rightarrow> span" where
  "logFieldsNoLocking now fs s = s\<lparr>sp_logs := sp_logs s @ [LogRecord now fs]\<rparr>"

definition Log :: "time \<Rightarrow> (string \<times> tag_value) list \<Rightarrow> span \<Rightarrow> span" where
  "Log ts fieldPairs s =
     (if \<not> isSampled (sp_context s) then s
      else logFieldsNoLocking ts (map (\<lambda>(k, v). Tag k v) fieldPairs) s)"

text \<open>
  \<open>manager\<close> is the restriction manager of the span's tracer: a span without a tracer has none, and
  \<^verbatim>\<open>SetBaggageItem\<close> dereferences its null pointer, so it is not called on one.
\<close>

definition SetBaggageItem ::
  "restriction_manager \<Rightarrow> time \<Rightarrow> string \<Rightarrow> string \<Rightarrow> span \<Rightarrow> metrics \<Rightarrow> span \<times> metrics" where
  "SetBaggageItem manager now restrictedKey v s ms =
     (case setBaggage manager (serviceName s) (isSampled (sp_context s)) (baggage (sp_context s))
             restrictedKey v ms of
        (bag, fs, ms') \<Rightarrow>
          let s1 = (case fs of None \<Rightarrow> s | Some fs \<Rightarrow> logFieldsNoLocking now fs s)
          in (s1\<lparr>sp_context := withBaggage (sp_context s1) bag\<rparr>, ms'))"

definition BaggageItem :: "string \<Rightarrow> span \<Rightarrow> string" where
  "BaggageItem restrictedKey s =
     (case map_of (baggage (sp_context s)) restrictedKey of None \<Rightarrow> [] | Some v \<Rightarrow> v)"

text \<open>
  \<open>finish\<close> and \<open>records\<close> are the options, \<open>now\<close> what the steady clock says; a zero time point
  stands for an unset one. The result tells whether this call reports the span.
\<close>

definition FinishWithOptions :: "time \<Rightarrow> time \<Rightarrow> log_record list \<Rightarrow> span \<Rightarrow> span \<times> bool" where
  "FinishWithOptions now finish records s =
     (let finishTimeSteady = (if finish = 0 then now else finish) in
      if isFinished s then (s, False)
      else
        let d = finishTimeSteady - sp_startTimeSteady s;
            d' = (if d \<le> 0 then 1 else d)
        in (s\<lparr>sp_duration := d', sp_logs := sp_logs s @ records\<rparr>, sp_tracer s \<noteq> None))"

section \<open>Conversion\<close>

fun mapE :: "('a \<Rightarrow> 'e + 'b) \<Rightarrow> 'a list \<Rightarrow> 'e + 'b list" where
  "mapE f [] = Inr []"
| "mapE f (x # xs) =
     (case f x of Inl e \<Rightarrow> Inl e | Inr y \<Rightarrow> (case mapE f xs of Inl e \<Rightarrow> Inl e | Inr ys \<Rightarrow> Inr (y # ys)))"

definition Span_thrift :: "span \<Rightarrow> exception + thrift_span" where
  "Span_thrift s =
     (let c = sp_context s in
      case mapE Reference_thrift (sp_references s) of
        Inl e \<Rightarrow> Inl e
      | Inr refs \<Rightarrow>
          Inr \<lparr>span_traceIdLow = low (traceID c), span_traceIdHigh = high (traceID c),
            span_spanId = spanID c, span_parentSpanId = parentID c,
            span_operationName = sp_operationName s, span_references = Some refs,
            span_flags = of_nat (unat (flags c)),
            span_startTime = word_of_int (microseconds (sp_startTimeSystem s)),
            span_duration = word_of_int (microseconds (sp_duration s)),
            span_tags = Some (thrift_tags (sp_tags s)),
            span_logs = Some (map LogRecord_thrift (sp_logs s))\<rparr>)"

section \<open>Sequences of operations\<close>

text \<open>What a program does with a span, each operation with the time it happens at.\<close>

datatype span_op =
    OpSetOperationName string
  | OpSetTag string tag_value
  | OpLog time "(string \<times> tag_value) list"
  | OpSetBaggageItem restriction_manager time string string
  | OpFinish time time "log_record list"

fun is_finish :: "span_op \<Rightarrow> bool" where
  "is_finish (OpFinish now fin records) = True"
| "is_finish _ = False"

definition span_step :: "span_op \<Rightarrow> span \<times> metrics \<Rightarrow> span \<times> metrics \<times> bool" where
  "span_step op st =
     (case st of (s, ms) \<Rightarrow>
        case op of
          OpSetOperationName n \<Rightarrow> (SetOperationName n s, ms, False)
        | OpSetTag k v \<Rightarrow> (SetTag k v s, ms, False)
        | OpLog t fs \<Rightarrow> (Log t fs s, ms, False)
        | OpSetBaggageItem m t k v \<Rightarrow> (case SetBaggageItem m t k v s ms of (s', ms') \<Rightarrow> (s', ms', False))
        | OpFinish now fin records \<Rightarrow> (case FinishWithOptions now fin records s of (s', rep) \<Rightarrow> (s', ms, rep)))"

fun span_run :: "span_op list \<Rightarrow> span \<times> metrics \<Rightarrow> span \<times> metrics \<times> span list" where
  "span_run [] (s, ms) = (s, ms, [])"
| "span_run (op # ops) (s, ms) =
     (case span_step op (s, ms) of (s1, ms1, rep) \<Rightarrow>
        case span_run ops (s1, ms1) of (s2, ms2, reports) \<Rightarrow>
          (s2, ms2, (if rep then s1 # reports else reports)))"

section \<open>Lemmas\<close>

lemmas span_op_defs =
  SetOperationName_def SetTag_def setSamplingPriority_def Log_def logFieldsNoLocking_def
  SetBaggageItem_def FinishWithOptions_def

lemma mapE_Inr: "mapE f xs = Inr ys \<Longrightarrow> list_all2 (\<lambda>x y. f x = Inr y) xs ys"
  by (induction xs arbitrary: ys) (auto split: sum.splits)

lemma mapE_total: "(\<exists>ys. mapE f xs = Inr ys) \<longleftrightarrow> (\<forall>x \<in> set xs. \<exists>y. f x = Inr y)"
  by (induction xs) (auto split: sum.splits)

text \<open>What no operation changes.\<close>

definition span_identity :: "span \<Rightarrow> string option \<times> trace_id \<times> u64 \<times> u64 \<times> time \<times> time \<times> reference list" where
  "span_identity s = (sp_tracer s, traceID (sp_context s), spanID (sp_context s), parentID (sp_context s),
     sp_startTimeSystem s, sp_startTimeSteady s, sp_references s)"

lemma span_step_identity:
  "span_step op (s, ms) = (s', ms', rep) \<Longrightarrow> span_identity s' = span_identity s"
  by (cases op) (auto simp: span_step_def span_op_defs span_identity_def withBaggage_def Let_def
      split: prod.splits if_splits option.splits)

lemma span_step_finished:
  assumes "isFinished s" and "span_step op (s, ms) = (s', ms', rep)"
  shows "isFinished s' \<and> sp_duration s' = sp_duration s \<and> \<not> rep \<and>
    sp_operationName s' = sp_operationName s \<and> sp_tags s' = sp_tags s"
  using assms by (cases op) (auto simp: span_step_def span_op_defs isFinished_def Let_def
      split: prod.splits if_splits option.splits)

lemma span_step_finish:
  assumes "\<not> isFinished s" and "span_step op (s, ms) = (s', ms', rep)"
  shows "isFinished s' \<longleftrightarrow> is_finish op"
    "rep \<longleftrightarrow> isFinished s' \<and> sp_tracer s \<noteq> None" "0 \<le> sp_duration s \<Longrightarrow> 0 \<le> sp_duration s'"
  using assms by (cases op; auto simp: span_step_def span_op_defs isFinished_def Let_def
      split: prod.splits if_splits option.splits)+

lemma span_run_finished:
  "isFinished s \<Longrightarrow> span_run ops (s, ms) = (s', ms', reports) \<Longrightarrow>
   reports = [] \<and> sp_duration s' = sp_duration s \<and> sp_operationName s' = sp_operationName s \<and>
   sp_tags s' = sp_tags s"
proof (induction ops arbitrary: s ms s' ms' reports)
  case (Cons op ops)
  obtain s1 ms1 rep where 1: "span_step op (s, ms) = (s1, ms1, rep)" by (metis prod_cases3)
  obtain s2 ms2 rs where 2: "span_run ops (s1, ms1) = (s2, ms2, rs)" by (metis prod_cases3)
  show ?case
    using Cons.IH[OF _ 2] span_step_finished[OF Cons.prems(1) 1] Cons.prems(2) 1 2 by auto
qed simp

lemma span_run_reports:
  "span_run ops (s, ms) = (s', ms', reports) \<Longrightarrow> \<not> isFinished s \<Longrightarrow> sp_duration s = 0 \<Longrightarrow>
   length reports = of_bool (sp_tracer s \<noteq> None \<and> list_ex is_finish ops) \<and>
   list_all (\<lambda>r. isFinished r \<and> sp_duration r = sp_duration s' \<and> 1 \<le> sp_duration r \<and>
     sp_tags r = sp_tags s' \<and> sp_operationName r = sp_operationName s' \<and> span_identity r = span_identity s) reports"
proof (induction ops arbitrary: s ms s' ms' reports)
  case (Cons op ops)
  obtain s1 ms1 rep where 1: "span_step op (s, ms) = (s1, ms1, rep)" by (metis prod_cases3)
  obtain s2 ms2 rs where 2: "span_run ops (s1, ms1) = (s2, ms2, rs)" by (metis prod_cases3)
  note st = span_step_finish[OF Cons.prems(2) 1]
  have id: "span_identity s1 = span_identity s" by (rule span_step_identity[OF 1])
  then have tr: "sp_tracer s1 = sp_tracer s" by (simp add: span_identity_def)
  show ?case
  proof (cases "isFinished s1")
    case True
    then have "rs = [] \<and> sp_duration s2 = sp_duration s1 \<and> sp_operationName s2 = sp_operationName s1 \<and>
        sp_tags s2 = sp_tags s1"
      by (rule span_run_finished[OF _ 2])
    moreover have "1 \<le> sp_duration s1"
      using True st(3) Cons.prems(3) by (simp add: isFinished_def)
    ultimately show ?thesis
      using True st Cons.prems 1 2 id by auto
  next
    case False
    then have "sp_duration s1 = 0" by (simp add: isFinished_def)
    from Cons.IH[OF 2 False this] show ?thesis
      using False st Cons.prems 1 2 id tr by auto
  qed
qed simp

lemma Span_thrift_total:
  "(\<exists>t. Span_thrift s = Inr t) \<longleftrightarrow> (\<forall>r \<in> set (sp_references s). ref_type r \<in> {ChildOfRef, FollowsFromRef})"
proof -
  have "(\<exists>t. Span_thrift s = Inr t) \<longleftrightarrow> (\<exists>rs. mapE Reference_thrift (sp_references s) = Inr rs)"
    by (auto simp: Span_thrift_def Let_def split: sum.splits)
  then show ?thesis by (simp only: mapE_total Reference_thrift_total)
qed

lemma Span_thrift_fields:
  assumes "Span_thrift s = Inr t"
  shows "span_traceIdLow t = low (traceID (sp_context s))" "span_traceIdHigh t = high (traceID (sp_context s))"
    "span_spanId t = spanID (sp_context s)" "span_parentSpanId t = parentID (sp_context s)"
    "span_operationName t = sp_operationName s" "unat (span_flags t) = unat (flags (sp_context s))"
    "map_option (map tag_key) (span_tags t) = Some (map tkey (sp_tags s))"
    "map_option length (span_logs t) = Some (length (sp_logs s))"
    "map_option length (span_references t) = Some (length (sp_references s))"
proof -
  have f: "unat (of_nat (unat (flags (sp_context s))) :: 32 word) = unat (flags (sp_context s))"
    using unsigned_less[of "flags (sp_context s)", where 'a = nat]
    by (simp add: unsigned_ucast_eq take_bit_nat_eq_self)
  show "span_traceIdLow t = low (traceID (sp_context s))" "span_traceIdHigh t = high (traceID (sp_context s))"
    "span_spanId t = spanID (sp_context s)" "span_parentSpanId t = parentID (sp_context s)"
    "span_operationName t = sp_operationName s" "unat (span_flags t) = unat (flags (sp_context s))"
    "map_option (map tag_key) (span_tags t) = Some (map tkey (sp_tags s))"
    "map_option length (span_logs t) = Some (length (sp_logs s))"
    "map_option length (span_references t) = Some (length (sp_references s))"
    using assms f
    by (auto simp: Span_thrift_def Let_def thrift_tags_keys dest!: mapE_Inr list_all2_lengthD split: sum.splits)
qed

lemma span_duration_exact:
  assumes "Span_thrift s = Inr t" and "0 \<le> sp_duration s" and "sp_duration s < 2 ^ 63"
  shows "sint (span_duration t) = sp_duration s div 1000"
proof -
  have "span_duration t = word_of_int (microseconds (sp_duration s))"
    using assms(1) by (auto simp: Span_thrift_def Let_def split: sum.splits)
  moreover have "0 \<le> sp_duration s div 1000" "sp_duration s div 1000 < 2 ^ 63"
    using assms by (simp_all add: div_le_dividend)
  ultimately show ?thesis
    using assms(2) by (simp add: microseconds_nonneg int_word_sint signed_take_bit_int_eq_self)
qed

section \<open>Properties\<close>

text \<open>C30. A span is reported at most once, and exactly once if it is ever finished and belongs
  to a tracer, whatever operations come before, between and after; what is reported is finished,
  lasted at least one tick, and has the name, tags, ids and references the span keeps for ever.\<close>

theorem span_reported_once:
  assumes "span_run ops (s, ms) = (s', ms', reports)" and "\<not> isFinished s"
  shows "length reports = of_bool (sp_tracer s \<noteq> None \<and> list_ex is_finish ops) \<and>
   list_all (\<lambda>r. isFinished r \<and> sp_duration r = sp_duration s' \<and> 1 \<le> sp_duration r \<and>
     sp_tags r = sp_tags s' \<and> sp_operationName r = sp_operationName s' \<and> span_identity r = span_identity s) reports"
  using span_run_reports[OF assms] assms(2) by (simp add: isFinished_def)

definition example_span :: span where
  "example_span = Span (Some ''svc'') (SpanContext (TraceID 0 1) 2 3 1 [] [] []) ''op'' 1000 2000 [] []"

theorem span_reported_once_witness:
  "length (snd (snd (span_run [OpSetTag ''k'' (VBool True), OpFinish 9000 0 [], OpFinish 9500 0 []]
     (example_span, metrics0)))) = 1"
proof -
  let ?ops = "[OpSetTag ''k'' (VBool True), OpFinish 9000 0 [], OpFinish 9500 0 []]"
  have n: "\<not> isFinished example_span" "sp_tracer example_span = Some ''svc''"
    by (simp_all add: example_span_def Span_def isFinished_def)
  obtain s' ms' reports where r: "span_run ?ops (example_span, metrics0) = (s', ms', reports)"
    by (metis prod_cases3)
  from span_reported_once[OF r n(1)] show ?thesis unfolding r by (simp add: n)
qed

text \<open>Once a span is finished its duration, name and tags no longer change.\<close>

theorem finished_span_frozen:
  assumes "isFinished s" and "span_run ops (s, ms) = (s', ms', reports)"
  shows "reports = [] \<and> sp_duration s' = sp_duration s \<and> sp_operationName s' = sp_operationName s \<and>
    sp_tags s' = sp_tags s"
  using assms by (rule span_run_finished)

theorem finished_span_frozen_witness:
  "sp_operationName (fst (span_run [OpSetOperationName ''other'', OpFinish 5 6 []]
     (example_span\<lparr>sp_duration := 7\<rparr>, metrics0))) = ''op''"
proof -
  let ?s = "example_span\<lparr>sp_duration := 7\<rparr>"
  have f: "isFinished ?s" by (simp add: isFinished_def)
  obtain s' ms' reports where r: "span_run [OpSetOperationName ''other'', OpFinish 5 6 []] (?s, metrics0) = (s', ms', reports)"
    by (metis prod_cases3)
  from finished_span_frozen[OF f r] show ?thesis
    unfolding r by (simp add: example_span_def Span_def)
qed

text \<open>Conversion to Thrift succeeds exactly when every reference has one of the two types
  OpenTracing names, and then carries the ids, flags, name, tag keys, logs and references of the
  span, and its duration in whole microseconds.\<close>

lemma span_thrift_faithful:
  assumes "0 \<le> sp_duration s" and "sp_duration s < 2 ^ 63"
  shows "((\<exists>t. Span_thrift s = Inr t) \<longleftrightarrow>
      (\<forall>r \<in> set (sp_references s). ref_type r \<in> {ChildOfRef, FollowsFromRef})) \<and>
    (\<forall>t. Span_thrift s = Inr t \<longrightarrow>
      span_traceIdLow t = low (traceID (sp_context s)) \<and> span_traceIdHigh t = high (traceID (sp_context s)) \<and>
      span_spanId t = spanID (sp_context s) \<and> span_parentSpanId t = parentID (sp_context s) \<and>
      span_operationName t = sp_operationName s \<and> unat (span_flags t) = unat (flags (sp_context s)) \<and>
      map_option (map tag_key) (span_tags t) = Some (map tkey (sp_tags s)) \<and>
      map_option length (span_logs t) = Some (length (sp_logs s)) \<and>
      map_option length (span_references t) = Some (length (sp_references s)) \<and>
      sint (span_duration t) = sp_duration s div 1000)"
  using Span_thrift_total[of s] Span_thrift_fields[of s] span_duration_exact[OF _ assms] by blast

lemma span_thrift_faithful_witness:
  "\<exists>t. Span_thrift (example_span\<lparr>sp_duration := 7000\<rparr>) = Inr t \<and> sint (span_duration t) = 7"
  using span_thrift_faithful[of "example_span\<lparr>sp_duration := 7000\<rparr>"]
  by (auto simp: example_span_def Span_def)

end
