(* ===== verification/Senders.thy ===== *)
theory Senders
  imports Spans "HOL-Library.Sublist"
begin

text \<open>
  Transports (\<^verbatim>\<open>utils/UDPTransporter.*\<close>, \<^verbatim>\<open>utils/HTTPTransporter.*\<close>) and \<^verbatim>\<open>ThriftSender\<close>. The
  Thrift library is a parameter: what a batch serializes to, and the size of a span and of a
  process on their own. What the kernel answers to a send is an argument of the call.
\<close>

section \<open>Transports\<close>

definition kUDPPacketMaxLength :: int where "kUDPPacketMaxLength = 65000"
definition kHttpPacketMaxLength :: int where "kHttpPacketMaxLength = 1024 * 1024"

definition UDP_maxPacketSize :: "int \<Rightarrow> int" where
  "UDP_maxPacketSize n = (if n = 0 then kUDPPacketMaxLength else n)"

definition HTTP_maxPacketSize :: "int \<Rightarrow> int" where
  "HTTP_maxPacketSize n = (if n = 0 then kHttpPacketMaxLength else n)"

definition UDP_emitBatch ::
  "(thrift_batch \<Rightarrow> string) \<Rightarrow> int \<Rightarrow> int \<Rightarrow> int \<Rightarrow> thrift_batch \<Rightarrow> exception + string" where
  "UDP_emitBatch serialize maxPacketSize numWritten errno batch =
     (let data = serialize batch; size = int (length data) in
      if size > maxPacketSize then
        Inl (LogicError (''Data does not fit within one UDP packet, size '' @ int_str size @
          '', max '' @ int_str maxPacketSize @ '', spans '' @ int_str (int (length (batch_spans batch)))))
      else if (word_of_int numWritten :: u32) \<noteq> word_of_int size then
        Inl (SysError (''Failed to write message, numWritten='' @ int_str numWritten @
          '', size='' @ int_str size) errno)
      else Inr data)"

text \<open>The status check is the source's, a conjunction that no status satisfies.\<close>

definition HTTP_emitBatch ::
  "(thrift_batch \<Rightarrow> string) \<Rightarrow> int \<Rightarrow> int \<Rightarrow> string list \<Rightarrow> thrift_batch \<Rightarrow> exception + string" where
  "HTTP_emitBatch serialize numWritten errno blocks batch =
     (let data = serialize batch; size = int (length data) in
      if (word_of_int numWritten :: u32) \<noteq> word_of_int size then
        Inl (SysError (''Failed to write message, numWritten='' @ int_str numWritten @
          '', size='' @ int_str size) errno)
      else case http_read blocks of
             Inl e \<Rightarrow> Inl (LogicError (ParseError_what e))
           | Inr resp \<Rightarrow>
               if resp_statusCode resp < 200 \<and> resp_statusCode resp > 204 then
                 Inl (SysError (''Failed to write message, HTTP error '' @
                   int_str (resp_statusCode resp) @ resp_reason resp) errno)
               else Inr data)"

section \<open>The sender\<close>

definition kEmitBatchOverhead :: int where "kEmitBatchOverhead = 30"

text \<open>\<open>ts_emitted\<close> is what the transport has accepted, the sender's effect on the world.\<close>

record thrift_sender =
  ts_maxPacketSize :: int
  ts_maxSpanBytes :: int
  ts_byteBufferSize :: int
  ts_spanBuffer :: "thrift_span list"
  ts_process :: thrift_process
  ts_processByteSize :: int
  ts_emitted :: "thrift_batch list"
  ts_open :: bool

definition ThriftSender :: "int \<Rightarrow> thrift_sender" where
  "ThriftSender maxPacketSize =
     \<lparr>ts_maxPacketSize = maxPacketSize, ts_maxSpanBytes = 0, ts_byteBufferSize = 0, ts_spanBuffer = [],
      ts_process = thrift_process0, ts_processByteSize = 0, ts_emitted = [], ts_open = True\<rparr>"

record thrift_sizes =
  size_span :: "thrift_span \<Rightarrow> int"
  size_process :: "thrift_process \<Rightarrow> int"

definition resetBuffers :: "thrift_sender \<Rightarrow> thrift_sender" where
  "resetBuffers s = s\<lparr>ts_spanBuffer := [], ts_byteBufferSize := ts_processByteSize s\<rparr>"

text \<open>\<open>emit\<close> is the transport's \<^verbatim>\<open>emitBatch\<close>: the exception it throws on a batch, if it throws one.\<close>

definition sender_error :: "exception \<Rightarrow> nat \<Rightarrow> exception" where
  "sender_error e n =
     (case e of
        SysError what code \<Rightarrow>
          SenderException (''Could not send span '' @ what @ '', code='' @ int_str code) (int n)
      | LogicError what \<Rightarrow> SenderException (''Could not send span '' @ what) (int n)
      | InvalidArgument what \<Rightarrow> SenderException (''Could not send span '' @ what) (int n)
      | SenderException what k \<Rightarrow> SenderException (''Could not send span '' @ what) (int n)
      | RuntimeError what \<Rightarrow> SenderException (''Could not send span '' @ what) (int n)
      | UnknownException \<Rightarrow> SenderException ''Could not send span, unknown error'' (int n))"

definition ThriftSender_flush ::
  "(thrift_batch \<Rightarrow> exception option) \<Rightarrow> thrift_sender \<Rightarrow> (exception + int) \<times> thrift_sender" where
  "ThriftSender_flush emit s =
     (if ts_spanBuffer s = [] then (Inr 0, s)
      else
        let batch = \<lparr>batch_process = ts_process s, batch_spans = ts_spanBuffer s\<rparr> in
        case emit batch of
          Some e \<Rightarrow> (Inl (sender_error e (length (ts_spanBuffer s))), s)
        | None \<Rightarrow> (Inr (int (length (batch_spans batch))),
                   resetBuffers (s\<lparr>ts_emitted := ts_emitted s @ [batch]\<rparr>)))"

definition set_process :: "thrift_sizes \<Rightarrow> string \<Rightarrow> tag list \<Rightarrow> thrift_sender \<Rightarrow> thrift_sender" where
  "set_process sz service tgs s =
     (if process_serviceName (ts_process s) = [] then
        let p = \<lparr>process_serviceName = service, process_tags = Some (thrift_tags tgs)\<rparr>; n = size_process sz p
        in s\<lparr>ts_process := p, ts_processByteSize := n,
             ts_maxSpanBytes := ts_maxPacketSize s - n - kEmitBatchOverhead\<rparr>
      else s)"

text \<open>\<^verbatim>\<open>_byteBufferSize\<close> is an \<^verbatim>\<open>int\<close> that a refused batch leaves as large as it has become.\<close>

definition ThriftSender_append ::
  "thrift_sizes \<Rightarrow> string \<Rightarrow> tag list \<Rightarrow> (thrift_batch \<Rightarrow> exception option) \<Rightarrow> span \<Rightarrow> thrift_sender \<Rightarrow>
   (exception + int) \<times> thrift_sender" where
  "ThriftSender_append sz service tgs emit sp s =
     (let s1 = set_process sz service tgs s in
      case Span_thrift sp of
        Inl e \<Rightarrow> (Inl e, s1)
      | Inr jaegerSpan \<Rightarrow>
          let spanSize = size_span sz jaegerSpan in
          if spanSize > ts_maxSpanBytes s1 then (Inl (SenderException ''Span is too large'' 1), s1)
          else
            let s2 = s1\<lparr>ts_byteBufferSize := int32 (ts_byteBufferSize s1 + spanSize)\<rparr> in
            if ts_byteBufferSize s2 \<le> ts_maxSpanBytes s2 then
              let s3 = s2\<lparr>ts_spanBuffer := ts_spanBuffer s2 @ [jaegerSpan]\<rparr> in
              if ts_byteBufferSize s3 < ts_maxSpanBytes s3 then (Inr 0, s3)
              else ThriftSender_flush emit s3
            else
              case ThriftSender_flush emit s2 of
                (Inl e, s3) \<Rightarrow> (Inl e, s3)
              | (Inr flushed, s3) \<Rightarrow>
                  (Inr flushed, s3\<lparr>ts_spanBuffer := ts_spanBuffer s3 @ [jaegerSpan],
                     ts_byteBufferSize := int32 (spanSize + ts_processByteSize s3)\<rparr>))"

definition ThriftSender_close :: "thrift_sender \<Rightarrow> thrift_sender" where
  "ThriftSender_close s = s\<lparr>ts_open := False\<rparr>"

section \<open>Batches fit into a packet\<close>

definition spans_size :: "thrift_sizes \<Rightarrow> thrift_span list \<Rightarrow> int" where
  "spans_size sz xs = sum_list (map (size_span sz) xs)"

definition batch_fits :: "thrift_sizes \<Rightarrow> int \<Rightarrow> thrift_batch \<Rightarrow> bool" where
  "batch_fits sz mx b \<longleftrightarrow>
     size_process sz (batch_process b) + spans_size sz (batch_spans b) + kEmitBatchOverhead \<le> mx"

definition sender_ok :: "thrift_sizes \<Rightarrow> thrift_sender \<Rightarrow> bool" where
  "sender_ok sz s \<longleftrightarrow>
     (ts_spanBuffer s = [] \<or>
        process_serviceName (ts_process s) \<noteq> [] \<and> spans_size sz (ts_spanBuffer s) \<le> ts_maxSpanBytes s) \<and>
     spans_size sz (ts_spanBuffer s) \<le> ts_byteBufferSize s \<and>
     (process_serviceName (ts_process s) \<noteq> [] \<longrightarrow>
        ts_processByteSize s = size_process sz (ts_process s) \<and>
        ts_maxSpanBytes s = ts_maxPacketSize s - ts_processByteSize s - kEmitBatchOverhead) \<and>
     0 \<le> ts_processByteSize s \<and> ts_maxPacketSize s \<le> INT_MAX \<and>
     list_all (batch_fits sz (ts_maxPacketSize s)) (ts_emitted s)"

definition sizes_ok :: "thrift_sizes \<Rightarrow> bool" where
  "sizes_ok sz \<longleftrightarrow> (\<forall>t. 0 \<le> size_span sz t) \<and> (\<forall>p. 0 \<le> size_process sz p)"

lemma spans_size_simps [simp]:
  "spans_size sz [] = 0" "spans_size sz [x] = size_span sz x"
  "spans_size sz (xs @ [x]) = spans_size sz xs + size_span sz x"
  by (simp_all add: spans_size_def)

lemma sender_ok_new: "mx \<le> INT_MAX \<Longrightarrow> sender_ok sz (ThriftSender mx)"
  by (simp add: sender_ok_def ThriftSender_def thrift_process0_def)

text \<open>The bytes that an append adds to the count.\<close>

definition offered :: "thrift_sizes \<Rightarrow> span \<Rightarrow> int" where
  "offered sz sp = (case Span_thrift sp of Inl _ \<Rightarrow> 0 | Inr t \<Rightarrow> size_span sz t)"

lemma set_process_ok:
  assumes "sizes_ok sz" and "sender_ok sz s" and "service \<noteq> []"
  shows "sender_ok sz (set_process sz service tgs s) \<and>
    process_serviceName (ts_process (set_process sz service tgs s)) \<noteq> []"
  using assms by (auto simp: sender_ok_def set_process_def Let_def sizes_ok_def)

lemma flush_ok:
  assumes "sender_ok sz s" and "ThriftSender_flush emit s = (r, s')"
  shows "sender_ok sz s'"
  using assms
  by (auto simp: sender_ok_def ThriftSender_flush_def resetBuffers_def batch_fits_def Let_def
      split: if_splits option.splits)

lemma append_ok:
  assumes sz: "sizes_ok sz" and ok: "sender_ok sz s" and name: "service \<noteq> []"
    and max: "ts_byteBufferSize (set_process sz service tgs s) + offered sz sp \<le> INT_MAX"
    and a: "ThriftSender_append sz service tgs emit sp s = (r, s')"
  shows "sender_ok sz s'"
proof -
  define s1 where "s1 = set_process sz service tgs s"
  have s1: "sender_ok sz s1" "process_serviceName (ts_process s1) \<noteq> []"
    using set_process_ok[OF sz ok name] by (simp_all add: s1_def)
  show ?thesis
  proof (cases "Span_thrift sp")
    case (Inl e)
    then show ?thesis using a s1 by (simp add: ThriftSender_append_def s1_def[symmetric])
  next
    case (Inr t)
    let ?n = "size_span sz t"
    have n: "0 \<le> ?n" using sz by (simp add: sizes_ok_def)
    have "0 \<le> ts_byteBufferSize s1"
      using s1(1) sz sum_list_nonneg[of "map (size_span sz) (ts_spanBuffer s1)"]
      by (fastforce simp: sender_ok_def spans_size_def sizes_ok_def)
    then have wrap: "int32 (ts_byteBufferSize s1 + ?n) = ts_byteBufferSize s1 + ?n"
      using max n Inr by (intro int32_nonneg) (simp_all add: offered_def s1_def)
    let ?s2 = "s1\<lparr>ts_byteBufferSize := ts_byteBufferSize s1 + ?n\<rparr>"
    let ?s3 = "?s2\<lparr>ts_spanBuffer := ts_spanBuffer s1 @ [t]\<rparr>"
    have ok2: "sender_ok sz ?s2" using s1 n by (auto simp: sender_ok_def)
    show ?thesis
    proof (cases "?n > ts_maxSpanBytes s1 \<or> ts_byteBufferSize s1 + ?n \<le> ts_maxSpanBytes s1")
      case True
      have ok3: "ts_byteBufferSize s1 + ?n \<le> ts_maxSpanBytes s1 \<Longrightarrow> sender_ok sz ?s3"
        using s1 n by (auto simp: sender_ok_def)
      show ?thesis
        using True a Inr s1 ok3 flush_ok[of sz ?s3 emit r s']
        by (auto simp: ThriftSender_append_def s1_def[symmetric] Let_def wrap split: if_splits)
    next
      case False
      obtain r3 s3 where f: "ThriftSender_flush emit ?s2 = (r3, s3)" by fastforce
      note ok3 = flush_ok[OF ok2 f]
      have "ts_spanBuffer s3 = [] \<and> process_serviceName (ts_process s3) \<noteq> [] \<and>
          ts_maxSpanBytes s3 = ts_maxSpanBytes s1" if "r3 = Inr k" for k
        using f that s1 by (auto simp: ThriftSender_flush_def resetBuffers_def Let_def split: if_splits option.splits)
      note empty = this
      have "int32 (?n + ts_processByteSize s3) = ?n + ts_processByteSize s3" if "r3 = Inr k" for k
        using ok3 empty[OF that] False n by (intro int32_nonneg) (auto simp: sender_ok_def kEmitBatchOverhead_def)
      moreover have "sender_ok sz (s3\<lparr>ts_spanBuffer := ts_spanBuffer s3 @ [t],
          ts_byteBufferSize := ?n + ts_processByteSize s3\<rparr>)" if "r3 = Inr k" for k
        using ok3 empty[OF that] False by (auto simp: sender_ok_def)
      ultimately show ?thesis
        using False a Inr ok3 f
        by (auto simp: ThriftSender_append_def s1_def[symmetric] Let_def wrap split: if_splits sum.splits)
    qed
  qed
qed

section \<open>No span is lost or sent twice by a sender that does not fail\<close>

definition sender_emitted :: "thrift_sender \<Rightarrow> thrift_span list" where
  "sender_emitted s = concat (map batch_spans (ts_emitted s))"

lemma flush_effect:
  assumes "ThriftSender_flush emit s = (r, s')"
  shows "case r of
      Inr n \<Rightarrow> sender_emitted s' = sender_emitted s @ ts_spanBuffer s \<and> ts_spanBuffer s' = [] \<and>
        n = int (length (ts_spanBuffer s))
    | Inl e \<Rightarrow> s' = s \<and> ts_spanBuffer s \<noteq> [] \<and> (\<exists>what. e = SenderException what (int (length (ts_spanBuffer s))))"
  using assms
  by (auto simp: ThriftSender_flush_def resetBuffers_def sender_emitted_def sender_error_def Let_def
      split: if_splits option.splits exception.splits)

lemma set_process_buffers [simp]:
  "ts_spanBuffer (set_process sz service tgs s) = ts_spanBuffer s"
  "sender_emitted (set_process sz service tgs s) = sender_emitted s"
  by (simp_all add: set_process_def sender_emitted_def Let_def)

lemma append_effect:
  assumes "ThriftSender_append sz service tgs emit sp s = (r, s')"
  shows "case r of
      Inr n \<Rightarrow> (\<exists>t. Span_thrift sp = Inr t \<and>
        sender_emitted s' @ ts_spanBuffer s' = sender_emitted s @ ts_spanBuffer s @ [t]) \<and>
        length (sender_emitted s') = length (sender_emitted s) + nat n \<and> 0 \<le> n
    | Inl e \<Rightarrow> sender_emitted s' = sender_emitted s \<and>
        (ts_spanBuffer s' = ts_spanBuffer s \<or>
         (\<exists>t. Span_thrift sp = Inr t \<and> ts_spanBuffer s' = ts_spanBuffer s @ [t]))"
proof -
  define s1 where "s1 = set_process sz service tgs s"
  have s1: "ts_spanBuffer s1 = ts_spanBuffer s" "sender_emitted s1 = sender_emitted s"
    by (simp_all add: s1_def)
  show ?thesis
  proof (cases "Span_thrift sp")
    case (Inl e)
    then show ?thesis using assms s1 by (auto simp: ThriftSender_append_def s1_def[symmetric])
  next
    case (Inr t)
    let ?n = "size_span sz t"
    let ?s2 = "s1\<lparr>ts_byteBufferSize := int32 (ts_byteBufferSize s1 + ?n)\<rparr>"
    let ?s3 = "?s2\<lparr>ts_spanBuffer := ts_spanBuffer s1 @ [t]\<rparr>"
    have e: "sender_emitted ?s2 = sender_emitted s" "sender_emitted ?s3 = sender_emitted s"
      "sender_emitted (x\<lparr>ts_spanBuffer := b, ts_byteBufferSize := k\<rparr>) = sender_emitted x" for x b k
      using s1(2) by (simp_all add: sender_emitted_def)
    consider (large) "?n > ts_maxSpanBytes s1"
      | (push) "\<not> ?n > ts_maxSpanBytes s1" "int32 (ts_byteBufferSize s1 + ?n) < ts_maxSpanBytes s1"
      | (full) "\<not> ?n > ts_maxSpanBytes s1" "int32 (ts_byteBufferSize s1 + ?n) = ts_maxSpanBytes s1"
      | (over) "\<not> ?n > ts_maxSpanBytes s1" "int32 (ts_byteBufferSize s1 + ?n) > ts_maxSpanBytes s1"
      by linarith
    then show ?thesis
    proof cases
      case large
      then show ?thesis using assms Inr s1 by (auto simp: ThriftSender_append_def s1_def[symmetric] Let_def)
    next
      case push
      then have "r = Inr 0" "s' = ?s3"
        using assms Inr by (auto simp: ThriftSender_append_def s1_def[symmetric] Let_def)
      then show ?thesis using Inr e(2) s1 by simp
    next
      case full
      then have "ThriftSender_flush emit ?s3 = (r, s')"
        using assms Inr by (simp add: ThriftSender_append_def s1_def[symmetric] Let_def)
      from flush_effect[OF this] show ?thesis using Inr e(2) s1 by (auto split: sum.splits)
    next
      case over
      obtain r3 s3 where f: "ThriftSender_flush emit ?s2 = (r3, s3)" by fastforce
      from flush_effect[OF f] show ?thesis
        using over assms Inr e s1 f
        by (auto simp: ThriftSender_append_def s1_def[symmetric] Let_def split: sum.splits)
    qed
  qed
qed

section \<open>The interface of a sender\<close>

text \<open>A sequence of calls: an append of a span or a flush, each with the outcome of the transport.\<close>

definition sender_call ::
  "('o \<Rightarrow> 'x \<Rightarrow> 's \<Rightarrow> (exception + int) \<times> 's) \<Rightarrow> ('o \<Rightarrow> 's \<Rightarrow> (exception + int) \<times> 's) \<Rightarrow>
   'o \<times> 'x option \<Rightarrow> 's \<Rightarrow> (exception + int) \<times> 's" where
  "sender_call app fls c s = (case c of (out, Some x) \<Rightarrow> app out x s | (out, None) \<Rightarrow> fls out s)"

fun sender_calls ::
  "('o \<Rightarrow> 'x \<Rightarrow> 's \<Rightarrow> (exception + int) \<times> 's) \<Rightarrow> ('o \<Rightarrow> 's \<Rightarrow> (exception + int) \<times> 's) \<Rightarrow>
   ('o \<times> 'x option) list \<Rightarrow> 's \<Rightarrow> (exception + int) list \<times> 's" where
  "sender_calls app fls [] s = ([], s)"
| "sender_calls app fls (c # cs) s =
     (case sender_call app fls c s of (r, s1) \<Rightarrow>
        case sender_calls app fls cs s1 of (rs, s2) \<Rightarrow> (r # rs, s2))"

definition converted :: "('x \<Rightarrow> 'e + 't) \<Rightarrow> ('o \<times> 'x option) list \<Rightarrow> 't list" where
  "converted conv cs = concat (map (\<lambda>(out, x). case x of None \<Rightarrow> [] | Some x \<Rightarrow>
     (case conv x of Inl _ \<Rightarrow> [] | Inr t \<Rightarrow> [t])) cs)"

text \<open>
  What a reporter relies on. \<open>emitted\<close> is what the sender has handed to its transport and
  \<open>pending\<close> what it still holds; the outcome of the transport is the first argument.
\<close>

locale span_sender =
  fixes append :: "'o \<Rightarrow> 'x \<Rightarrow> 's \<Rightarrow> (exception + int) \<times> 's"
    and flush :: "'o \<Rightarrow> 's \<Rightarrow> (exception + int) \<times> 's"
    and emitted pending :: "'s \<Rightarrow> 't list"
    and conv :: "'x \<Rightarrow> exception + 't"
  assumes append_Inr: "append out x s = (Inr n, s') \<Longrightarrow>
      (\<exists>t. conv x = Inr t \<and> emitted s' @ pending s' = emitted s @ pending s @ [t]) \<and>
      length (emitted s') = length (emitted s) + nat n \<and> 0 \<le> n"
    and append_Inl: "append out x s = (Inl e, s') \<Longrightarrow> emitted s' = emitted s \<and>
      (pending s' = pending s \<or> (\<exists>t. conv x = Inr t \<and> pending s' = pending s @ [t]))"
    and flush_Inr: "flush out s = (Inr n, s') \<Longrightarrow>
      emitted s' = emitted s @ pending s \<and> pending s' = [] \<and> n = int (length (pending s))"
    and flush_Inl: "flush out s = (Inl e, s') \<Longrightarrow> emitted s' = emitted s \<and> pending s' = pending s"
begin

lemma call_effect:
  assumes "sender_call append flush (out, x) s = (r, s')"
  shows "\<exists>kept. subseq kept (case x of None \<Rightarrow> [] | Some x \<Rightarrow> (case conv x of Inl _ \<Rightarrow> [] | Inr t \<Rightarrow> [t])) \<and>
    emitted s' @ pending s' = emitted s @ pending s @ kept \<and>
    int (length (emitted s')) = int (length (emitted s)) + (case r of Inl _ \<Rightarrow> 0 | Inr n \<Rightarrow> n)"
  using assms append_Inr append_Inl flush_Inr flush_Inl
  by (cases r; cases x) (fastforce simp: sender_call_def split: sum.splits)+

lemma calls_effect:
  assumes "sender_calls append flush cs s = (rs, s')"
  shows "\<exists>kept. subseq kept (converted conv cs) \<and>
    emitted s' @ pending s' = emitted s @ pending s @ kept \<and>
    int (length (emitted s')) = int (length (emitted s)) + sum_list (map (case_sum (\<lambda>_. 0) (\<lambda>n. n)) rs)"
  using assms
proof (induction cs arbitrary: s rs)
  case (Cons c cs)
  obtain out x where c: "c = (out, x)" by fastforce
  obtain r s1 where 1: "sender_call append flush c s = (r, s1)" by fastforce
  obtain rs2 where 2: "sender_calls append flush cs s1 = (rs2, s')" "rs = r # rs2"
    using Cons.prems 1 by (auto split: prod.splits)
  from call_effect[OF 1[unfolded c]] obtain k1 where k1:
    "subseq k1 (case x of None \<Rightarrow> [] | Some x \<Rightarrow> (case conv x of Inl _ \<Rightarrow> [] | Inr t \<Rightarrow> [t]))"
    "emitted s1 @ pending s1 = emitted s @ pending s @ k1"
    "int (length (emitted s1)) = int (length (emitted s)) + (case r of Inl _ \<Rightarrow> 0 | Inr n \<Rightarrow> n)"
    by blast
  from Cons.IH[OF 2(1)] obtain k2 where k2:
    "subseq k2 (converted conv cs)"
    "emitted s' @ pending s' = emitted s1 @ pending s1 @ k2"
    "int (length (emitted s')) = int (length (emitted s1)) + sum_list (map (case_sum (\<lambda>_. 0) (\<lambda>n. n)) rs2)"
    by blast
  show ?case
    by (rule exI[of _ "k1 @ k2"]) (use k1 k2 c 2(2) in \<open>simp add: converted_def list_emb_append_mono\<close>)
qed (auto simp: converted_def)

text \<open>When every call is accepted, everything that was given is sent or waits; after a flush nothing waits.\<close>

lemma calls_accepted:
  assumes "sender_calls append flush cs s = (rs, s')" and "list_all (\<lambda>r. \<not> isl r) rs"
  shows "(\<forall>x \<in> set cs. \<forall>y. snd x = Some y \<longrightarrow> (\<exists>t. conv y = Inr t)) \<and>
    emitted s' @ pending s' = emitted s @ pending s @ converted conv cs \<and>
    (cs \<noteq> [] \<and> snd (last cs) = None \<longrightarrow> pending s' = [])"
  using assms
proof (induction cs arbitrary: s rs)
  case (Cons c cs)
  obtain out x where c: "c = (out, x)" by fastforce
  obtain r s1 where 1: "sender_call append flush c s = (r, s1)" by fastforce
  obtain rs2 where 2: "sender_calls append flush cs s1 = (rs2, s')" "rs = r # rs2"
    using Cons.prems 1 by (auto split: prod.splits)
  then obtain n where r: "r = Inr n" using Cons.prems(2) by (cases r) auto
  have one: "emitted s1 @ pending s1 = emitted s @ pending s @ converted conv [c]"
    "\<forall>y. x = Some y \<longrightarrow> (\<exists>t. conv y = Inr t)" "x = None \<longrightarrow> pending s1 = []"
  proof -
    have "(\<exists>y t. x = Some y \<and> conv y = Inr t \<and> emitted s1 @ pending s1 = emitted s @ pending s @ [t]) \<or>
        x = None \<and> emitted s1 = emitted s @ pending s \<and> pending s1 = []"
    proof (cases x)
      case None
      then show ?thesis using 1 flush_Inr[of out s n s1] unfolding c r by (simp add: sender_call_def)
    next
      case (Some y)
      then show ?thesis using 1 append_Inr[of out y s n s1] unfolding c r by (auto simp: sender_call_def)
    qed
    then show "emitted s1 @ pending s1 = emitted s @ pending s @ converted conv [c]"
      "\<forall>y. x = Some y \<longrightarrow> (\<exists>t. conv y = Inr t)" "x = None \<longrightarrow> pending s1 = []"
      by (auto simp: c converted_def)
  qed
  have rest: "emitted s' @ pending s' = emitted s1 @ pending s1 @ converted conv cs"
    "\<forall>x \<in> set cs. \<forall>y. snd x = Some y \<longrightarrow> (\<exists>t. conv y = Inr t)"
    "cs \<noteq> [] \<and> snd (last cs) = None \<longrightarrow> pending s' = []"
    using Cons.IH[OF 2(1)] Cons.prems(2) 2(2) by auto
  have "cs = [] \<Longrightarrow> s' = s1" using 2(1) by auto
  then show ?case using one rest by (auto simp: c converted_def)
qed (auto simp: converted_def)

end

interpretation thrift: span_sender
  "\<lambda>emit sp. ThriftSender_append sz service tgs emit sp" ThriftSender_flush sender_emitted ts_spanBuffer Span_thrift
  for sz service tgs
proof
  fix out :: "thrift_batch \<Rightarrow> exception option" and x s s' n e
  show "ThriftSender_append sz service tgs out x s = (Inr n, s') \<Longrightarrow>
      (\<exists>t. Span_thrift x = Inr t \<and> sender_emitted s' @ ts_spanBuffer s' = sender_emitted s @ ts_spanBuffer s @ [t]) \<and>
      length (sender_emitted s') = length (sender_emitted s) + nat n \<and> 0 \<le> n"
    using append_effect[of sz service tgs out x s "Inr n" s'] by simp
  show "ThriftSender_append sz service tgs out x s = (Inl e, s') \<Longrightarrow> sender_emitted s' = sender_emitted s \<and>
      (ts_spanBuffer s' = ts_spanBuffer s \<or> (\<exists>t. Span_thrift x = Inr t \<and> ts_spanBuffer s' = ts_spanBuffer s @ [t]))"
    using append_effect[of sz service tgs out x s "Inl e" s'] by simp
  show "ThriftSender_flush out s = (Inr n, s') \<Longrightarrow>
      sender_emitted s' = sender_emitted s @ ts_spanBuffer s \<and> ts_spanBuffer s' = [] \<and> n = int (length (ts_spanBuffer s))"
    using flush_effect[of out s "Inr n" s'] by simp
  show "ThriftSender_flush out s = (Inl e, s') \<Longrightarrow>
      sender_emitted s' = sender_emitted s \<and> ts_spanBuffer s' = ts_spanBuffer s"
    using flush_effect[of out s "Inl e" s'] by simp
qed

section \<open>What a sender counts while its batches are refused\<close>

text \<open>
  The bytes counted after a call: of the process (\<open>p\<close>), and of every span offered since the last
  batch that was accepted, for the count is only reset then.
\<close>

definition bytes_offered :: "thrift_sizes \<Rightarrow> span option \<Rightarrow> int" where
  "bytes_offered sz x = (case x of None \<Rightarrow> 0 | Some sp \<Rightarrow> offered sz sp)"

definition next_backlog :: "int \<Rightarrow> int \<Rightarrow> int \<Rightarrow> exception + int \<Rightarrow> int" where
  "next_backlog p b n r = (case r of Inl _ \<Rightarrow> b + n | Inr k \<Rightarrow> if 0 < k then p + n else b + n)"

fun backlog_fits :: "thrift_sizes \<Rightarrow> int \<Rightarrow> int \<Rightarrow> (span option \<times> (exception + int)) list \<Rightarrow> bool" where
  "backlog_fits sz p b [] \<longleftrightarrow> True"
| "backlog_fits sz p b ((x, r) # calls) \<longleftrightarrow>
     b + bytes_offered sz x \<le> INT_MAX \<and> backlog_fits sz p (next_backlog p b (bytes_offered sz x) r) calls"

definition counts_at_most :: "int \<Rightarrow> int \<Rightarrow> thrift_sender \<Rightarrow> bool" where
  "counts_at_most p b s \<longleftrightarrow> ts_byteBufferSize s \<le> b \<and> ts_processByteSize s \<le> p \<and> p \<le> b"

definition process_bytes :: "thrift_sizes \<Rightarrow> string \<Rightarrow> tag list \<Rightarrow> int" where
  "process_bytes sz service tgs =
     size_process sz \<lparr>process_serviceName = service, process_tags = Some (thrift_tags tgs)\<rparr>"

lemma offered_nonneg: "sizes_ok sz \<Longrightarrow> 0 \<le> offered sz sp"
  by (auto simp: offered_def sizes_ok_def split: sum.split)

lemma counts_set_process:
  "counts_at_most (process_bytes sz service tgs) b s \<Longrightarrow>
   counts_at_most (process_bytes sz service tgs) b (set_process sz service tgs s)"
  by (simp add: counts_at_most_def set_process_def process_bytes_def Let_def)

lemma counts_flush:
  assumes "counts_at_most p b s" and "ThriftSender_flush emit s = (r, s')"
  shows "counts_at_most p (next_backlog p b 0 r) s'"
  using assms
  by (auto simp: counts_at_most_def ThriftSender_flush_def resetBuffers_def next_backlog_def Let_def
      split: if_splits option.splits)

lemma counts_append:
  assumes sz: "sizes_ok sz" and c: "counts_at_most p b s1" and max: "b + size_span sz t \<le> INT_MAX"
    and low: "0 \<le> ts_byteBufferSize s1" "0 \<le> ts_processByteSize s1"
  shows "counts_at_most p (b + size_span sz t) (s1\<lparr>ts_byteBufferSize := int32 (ts_byteBufferSize s1 + size_span sz t)\<rparr>)"
    and "int32 (ts_byteBufferSize s1 + size_span sz t) = ts_byteBufferSize s1 + size_span sz t"
    and "int32 (size_span sz t + ts_processByteSize s1) = size_span sz t + ts_processByteSize s1"
proof -
  have n: "0 \<le> size_span sz t" using sz by (simp add: sizes_ok_def)
  show w: "int32 (ts_byteBufferSize s1 + size_span sz t) = ts_byteBufferSize s1 + size_span sz t"
    and "int32 (size_span sz t + ts_processByteSize s1) = size_span sz t + ts_processByteSize s1"
    using c max low n by (auto intro!: int32_nonneg simp: counts_at_most_def)
  show "counts_at_most p (b + size_span sz t) (s1\<lparr>ts_byteBufferSize := int32 (ts_byteBufferSize s1 + size_span sz t)\<rparr>)"
    unfolding w using c n by (simp add: counts_at_most_def)
qed

lemma count_low: "sizes_ok sz \<Longrightarrow> sender_ok sz s \<Longrightarrow> 0 \<le> ts_byteBufferSize s \<and> 0 \<le> ts_processByteSize s"
  using sum_list_nonneg[of "map (size_span sz) (ts_spanBuffer s)"]
  by (fastforce simp: sender_ok_def spans_size_def sizes_ok_def)

lemma append_counts:
  assumes sz: "sizes_ok sz" and ok: "sender_ok sz s" and name: "service \<noteq> []"
    and p: "p = process_bytes sz service tgs" and c: "counts_at_most p b s" and max: "b + offered sz sp \<le> INT_MAX"
    and a: "ThriftSender_append sz service tgs emit sp s = (r, s')"
  shows "counts_at_most p (next_backlog p b (offered sz sp) r) s'"
proof -
  define s1 where "s1 = set_process sz service tgs s"
  have s1: "sender_ok sz s1" "counts_at_most p b s1"
    using set_process_ok[OF sz ok name] counts_set_process c p by (simp_all add: s1_def)
  have up: "counts_at_most p x y \<Longrightarrow> x \<le> z \<Longrightarrow> counts_at_most p z y" for x y z
    by (simp add: counts_at_most_def)
  show ?thesis
  proof (cases "Span_thrift sp")
    case (Inl e)
    then show ?thesis using a s1 by (auto simp: ThriftSender_append_def s1_def[symmetric] next_backlog_def offered_def)
  next
    case (Inr t)
    let ?n = "size_span sz t"
    let ?s2 = "s1\<lparr>ts_byteBufferSize := int32 (ts_byteBufferSize s1 + ?n)\<rparr>"
    let ?s3 = "?s2\<lparr>ts_spanBuffer := ts_spanBuffer s1 @ [t]\<rparr>"
    have n: "offered sz sp = ?n" "0 \<le> ?n" using Inr sz by (simp_all add: offered_def sizes_ok_def)
    have low: "0 \<le> ts_byteBufferSize s1" "0 \<le> ts_processByteSize s1" using count_low[OF sz s1(1)] by simp_all
    note w = counts_append[OF sz s1(2) max[unfolded n(1)] low]
    have c3: "counts_at_most p (b + ?n) ?s3" using w(1) by (simp add: counts_at_most_def)
    have over: "counts_at_most p (next_backlog p b ?n r) s'"
      if f: "ThriftSender_flush emit ?s2 = (r3, s3)" and r: "r = r3"
        and s': "s' = (case r3 of Inl _ \<Rightarrow> s3 | Inr _ \<Rightarrow> s3\<lparr>ts_spanBuffer := ts_spanBuffer s3 @ [t],
            ts_byteBufferSize := int32 (?n + ts_processByteSize s3)\<rparr>)" for r3 s3
    proof -
      have k: "ts_processByteSize s3 = ts_processByteSize s1"
        using f by (auto simp: ThriftSender_flush_def resetBuffers_def Let_def split: if_splits option.splits)
      show ?thesis
        using counts_flush[OF w(1) f] w(3) s1(2) n(2) c unfolding r s'
        by (auto simp: counts_at_most_def next_backlog_def k split: sum.split)
    qed
    have full: "counts_at_most p (next_backlog p b ?n r) s'" if "ThriftSender_flush emit ?s3 = (r, s')"
      using counts_flush[OF c3 that] n(2) by (auto simp: counts_at_most_def next_backlog_def split: sum.split)
    obtain r3 s3 where f: "ThriftSender_flush emit ?s2 = (r3, s3)" by fastforce
    show ?thesis
      using a Inr c3 up[OF s1(2), of "b + ?n"] n full over[OF f]
      by (auto simp: ThriftSender_append_def s1_def[symmetric] Let_def f next_backlog_def split: if_splits sum.splits)
  qed
qed

section \<open>The UDP transport never refuses a batch\<close>

text \<open>The UDP transport over a kernel that sends what it is given.\<close>

definition udp_emit :: "(thrift_batch \<Rightarrow> string) \<Rightarrow> int \<Rightarrow> int \<Rightarrow> thrift_batch \<Rightarrow> exception option" where
  "udp_emit serialize mx errno b =
     (case UDP_emitBatch serialize mx (int (length (serialize b))) errno b of
        Inl e \<Rightarrow> Some e | Inr _ \<Rightarrow> None)"

lemma append_outcome:
  assumes sz: "sizes_ok sz" and ok: "sender_ok sz s" and name: "service \<noteq> []"
    and max: "ts_byteBufferSize s + offered sz sp \<le> INT_MAX"
    and a: "ThriftSender_append sz service tgs emit sp s = (r, s')"
  shows "(\<exists>e. Span_thrift sp = Inl e \<and> r = Inl e) \<or> r = Inl (SenderException ''Span is too large'' 1) \<or>
    r = Inr 0 \<or>
    (\<exists>s3. sender_ok sz s3 \<and> ts_maxPacketSize s3 = ts_maxPacketSize s \<and> r = fst (ThriftSender_flush emit s3))"
proof -
  define s1 where "s1 = set_process sz service tgs s"
  have s1: "sender_ok sz s1" "process_serviceName (ts_process s1) \<noteq> []"
    using set_process_ok[OF sz ok name] by (simp_all add: s1_def)
  have mp: "ts_maxPacketSize s1 = ts_maxPacketSize s" by (simp add: s1_def set_process_def Let_def)
  show ?thesis
  proof (cases "Span_thrift sp")
    case (Inl e)
    then show ?thesis using a by (simp add: ThriftSender_append_def s1_def[symmetric])
  next
    case (Inr t)
    let ?n = "size_span sz t"
    have n: "0 \<le> ?n" using sz by (simp add: sizes_ok_def)
    have "ts_byteBufferSize s1 = ts_byteBufferSize s" by (simp add: s1_def set_process_def Let_def)
    then have wrap: "int32 (ts_byteBufferSize s1 + ?n) = ts_byteBufferSize s1 + ?n"
      using max n Inr count_low[OF sz s1(1)] by (intro int32_nonneg) (simp_all add: offered_def)
    let ?s2 = "s1\<lparr>ts_byteBufferSize := ts_byteBufferSize s1 + ?n\<rparr>"
    let ?s3 = "?s2\<lparr>ts_spanBuffer := ts_spanBuffer s1 @ [t]\<rparr>"
    have ok2: "sender_ok sz ?s2" using s1 n by (auto simp: sender_ok_def)
    have ok3: "ts_byteBufferSize s1 + ?n \<le> ts_maxSpanBytes s1 \<Longrightarrow> sender_ok sz ?s3"
      using s1 n by (auto simp: sender_ok_def)
    have "r = Inl (SenderException ''Span is too large'' 1) \<or> r = Inr 0 \<or>
        r = fst (ThriftSender_flush emit ?s2) \<or>
        ts_byteBufferSize s1 + ?n \<le> ts_maxSpanBytes s1 \<and> r = fst (ThriftSender_flush emit ?s3)"
      using a Inr by (auto simp: ThriftSender_append_def s1_def[symmetric] Let_def wrap
          split: if_splits sum.splits prod.splits)
    moreover have "ts_maxPacketSize ?s2 = ts_maxPacketSize s" "ts_maxPacketSize ?s3 = ts_maxPacketSize s"
      using mp by simp_all
    ultimately show ?thesis using ok2 ok3 by blast
  qed
qed

lemma call_maxPacketSize:
  "ThriftSender_append sz service tgs emit sp s = (r, s') \<Longrightarrow> ts_maxPacketSize s' = ts_maxPacketSize s"
  "ThriftSender_flush emit s = (r, s') \<Longrightarrow> ts_maxPacketSize s' = ts_maxPacketSize s"
  by (auto simp: ThriftSender_append_def ThriftSender_flush_def set_process_def resetBuffers_def Let_def
      split: if_splits sum.splits prod.splits option.splits)

lemma udp_flush_succeeds:
  assumes ok: "sender_ok sz s"
    and ser: "\<And>b. int (length (serialize b)) \<le>
      size_process sz (batch_process b) + spans_size sz (batch_spans b) + kEmitBatchOverhead"
  shows "\<exists>n. fst (ThriftSender_flush (udp_emit serialize (ts_maxPacketSize s) errno) s) = Inr n"
proof (cases "ts_spanBuffer s = []")
  case True
  then show ?thesis by (simp add: ThriftSender_flush_def)
next
  case False
  let ?b = "\<lparr>batch_process = ts_process s, batch_spans = ts_spanBuffer s\<rparr>"
  have "int (length (serialize ?b)) \<le> ts_maxPacketSize s"
    using ser[of ?b] ok False by (auto simp: sender_ok_def)
  then have "udp_emit serialize (ts_maxPacketSize s) errno ?b = None"
    by (simp add: udp_emit_def UDP_emitBatch_def Let_def)
  then show ?thesis using False by (simp add: ThriftSender_flush_def Let_def)
qed

lemma set_process_count [simp]: "ts_byteBufferSize (set_process sz service tgs s) = ts_byteBufferSize s"
  by (simp add: set_process_def Let_def)

text \<open>One call, and then a sequence of them.\<close>

lemma sender_call_invariant:
  assumes sz: "sizes_ok sz" and name: "service \<noteq> []" and ok: "sender_ok sz s"
    and c: "counts_at_most (process_bytes sz service tgs) b s" and max: "b + bytes_offered sz (snd c) \<le> INT_MAX"
    and call: "sender_call (\<lambda>emit sp. ThriftSender_append sz service tgs emit sp) ThriftSender_flush c s = (r, s1)"
  shows "sender_ok sz s1 \<and> ts_maxPacketSize s1 = ts_maxPacketSize s \<and>
    counts_at_most (process_bytes sz service tgs)
      (next_backlog (process_bytes sz service tgs) b (bytes_offered sz (snd c)) r) s1"
proof -
  obtain emit x where x: "c = (emit, x)" by fastforce
  show ?thesis
  proof (cases x)
    case None
    then have "ThriftSender_flush emit s = (r, s1)" using call x by (simp add: sender_call_def)
    with flush_ok[OF ok this] counts_flush[OF c this] call_maxPacketSize(2)[OF this] show ?thesis
      by (simp add: x None bytes_offered_def)
  next
    case (Some sp)
    then have a: "ThriftSender_append sz service tgs emit sp s = (r, s1)" using call x by (simp add: sender_call_def)
    have m: "b + offered sz sp \<le> INT_MAX" using max by (simp add: x Some bytes_offered_def)
    then have "ts_byteBufferSize (set_process sz service tgs s) + offered sz sp \<le> INT_MAX"
      using c by (simp add: counts_at_most_def)
    with append_ok[OF sz ok name this a] append_counts[OF sz ok name refl c m a] call_maxPacketSize(1)[OF a]
    show ?thesis by (simp add: x Some bytes_offered_def)
  qed
qed

lemma sender_calls_invariant:
  assumes "sizes_ok sz" and "service \<noteq> []" and "sender_ok sz s" and "counts_at_most (process_bytes sz service tgs) b s"
    and "backlog_fits sz (process_bytes sz service tgs) b (zip (map snd cs) rs)"
    and "sender_calls (\<lambda>emit sp. ThriftSender_append sz service tgs emit sp) ThriftSender_flush cs s = (rs, s')"
  shows "sender_ok sz s' \<and> ts_maxPacketSize s' = ts_maxPacketSize s"
  using assms(3-6)
proof (induction cs arbitrary: s rs b)
  case (Cons c cs)
  obtain r s1 where 1: "sender_call (\<lambda>emit sp. ThriftSender_append sz service tgs emit sp) ThriftSender_flush c s = (r, s1)"
    by fastforce
  obtain rs2 where 2: "sender_calls (\<lambda>emit sp. ThriftSender_append sz service tgs emit sp) ThriftSender_flush cs s1 = (rs2, s')"
      "rs = r # rs2"
    using Cons.prems(4) 1 by (auto split: prod.splits)
  have fits: "b + bytes_offered sz (snd c) \<le> INT_MAX"
    "backlog_fits sz (process_bytes sz service tgs)
      (next_backlog (process_bytes sz service tgs) b (bytes_offered sz (snd c)) r) (zip (map snd cs) rs2)"
    using Cons.prems(3) 2(2) by simp_all
  from sender_call_invariant[OF assms(1,2) Cons.prems(1,2) fits(1) 1] Cons.IH[OF _ _ fits(2) 2(1)]
  show ?case by simp
qed simp

lemma counts_new: "sizes_ok sz \<Longrightarrow> counts_at_most (process_bytes sz service tgs) (process_bytes sz service tgs) (ThriftSender mx)"
  by (simp add: counts_at_most_def ThriftSender_def process_bytes_def sizes_ok_def)

lemma udp_calls_succeed:
  assumes sz: "sizes_ok sz" and name: "service \<noteq> []" and ok: "sender_ok sz s"
    and ser: "\<And>b. int (length (serialize b)) \<le>
      size_process sz (batch_process b) + spans_size sz (batch_spans b) + kEmitBatchOverhead"
    and c: "counts_at_most (process_bytes sz service tgs) b s"
    and fits: "backlog_fits sz (process_bytes sz service tgs) b (zip xs rs)"
    and run: "sender_calls (\<lambda>emit sp. ThriftSender_append sz service tgs emit sp) ThriftSender_flush
      (map (\<lambda>x. (udp_emit serialize (ts_maxPacketSize s) errno, x)) xs) s = (rs, s')"
  shows "list_all2 (\<lambda>x r. (\<exists>n. r = Inr n) \<or>
    (\<exists>sp. x = Some sp \<and> (r = Inl (SenderException ''Span is too large'' 1) \<or> (\<exists>e. Span_thrift sp = Inl e \<and> r = Inl e)))) xs rs"
  using ok c fits run
proof (induction xs arbitrary: s rs b)
  case (Cons x xs)
  let ?app = "\<lambda>emit sp. ThriftSender_append sz service tgs emit sp"
  let ?emit = "udp_emit serialize (ts_maxPacketSize s) errno"
  let ?p = "process_bytes sz service tgs"
  obtain r s1 where 1: "sender_call ?app ThriftSender_flush (?emit, x) s = (r, s1)" by fastforce
  obtain rs1 where rs1: "rs = r # rs1" using Cons.prems(4) 1 by (auto split: prod.splits)
  have fits: "b + bytes_offered sz x \<le> INT_MAX"
    "backlog_fits sz ?p (next_backlog ?p b (bytes_offered sz x) r) (zip xs rs1)"
    using Cons.prems(3) rs1 by simp_all
  have s1: "sender_ok sz s1 \<and> ts_maxPacketSize s1 = ts_maxPacketSize s \<and>
      counts_at_most ?p (next_backlog ?p b (bytes_offered sz x) r) s1"
    using sender_call_invariant[OF sz name Cons.prems(1,2) _ 1] fits(1) by simp
  have 2: "sender_calls ?app ThriftSender_flush
      (map (\<lambda>x. (udp_emit serialize (ts_maxPacketSize s1) errno, x)) xs) s1 = (rs1, s')"
    using Cons.prems(4) 1 s1 rs1 by (auto split: prod.splits)
  have "(\<exists>n. r = Inr n) \<or>
    (\<exists>sp. x = Some sp \<and> (r = Inl (SenderException ''Span is too large'' 1) \<or> (\<exists>e. Span_thrift sp = Inl e \<and> r = Inl e)))"
  proof (cases x)
    case None
    then show ?thesis
      using 1 udp_flush_succeeds[of sz s serialize errno, OF Cons.prems(1) ser] by (auto simp: sender_call_def)
  next
    case (Some sp)
    then have a: "ThriftSender_append sz service tgs ?emit sp s = (r, s1)" using 1 by (simp add: sender_call_def)
    have "ts_byteBufferSize s + offered sz sp \<le> INT_MAX"
      using fits(1) Cons.prems(2) by (simp add: Some bytes_offered_def counts_at_most_def)
    from append_outcome[OF sz Cons.prems(1) name this a] show ?thesis
      using Some udp_flush_succeeds[of sz _ serialize errno, OF _ ser] by metis
  qed
  then show ?case using Cons.IH[OF _ _ fits(2) 2] s1 rs1 by simp
qed simp

section \<open>Properties\<close>

text \<open>C10. Every batch a sender hands to its transport fits: over any sequence of appends and
  flushes, with any failures of the transport, the process, the spans and the overhead of the
  message stay within the packet size, as long as the bytes the sender counts fit into an \<^verbatim>\<open>int\<close>:
  the process and all spans offered since the last batch that the transport accepted, for a refused
  batch does not reset the count. Past that the count becomes negative, and spans pile up.\<close>

theorem sender_batches_fit:
  assumes "sizes_ok sz" and "service \<noteq> []" and "mx \<le> INT_MAX"
    and "sender_calls (\<lambda>emit sp. ThriftSender_append sz service tgs emit sp) ThriftSender_flush cs
      (ThriftSender mx) = (rs, s')"
    and "backlog_fits sz (process_bytes sz service tgs) (process_bytes sz service tgs) (zip (map snd cs) rs)"
  shows "list_all (batch_fits sz mx) (ts_emitted s')"
proof -
  have "ts_maxPacketSize (ThriftSender mx) = mx" by (simp add: ThriftSender_def)
  then have "sender_ok sz s'" "ts_maxPacketSize s' = mx"
    using sender_calls_invariant[OF assms(1,2) sender_ok_new[OF assms(3)] counts_new[OF assms(1)] assms(5,4)] by simp_all
  then show ?thesis by (simp add: sender_ok_def)
qed

definition example_sizes :: thrift_sizes where
  "example_sizes = \<lparr>size_span = (\<lambda>t. 50 + int (length (span_operationName t))),
     size_process = (\<lambda>p. 10 + int (length (process_serviceName p)))\<rparr>"

lemma example_sizes_ok: "sizes_ok example_sizes"
  by (simp add: sizes_ok_def example_sizes_def)

theorem sender_batches_fit_witness:
  "list_all (batch_fits example_sizes 200)
     (ts_emitted (snd (sender_calls (\<lambda>emit sp. ThriftSender_append example_sizes ''svc'' [] emit sp)
        ThriftSender_flush [(\<lambda>_. None, Some example_span), (\<lambda>_. None, Some example_span), (\<lambda>_. None, None)]
        (ThriftSender 200))))"
proof -
  let ?cs = "[(\<lambda>_. None, Some example_span), (\<lambda>_. None, Some example_span), (\<lambda>_. None, None)]"
  obtain rs s' where run: "sender_calls (\<lambda>emit sp. ThriftSender_append example_sizes ''svc'' [] emit sp)
      ThriftSender_flush ?cs (ThriftSender 200) = (rs, s')" by fastforce
  obtain t where t: "Span_thrift example_span = Inr t" "span_operationName t = sp_operationName example_span"
    by (simp add: Span_thrift_def example_span_def Span_def)
  then have "offered example_sizes example_span \<le> 100"
    by (simp add: offered_def example_sizes_def example_span_def Span_def)
  then have fits: "backlog_fits example_sizes (process_bytes example_sizes ''svc'' []) (process_bytes example_sizes ''svc'' [])
      (zip (map snd ?cs) rs)"
    using run offered_nonneg[OF example_sizes_ok, of example_span]
    by (auto simp: bytes_offered_def process_bytes_def example_sizes_def INT_MAX_def next_backlog_def
        split: prod.splits sum.splits)
  from sender_batches_fit[OF example_sizes_ok _ _ run fits] run show ?thesis by (simp add: INT_MAX_def)
qed

text \<open>A count that has reached its limit becomes negative, and the next span is kept although the
  buffer is as full as it may be.\<close>

lemma count_wraps:
  assumes "process_serviceName (ts_process s) \<noteq> []" and "ts_byteBufferSize s = INT_MAX"
    and "Span_thrift sp = Inr t" and "0 < size_span sz t" and "size_span sz t \<le> ts_maxSpanBytes s"
    and "ts_maxSpanBytes s \<le> 2 ^ 20"
  shows "\<exists>s'. ThriftSender_append sz service tgs emit sp s = (Inr 0, s') \<and> ts_spanBuffer s' = ts_spanBuffer s @ [t]"
proof -
  let ?n = "size_span sz t"
  have "int32 (INT_MAX + ?n) = INT_MAX + ?n - 2 ^ 32"
  proof -
    have "word_of_int (INT_MAX + ?n) = (word_of_int (INT_MAX + ?n - 2 ^ 32) :: 32 word)"
      by (simp add: word_of_int_eq_iff take_bit_eq_mod)
    then have "int32 (INT_MAX + ?n) = int32 (INT_MAX + ?n - 2 ^ 32)" by (simp only: int32_def)
    also have "\<dots> = INT_MAX + ?n - 2 ^ 32"
      by (rule int32_id) (use assms(4-6) in \<open>simp_all add: INT_MAX_def INT_MIN_def\<close>)
    finally show ?thesis .
  qed
  then show ?thesis
    using assms by (auto simp: ThriftSender_append_def set_process_def Let_def INT_MAX_def)
qed

text \<open>A sender over the UDP transport never fails but for a span that is too large or cannot
  be converted, provided a serialized batch is no longer than its process, its spans and the
  overhead of 30 bytes together.\<close>

lemma udp_sender_never_oversize:
  assumes "sizes_ok sz" and "service \<noteq> []"
    and "\<forall>b. int (length (serialize b)) \<le>
      size_process sz (batch_process b) + spans_size sz (batch_spans b) + kEmitBatchOverhead"
    and "sender_calls (\<lambda>emit sp. ThriftSender_append sz service tgs emit sp) ThriftSender_flush
      (map (\<lambda>x. (udp_emit serialize (UDP_maxPacketSize mx) errno, x)) xs)
      (ThriftSender (UDP_maxPacketSize mx)) = (rs, s')"
    and "mx \<le> INT_MAX" and "backlog_fits sz (process_bytes sz service tgs) (process_bytes sz service tgs) (zip xs rs)"
  shows "list_all2 (\<lambda>x r. (\<exists>n. r = Inr n) \<or>
    (\<exists>sp. x = Some sp \<and> (r = Inl (SenderException ''Span is too large'' 1) \<or> (\<exists>e. Span_thrift sp = Inl e \<and> r = Inl e)))) xs rs"
proof -
  have "ts_maxPacketSize (ThriftSender (UDP_maxPacketSize mx)) = UDP_maxPacketSize mx"
    by (simp add: ThriftSender_def)
  note mx = this
  have max: "UDP_maxPacketSize mx \<le> INT_MAX"
    using assms(5) by (simp add: UDP_maxPacketSize_def kUDPPacketMaxLength_def INT_MAX_def)
  show ?thesis
    by (rule udp_calls_succeed[OF assms(1,2) sender_ok_new[OF max] _ counts_new[OF assms(1)] assms(6), where errno = errno
          and serialize = serialize and s' = s'])
      (use assms(3,4) in \<open>simp_all only: mx\<close>)
qed

definition example_serialize :: "thrift_batch \<Rightarrow> string" where
  "example_serialize b = replicate (nat (size_process example_sizes (batch_process b) +
     spans_size example_sizes (batch_spans b) + kEmitBatchOverhead)) (CHR ''x'')"

lemma udp_sender_never_oversize_witness:
  "\<exists>n. hd (fst (sender_calls (\<lambda>emit sp. ThriftSender_append example_sizes ''svc'' [] emit sp)
     ThriftSender_flush (map (\<lambda>x. (udp_emit example_serialize (UDP_maxPacketSize 0) 0, x)) [None])
     (ThriftSender (UDP_maxPacketSize 0)))) = Inr n"
proof -
  have "0 \<le> size_process example_sizes p + spans_size example_sizes ts + kEmitBatchOverhead" for p ts
    by (induction ts) (simp_all add: example_sizes_def spans_size_def kEmitBatchOverhead_def)
  then have ser: "\<forall>b. int (length (example_serialize b)) \<le> size_process example_sizes (batch_process b) +
      spans_size example_sizes (batch_spans b) + kEmitBatchOverhead"
    by (simp add: example_serialize_def)
  obtain rs s' where r: "sender_calls (\<lambda>emit sp. ThriftSender_append example_sizes ''svc'' [] emit sp)
     ThriftSender_flush (map (\<lambda>x. (udp_emit example_serialize (UDP_maxPacketSize 0) 0, x)) [None])
     (ThriftSender (UDP_maxPacketSize 0)) = (rs, s')" by fastforce
  have fits: "backlog_fits example_sizes (process_bytes example_sizes ''svc'' []) (process_bytes example_sizes ''svc'' [])
      (zip [None] rs)"
    using r by (auto simp: bytes_offered_def process_bytes_def example_sizes_def INT_MAX_def split: prod.splits)
  from udp_sender_never_oversize[OF example_sizes_ok _ ser r _ fits] show ?thesis
    unfolding r by (cases rs) (auto simp: INT_MAX_def)
qed

text \<open>No span is sent twice, out of order or invented: what a sender has emitted and still
  holds is a subsequence of the spans appended, in their order, and the numbers it returns add up
  to the number of spans emitted.\<close>

lemma sender_conserves_spans:
  assumes "sender_calls (\<lambda>emit sp. ThriftSender_append sz service tgs emit sp) ThriftSender_flush cs
      (ThriftSender mx) = (rs, s')"
  shows "subseq (sender_emitted s' @ ts_spanBuffer s') (converted Span_thrift cs) \<and>
    int (length (sender_emitted s')) = sum_list (map (case_sum (\<lambda>_. 0) (\<lambda>n. n)) rs)"
proof -
  have "sender_emitted (ThriftSender mx) = []" "ts_spanBuffer (ThriftSender mx) = []"
    by (simp_all add: ThriftSender_def sender_emitted_def)
  then show ?thesis using thrift.calls_effect[OF assms] by auto
qed

lemma sender_conserves_spans_witness:
  "subseq (sender_emitted (snd (sender_calls (\<lambda>emit sp. ThriftSender_append example_sizes ''svc'' [] emit sp)
     ThriftSender_flush [(\<lambda>_. None, Some example_span), (\<lambda>_. None, None)] (ThriftSender 200))) @
     ts_spanBuffer (snd (sender_calls (\<lambda>emit sp. ThriftSender_append example_sizes ''svc'' [] emit sp)
     ThriftSender_flush [(\<lambda>_. None, Some example_span), (\<lambda>_. None, None)] (ThriftSender 200))))
   (converted Span_thrift [(\<lambda>_ :: thrift_batch. None :: exception option, Some example_span), (\<lambda>_. None, None)])"
proof -
  let ?cs = "[(\<lambda>_ :: thrift_batch. None :: exception option, Some example_span), (\<lambda>_. None, None)]"
  obtain rs s' where r: "sender_calls (\<lambda>emit sp. ThriftSender_append example_sizes ''svc'' [] emit sp)
      ThriftSender_flush ?cs (ThriftSender 200) = (rs, s')" by fastforce
  from sender_conserves_spans[OF r] show ?thesis unfolding r by simp
qed

end
