(* ===== verification/Reporters.thy ===== *)
theory Reporters
  imports Senders
begin

text \<open>
  The reporters (\<^verbatim>\<open>reporters/*\<close>). \<^verbatim>\<open>RemoteReporter\<close> is shared by the threads that report, a
  thread that sweeps its queue, and one that closes it: a step relation, one rule for each
  piece of code that holds the mutex or touches the atomic counter. It is written over any
  \<^verbatim>\<open>Sender\<close>: \<open>app\<close> and \<open>fls\<close> are its virtual functions, each given the transport's outcome.
\<close>

section \<open>The remote reporter\<close>

text \<open>
  The last fields describe the threads: \<open>rr_pushed\<close> calls of \<^verbatim>\<open>report\<close> are between the push
  and the increment, \<open>rr_worker\<close> says that the sweeping thread runs, \<open>rr_closing\<close> that a call
  of \<^verbatim>\<open>close\<close> waits to join it, \<open>rr_crashed\<close> that an exception has left a \<^verbatim>\<open>noexcept\<close>
  function. \<open>rr_accepted\<close> and \<open>rr_late\<close> record the spans queued, in all and since the
  sweeping thread ended.
\<close>

record 's remote_reporter =
  rr_bufferFlushInterval :: int
  rr_fixedQueueSize :: int
  rr_sender :: 's
  rr_queue :: "span list"
  rr_queueLength :: int
  rr_running :: bool
  rr_lastFlush :: time
  rr_metrics :: metrics
  rr_log :: "string list"
  rr_pushed :: nat
  rr_worker :: bool
  rr_closing :: bool
  rr_crashed :: bool
  rr_accepted :: "span list"
  rr_late :: "span list"

definition RemoteReporter :: "int \<Rightarrow> int \<Rightarrow> 's \<Rightarrow> metrics \<Rightarrow> time \<Rightarrow> 's remote_reporter" where
  "RemoteReporter interval qsize sender ms now =
     \<lparr>rr_bufferFlushInterval = interval, rr_fixedQueueSize = qsize, rr_sender = sender, rr_queue = [],
      rr_queueLength = 0, rr_running = True, rr_lastFlush = now, rr_metrics = ms, rr_log = [],
      rr_pushed = 0, rr_worker = True, rr_closing = False, rr_crashed = False,
      rr_accepted = [], rr_late = []\<rparr>"

text \<open>\<^verbatim>\<open>report\<close> up to the unlock, and its last line.\<close>

definition rr_report :: "span \<Rightarrow> 's remote_reporter \<Rightarrow> 's remote_reporter" where
  "rr_report sp r =
     (if int (length (rr_queue r)) < rr_fixedQueueSize r then
        r\<lparr>rr_queue := rr_queue r @ [sp], rr_pushed := rr_pushed r + 1,
          rr_accepted := rr_accepted r @ [sp], rr_late := rr_late r @ [sp]\<rparr>
      else r\<lparr>rr_metrics := inc ReporterDropped 1 (rr_metrics r)\<rparr>)"

definition rr_increment :: "'s remote_reporter \<Rightarrow> 's remote_reporter" where
  "rr_increment r = r\<lparr>rr_queueLength := rr_queueLength r + 1, rr_pushed := rr_pushed r - 1\<rparr>"

definition sendSpan ::
  "('o \<Rightarrow> span \<Rightarrow> 's \<Rightarrow> (exception + int) \<times> 's) \<Rightarrow> 'o \<Rightarrow> span \<Rightarrow> 's remote_reporter \<Rightarrow> 's remote_reporter" where
  "sendSpan app out sp r =
     (case app out sp (rr_sender r) of (res, s') \<Rightarrow>
        let r1 = r\<lparr>rr_sender := s'\<rparr> in
        case res of
          Inr flushed \<Rightarrow>
            if flushed > 0 then
              r1\<lparr>rr_metrics := update_gauge ReporterQueueLength (rr_queueLength r)
                   (inc ReporterSuccess flushed (rr_metrics r))\<rparr>
            else r1
        | Inl (SenderException what numFailed) \<Rightarrow>
            r1\<lparr>rr_metrics := inc ReporterFailure numFailed (rr_metrics r),
               rr_log := rr_log r @ [''error reporting span '' @ sp_operationName sp @ '': '' @ what]\<rparr>
        | Inl _ \<Rightarrow> r1\<lparr>rr_crashed := True\<rparr>)"

definition rr_flush ::
  "('o \<Rightarrow> 's \<Rightarrow> (exception + int) \<times> 's) \<Rightarrow> 'o \<Rightarrow> time \<Rightarrow> 's remote_reporter \<Rightarrow> 's remote_reporter" where
  "rr_flush fls out now r =
     (case fls out (rr_sender r) of (res, s') \<Rightarrow>
        let r1 = r\<lparr>rr_sender := s'\<rparr> in
        case res of
          Inr flushed \<Rightarrow>
            (if flushed > 0 then r1\<lparr>rr_metrics := inc ReporterSuccess flushed (rr_metrics r)\<rparr> else r1)
              \<lparr>rr_lastFlush := now\<rparr>
        | Inl (SenderException what numFailed) \<Rightarrow>
            r1\<lparr>rr_metrics := inc ReporterFailure numFailed (rr_metrics r), rr_log := rr_log r @ [what],
               rr_lastFlush := now\<rparr>
        | Inl _ \<Rightarrow> r1\<lparr>rr_crashed := True\<rparr>)"

text \<open>One round of the loop of \<^verbatim>\<open>sweepQueue\<close> after the wait.\<close>

definition sweepQueue_round ::
  "('o \<Rightarrow> span \<Rightarrow> 's \<Rightarrow> (exception + int) \<times> 's) \<Rightarrow> ('o \<Rightarrow> 's \<Rightarrow> (exception + int) \<times> 's) \<Rightarrow>
   'o \<Rightarrow> time \<Rightarrow> 's remote_reporter \<Rightarrow> 's remote_reporter" where
  "sweepQueue_round app fls out now r =
     (if \<not> rr_running r \<and> rr_queue r = [] then r\<lparr>rr_worker := False, rr_late := []\<rparr>
      else case rr_queue r of
             sp # queue \<Rightarrow>
               sendSpan app out sp (r\<lparr>rr_queue := queue, rr_queueLength := rr_queueLength r - 1\<rparr>)
           | [] \<Rightarrow>
               if now - rr_lastFlush r \<ge> rr_bufferFlushInterval r then rr_flush fls out now r else r)"

text \<open>\<^verbatim>\<open>close\<close> up to the join, and from there.\<close>

definition rr_close_begin :: "'s remote_reporter \<Rightarrow> 's remote_reporter" where
  "rr_close_begin r = (if \<not> rr_running r then r else r\<lparr>rr_running := False, rr_closing := True\<rparr>)"

definition rr_close_end ::
  "('o \<Rightarrow> 's \<Rightarrow> (exception + int) \<times> 's) \<Rightarrow> 'o \<Rightarrow> time \<Rightarrow> 's remote_reporter \<Rightarrow> 's remote_reporter" where
  "rr_close_end fls out now r = rr_flush fls out now (r\<lparr>rr_closing := False\<rparr>)"

text \<open>
  A whole call of \<^verbatim>\<open>close\<close> that no other thread disturbs: the sweeping thread ends after at most
  one round for each span left and a last one.
\<close>

fun rr_drain ::
  "('o \<Rightarrow> span \<Rightarrow> 's \<Rightarrow> (exception + int) \<times> 's) \<Rightarrow> ('o \<Rightarrow> 's \<Rightarrow> (exception + int) \<times> 's) \<Rightarrow>
   'o \<Rightarrow> time \<Rightarrow> nat \<Rightarrow> 's remote_reporter \<Rightarrow> 's remote_reporter" where
  "rr_drain app fls out now 0 r = r"
| "rr_drain app fls out now (Suc n) r =
     (if rr_crashed r \<or> \<not> rr_worker r then r
      else rr_drain app fls out now n (sweepQueue_round app fls out now r))"

definition rr_close ::
  "('o \<Rightarrow> span \<Rightarrow> 's \<Rightarrow> (exception + int) \<times> 's) \<Rightarrow> ('o \<Rightarrow> 's \<Rightarrow> (exception + int) \<times> 's) \<Rightarrow>
   'o \<Rightarrow> time \<Rightarrow> 's remote_reporter \<Rightarrow> 's remote_reporter" where
  "rr_close app fls out now r =
     (if \<not> rr_running r then r
      else let r1 = rr_drain app fls out now (Suc (length (rr_queue r))) (rr_close_begin r) in
           if rr_crashed r1 then r1 else rr_close_end fls out now r1)"

inductive rr_step ::
  "('o \<Rightarrow> span \<Rightarrow> 's \<Rightarrow> (exception + int) \<times> 's) \<Rightarrow> ('o \<Rightarrow> 's \<Rightarrow> (exception + int) \<times> 's) \<Rightarrow>
   's remote_reporter \<Rightarrow> 's remote_reporter \<Rightarrow> bool" for app fls where
  report: "\<not> rr_crashed r \<Longrightarrow> rr_step app fls r (rr_report sp r)"
| increment: "\<not> rr_crashed r \<Longrightarrow> 0 < rr_pushed r \<Longrightarrow> rr_step app fls r (rr_increment r)"
| sweep: "\<not> rr_crashed r \<Longrightarrow> rr_worker r \<Longrightarrow> rr_step app fls r (sweepQueue_round app fls out now r)"
| close_begin: "\<not> rr_crashed r \<Longrightarrow> rr_step app fls r (rr_close_begin r)"
| close_end: "\<not> rr_crashed r \<Longrightarrow> rr_closing r \<Longrightarrow> \<not> rr_worker r \<Longrightarrow>
    rr_step app fls r (rr_close_end fls out now r)"

inductive rr_reach ::
  "('o \<Rightarrow> span \<Rightarrow> 's \<Rightarrow> (exception + int) \<times> 's) \<Rightarrow> ('o \<Rightarrow> 's \<Rightarrow> (exception + int) \<times> 's) \<Rightarrow>
   's remote_reporter \<Rightarrow> 's remote_reporter \<Rightarrow> bool" for app fls r0 where
  init: "rr_reach app fls r0 r0"
| step: "rr_reach app fls r0 r \<Longrightarrow> rr_step app fls r r' \<Longrightarrow> rr_reach app fls r0 r'"

inductive_cases rr_step_cases: "rr_step app fls r r'"

section \<open>The other reporters\<close>

datatype 's reporter =
    NullReporter
  | InMemoryReporter "span list"
  | LoggingReporter "string list"
  | RemoteReporterPtr "'s remote_reporter"
  | CompositeReporter "'s reporter list"

definition InMemoryReporter_report :: "span \<Rightarrow> span list \<Rightarrow> span list" where
  "InMemoryReporter_report sp spans = spans @ [sp]"

definition LoggingReporter_report :: "span \<Rightarrow> string list \<Rightarrow> string list" where
  "LoggingReporter_report sp out = out @ [''Reporting span '' @ Span_print sp]"

fun Reporter_report :: "span \<Rightarrow> 's reporter \<Rightarrow> 's reporter" where
  "Reporter_report sp NullReporter = NullReporter"
| "Reporter_report sp (InMemoryReporter spans) = InMemoryReporter (InMemoryReporter_report sp spans)"
| "Reporter_report sp (LoggingReporter out) = LoggingReporter (LoggingReporter_report sp out)"
| "Reporter_report sp (RemoteReporterPtr r) =
     RemoteReporterPtr (let r' = rr_report sp r in if rr_pushed r' > rr_pushed r then rr_increment r' else r')"
| "Reporter_report sp (CompositeReporter rs) = CompositeReporter (map (Reporter_report sp) rs)"

definition InMemoryReporter_reset :: "'s reporter \<Rightarrow> 's reporter" where
  "InMemoryReporter_reset r = (case r of InMemoryReporter spans \<Rightarrow> InMemoryReporter [] | _ \<Rightarrow> r)"

definition spansSubmitted :: "'s reporter \<Rightarrow> nat" where
  "spansSubmitted r = (case r of InMemoryReporter spans \<Rightarrow> length spans | _ \<Rightarrow> 0)"

fun Reporter_close ::
  "('o \<Rightarrow> span \<Rightarrow> 's \<Rightarrow> (exception + int) \<times> 's) \<Rightarrow> ('o \<Rightarrow> 's \<Rightarrow> (exception + int) \<times> 's) \<Rightarrow>
   'o \<Rightarrow> time \<Rightarrow> 's reporter \<Rightarrow> 's reporter" where
  "Reporter_close app fls out now (RemoteReporterPtr r) = RemoteReporterPtr (rr_close app fls out now r)"
| "Reporter_close app fls out now (CompositeReporter rs) =
     CompositeReporter (map (Reporter_close app fls out now) rs)"
| "Reporter_close app fls out now r = r"

fun leaves :: "'s reporter \<Rightarrow> 's reporter list" where
  "leaves (CompositeReporter rs) = concat (map leaves rs)"
| "leaves r = [r]"

lemma leaves_report: "leaves (Reporter_report sp r) = map (Reporter_report sp) (leaves r)"
proof (induction r)
  case (CompositeReporter rs)
  have "concat (map leaves (map (Reporter_report sp) xs)) = map (Reporter_report sp) (concat (map leaves xs))"
    if "set xs \<subseteq> set rs" for xs
    using that CompositeReporter by (induction xs) auto
  then show ?case by simp
qed simp_all

section \<open>Invariants\<close>

definition converts :: "('x \<Rightarrow> 'e + 't) \<Rightarrow> 'x list \<Rightarrow> 't list" where
  "converts conv xs = concat (map (\<lambda>x. case conv x of Inl _ \<Rightarrow> [] | Inr t \<Rightarrow> [t]) xs)"

lemma converts_simps [simp]:
  "converts conv [] = []" "converts conv (xs @ ys) = converts conv xs @ converts conv ys"
  "converts conv (x # xs) = (case conv x of Inl _ \<Rightarrow> [] | Inr t \<Rightarrow> [t]) @ converts conv xs"
  by (simp_all add: converts_def)

text \<open>The counter and the bound of the queue; what the sender does is of no account here.\<close>

definition queue_inv :: "'s remote_reporter \<Rightarrow> bool" where
  "queue_inv r \<longleftrightarrow> rr_queueLength r + int (rr_pushed r) = int (length (rr_queue r)) \<and>
     int (length (rr_queue r)) \<le> max 0 (rr_fixedQueueSize r)"

lemma sendSpan_frame [simp]:
  "rr_queue (sendSpan app out sp r) = rr_queue r" "rr_queueLength (sendSpan app out sp r) = rr_queueLength r"
  "rr_pushed (sendSpan app out sp r) = rr_pushed r" "rr_fixedQueueSize (sendSpan app out sp r) = rr_fixedQueueSize r"
  "rr_accepted (sendSpan app out sp r) = rr_accepted r" "rr_running (sendSpan app out sp r) = rr_running r"
  "rr_worker (sendSpan app out sp r) = rr_worker r" "rr_closing (sendSpan app out sp r) = rr_closing r"
  "rr_late (sendSpan app out sp r) = rr_late r"
  by (auto simp: sendSpan_def Let_def split: prod.split sum.split exception.split)

lemma rr_flush_frame [simp]:
  "rr_queue (rr_flush fls out now r) = rr_queue r" "rr_queueLength (rr_flush fls out now r) = rr_queueLength r"
  "rr_pushed (rr_flush fls out now r) = rr_pushed r" "rr_fixedQueueSize (rr_flush fls out now r) = rr_fixedQueueSize r"
  "rr_accepted (rr_flush fls out now r) = rr_accepted r" "rr_running (rr_flush fls out now r) = rr_running r"
  "rr_worker (rr_flush fls out now r) = rr_worker r" "rr_closing (rr_flush fls out now r) = rr_closing r"
  "rr_late (rr_flush fls out now r) = rr_late r"
  by (auto simp: rr_flush_def Let_def split: prod.split sum.split exception.split)

lemma queue_inv_step: "rr_step app fls r r' \<Longrightarrow> queue_inv r \<Longrightarrow> queue_inv r'"
  by (erule rr_step.cases)
    (auto simp: queue_inv_def rr_report_def rr_increment_def sweepQueue_round_def rr_close_begin_def
      rr_close_end_def split: list.split)

lemma queue_inv_reach: "rr_reach app fls r0 r \<Longrightarrow> queue_inv r0 \<Longrightarrow> queue_inv r"
  by (induction rule: rr_reach.induct) (auto intro: queue_inv_step)

lemma queue_inv_new [simp]: "queue_inv (RemoteReporter interval qsize sender ms now)"
  by (simp add: queue_inv_def RemoteReporter_def)

section \<open>Conservation\<close>

text \<open>
  A sender that also accounts for what it loses: each exception is one the reporter catches
  and carries a number of failed spans, unless the span itself cannot be converted.
\<close>

locale accountable_sender = span_sender append flush emitted pending conv
  for append :: "'o \<Rightarrow> span \<Rightarrow> 's \<Rightarrow> (exception + int) \<times> 's" and flush
    and emitted pending :: "'s \<Rightarrow> 't list" and conv +
  assumes append_numFailed: "append out x s = (Inl e, s') \<Longrightarrow> conv x = Inr t \<Longrightarrow>
      \<exists>what k. e = SenderException what k \<and> 1 \<le> k"
    and append_catch: "append out x s = (Inl (SenderException what k), s') \<Longrightarrow> 1 \<le> k"
    and flush_numFailed: "flush out s = (Inl e, s') \<Longrightarrow>
      pending s \<noteq> [] \<and> (\<exists>what. e = SenderException what (int (length (pending s))))"

definition remote_inv ::
  "('s \<Rightarrow> 't list) \<Rightarrow> ('s \<Rightarrow> 't list) \<Rightarrow> (span \<Rightarrow> exception + 't) \<Rightarrow> metrics \<Rightarrow> 's remote_reporter \<Rightarrow> bool" where
  "remote_inv emitted pending conv ms r \<longleftrightarrow>
     (\<exists>handled. rr_accepted r = handled @ rr_queue r \<and>
        subseq (emitted (rr_sender r) @ pending (rr_sender r)) (converts conv handled) \<and>
        int (length (converts conv handled)) \<le>
          int (length (emitted (rr_sender r)) + length (pending (rr_sender r)))
            + (rr_metrics r ReporterFailure - ms ReporterFailure) \<and>
        (rr_crashed r \<longrightarrow> list_ex (\<lambda>sp. \<exists>e. conv sp = Inl e) handled)) \<and>
     rr_metrics r ReporterSuccess - ms ReporterSuccess = int (length (emitted (rr_sender r))) \<and>
     (rr_closing r \<longrightarrow> \<not> rr_running r) \<and>
     (\<not> rr_worker r \<longrightarrow> \<not> rr_running r \<and> rr_queue r = rr_late r)"

context accountable_sender
begin

lemma sendSpan_inv:
  assumes "remote_inv emitted pending conv ms r" and "rr_queue r = sp # queue" and "rr_worker r"
  shows "remote_inv emitted pending conv ms
    (sendSpan append out sp (r\<lparr>rr_queue := queue, rr_queueLength := rr_queueLength r - 1\<rparr>))"
proof -
  let ?r = "r\<lparr>rr_queue := queue, rr_queueLength := rr_queueLength r - 1\<rparr>"
  let ?s = "rr_sender r"
  from assms obtain handled where h: "rr_accepted r = (handled @ [sp]) @ queue"
    "subseq (emitted ?s @ pending ?s) (converts conv handled)"
    "int (length (converts conv handled)) \<le> int (length (emitted ?s) + length (pending ?s))
       + (rr_metrics r ReporterFailure - ms ReporterFailure)"
    and c: "rr_crashed r \<longrightarrow> list_ex (\<lambda>sp. \<exists>e. conv sp = Inl e) handled"
    and m: "rr_metrics r ReporterSuccess - ms ReporterSuccess = int (length (emitted ?s))"
    and f: "rr_closing r \<longrightarrow> \<not> rr_running r"
    by (auto simp: remote_inv_def)
  obtain res s' where a: "append out sp ?s = (res, s')" by fastforce
  let ?r' = "sendSpan append out sp ?r"
  have frame: "rr_accepted ?r' = rr_accepted r" "rr_queue ?r' = queue" "rr_sender ?r' = s'"
    "rr_closing ?r' = rr_closing r" "rr_running ?r' = rr_running r" "rr_worker ?r' = rr_worker r"
    using a by (auto simp: sendSpan_def Let_def split: sum.split exception.split)
  have crash: "rr_crashed ?r' \<longrightarrow> rr_crashed r \<or> (\<exists>e. conv sp = Inl e)"
  proof (cases "conv sp")
    case (Inr t)
    show ?thesis
    proof (cases res)
      case (Inl e)
      then show ?thesis using a append_numFailed[OF a[unfolded Inl] Inr] by (auto simp: sendSpan_def Let_def)
    qed (use a in \<open>simp add: sendSpan_def Let_def\<close>)
  qed simp
  have goal: "subseq (emitted s' @ pending s') (converts conv (handled @ [sp])) \<and>
      int (length (converts conv (handled @ [sp]))) \<le> int (length (emitted s') + length (pending s'))
        + (rr_metrics ?r' ReporterFailure - ms ReporterFailure) \<and>
      rr_metrics ?r' ReporterSuccess - ms ReporterSuccess = int (length (emitted s'))"
  proof (cases res)
    case (Inr n)
    from append_Inr[OF a[unfolded Inr]] obtain t where t: "conv sp = Inr t"
      "emitted s' @ pending s' = (emitted ?s @ pending ?s) @ [t]"
      "length (emitted s') = length (emitted ?s) + nat n" "0 \<le> n" by auto
    have len: "length (emitted s') + length (pending s') = length (emitted ?s) + length (pending ?s) + 1"
      using t(2) by (metis length_append length_append_singleton Suc_eq_plus1)
    have "rr_metrics ?r' ReporterFailure = rr_metrics r ReporterFailure"
      "rr_metrics ?r' ReporterSuccess = rr_metrics r ReporterSuccess + n"
      using a Inr t(4) by (auto simp: sendSpan_def Let_def)
    then show ?thesis
      using t h(2,3) m len by (simp add: list_emb_append_mono del: append_assoc)
  next
    case (Inl e)
    note a' = append_Inl[OF a[unfolded Inl]]
    have succ: "rr_metrics ?r' ReporterSuccess = rr_metrics r ReporterSuccess"
      using a Inl by (auto simp: sendSpan_def Let_def split: exception.split)
    show ?thesis
    proof (cases "conv sp")
      case (Inr t)
      from append_numFailed[OF a[unfolded Inl] Inr] obtain what k where k: "e = SenderException what k" "1 \<le> k"
        by blast
      have "rr_metrics ?r' ReporterFailure = rr_metrics r ReporterFailure + k"
        using a Inl k by (simp add: sendSpan_def Let_def)
      moreover have "subseq (emitted s' @ pending s') (converts conv handled @ [t])"
        using a' Inr h(2) list_emb_append_mono[of "(=)" "emitted ?s @ pending ?s" "converts conv handled" "[t]" "[t]"]
          list_emb_append2[of "(=)" "emitted ?s @ pending ?s" "[t]" "converts conv handled"]
          list_emb_append_mono[of "(=)" "emitted ?s @ pending ?s" "converts conv handled" "[]" "[t]"]
        by auto
      ultimately show ?thesis using Inr a' h(3) k(2) m succ by auto
    next
      case (Inl err)
      then have same: "emitted s' = emitted ?s" "pending s' = pending ?s" using a' by auto
      have "rr_metrics ?r' ReporterFailure \<ge> rr_metrics r ReporterFailure"
        using a \<open>res = Inl e\<close> append_catch[of out sp ?s _ _ s']
        by (auto simp: sendSpan_def Let_def split: exception.split)
      then show ?thesis using Inl same h(2,3) m succ by simp
    qed
  qed
  have "list_ex (\<lambda>sp. \<exists>e. conv sp = Inl e) (handled @ [sp])" if "rr_crashed ?r'"
    using that crash c by auto
  then show ?thesis using goal h(1) f assms(3) frame unfolding remote_inv_def
    by (intro conjI exI[of _ "handled @ [sp]"]) auto
qed

lemma rr_flush_inv:
  assumes "remote_inv emitted pending conv ms r"
  shows "remote_inv emitted pending conv ms (rr_flush flush out now r)"
proof -
  obtain res s' where fl: "flush out (rr_sender r) = (res, s')" by fastforce
  show ?thesis
  proof (cases res)
    case (Inl e)
    then obtain what where k: "e = SenderException what (int (length (pending (rr_sender r))))"
      using flush_numFailed fl by blast
    then show ?thesis
      using assms Inl fl flush_Inl[of out "rr_sender r" e s'] unfolding remote_inv_def
      by (elim conjE exE) (intro conjI exI, auto simp: rr_flush_def Let_def)
  next
    case (Inr n)
    then show ?thesis
      using assms fl flush_Inr[of out "rr_sender r" n s']
      by (auto simp: remote_inv_def rr_flush_def Let_def)
  qed
qed

end

context accountable_sender
begin

lemma sweep_inv:
  assumes "remote_inv emitted pending conv ms r" and "rr_worker r"
  shows "remote_inv emitted pending conv ms (sweepQueue_round append flush out now r)"
proof (cases "rr_queue r")
  case Nil
  then show ?thesis
    using assms rr_flush_inv[OF assms(1)] by (auto simp: sweepQueue_round_def remote_inv_def)
next
  case (Cons sp queue)
  then show ?thesis using sendSpan_inv[OF assms(1) Cons assms(2)] by (simp add: sweepQueue_round_def)
qed

lemma step_inv:
  assumes "rr_step append flush r r'" and "remote_inv emitted pending conv ms r"
  shows "remote_inv emitted pending conv ms r'"
  using assms
proof cases
  case (sweep out now)
  then show ?thesis using sweep_inv assms(2) by blast
next
  case (close_end out now)
  have "remote_inv emitted pending conv ms (r\<lparr>rr_closing := False\<rparr>)"
    using assms(2) by (simp add: remote_inv_def)
  from rr_flush_inv[OF this] show ?thesis by (simp only: close_end(1) rr_close_end_def)
qed (use assms(2) in \<open>auto simp: remote_inv_def rr_report_def rr_increment_def rr_close_begin_def\<close>)

lemma reach_inv:
  "rr_reach append flush r0 r \<Longrightarrow> remote_inv emitted pending conv ms r0 \<Longrightarrow> remote_inv emitted pending conv ms r"
  by (induction rule: rr_reach.induct) (auto intro: step_inv)

lemma new_inv:
  "emitted s = [] \<Longrightarrow> pending s = [] \<Longrightarrow>
   remote_inv emitted pending conv ms (RemoteReporter interval qsize s ms now)"
  by (simp add: remote_inv_def RemoteReporter_def)

lemma inv_conserves:
  assumes "remote_inv emitted pending conv ms r"
  shows "subseq (emitted (rr_sender r) @ pending (rr_sender r) @ converts conv (rr_queue r))
      (converts conv (rr_accepted r)) \<and>
    int (length (converts conv (rr_accepted r))) \<le>
      int (length (emitted (rr_sender r)) + length (pending (rr_sender r)) + length (converts conv (rr_queue r)))
        + (rr_metrics r ReporterFailure - ms ReporterFailure) \<and>
    rr_metrics r ReporterSuccess - ms ReporterSuccess = int (length (emitted (rr_sender r)))"
proof -
  from assms obtain handled where h: "rr_accepted r = handled @ rr_queue r"
    "subseq (emitted (rr_sender r) @ pending (rr_sender r)) (converts conv handled)"
    "int (length (converts conv handled)) \<le> int (length (emitted (rr_sender r)) + length (pending (rr_sender r)))
       + (rr_metrics r ReporterFailure - ms ReporterFailure)"
    by (auto simp: remote_inv_def)
  have "subseq ((emitted (rr_sender r) @ pending (rr_sender r)) @ converts conv (rr_queue r))
      (converts conv handled @ converts conv (rr_queue r))"
    using h(2) by (rule list_emb_append_mono) simp
  then show ?thesis using h assms by (auto simp: remote_inv_def)
qed

lemma crash_inv:
  assumes "remote_inv emitted pending conv ms r" and "rr_crashed r"
  shows "list_ex (\<lambda>sp. \<exists>e. conv sp = Inl e) (rr_accepted r)"
  using assms by (auto simp: remote_inv_def)

end

section \<open>A whole call of close\<close>

lemma sweep_frame:
  "rr_accepted (sweepQueue_round app fls out now r) = rr_accepted r"
  "rr_running (sweepQueue_round app fls out now r) = rr_running r"
  "rr_closing (sweepQueue_round app fls out now r) = rr_closing r"
  by (simp_all add: sweepQueue_round_def split: list.split)

lemma drain_ends:
  assumes "\<not> rr_running r" and "length (rr_queue r) < n" and "rr_worker r"
  shows "rr_crashed (rr_drain app fls out now n r) \<or>
    \<not> rr_worker (rr_drain app fls out now n r) \<and> rr_queue (rr_drain app fls out now n r) = []"
  using assms
proof (induction n arbitrary: r)
  case (Suc n)
  show ?case
  proof (cases "rr_queue r")
    case Nil
    then show ?thesis using Suc.prems by (cases n) (auto simp: sweepQueue_round_def)
  next
    case (Cons sp queue)
    then have "length (rr_queue (sweepQueue_round app fls out now r)) < n"
      "rr_worker (sweepQueue_round app fls out now r)" "\<not> rr_running (sweepQueue_round app fls out now r)"
      using Suc.prems by (simp_all add: sweepQueue_round_def)
    then show ?thesis using Suc.IH[of "sweepQueue_round app fls out now r"] Suc.prems by simp
  qed
qed simp

lemma drain_frame:
  "rr_accepted (rr_drain app fls out now n r) = rr_accepted r"
  "rr_closing (rr_drain app fls out now n r) = rr_closing r"
  by (induction n arbitrary: r) (simp_all add: sweep_frame)

lemma drain_reach:
  "rr_reach app fls r0 r \<Longrightarrow> rr_reach app fls r0 (rr_drain app fls out now n r)"
  by (induction n arbitrary: r) (auto intro: rr_reach.step rr_step.sweep)

lemma close_reach:
  assumes "rr_reach app fls r0 r" and "\<not> rr_crashed r" and "rr_running r" and "rr_worker r"
  shows "rr_reach app fls r0 (rr_close app fls out now r)"
proof -
  let ?b = "rr_close_begin r"
  let ?d = "rr_drain app fls out now (Suc (length (rr_queue r))) ?b"
  have b: "rr_reach app fls r0 ?b" by (rule rr_reach.step[OF assms(1) rr_step.close_begin[OF assms(2)]])
  have d: "rr_reach app fls r0 ?d" by (rule drain_reach[OF b])
  have e: "rr_crashed ?d \<or> \<not> rr_worker ?d"
    using drain_ends[of ?b "Suc (length (rr_queue r))" app fls out now] assms(3,4) by (auto simp: rr_close_begin_def)
  have "rr_closing ?d" using assms(3) by (simp add: drain_frame rr_close_begin_def del: rr_drain.simps)
  then show ?thesis
    using d e assms(3) rr_reach.step[OF d rr_step.close_end[of ?d app fls out now]]
    by (auto simp: rr_close_def Let_def simp del: rr_drain.simps)
qed

lemma close_accepted: "rr_accepted (rr_close app fls out now r) = rr_accepted r"
  by (simp add: rr_close_def rr_close_end_def rr_close_begin_def drain_frame Let_def del: rr_drain.simps)

lemma close_ends:
  assumes "rr_running r" and "rr_worker r" and "\<not> rr_crashed (rr_close app fls out now r)"
  shows "\<not> rr_worker (rr_close app fls out now r) \<and> rr_queue (rr_close app fls out now r) = []"
  using assms drain_ends[of "rr_close_begin r" "Suc (length (rr_queue r))" app fls out now]
  by (auto simp: rr_close_def rr_close_end_def Let_def rr_close_begin_def split: if_splits simp del: rr_drain.simps)

context accountable_sender
begin

lemma close_accounts:
  assumes inv: "remote_inv emitted pending conv ms r" and r: "\<not> rr_crashed r" "rr_running r"
    and nc: "\<not> rr_crashed (rr_close append flush out now r)"
  shows "int (length (converts conv (rr_accepted r))) \<le>
    int (length (emitted (rr_sender (rr_close append flush out now r))))
      + (rr_metrics (rr_close append flush out now r) ReporterFailure - ms ReporterFailure)"
proof -
  let ?c = "rr_close append flush out now r"
  let ?d = "rr_drain append flush out now (Suc (length (rr_queue r))) (rr_close_begin r)"
  have w: "rr_worker r" using inv r by (auto simp: remote_inv_def)
  have "rr_reach append flush r ?d"
    by (rule drain_reach[OF rr_reach.step[OF rr_reach.init rr_step.close_begin[OF r(1)]]])
  then have i: "remote_inv emitted pending conv ms ?d" using inv by (rule reach_inv)
  have e: "\<not> rr_crashed ?d" "rr_queue ?d = []"
    using nc r w drain_ends[of "rr_close_begin r" "Suc (length (rr_queue r))" append flush out now]
    by (auto simp: rr_close_def Let_def rr_close_begin_def split: if_splits simp del: rr_drain.simps)
  have c: "?c = rr_close_end flush out now ?d" using r e by (simp add: rr_close_def Let_def del: rr_drain.simps)
  have acc: "rr_accepted ?d = rr_accepted r" by (simp add: drain_frame rr_close_begin_def del: rr_drain.simps)
  have "int (length (converts conv (rr_accepted ?d))) \<le>
      int (length (emitted (rr_sender ?d)) + length (pending (rr_sender ?d)))
        + (rr_metrics ?d ReporterFailure - ms ReporterFailure)"
    using inv_conserves[OF i] e(2) by simp
  moreover obtain res s' where fl: "flush out (rr_sender ?d) = (res, s')" by fastforce
  moreover have "int (length (emitted (rr_sender ?d)) + length (pending (rr_sender ?d))) + rr_metrics ?d ReporterFailure
      = int (length (emitted (rr_sender ?c))) + rr_metrics ?c ReporterFailure"
  proof (cases res)
    case (Inl ex)
    then show ?thesis
      using fl flush_numFailed[of out "rr_sender ?d" ex s'] flush_Inl[of out "rr_sender ?d" ex s']
      unfolding c by (auto simp: rr_close_end_def rr_flush_def Let_def simp del: rr_drain.simps)
  next
    case (Inr n)
    then show ?thesis
      using fl flush_Inr[of out "rr_sender ?d" n s']
      unfolding c by (auto simp: rr_close_end_def rr_flush_def Let_def simp del: rr_drain.simps)
  qed
  ultimately show ?thesis unfolding acc by linarith
qed

end

section \<open>The Thrift sender accounts for what it loses\<close>

lemma Span_thrift_Inl: "Span_thrift sp = Inl e \<Longrightarrow> \<exists>what. e = InvalidArgument what"
proof -
  have "mapE Reference_thrift rs = Inl e \<Longrightarrow> \<exists>what. e = InvalidArgument what" for rs
    by (induction rs) (auto simp: Reference_thrift_def split: sum.splits option.splits prod.splits reference_type.splits)
  then show "Span_thrift sp = Inl e \<Longrightarrow> \<exists>what. e = InvalidArgument what"
    by (auto simp: Span_thrift_def Let_def split: sum.splits)
qed

lemma append_Inl_cases:
  assumes "ThriftSender_append sz service tgs emit sp s = (Inl e, s')"
  shows "Span_thrift sp = Inl e \<or> (\<exists>what k. e = SenderException what k \<and> 1 \<le> k)"
proof -
  have f: "\<exists>what k. e = SenderException what k \<and> 1 \<le> k" if "ThriftSender_flush emit s1 = (Inl e, s2)" for s1 s2
  proof -
    from flush_effect[OF that] show ?thesis by (cases "ts_spanBuffer s1") auto
  qed
  show ?thesis
    using assms by (auto simp: ThriftSender_append_def Let_def dest: f split: sum.splits if_splits prod.splits)
qed

interpretation thrift_accountable: accountable_sender
  "\<lambda>emit sp. ThriftSender_append sz service tgs emit sp" ThriftSender_flush sender_emitted ts_spanBuffer Span_thrift
  for sz service tgs
proof
  fix out :: "thrift_batch \<Rightarrow> exception option" and x s s' e t what k
  show "ThriftSender_append sz service tgs out x s = (Inl e, s') \<Longrightarrow> Span_thrift x = Inr t \<Longrightarrow>
      \<exists>what k. e = SenderException what k \<and> 1 \<le> k"
    using append_Inl_cases[of sz service tgs out x s e s'] by auto
  show "ThriftSender_append sz service tgs out x s = (Inl (SenderException what k), s') \<Longrightarrow> 1 \<le> k"
    using append_Inl_cases[of sz service tgs out x s "SenderException what k" s'] Span_thrift_Inl by fastforce
  show "ThriftSender_flush out s = (Inl e, s') \<Longrightarrow>
      ts_spanBuffer s \<noteq> [] \<and> (\<exists>what. e = SenderException what (int (length (ts_spanBuffer s))))"
    using flush_effect[of out s "Inl e" s'] by simp
qed

lemma thrift_sender_new: "sender_emitted (ThriftSender mx) = []" "ts_spanBuffer (ThriftSender mx) = []"
  by (simp_all add: ThriftSender_def sender_emitted_def)

section \<open>Properties\<close>

text \<open>C32. Whatever the interleaving of reports, the sweeping thread and close, the queue of a
  remote reporter never exceeds its fixed size, and the atomic length is the length of the queue
  less the reports that have pushed their span and not yet counted it.\<close>

theorem remote_reporter_queue_bounded:
  assumes "rr_reach app fls (RemoteReporter interval qsize s ms now) r"
  shows "int (length (rr_queue r)) \<le> max 0 qsize \<and>
    rr_queueLength r = int (length (rr_queue r)) - int (rr_pushed r)"
proof -
  have "rr_fixedQueueSize r = qsize"
    using assms
  proof (induction rule: rr_reach.induct)
    case (step r r')
    from step(2) have "rr_fixedQueueSize r' = rr_fixedQueueSize r"
      by cases (auto simp: rr_report_def rr_increment_def sweepQueue_round_def rr_close_begin_def
          rr_close_end_def split: list.split)
    with step(3) show ?case by simp
  qed (simp add: RemoteReporter_def)
  then show ?thesis using queue_inv_reach[OF assms queue_inv_new] by (simp add: queue_inv_def)
qed

theorem remote_reporter_queue_bounded_witness:
  "length (rr_queue (rr_report example_span (rr_report example_span
     (RemoteReporter 0 1 (ThriftSender 200) metrics0 0)))) \<le> 1"
proof -
  let ?new = "RemoteReporter 0 1 (ThriftSender 200) metrics0 0"
  have "rr_reach (\<lambda>emit sp. ThriftSender_append example_sizes ''svc'' [] emit sp) ThriftSender_flush ?new
      (rr_report example_span (rr_report example_span ?new))"
    by (rule rr_reach.step[OF rr_reach.step[OF rr_reach.init rr_step.report] rr_step.report])
      (simp_all add: rr_report_def RemoteReporter_def)
  from remote_reporter_queue_bounded[OF this] show ?thesis by simp
qed

text \<open>C4. No span a remote reporter accepts is sent twice, reordered or silently lost, in any
  interleaving: what its sender emitted and holds and what waits in the queue is a subsequence of
  the spans accepted, each missing one is in the failure count, the success count is the number
  emitted, and once the sweeping thread has ended the queue holds the spans reported since, and
  only those.\<close>

theorem remote_reporter_conservation:
  assumes "rr_reach (\<lambda>emit sp. ThriftSender_append sz service tgs emit sp) ThriftSender_flush
    (RemoteReporter interval qsize (ThriftSender mx) ms now) r"
  shows "subseq (sender_emitted (rr_sender r) @ ts_spanBuffer (rr_sender r) @ converts Span_thrift (rr_queue r))
      (converts Span_thrift (rr_accepted r)) \<and>
    int (length (converts Span_thrift (rr_accepted r))) \<le>
      int (length (sender_emitted (rr_sender r)) + length (ts_spanBuffer (rr_sender r)) +
           length (converts Span_thrift (rr_queue r)))
        + (rr_metrics r ReporterFailure - ms ReporterFailure) \<and>
    rr_metrics r ReporterSuccess - ms ReporterSuccess = int (length (sender_emitted (rr_sender r))) \<and>
    (rr_worker r \<or> rr_queue r = rr_late r)"
proof -
  have "remote_inv sender_emitted ts_spanBuffer Span_thrift ms r"
    using assms thrift_accountable.reach_inv thrift_accountable.new_inv thrift_sender_new by blast
  then show ?thesis
    using thrift_accountable.inv_conserves[of ms r] by (auto simp: remote_inv_def)
qed

theorem remote_reporter_conservation_witness:
  "rr_metrics (sweepQueue_round (\<lambda>emit sp. ThriftSender_append example_sizes ''svc'' [] emit sp) ThriftSender_flush
     (\<lambda>_. None) 0 (rr_report example_span (RemoteReporter 10 1 (ThriftSender 200) metrics0 0))) ReporterSuccess =
   int (length (sender_emitted (rr_sender (sweepQueue_round
     (\<lambda>emit sp. ThriftSender_append example_sizes ''svc'' [] emit sp) ThriftSender_flush
     (\<lambda>_. None) 0 (rr_report example_span (RemoteReporter 10 1 (ThriftSender 200) metrics0 0))))))"
proof -
  let ?app = "\<lambda>emit sp. ThriftSender_append example_sizes ''svc'' [] emit sp"
  let ?new = "RemoteReporter 10 1 (ThriftSender 200) metrics0 0"
  have "rr_reach ?app ThriftSender_flush ?new
      (sweepQueue_round ?app ThriftSender_flush (\<lambda>_. None) 0 (rr_report example_span ?new))"
    by (rule rr_reach.step[OF rr_reach.step[OF rr_reach.init rr_step.report] rr_step.sweep]) (simp_all add: rr_report_def RemoteReporter_def)
  from remote_reporter_conservation[OF this] show ?thesis by (simp add: metrics0_def)
qed

text \<open>C5. Close drains a remote reporter: from any state the reporter can reach in which it is still
  running and has not terminated the process, a call of close that no report disturbs returns with the thread ended and the queue empty, and every span
  accepted that has a Thrift form is then emitted or in the failure count; only a span that cannot
  be converted makes the reporter terminate the process instead.\<close>

theorem remote_reporter_close_drains:
  fixes out and sz service tgs
  defines "app \<equiv> \<lambda>emit sp. ThriftSender_append sz service tgs emit sp"
  assumes reach: "rr_reach app ThriftSender_flush (RemoteReporter interval qsize (ThriftSender mx) ms now0) r"
    and r: "\<not> rr_crashed r" "rr_running r"
  shows "(rr_crashed (rr_close app ThriftSender_flush out now r) \<longrightarrow>
      list_ex (\<lambda>sp. \<exists>e. Span_thrift sp = Inl e) (rr_accepted r)) \<and>
    (\<not> rr_crashed (rr_close app ThriftSender_flush out now r) \<longrightarrow>
      \<not> rr_worker (rr_close app ThriftSender_flush out now r) \<and>
      rr_queue (rr_close app ThriftSender_flush out now r) = [] \<and>
      int (length (converts Span_thrift (rr_accepted r))) \<le>
        int (length (sender_emitted (rr_sender (rr_close app ThriftSender_flush out now r))))
          + (rr_metrics (rr_close app ThriftSender_flush out now r) ReporterFailure - ms ReporterFailure))"
proof -
  let ?c = "rr_close app ThriftSender_flush out now r"
  note new = thrift_accountable.new_inv[OF thrift_sender_new]
  have inv: "remote_inv sender_emitted ts_spanBuffer Span_thrift ms r"
    using thrift_accountable.reach_inv[OF reach[unfolded app_def] new] .
  then have w: "rr_worker r" using r by (auto simp: remote_inv_def)
  have "remote_inv sender_emitted ts_spanBuffer Span_thrift ms ?c"
    using thrift_accountable.reach_inv[OF close_reach[OF reach r w, of out now, unfolded app_def] new]
    by (simp add: app_def)
  from thrift_accountable.crash_inv[OF this] show ?thesis
    using close_ends[OF r(2) w, of app ThriftSender_flush out now]
      thrift_accountable.close_accounts[OF inv r, of sz service tgs out now]
    by (auto simp: close_accepted app_def)
qed

theorem remote_reporter_close_drains_witness:
  "1 \<le> int (length (sender_emitted (rr_sender (rr_close (\<lambda>emit sp. ThriftSender_append example_sizes ''svc'' [] emit sp)
     ThriftSender_flush (\<lambda>_. None) 0 (rr_report example_span (RemoteReporter 10 1 (ThriftSender 200) metrics0 0))))))
   + rr_metrics (rr_close (\<lambda>emit sp. ThriftSender_append example_sizes ''svc'' [] emit sp)
     ThriftSender_flush (\<lambda>_. None) 0 (rr_report example_span (RemoteReporter 10 1 (ThriftSender 200) metrics0 0)))
     ReporterFailure"
proof -
  let ?app = "\<lambda>emit sp. ThriftSender_append example_sizes ''svc'' [] emit sp"
  let ?new = "RemoteReporter 10 1 (ThriftSender 200) metrics0 0"
  let ?r = "rr_report example_span ?new"
  let ?c = "rr_close ?app ThriftSender_flush (\<lambda>_. None) 0 ?r"
  have reach: "rr_reach ?app ThriftSender_flush ?new ?r"
    by (rule rr_reach.step[OF rr_reach.init rr_step.report]) (simp add: RemoteReporter_def)
  have r: "\<not> rr_crashed ?r" "rr_running ?r" "rr_accepted ?r = [example_span]"
    by (simp_all add: rr_report_def RemoteReporter_def)
  obtain t where t: "Span_thrift example_span = Inr t"
    by (simp add: Span_thrift_def example_span_def Span_def)
  with remote_reporter_close_drains[OF reach r(1,2), of "\<lambda>_. None" 0] r(3) t show ?thesis
    by (simp add: metrics0_def)
qed

end
