(* ===== verification/Tracer.thy ===== *)
theory Tracer
  imports PropagationLaws BinaryFormat SamplerLaws Reporters "HOL-Library.Stream" "HOL-Library.Monad_Syntax"
begin

text \<open>
  The tracer (\<^verbatim>\<open>Tracer.h\<close>, \<^verbatim>\<open>Tracer.cpp\<close>). The state of the random number generator is the
  stream of the numbers it will give; \<open>start_env\<close> is what a call reads off the clocks and how
  OpenTracing converts a point of one clock into the other. The \<^verbatim>\<open>Metrics\<close> object is shared:
  \<open>t_metrics\<close> has the tracer's counts, a remote reporter its own, and they count disjoint things.
\<close>

section \<open>Random identifiers\<close>

partial_function (option) randomID :: "u64 stream \<Rightarrow> (u64 \<times> u64 stream) option" where
  "randomID g = (if shd g = 0 then randomID (stl g) else Some (shd g, stl g))"

text \<open>The generator never runs into zeros for good.\<close>

definition rng_live :: "u64 stream \<Rightarrow> bool" where
  "rng_live g \<longleftrightarrow> (\<forall>n. \<exists>m \<ge> n. g !! m \<noteq> 0)"

lemma rng_live_stl: "rng_live g \<Longrightarrow> rng_live (stl g)"
  unfolding rng_live_def by (metis Suc_le_D Suc_le_mono snth.simps(2))

lemma randomID_result: "randomID g = Some y \<Longrightarrow> fst y \<noteq> 0 \<and> (rng_live g \<longrightarrow> rng_live (snd y))"
proof -
  assume "randomID g = Some y"
  moreover have "fst y \<noteq> 0 \<and> (rng_live g \<longrightarrow> rng_live (snd y))"
    if "\<And>g y. f g = Some y \<Longrightarrow> fst y \<noteq> 0 \<and> (rng_live g \<longrightarrow> rng_live (snd y))"
      and "(if shd g = 0 then f (stl g) else Some (shd g, stl g)) = Some y"
    for f :: "u64 stream \<Rightarrow> (u64 \<times> u64 stream) option" and g y
    using that(2) that(1)[of "stl g" y] rng_live_stl[of g] by (auto split: if_splits)
  ultimately show ?thesis
    by (rule randomID.raw_induct[of "\<lambda>g y. fst y \<noteq> 0 \<and> (rng_live g \<longrightarrow> rng_live (snd y))", rotated])
qed

lemma randomID_nonzero: "randomID g = Some (v, g') \<Longrightarrow> v \<noteq> 0"
  using randomID_result by fastforce

lemma randomID_live: "randomID g = Some (v, g') \<Longrightarrow> rng_live g \<Longrightarrow> rng_live g'"
  using randomID_result by fastforce

lemma randomID_first:
  "g !! n \<noteq> 0 \<Longrightarrow> (\<And>i. i < n \<Longrightarrow> g !! i = 0) \<Longrightarrow> randomID g = Some (g !! n, sdrop (Suc n) g)"
proof (induction n arbitrary: g)
  case 0
  then show ?case by (subst randomID.simps) simp
next
  case (Suc n)
  have "shd g = 0" using Suc.prems(2)[of 0] by simp
  moreover have "randomID (stl g) = Some (stl g !! n, sdrop (Suc n) (stl g))"
    using Suc.prems(1) Suc.prems(2)[of "Suc i" for i] by (intro Suc.IH) auto
  ultimately show ?case by (subst randomID.simps) simp
qed

lemma randomID_returns: "rng_live g \<Longrightarrow> \<exists>v g'. randomID g = Some (v, g')"
proof -
  assume "rng_live g"
  then obtain m where "g !! m \<noteq> 0" by (auto simp: rng_live_def)
  then have "g !! (LEAST m. g !! m \<noteq> 0) \<noteq> 0" by (rule LeastI)
  moreover have "g !! i = 0" if "i < (LEAST m. g !! m \<noteq> 0)" for i
    using that not_less_Least by blast
  ultimately show ?thesis using randomID_first by blast
qed

section \<open>References\<close>

text \<open>A context of a reference is \<^term>\<open>None\<close> when it is null or of another tracer's class.\<close>

definition kSelfRef :: int where "kSelfRef = 99"

definition SelfRef :: "span_context option \<Rightarrow> reference_type \<times> span_context option" where
  "SelfRef c = (OtherRef kSelfRef, c)"

record analyzed_references =
  ar_parent :: "span_context option"
  ar_self :: "span_context option"
  ar_references :: "reference list"

definition Reference :: "span_context \<Rightarrow> reference_type \<Rightarrow> reference" where
  "Reference c ty = \<lparr>ref_context = c, ref_type = ty\<rparr>"

text \<open>The loop's state is the result, \<^verbatim>\<open>hasParent\<close>, \<^verbatim>\<open>parent\<close> and the messages logged.\<close>

definition analyze_step ::
  "reference_type \<times> span_context option \<Rightarrow>
   analyzed_references \<times> bool \<times> span_context option \<times> string list \<Rightarrow>
   analyzed_references \<times> bool \<times> span_context option \<times> string list" where
  "analyze_step r st =
     (case (r, st) of ((ty, c), (result, hasParent, parent, out)) \<Rightarrow>
        case c of
          None \<Rightarrow> (result, hasParent, parent, out @ [''Reference contains invalid type of SpanReference''])
        | Some ctx \<Rightarrow>
            if \<not> isValid ctx \<and> \<not> isDebugIDContainerOnly ctx \<and> baggage ctx = [] then st
            else if ty = OtherRef kSelfRef then (result\<lparr>ar_self := Some ctx\<rparr>, hasParent, parent, out)
            else
              let result' = result\<lparr>ar_references := ar_references result @ [Reference ctx ty]\<rparr>
              in if \<not> hasParent then (result', ty = ChildOfRef, Some ctx, out)
                 else (result', hasParent, parent, out))"

definition analyzeReferences ::
  "(reference_type \<times> span_context option) list \<Rightarrow> analyzed_references \<times> string list" where
  "analyzeReferences refs =
     (case foldl (\<lambda>st r. analyze_step r st)
             (\<lparr>ar_parent = None, ar_self = None, ar_references = []\<rparr>, False, None, []) refs of
        (result, hasParent, parent, out) \<Rightarrow>
          let hasParent' = (hasParent \<or> (case parent of None \<Rightarrow> False | Some p \<Rightarrow> isValid p))
          in (if hasParent' then result\<lparr>ar_parent := parent\<rparr> else result, out))"

section \<open>Starting spans\<close>

record start_env =
  env_system_now :: time
  env_steady_now :: time
  env_to_system :: "time \<Rightarrow> time"
  env_to_steady :: "time \<Rightarrow> time"
  env_sampler_t0 :: time
  env_sampler_now :: time

record start_options =
  opt_references :: "(reference_type \<times> span_context option) list"
  opt_tags :: "(string \<times> tag_value) list"
  opt_start_system :: time
  opt_start_steady :: time

definition determineStartTimes :: "start_env \<Rightarrow> start_options \<Rightarrow> time \<times> time" where
  "determineStartTimes env opts =
     (let sys = opt_start_system opts; steady = opt_start_steady opts in
      if sys = 0 \<and> steady = 0 then (env_system_now env, env_steady_now env)
      else if sys = 0 then (env_to_system env steady, steady)
      else if steady = 0 then (sys, env_to_steady env sys)
      else (sys, steady))"

definition kGen128BitOption :: u32 where "kGen128BitOption = 1"

record 's tracer =
  t_serviceName :: string
  t_sampler :: sampler
  t_reporter :: "'s reporter"
  t_metrics :: metrics
  t_log :: "string list"
  t_rng :: "u64 stream"
  t_format :: format
  t_headers :: headers_config
  t_tags :: "tag list"
  t_restrictionManager :: restriction_manager
  t_options :: u32

text \<open>
  The part of \<^verbatim>\<open>StartSpanWithOptions\<close> that makes the context: the context, the sampler's tags,
  whether a trace is new, and the tracer after it.
\<close>

definition new_trace_id :: "span_context option \<Rightarrow> 's tracer \<Rightarrow> (trace_id \<times> 's tracer) option" where
  "new_trace_id self t =
     (case self of
        Some c \<Rightarrow> Some (TraceID (high (traceID c)) (low (traceID c)), t)
      | None \<Rightarrow> do {
          (highID, t1) \<leftarrow>
            (if t_options t AND kGen128BitOption \<noteq> 0
             then do { (v, g) \<leftarrow> randomID (t_rng t); Some (v, t\<lparr>t_rng := g\<rparr>) } else Some (0, t));
          (lowID, g) \<leftarrow> randomID (t_rng t1);
          Some (TraceID highID lowID, t1\<lparr>t_rng := g\<rparr>) })"

definition sample_trace ::
  "nat \<Rightarrow> start_env \<Rightarrow> string \<Rightarrow> trace_id \<Rightarrow> span_context option \<Rightarrow> 's tracer \<Rightarrow> u8 \<times> tag list \<times> 's tracer" where
  "sample_trace ld env operation tid parent t =
     (case parent of
        Some p \<Rightarrow>
          if isDebugIDContainerOnly p then
            (kSampled OR kDebug, [Tag kJaegerDebugHeader (VString (debugID p))], t)
          else
            (case Sampler_isSampled ld (env_sampler_t0 env) (env_sampler_now env) tid operation (t_sampler t) of
               (st, s') \<Rightarrow> if st_isSampled st then (kSampled, st_tags st, t\<lparr>t_sampler := s'\<rparr>)
                           else (0, [], t\<lparr>t_sampler := s'\<rparr>))
      | None \<Rightarrow>
          (case Sampler_isSampled ld (env_sampler_t0 env) (env_sampler_now env) tid operation (t_sampler t) of
             (st, s') \<Rightarrow> if st_isSampled st then (kSampled, st_tags st, t\<lparr>t_sampler := s'\<rparr>)
                         else (0, [], t\<lparr>t_sampler := s'\<rparr>)))"

definition start_context ::
  "nat \<Rightarrow> start_env \<Rightarrow> string \<Rightarrow> span_context option \<Rightarrow> span_context option \<Rightarrow> 's tracer \<Rightarrow>
   (span_context \<times> tag list \<times> bool \<times> 's tracer) option" where
  "start_context ld env operation parent self t =
     do {
       (ctx, samplerTags, newTrace, t') \<leftarrow>
         (if (case parent of None \<Rightarrow> True | Some p \<Rightarrow> \<not> isValid p) then do {
            (tid, t1) \<leftarrow> new_trace_id self t;
            let spanid = (case self of Some c \<Rightarrow> spanID c | None \<Rightarrow> low tid);
            let (newFlags, tags, t2) = sample_trace ld env operation tid parent t1;
            Some (SpanContext tid spanid 0 newFlags [] [] [], tags, True, t2)
          }
          else do {
            let p = the parent;
            (spanid, g) \<leftarrow> randomID (t_rng t);
            Some (SpanContext (traceID p) spanid (spanID p) (flags p) [] [] [], [], False, t\<lparr>t_rng := g\<rparr>)
          });
       let ctx' = (case parent of
                     Some p \<Rightarrow> if baggage p \<noteq> [] then withBaggage ctx (baggage p) else ctx
                   | None \<Rightarrow> ctx);
       Some (ctx', samplerTags, newTrace, t')
     }"

definition startSpanInternal ::
  "span_context \<Rightarrow> string \<Rightarrow> time \<Rightarrow> time \<Rightarrow> tag list \<Rightarrow> (string \<times> tag_value) list \<Rightarrow> bool \<Rightarrow>
   reference list \<Rightarrow> 's tracer \<Rightarrow> span \<times> 's tracer" where
  "startSpanInternal ctx operation sys steady internalTags tags newTrace refs t =
     (let spanTags = map (\<lambda>(k, v). Tag k v) tags @ internalTags;
          span = Span (Some (t_serviceName t)) ctx operation sys steady spanTags refs;
          ms1 = inc SpansStarted 1 (t_metrics t);
          ms2 = (if isSampled (sp_context span) then
                   let m = inc SpansSampled 1 ms1 in if newTrace then inc TracesStartedSampled 1 m else m
                 else
                   let m = inc SpansNotSampled 1 ms1 in if newTrace then inc TracesStartedNotSampled 1 m else m)
      in (span, t\<lparr>t_metrics := ms2\<rparr>))"

definition self_and_references :: string where
  "self_and_references =
     ''Self and references are exclusive. Only one of them can be specified''"

definition StartSpanWithOptions ::
  "nat \<Rightarrow> start_env \<Rightarrow> string \<Rightarrow> start_options \<Rightarrow> 's tracer \<Rightarrow> (span option \<times> 's tracer) option" where
  "StartSpanWithOptions ld env operation opts t0 =
     (case analyzeReferences (opt_references opts) of (result, out) \<Rightarrow>
        let parent = ar_parent result; self = ar_self result; refs = ar_references result;
            t = t0\<lparr>t_log := t_log t0 @ out\<rparr>
        in if self \<noteq> None \<and> (parent \<noteq> None \<or> refs \<noteq> []) then
             Some (None, t\<lparr>t_log := t_log t @ [''Error occurred in Tracer::StartSpanWithOptions: '' @
               self_and_references @ '': '' @ self_and_references]\<rparr>)
           else do {
             (ctx, samplerTags, newTrace, t1) \<leftarrow> start_context ld env operation parent self t;
             let (sys, steady) = determineStartTimes env opts;
             let (span, t2) = startSpanInternal ctx operation sys steady samplerTags (opt_tags opts) newTrace refs t1;
             Some (Some span, t2)
           })"

section \<open>Reporting, closing\<close>

definition reportSpan :: "span \<Rightarrow> 's tracer \<Rightarrow> 's tracer" where
  "reportSpan s t =
     (let t1 = t\<lparr>t_metrics := inc SpansFinished 1 (t_metrics t)\<rparr>
      in if isSampled (sp_context s) then t1\<lparr>t_reporter := Reporter_report s (t_reporter t1)\<rparr> else t1)"

definition Tracer_close ::
  "('o \<Rightarrow> span \<Rightarrow> 's \<Rightarrow> (exception + int) \<times> 's) \<Rightarrow> ('o \<Rightarrow> 's \<Rightarrow> (exception + int) \<times> 's) \<Rightarrow>
   'o \<Rightarrow> time \<Rightarrow> 's tracer \<Rightarrow> 's tracer" where
  "Tracer_close app fls out now t =
     t\<lparr>t_reporter := Reporter_close app fls out now (t_reporter t),
       t_sampler := Sampler_close (t_sampler t),
       t_restrictionManager := RestrictionManager_close (t_restrictionManager t)\<rparr>"

section \<open>Injection and extraction\<close>

datatype propagation_error = invalid_span_context_error

definition Inject_binary :: "bool \<Rightarrow> span_context option \<Rightarrow> string \<Rightarrow> propagation_error + string" where
  "Inject_binary le c writer =
     (case c of None \<Rightarrow> Inl invalid_span_context_error | Some ctx \<Rightarrow> Inr (writer @ binary_inject le ctx))"

definition Inject_text ::
  "codec \<Rightarrow> 's tracer \<Rightarrow> span_context option \<Rightarrow> strmap \<Rightarrow> propagation_error + strmap" where
  "Inject_text cd t c writer =
     (case c of
        None \<Rightarrow> Inl invalid_span_context_error
      | Some ctx \<Rightarrow> Inr (case t_format t of
          FormatW3C \<Rightarrow> w3c_doInject ctx writer
        | FormatJAEGER \<Rightarrow> jaeger_doInject (t_headers t) cd ctx writer))"

definition nonempty_context :: "span_context \<Rightarrow> span_context option" where
  "nonempty_context c = (if SpanContext_eq c SpanContext0 then None else Some c)"

definition Extract_binary :: "bool \<Rightarrow> istream \<Rightarrow> 's tracer \<Rightarrow> span_context option \<times> istream \<times> 's tracer" where
  "Extract_binary le reader t =
     (case binary_extract le reader (t_metrics t) of (c, ms, reader') \<Rightarrow>
        (nonempty_context c, reader', t\<lparr>t_metrics := ms\<rparr>))"

definition Extract_text :: "codec \<Rightarrow> strmap \<Rightarrow> 's tracer \<Rightarrow> span_context option \<times> 's tracer" where
  "Extract_text cd reader t =
     (case (case t_format t of
              FormatW3C \<Rightarrow> w3c_extract (t_headers t) cd reader (t_metrics t)
            | FormatJAEGER \<Rightarrow> jaeger_extract (t_headers t) cd reader (t_metrics t)) of
        (c, ms) \<Rightarrow> (nonempty_context c, t\<lparr>t_metrics := ms\<rparr>))"

definition Inject_TextMap :: "'s tracer \<Rightarrow> span_context option \<Rightarrow> strmap \<Rightarrow> propagation_error + strmap" where
  "Inject_TextMap = Inject_text text_map_codec"

definition Inject_HTTPHeaders :: "'s tracer \<Rightarrow> span_context option \<Rightarrow> strmap \<Rightarrow> propagation_error + strmap" where
  "Inject_HTTPHeaders = Inject_text http_codec"

definition Extract_TextMap :: "strmap \<Rightarrow> 's tracer \<Rightarrow> span_context option \<times> 's tracer" where
  "Extract_TextMap = Extract_text text_map_codec"

definition Extract_HTTPHeaders :: "strmap \<Rightarrow> 's tracer \<Rightarrow> span_context option \<times> 's tracer" where
  "Extract_HTTPHeaders = Extract_text http_codec"

end
