(* ===== verification/TracerLaws.thy ===== *)
theory TracerLaws
  imports Tracer
begin

text \<open>
  What holds of the tracer: which reference becomes the parent, what a new span inherits or
  draws, and how the counts of a whole program of spans add up.
\<close>

section \<open>The choice of the parent\<close>

text \<open>Specification: the references that count, and the parent and the self context among them.\<close>

definition usable :: "span_context option \<Rightarrow> bool" where
  "usable c = (case c of None \<Rightarrow> False
     | Some c \<Rightarrow> isValid c \<or> isDebugIDContainerOnly c \<or> baggage c \<noteq> [])"

definition followed ::
  "(reference_type \<times> span_context option) list \<Rightarrow> (reference_type \<times> span_context) list" where
  "followed refs = map (map_prod id the) (filter (\<lambda>(ty, c). usable c \<and> ty \<noteq> OtherRef kSelfRef) refs)"

definition choose_self :: "(reference_type \<times> span_context option) list \<Rightarrow> span_context option" where
  "choose_self refs =
     (case rev (filter (\<lambda>(ty, c). usable c \<and> ty = OtherRef kSelfRef) refs) of [] \<Rightarrow> None | (ty, c) # _ \<Rightarrow> c)"

definition choose_parent :: "(reference_type \<times> span_context) list \<Rightarrow> span_context option" where
  "choose_parent rs =
     (case List.find (\<lambda>(ty, c). ty = ChildOfRef) rs of
        Some (ty, c) \<Rightarrow> Some c
      | None \<Rightarrow> if rs \<noteq> [] \<and> isValid (snd (last rs)) then Some (snd (last rs)) else None)"

definition parent_so_far :: "(reference_type \<times> span_context) list \<Rightarrow> span_context option" where
  "parent_so_far rs =
     (case List.find (\<lambda>(ty, c). ty = ChildOfRef) rs of
        Some (ty, c) \<Rightarrow> Some c | None \<Rightarrow> if rs = [] then None else Some (snd (last rs)))"

lemma find_snoc: "List.find P (xs @ [x]) = (case List.find P xs of Some y \<Rightarrow> Some y | None \<Rightarrow> if P x then Some x else None)"
  by (induction xs) auto

lemma find_None: "List.find P xs = None \<longleftrightarrow> \<not> list_ex P xs"
  by (induction xs) auto

lemma analyze_fold:
  "\<exists>out. foldl (\<lambda>st r. analyze_step r st)
     (\<lparr>ar_parent = None, ar_self = None, ar_references = []\<rparr>, False, None, []) refs =
   (\<lparr>ar_parent = None, ar_self = choose_self refs, ar_references = map (\<lambda>(ty, c). Reference c ty) (followed refs)\<rparr>,
    list_ex (\<lambda>(ty, c). ty = ChildOfRef) (followed refs), parent_so_far (followed refs), out)"
proof (induction refs rule: rev_induct)
  case Nil
  then show ?case by (simp add: choose_self_def followed_def parent_so_far_def)
next
  case (snoc r refs)
  obtain ty c where r: "r = (ty, c)" by fastforce
  from snoc obtain out where 1: "foldl (\<lambda>st r. analyze_step r st)
     (\<lparr>ar_parent = None, ar_self = None, ar_references = []\<rparr>, False, None, []) refs =
   (\<lparr>ar_parent = None, ar_self = choose_self refs, ar_references = map (\<lambda>(ty, c). Reference c ty) (followed refs)\<rparr>,
    list_ex (\<lambda>(ty, c). ty = ChildOfRef) (followed refs), parent_so_far (followed refs), out)" by blast
  consider (skip) "\<not> usable c" | (self) "usable c" "ty = OtherRef kSelfRef"
    | (ref) "usable c" "ty \<noteq> OtherRef kSelfRef" by blast
  then show ?case
  proof cases
    case skip
    then have "followed (refs @ [r]) = followed refs" "choose_self (refs @ [r]) = choose_self refs"
      by (simp_all add: r followed_def choose_self_def)
    then show ?thesis using skip 1 by (auto simp: analyze_step_def r usable_def split: option.splits)
  next
    case self
    then have "followed (refs @ [r]) = followed refs" "choose_self (refs @ [r]) = c"
      by (simp_all add: r followed_def choose_self_def)
    then show ?thesis using self 1 by (auto simp: analyze_step_def r usable_def split: option.splits)
  next
    case ref
    then obtain ctx where c: "c = Some ctx" by (auto simp: usable_def split: option.splits)
    have f: "followed (refs @ [r]) = followed refs @ [(ty, ctx)]" "choose_self (refs @ [r]) = choose_self refs"
      using ref by (simp_all add: r followed_def choose_self_def c)
    have p: "parent_so_far (followed refs @ [(ty, ctx)]) =
        (if list_ex (\<lambda>(ty, c). ty = ChildOfRef) (followed refs) then parent_so_far (followed refs) else Some ctx)"
      using find_None[of "\<lambda>(ty, c). ty = ChildOfRef" "followed refs"]
      by (auto simp: parent_so_far_def find_snoc split: option.splits)
    show ?thesis
      using ref 1 unfolding f p by (auto simp: analyze_step_def r c usable_def)
  qed
qed

lemma parent_so_far_choose:
  "(if list_ex (\<lambda>(ty, c). ty = ChildOfRef) rs \<or> (case parent_so_far rs of None \<Rightarrow> False | Some p \<Rightarrow> isValid p)
    then parent_so_far rs else None) = choose_parent rs"
  using find_None[of "\<lambda>(ty, c). ty = ChildOfRef" rs]
  by (auto simp: parent_so_far_def choose_parent_def split: option.splits)

lemma analyzeReferences_eq:
  "fst (analyzeReferences refs) =
     \<lparr>ar_parent = choose_parent (followed refs), ar_self = choose_self refs,
      ar_references = map (\<lambda>(ty, c). Reference c ty) (followed refs)\<rparr>"
proof -
  from analyze_fold[of refs] obtain out where "foldl (\<lambda>st r. analyze_step r st)
     (\<lparr>ar_parent = None, ar_self = None, ar_references = []\<rparr>, False, None, []) refs =
   (\<lparr>ar_parent = None, ar_self = choose_self refs, ar_references = map (\<lambda>(ty, c). Reference c ty) (followed refs)\<rparr>,
    list_ex (\<lambda>(ty, c). ty = ChildOfRef) (followed refs), parent_so_far (followed refs), out)" by blast
  then show ?thesis
    using parent_so_far_choose[of "followed refs"]
    by (auto simp: analyzeReferences_def Let_def split: if_splits)
qed

section \<open>Starting a span\<close>

lemma start_span_eq:
  assumes "ar_self (fst (analyzeReferences (opt_references opts))) = None \<or>
      ar_parent (fst (analyzeReferences (opt_references opts))) = None \<and>
      ar_references (fst (analyzeReferences (opt_references opts))) = []"
    and "StartSpanWithOptions ld env operation opts t = Some (s, t')"
  defines "result \<equiv> fst (analyzeReferences (opt_references opts))"
  shows "\<exists>ctx tags newTrace t1 sp.
    start_context ld env operation (ar_parent result) (ar_self result)
      (t\<lparr>t_log := t_log t @ snd (analyzeReferences (opt_references opts))\<rparr>) = Some (ctx, tags, newTrace, t1) \<and>
    s = Some sp \<and>
    (sp, t') = startSpanInternal ctx operation (fst (determineStartTimes env opts)) (snd (determineStartTimes env opts))
      tags (opt_tags opts) newTrace (ar_references result) t1"
proof -
  let ?t = "t\<lparr>t_log := t_log t @ snd (analyzeReferences (opt_references opts))\<rparr>"
  have "StartSpanWithOptions ld env operation opts t =
      Option.bind (start_context ld env operation (ar_parent result) (ar_self result) ?t)
        (\<lambda>(ctx, tags, newTrace, t1).
          let (sp, t2) = startSpanInternal ctx operation (fst (determineStartTimes env opts))
            (snd (determineStartTimes env opts)) tags (opt_tags opts) newTrace (ar_references result) t1
          in Some (Some sp, t2))"
    using assms(1)
    by (cases "analyzeReferences (opt_references opts)"; cases "determineStartTimes env opts")
      (auto simp: StartSpanWithOptions_def Let_def result_def)
  with assms(2) obtain ctx tags newTrace t1
    where c: "start_context ld env operation (ar_parent result) (ar_self result) ?t = Some (ctx, tags, newTrace, t1)"
      and r: "(case startSpanInternal ctx operation (fst (determineStartTimes env opts))
            (snd (determineStartTimes env opts)) tags (opt_tags opts) newTrace (ar_references result) t1
          of (sp, t2) \<Rightarrow> Some (Some sp, t2)) = Some (s, t')"
    by (cases "start_context ld env operation (ar_parent result) (ar_self result) ?t") auto
  from r obtain sp where "s = Some sp" "startSpanInternal ctx operation (fst (determineStartTimes env opts))
      (snd (determineStartTimes env opts)) tags (opt_tags opts) newTrace (ar_references result) t1 = (sp, t')"
    by (simp split: prod.split_asm)
  with c show ?thesis by force
qed

lemma startSpanInternal_span:
  "fst (startSpanInternal ctx operation sys steady tags otags newTrace refs t) =
     Span (Some (t_serviceName t)) ctx operation sys steady (map (\<lambda>(k, v). Tag k v) otags @ tags) refs"
  by (simp add: startSpanInternal_def Let_def)

lemma startSpanInternal_metrics:
  "t_metrics (snd (startSpanInternal ctx operation sys steady tags otags newTrace refs t)) =
     (if newTrace then inc (if isSampled ctx then TracesStartedSampled else TracesStartedNotSampled) 1 else id)
       (inc (if isSampled ctx then SpansSampled else SpansNotSampled) 1 (inc SpansStarted 1 (t_metrics t)))"
  by (simp add: startSpanInternal_def Let_def Span_def)

lemma startSpanInternal_frame [simp]:
  "t_rng (snd (startSpanInternal ctx operation sys steady tags otags newTrace refs t)) = t_rng t"
  "t_sampler (snd (startSpanInternal ctx operation sys steady tags otags newTrace refs t)) = t_sampler t"
  "t_reporter (snd (startSpanInternal ctx operation sys steady tags otags newTrace refs t)) = t_reporter t"
  "t_serviceName (snd (startSpanInternal ctx operation sys steady tags otags newTrace refs t)) = t_serviceName t"
  by (simp_all add: startSpanInternal_def Let_def)

lemma start_context_child:
  assumes "isValid p"
    and "start_context ld env operation (Some p) self t = Some (ctx, tags, newTrace, t')"
  shows "spanID ctx \<noteq> 0 \<and> ctx = SpanContext (traceID p) (spanID ctx) (spanID p) (flags p) (baggage p) [] [] \<and>
    tags = [] \<and> \<not> newTrace \<and> t_sampler t' = t_sampler t \<and> t_metrics t' = t_metrics t \<and>
    t_serviceName t' = t_serviceName t \<and> randomID (t_rng t) = Some (spanID ctx, t_rng t')"
  using assms
  by (auto simp: start_context_def bind_eq_Some_conv Let_def withBaggage_def SpanContext_def
      dest: randomID_nonzero split: if_splits)

lemma kGen128BitOption_cases:
  "new_trace_id None t = Some (tid, t') \<Longrightarrow>
   low tid \<noteq> 0 \<and> (high tid \<noteq> 0 \<longleftrightarrow> t_options t AND kGen128BitOption \<noteq> 0) \<and>
   t_sampler t' = t_sampler t \<and> t_metrics t' = t_metrics t \<and> t_serviceName t' = t_serviceName t"
  by (auto simp: new_trace_id_def bind_eq_Some_conv dest: randomID_nonzero split: if_splits)

lemma sample_trace_frame:
  "sample_trace ld env operation tid parent t = (f, tags, t') \<Longrightarrow>
   t_metrics t' = t_metrics t \<and> t_serviceName t' = t_serviceName t \<and> t_rng t' = t_rng t \<and>
   t_reporter t' = t_reporter t"
  by (auto simp: sample_trace_def split: option.splits if_splits prod.splits)

lemma start_context_root:
  assumes "parent = None \<or> \<not> isValid (the parent)"
    and "start_context ld env operation parent None t = Some (ctx, tags, newTrace, t')"
  shows "spanID ctx = low (traceID ctx) \<and> low (traceID ctx) \<noteq> 0 \<and>
    (high (traceID ctx) \<noteq> 0 \<longleftrightarrow> t_options t AND kGen128BitOption \<noteq> 0) \<and> parentID ctx = 0 \<and>
    baggage ctx = (case parent of None \<Rightarrow> [] | Some p \<Rightarrow> baggage p) \<and> newTrace \<and>
    (\<exists>t1. (flags ctx, tags, t') = sample_trace ld env operation (traceID ctx) parent t1 \<and>
      t_sampler t1 = t_sampler t \<and> t_metrics t1 = t_metrics t \<and> t_serviceName t1 = t_serviceName t)"
proof -
  obtain tid t1 where n: "new_trace_id None t = Some (tid, t1)"
    using assms by (cases "new_trace_id None t") (auto simp: start_context_def split: option.splits if_splits)
  obtain f ts t2 where st: "sample_trace ld env operation tid parent t1 = (f, ts, t2)" by (metis prod_cases3)
  define bag where "bag = (case parent of None \<Rightarrow> [] | Some p \<Rightarrow> baggage p)"
  have "ctx = SpanContext tid (low tid) 0 f bag [] [] \<and> tags = ts \<and> newTrace \<and> t' = t2"
    using assms n st by (cases parent) (auto simp: start_context_def withBaggage_def SpanContext_def bag_def)
  then show ?thesis
    using kGen128BitOption_cases[OF n] st[symmetric] by (auto simp: SpanContext_def bag_def)
qed

lemma start_context_self:
  assumes "start_context ld env operation None (Some c) t = Some (ctx, tags, newTrace, t')"
  shows "traceID ctx = traceID c \<and> spanID ctx = spanID c \<and> parentID ctx = 0 \<and> newTrace \<and> t_rng t' = t_rng t \<and>
    (flags ctx, tags, t') = sample_trace ld env operation (traceID ctx) None t"
  using assms
  by (auto simp: start_context_def new_trace_id_def Let_def SpanContext_def
      dest: sample_trace_frame split: prod.splits)

lemma start_context_returns:
  assumes "rng_live (t_rng t)"
  shows "\<exists>ctx tags newTrace t'. start_context ld env operation parent self t = Some (ctx, tags, newTrace, t') \<and>
    rng_live (t_rng t') \<and> t_metrics t' = t_metrics t \<and> t_reporter t' = t_reporter t"
proof (cases "case parent of None \<Rightarrow> True | Some p \<Rightarrow> \<not> isValid p")
  case True
  have "\<exists>tid t1. new_trace_id self t = Some (tid, t1) \<and> rng_live (t_rng t1) \<and> t_metrics t1 = t_metrics t \<and>
      t_reporter t1 = t_reporter t"
  proof (cases self)
    case None
    obtain h g1 where 1: "randomID (t_rng t) = Some (h, g1)" "rng_live g1"
      using randomID_returns[OF assms] randomID_live assms by blast
    obtain l g2 where 2: "randomID g1 = Some (l, g2)" "rng_live g2"
      using randomID_returns[OF 1(2)] randomID_live 1(2) by blast
    show ?thesis using None 1 2 by (auto simp: new_trace_id_def)
  qed (use assms in \<open>simp add: new_trace_id_def\<close>)
  then obtain tid t1 where n: "new_trace_id self t = Some (tid, t1)" "rng_live (t_rng t1)"
    "t_metrics t1 = t_metrics t" "t_reporter t1 = t_reporter t" by blast
  obtain f ts t2 where st: "sample_trace ld env operation tid parent t1 = (f, ts, t2)" by (metis prod_cases3)
  show ?thesis using True n st sample_trace_frame[OF st] by (cases parent) (auto simp: start_context_def)
next
  case False
  then obtain p where p: "parent = Some p" "isValid p" by (auto split: option.splits)
  obtain v g where "randomID (t_rng t) = Some (v, g)" "rng_live g"
    using randomID_returns[OF assms] randomID_live assms by blast
  then show ?thesis using p by (auto simp: start_context_def Let_def)
qed

section \<open>A program of spans\<close>

text \<open>
  What an application does: it starts spans and works on the spans it has, in any order. The
  restriction manager a span asks is its tracer's.
\<close>

record 's program =
  pr_tracer :: "'s tracer"
  pr_spans :: "span list"

datatype program_op = StartOp start_env string start_options | SpanOp nat span_op

fun with_manager :: "restriction_manager \<Rightarrow> span_op \<Rightarrow> span_op" where
  "with_manager m (OpSetBaggageItem _ now k v) = OpSetBaggageItem m now k v"
| "with_manager m op = op"

definition program_step :: "nat \<Rightarrow> program_op \<Rightarrow> 's program \<Rightarrow> 's program option" where
  "program_step ld op p =
     (let t = pr_tracer p; spans = pr_spans p in
      case op of
        StartOp env operation opts \<Rightarrow> do {
          (s, t') \<leftarrow> StartSpanWithOptions ld env operation opts t;
          Some (p\<lparr>pr_tracer := t', pr_spans := spans @ (case s of None \<Rightarrow> [] | Some sp \<Rightarrow> [sp])\<rparr>) }
      | SpanOp i op \<Rightarrow>
          if i < length spans then
            case span_step (with_manager (t_restrictionManager t) op) (spans ! i, t_metrics t) of
              (s', ms', rep) \<Rightarrow>
                let t1 = t\<lparr>t_metrics := ms'\<rparr>
                in Some (p\<lparr>pr_tracer := (if rep then reportSpan s' t1 else t1), pr_spans := spans[i := s']\<rparr>)
          else Some p)"

fun program_run :: "nat \<Rightarrow> program_op list \<Rightarrow> 's program \<Rightarrow> 's program option" where
  "program_run ld [] p = Some p"
| "program_run ld (op # ops) p = Option.bind (program_step ld op p) (program_run ld ops)"

definition accounted :: "'s program \<Rightarrow> bool" where
  "accounted p \<longleftrightarrow>
     (let ms = t_metrics (pr_tracer p); spans = pr_spans p in
      ms SpansStarted = int (length spans) \<and>
      ms SpansSampled + ms SpansNotSampled = ms SpansStarted \<and>
      0 \<le> ms TracesStartedSampled \<and> ms TracesStartedSampled \<le> ms SpansSampled \<and>
      0 \<le> ms TracesStartedNotSampled \<and> ms TracesStartedNotSampled \<le> ms SpansNotSampled \<and>
      ms SpansFinished = int (length (filter isFinished spans)) \<and>
      list_all (\<lambda>s. sp_tracer s \<noteq> None) spans \<and>
      (case t_reporter (pr_tracer p) of
         InMemoryReporter xs \<Rightarrow> int (length xs) \<le> ms SpansFinished \<and>
           list_all (\<lambda>s. isFinished s \<and> isSampled (sp_context s)) xs
       | _ \<Rightarrow> True))"

definition lifecycle :: "metric list" where
  "lifecycle = [SpansStarted, SpansSampled, SpansNotSampled, SpansFinished, TracesStartedSampled, TracesStartedNotSampled]"

lemma span_step_lifecycle:
  "span_step op (s, ms) = (s', ms', rep) \<Longrightarrow> m \<in> set lifecycle \<Longrightarrow> ms' m = ms m"
  by (cases op) (auto simp: span_step_def SetBaggageItem_def setBaggage_def lifecycle_def Let_def
      split: prod.splits if_splits option.splits)

lemma program_start_accounted:
  assumes "rng_live (t_rng (pr_tracer p))" and "accounted p"
  shows "\<exists>p'. program_step ld (StartOp env operation opts) p = Some p' \<and> rng_live (t_rng (pr_tracer p')) \<and> accounted p'"
proof -
  let ?t = "pr_tracer p"
  let ?r = "fst (analyzeReferences (opt_references opts))"
  let ?t1 = "?t\<lparr>t_log := t_log ?t @ snd (analyzeReferences (opt_references opts))\<rparr>"
  show ?thesis
  proof (cases "ar_self ?r \<noteq> None \<and> (ar_parent ?r \<noteq> None \<or> ar_references ?r \<noteq> [])")
    case True
    then obtain out where "program_step ld (StartOp env operation opts) p = Some (p\<lparr>pr_tracer := ?t\<lparr>t_log := out\<rparr>\<rparr>)"
      by (cases "analyzeReferences (opt_references opts)") (auto simp: program_step_def StartSpanWithOptions_def Let_def)
    moreover have "accounted (p\<lparr>pr_tracer := ?t\<lparr>t_log := out\<rparr>\<rparr>) = accounted p" by (simp add: accounted_def)
    ultimately show ?thesis using assms by simp
  next
    case False
    from start_context_returns[of ?t1 ld env operation "ar_parent ?r" "ar_self ?r"] assms(1)
    obtain ctx tags newTrace t2 where c: "start_context ld env operation (ar_parent ?r) (ar_self ?r) ?t1 =
        Some (ctx, tags, newTrace, t2)" "rng_live (t_rng t2)" "t_metrics t2 = t_metrics ?t" "t_reporter t2 = t_reporter ?t"
      by auto
    let ?i = "startSpanInternal ctx operation (fst (determineStartTimes env opts)) (snd (determineStartTimes env opts))
      tags (opt_tags opts) newTrace (ar_references ?r) t2"
    have "StartSpanWithOptions ld env operation opts ?t = Some (Some (fst ?i), snd ?i)"
      using False c(1) by (cases "analyzeReferences (opt_references opts)"; cases "determineStartTimes env opts")
        (auto simp: StartSpanWithOptions_def Let_def case_prod_beta)
    then have st: "program_step ld (StartOp env operation opts) p =
        Some (p\<lparr>pr_tracer := snd ?i, pr_spans := pr_spans p @ [fst ?i]\<rparr>)"
      by (simp add: program_step_def)
    moreover have "accounted (p\<lparr>pr_tracer := snd ?i, pr_spans := pr_spans p @ [fst ?i]\<rparr>)"
      using assms(2) c(3,4) startSpanInternal_metrics[of ctx operation _ _ tags "opt_tags opts" newTrace "ar_references ?r" t2]
      by (auto simp: accounted_def Let_def startSpanInternal_span Span_def isFinished_def split: reporter.splits)
    ultimately show ?thesis using c(2) by simp
  qed
qed

lemma program_span_accounted:
  assumes "rng_live (t_rng (pr_tracer p))" and "accounted p"
  shows "\<exists>p'. program_step ld (SpanOp i op) p = Some p' \<and> rng_live (t_rng (pr_tracer p')) \<and> accounted p'"
proof (cases "i < length (pr_spans p)")
  case True
  let ?t = "pr_tracer p"
  let ?s = "pr_spans p ! i"
  let ?op = "with_manager (t_restrictionManager ?t) op"
  obtain s' ms' rep where st: "span_step ?op (?s, t_metrics ?t) = (s', ms', rep)" by (metis prod_cases3)
  have tr: "sp_tracer ?s \<noteq> None" using assms(2) True by (auto simp: accounted_def Let_def list_all_length)
  have id: "sp_tracer s' = sp_tracer ?s" using span_step_identity[OF st] by (simp add: span_identity_def)
  have rep: "rep \<longleftrightarrow> \<not> isFinished ?s \<and> isFinished s'" and mono: "isFinished ?s \<Longrightarrow> isFinished s'"
    using span_step_finished[OF _ st] span_step_finish(2)[OF _ st] tr by blast+
  have n: "int (length (filter isFinished ((pr_spans p)[i := s']))) =
      int (length (filter isFinished (pr_spans p))) + of_bool rep"
    using filter_update[OF True, of isFinished s'] rep mono
    by (cases "isFinished ?s"; cases "isFinished s'") simp_all
  have all: "list_all (\<lambda>s. sp_tracer s \<noteq> None) ((pr_spans p)[i := s'])"
    using assms(2) True tr id by (auto simp: accounted_def Let_def list_all_length nth_list_update)
  let ?t1 = "?t\<lparr>t_metrics := ms'\<rparr>"
  let ?p = "p\<lparr>pr_tracer := (if rep then reportSpan s' ?t1 else ?t1), pr_spans := (pr_spans p)[i := s']\<rparr>"
  have "ms' m = t_metrics ?t m" if "m \<in> set lifecycle" for m using span_step_lifecycle[OF st that] .
  note same = this[unfolded lifecycle_def, simplified]
  have "accounted ?p"
    using assms(2) n all same rep
    by (cases "t_reporter ?t") (auto simp: accounted_def Let_def reportSpan_def InMemoryReporter_report_def)
  then show ?thesis using assms(1) True st by (auto simp: program_step_def reportSpan_def Let_def)
qed (use assms in \<open>simp add: program_step_def\<close>)

lemma program_run_accounted:
  assumes "rng_live (t_rng (pr_tracer p))" and "accounted p"
  shows "\<exists>p'. program_run ld ops p = Some p' \<and> accounted p'"
  using assms
proof (induction ops arbitrary: p)
  case (Cons op ops)
  obtain p1 where "program_step ld op p = Some p1" "rng_live (t_rng (pr_tracer p1))" "accounted p1"
    using program_start_accounted[OF Cons.prems] program_span_accounted[OF Cons.prems] by (cases op) blast+
  then show ?case using Cons.IH by simp
qed simp

lemma start_child:
  assumes "choose_parent (followed (opt_references opts)) = Some p" and "isValid p"
    and "choose_self (opt_references opts) = None"
    and "StartSpanWithOptions ld env operation opts t = Some (s, t')"
  shows "\<exists>sp. s = Some sp \<and> spanID (sp_context sp) \<noteq> 0 \<and>
    sp_context sp = SpanContext (traceID p) (spanID (sp_context sp)) (spanID p) (flags p) (baggage p) [] [] \<and>
    sp_operationName sp = operation \<and> sp_tags sp = map (\<lambda>(k, v). Tag k v) (opt_tags opts) \<and>
    t_sampler t' = t_sampler t \<and>
    t_metrics t' = inc (if isSampled p then SpansSampled else SpansNotSampled) 1 (inc SpansStarted 1 (t_metrics t)) \<and>
    randomID (t_rng t) = Some (spanID (sp_context sp), t_rng t')"
proof -
  note a = analyzeReferences_eq[of "opt_references opts"]
  obtain ctx tags newTrace t1 sp where st: "s = Some sp"
    "start_context ld env operation (Some p) None (t\<lparr>t_log := t_log t @ snd (analyzeReferences (opt_references opts))\<rparr>)
       = Some (ctx, tags, newTrace, t1)"
    "(sp, t') = startSpanInternal ctx operation (fst (determineStartTimes env opts)) (snd (determineStartTimes env opts))
       tags (opt_tags opts) newTrace (map (\<lambda>(ty, c). Reference c ty) (followed (opt_references opts))) t1"
    using start_span_eq[OF _ assms(4)] assms(1,3) by (auto simp: a)
  note child = start_context_child[OF assms(2) st(2)]
  have "isSampled ctx = isSampled p" using child by (metis isSampled_def SpanContext_def span_context.select_convs(4))
  then show ?thesis
    using st(1) child arg_cong[OF st(3), of fst, unfolded startSpanInternal_span]
      arg_cong[OF st(3), of "\<lambda>x. t_metrics (snd x)", unfolded startSpanInternal_metrics]
      arg_cong[OF st(3), of "\<lambda>x. t_sampler (snd x)"] arg_cong[OF st(3), of "\<lambda>x. t_rng (snd x)"]
    by (auto simp: Span_def)
qed

text \<open>A span without a valid parent: its ids are those of the reference to itself, or new ones.\<close>

lemma start_new:
  assumes "choose_parent (followed (opt_references opts)) = None \<or>
      \<not> isValid (the (choose_parent (followed (opt_references opts))))"
    and "choose_self (opt_references opts) = None \<or> followed (opt_references opts) = []"
    and "StartSpanWithOptions ld env operation opts t = Some (s, t')"
  defines "parent \<equiv> choose_parent (followed (opt_references opts))"
  shows "\<exists>sp. s = Some sp \<and> (let c = sp_context sp;
      verdict = fst (Sampler_isSampled ld (env_sampler_t0 env) (env_sampler_now env) (traceID c) operation (t_sampler t))
    in (case choose_self (opt_references opts) of
          None \<Rightarrow> isValid c \<and> low (traceID c) \<noteq> 0 \<and>
            (high (traceID c) \<noteq> 0 \<longleftrightarrow> t_options t AND kGen128BitOption \<noteq> 0) \<and> spanID c = low (traceID c)
        | Some self \<Rightarrow> traceID c = traceID self \<and> spanID c = spanID self) \<and> parentID c = 0 \<and>
      (if parent \<noteq> None \<and> isDebugIDContainerOnly (the parent)
       then isSampled c \<and> isDebug c \<and> last (sp_tags sp) = Tag kJaegerDebugHeader (VString (debugID (the parent)))
       else isSampled c = st_isSampled verdict \<and>
         sp_tags sp = map (\<lambda>(k, v). Tag k v) (opt_tags opts) @ (if isSampled c then st_tags verdict else [])))"
proof -
  note a = analyzeReferences_eq[of "opt_references opts"]
  let ?self = "choose_self (opt_references opts)"
  have none: "?self = None \<or> parent = None" using assms(2) by (auto simp: parent_def choose_parent_def)
  obtain ctx tags newTrace t1 sp where st: "s = Some sp"
    "start_context ld env operation parent ?self (t\<lparr>t_log := t_log t @ snd (analyzeReferences (opt_references opts))\<rparr>)
       = Some (ctx, tags, newTrace, t1)"
    "(sp, t') = startSpanInternal ctx operation (fst (determineStartTimes env opts)) (snd (determineStartTimes env opts))
       tags (opt_tags opts) newTrace (map (\<lambda>(ty, c). Reference c ty) (followed (opt_references opts))) t1"
    using start_span_eq[OF _ assms(3)] assms(2) none by (auto simp: a parent_def)
  have p: "parent = None \<or> \<not> isValid (the parent)" using assms(1) by (simp add: parent_def)
  obtain t2 where root: "case ?self of
      None \<Rightarrow> spanID ctx = low (traceID ctx) \<and> low (traceID ctx) \<noteq> 0 \<and>
        (high (traceID ctx) \<noteq> 0 \<longleftrightarrow> t_options t AND kGen128BitOption \<noteq> 0)
    | Some self \<Rightarrow> traceID ctx = traceID self \<and> spanID ctx = spanID self" "parentID ctx = 0"
    "(flags ctx, tags, t1) = sample_trace ld env operation (traceID ctx) parent t2" "t_sampler t2 = t_sampler t"
  proof (cases ?self)
    case None
    then show thesis using start_context_root[OF p st(2)[unfolded None]] that by auto
  next
    case (Some self)
    then have "parent = None" using none by simp
    with start_context_self[OF st(2)[unfolded Some \<open>parent = None\<close>]] Some show thesis using that by auto
  qed
  have sp: "sp = Span (Some (t_serviceName t1)) ctx operation (fst (determineStartTimes env opts))
      (snd (determineStartTimes env opts)) (map (\<lambda>(k, v). Tag k v) (opt_tags opts) @ tags)
      (map (\<lambda>(ty, c). Reference c ty) (followed (opt_references opts)))"
    using arg_cong[OF st(3), of fst, unfolded startSpanInternal_span] by simp
  have flags: "if parent \<noteq> None \<and> isDebugIDContainerOnly (the parent)
    then flags ctx = kSampled OR kDebug \<and> tags = [Tag kJaegerDebugHeader (VString (debugID (the parent)))]
    else let verdict = fst (Sampler_isSampled ld (env_sampler_t0 env) (env_sampler_now env) (traceID ctx) operation (t_sampler t))
      in flags ctx = (if st_isSampled verdict then kSampled else 0) \<and> tags = (if st_isSampled verdict then st_tags verdict else [])"
    using root(3,4) by (cases parent) (auto simp: sample_trace_def split: prod.splits if_splits)
  have "kSampled AND kSampled \<noteq> 0" "(kSampled OR kDebug) AND kDebug \<noteq> 0" by (simp_all add: kSampled_def kDebug_def)
  then show ?thesis
    using st(1) root(1,2) flags
    by (auto simp: sp Span_def Let_def isValid_def TraceID_isValid_def isSampled_def isDebug_def
        split: if_splits option.splits)
qed

lemma start_root:
  assumes "choose_parent (followed (opt_references opts)) = None \<or>
      \<not> isValid (the (choose_parent (followed (opt_references opts))))"
    and "choose_self (opt_references opts) = None"
    and "StartSpanWithOptions ld env operation opts t = Some (s, t')"
  defines "parent \<equiv> choose_parent (followed (opt_references opts))"
  shows "\<exists>sp. s = Some sp \<and> (let c = sp_context sp;
      verdict = fst (Sampler_isSampled ld (env_sampler_t0 env) (env_sampler_now env) (traceID c) operation (t_sampler t))
    in isValid c \<and> low (traceID c) \<noteq> 0 \<and> (high (traceID c) \<noteq> 0 \<longleftrightarrow> t_options t AND kGen128BitOption \<noteq> 0) \<and>
      spanID c = low (traceID c) \<and> parentID c = 0 \<and>
      (if parent \<noteq> None \<and> isDebugIDContainerOnly (the parent)
       then isSampled c \<and> isDebug c \<and> last (sp_tags sp) = Tag kJaegerDebugHeader (VString (debugID (the parent)))
       else isSampled c = st_isSampled verdict \<and>
         sp_tags sp = map (\<lambda>(k, v). Tag k v) (opt_tags opts) @ (if isSampled c then st_tags verdict else [])))"
  using start_new[OF assms(1) disjI1[OF assms(2)] assms(3)]
  unfolding parent_def assms(2) option.case Let_def by (elim exE conjE) blast

lemma start_span_returns:
  assumes "rng_live (t_rng t)"
  shows "\<exists>s t'. StartSpanWithOptions ld env operation opts t = Some (s, t')"
proof -
  obtain result out where a: "analyzeReferences (opt_references opts) = (result, out)" by fastforce
  from start_context_returns[of "t\<lparr>t_log := t_log t @ out\<rparr>" ld env operation "ar_parent result" "ar_self result"] assms
  obtain ctx tags newTrace t2 where "start_context ld env operation (ar_parent result) (ar_self result)
      (t\<lparr>t_log := t_log t @ out\<rparr>) = Some (ctx, tags, newTrace, t2)" by auto
  then show ?thesis using a by (auto simp: StartSpanWithOptions_def Let_def case_prod_beta)
qed

text \<open>Unless a reference to itself comes with others, which is an error, there is a span.\<close>

lemma start_span_makes:
  assumes "rng_live (t_rng t)" and "choose_self (opt_references opts) = None \<or> followed (opt_references opts) = []"
  shows "\<exists>sp t'. StartSpanWithOptions ld env operation opts t = Some (Some sp, t') \<and> sp_operationName sp = operation \<and>
    \<not> isFinished sp"
proof -
  obtain s t' where r: "StartSpanWithOptions ld env operation opts t = Some (s, t')" using start_span_returns[OF assms(1)] by blast
  from start_span_eq[OF _ r] assms(2) obtain ctx tags newTrace t1 sp refs where s: "s = Some sp"
    "(sp, t') = startSpanInternal ctx operation (fst (determineStartTimes env opts)) (snd (determineStartTimes env opts))
       tags (opt_tags opts) newTrace refs t1"
    by (auto simp: analyzeReferences_eq choose_parent_def)
  from arg_cong[OF s(2), of fst, unfolded startSpanInternal_span] have "sp_operationName sp = operation" "\<not> isFinished sp"
    by (simp_all add: Span_def isFinished_def)
  then show ?thesis using r s(1) by blast
qed

section \<open>What starting a span keeps of the tracer\<close>

definition tracer_config :: "'s tracer \<Rightarrow> string \<times> format \<times> headers_config \<times> restriction_manager \<times> u32" where
  "tracer_config t = (t_serviceName t, t_format t, t_headers t, t_restrictionManager t, t_options t)"

lemma tracer_config_updates [simp]:
  "tracer_config (t\<lparr>t_rng := g\<rparr>) = tracer_config t" "tracer_config (t\<lparr>t_sampler := s\<rparr>) = tracer_config t"
  "tracer_config (t\<lparr>t_reporter := r\<rparr>) = tracer_config t" "tracer_config (t\<lparr>t_metrics := ms\<rparr>) = tracer_config t"
  "tracer_config (t\<lparr>t_log := l\<rparr>) = tracer_config t"
  by (simp_all add: tracer_config_def)

lemma sample_trace_config:
  "sample_trace ld env operation tid parent t = (f, tags, t') \<Longrightarrow> tracer_config t' = tracer_config t"
  by (auto simp: sample_trace_def split: option.splits if_splits prod.splits)

lemma new_trace_id_config:
  "new_trace_id self t = Some (tid, t') \<Longrightarrow> tracer_config t' = tracer_config t"
  by (auto simp: new_trace_id_def bind_eq_Some_conv split: option.splits if_splits)

lemma start_context_config:
  "start_context ld env operation parent self t = Some (ctx, tags, newTrace, t') \<Longrightarrow> tracer_config t' = tracer_config t"
  by (auto simp: start_context_def bind_eq_Some_conv Let_def dest!: new_trace_id_config sample_trace_config
      split: if_splits option.splits prod.splits)

lemma startSpanInternal_config [simp]:
  "tracer_config (snd (startSpanInternal ctx operation sys steady tags otags newTrace refs t)) = tracer_config t"
  by (simp add: startSpanInternal_def Let_def)

lemma start_span_cases:
  assumes "StartSpanWithOptions ld env operation opts t = Some (s, t')"
  obtains (error) out where "s = None" "t' = t\<lparr>t_log := out\<rparr>"
  | (span) out parent self ctx tags newTrace t1 sys steady refs where
      "start_context ld env operation parent self (t\<lparr>t_log := out\<rparr>) = Some (ctx, tags, newTrace, t1)"
      "s = Some (fst (startSpanInternal ctx operation sys steady tags (opt_tags opts) newTrace refs t1))"
      "t' = snd (startSpanInternal ctx operation sys steady tags (opt_tags opts) newTrace refs t1)"
  using assms
  by (cases "analyzeReferences (opt_references opts)"; cases "determineStartTimes env opts")
    (fastforce simp: StartSpanWithOptions_def Let_def case_prod_beta bind_eq_Some_conv split: if_splits)

lemma start_span_config:
  assumes "StartSpanWithOptions ld env operation opts t = Some (s, t')"
  shows "tracer_config t' = tracer_config t"
  using assms by (rule start_span_cases) (auto dest: start_context_config)

lemma start_span_live:
  assumes "StartSpanWithOptions ld env operation opts t = Some (s, t')" and "rng_live (t_rng t)"
  shows "rng_live (t_rng t')"
  using assms(1)
proof (rule start_span_cases)
  fix out parent self ctx tags newTrace t1 sys steady refs
  assume c: "start_context ld env operation parent self (t\<lparr>t_log := out\<rparr>) = Some (ctx, tags, newTrace, t1)"
    and t': "t' = snd (startSpanInternal ctx operation sys steady tags (opt_tags opts) newTrace refs t1)"
  have "rng_live (t_rng t1)"
    using start_context_returns[of "t\<lparr>t_log := out\<rparr>" ld env operation parent self] assms(2) c by auto
  then show ?thesis by (simp add: t')
qed (use assms(2) in simp)

section \<open>A parent from another process\<close>

lemma carried_context:
  assumes "SpanContext_eq got (c\<lparr>debugID := [], traceState := []\<rparr>)" and "isValid c"
  shows "nonempty_context got = Some got" "isValid got" "traceID got = traceID c" "spanID got = spanID c"
    "flags got = flags c" "map_of (baggage got) = map_of (baggage c)"
proof -
  show f: "traceID got = traceID c" "spanID got = spanID c" "flags got = flags c"
    and "map_of (baggage got) = map_of (baggage c)"
    using assms(1) by (auto simp: SpanContext_eq_def strmap_eq_iff split: if_splits)
  show v: "isValid got" using assms(2) f by (simp add: isValid_def)
  have "\<not> SpanContext_eq got SpanContext0"
    using v by (auto simp: SpanContext_eq_def isValid_def SpanContext0_def TraceID_isValid_def split: if_splits)
  then show "nonempty_context got = Some got" by (simp add: nonempty_context_def)
qed

lemma extract_carried:
  assumes "headers_ok hk" and "lowercase (traceContextHeaderName hk)"
    and "t_format b = FormatJAEGER" and "t_headers b = hk" and "isValid c" and "strmap_ok (baggage c)"
    and "\<forall>kv \<in> set (baggage c). lowercase (addBaggageKeyPrefix hk (fst kv)) \<and> escapable_string (snd kv)"
    and "\<forall>kv \<in> set extra. irrelevant hk http_codec kv"
    and "mset hs = mset (jaeger_doInject hk http_codec c []) + mset extra"
    and "Extract_HTTPHeaders hs b = (got, b1)"
  obtains g where "got = Some g" "isValid g" "traceID g = traceID c" "spanID g = spanID c" "flags g = flags c"
    "map_of (baggage g) = map_of (baggage c)" "strmap_ok (baggage g)" "b1 = b"
proof -
  have tid: "TraceID_isValid (traceID c)" using assms(5) by (simp add: isValid_def)
  obtain g ms where g: "jaeger_extract hk http_codec hs (t_metrics b) = (g, ms)" by fastforce
  have "ms = t_metrics b" "SpanContext_eq g (c\<lparr>debugID := [], traceState := []\<rparr>)"
    using headers_codec.extract_injected[OF assms(1,2) tid assms(6-9), of "t_metrics b"] g by auto
  note eq = this(1) and c = carried_context[OF this(2) assms(5)]
  have "got = Some g" "b1 = b"
    using assms(3,4,10) g c(1) eq by (auto simp: Extract_HTTPHeaders_def Extract_text_def)
  moreover have "strmap_ok (baggage g)" using jaeger_extract_baggage[of hk http_codec hs "t_metrics b"] g by simp
  ultimately show thesis using that c by blast
qed

lemma start_from_parent:
  assumes "isValid g" and "opt_references opts = [(ChildOfRef, Some g)]"
    and "StartSpanWithOptions ld env operation opts t = Some (s, t')"
  obtains sp where "s = Some sp" "spanID (sp_context sp) \<noteq> 0"
    "sp_context sp = SpanContext (traceID g) (spanID (sp_context sp)) (spanID g) (flags g) (baggage g) [] []"
    "t_metrics t' = inc (if isSampled g then SpansSampled else SpansNotSampled) 1 (inc SpansStarted 1 (t_metrics t))"
proof -
  have p: "choose_parent (followed (opt_references opts)) = Some g" "choose_self (opt_references opts) = None"
    using assms(1) by (simp_all add: assms(2) followed_def choose_parent_def choose_self_def usable_def)
  from start_child[OF p(1) assms(1) p(2) assms(3)] show thesis using that by blast
qed

definition example_tracer :: "unit tracer" where
  "example_tracer =
     \<lparr>t_serviceName = ''svc'', t_sampler = SConst (ConstSampler True), t_reporter = InMemoryReporter [],
      t_metrics = metrics0, t_log = [], t_rng = sconst 7, t_format = FormatJAEGER, t_headers = HeadersConfig0,
      t_tags = [], t_restrictionManager = DefaultRestrictionManager 0, t_options = 0\<rparr>"

definition example_env :: start_env where
  "example_env = \<lparr>env_system_now = 10, env_steady_now = 20, env_to_system = id, env_to_steady = id,
     env_sampler_t0 = 0, env_sampler_now = 0\<rparr>"

definition example_options :: "(reference_type \<times> span_context option) list \<Rightarrow> start_options" where
  "example_options refs = \<lparr>opt_references = refs, opt_tags = [], opt_start_system = 0, opt_start_steady = 0\<rparr>"

lemma example_tracer_live: "rng_live (t_rng example_tracer)"
proof -
  have "(sconst (7 :: u64)) !! m \<noteq> 0" for m by (induction m) simp_all
  then show ?thesis by (auto simp: rng_live_def example_tracer_def)
qed

section \<open>Properties\<close>

text \<open>C33. The tracer follows exactly the references that carry something: the parent is the first
  of them that is a child-of reference, or else the last one if it is valid; every one is
  recorded, in order; and the self context is the last one given as such.\<close>

theorem analyze_references_spec:
  "fst (analyzeReferences refs) =
     \<lparr>ar_parent = choose_parent (followed refs), ar_self = choose_self refs,
      ar_references = map (\<lambda>(ty, c). Reference c ty) (followed refs)\<rparr>"
  by (rule analyzeReferences_eq)

text \<open>C28. A span started with a valid parent, and without a reference to itself, continues the parent's
  trace: it has the parent's trace id, flags and baggage, the parent's span id as parent id and as span
  id a fresh number, the next one other than zero that the tracer's generator gives, which is used up;
  no sampler is asked and no trace is counted.\<close>

theorem start_span_child:
  assumes "choose_parent (followed (opt_references opts)) = Some p" and "isValid p"
    and "choose_self (opt_references opts) = None"
    and "StartSpanWithOptions ld env operation opts t = Some (s, t')"
  shows "\<exists>sp. s = Some sp \<and> spanID (sp_context sp) \<noteq> 0 \<and>
    sp_context sp = SpanContext (traceID p) (spanID (sp_context sp)) (spanID p) (flags p) (baggage p) [] [] \<and>
    sp_operationName sp = operation \<and> sp_tags sp = map (\<lambda>(k, v). Tag k v) (opt_tags opts) \<and>
    t_sampler t' = t_sampler t \<and>
    t_metrics t' = inc (if isSampled p then SpansSampled else SpansNotSampled) 1 (inc SpansStarted 1 (t_metrics t)) \<and>
    randomID (t_rng t) = Some (spanID (sp_context sp), t_rng t')"
  using assms by (rule start_child)


definition example_parent :: span_context where
  "example_parent = SpanContext (TraceID 1 2) 3 0 1 [(''user'', ''x'')] [] []"

theorem start_span_child_witness:
  "traceID (sp_context (the (fst (the (StartSpanWithOptions 64 example_env ''op''
     (example_options [(ChildOfRef, Some example_parent)]) example_tracer))))) = TraceID 1 2"
proof -
  let ?opts = "example_options [(ChildOfRef, Some example_parent)]"
  have p: "choose_parent (followed (opt_references ?opts)) = Some example_parent"
    "choose_self (opt_references ?opts) = None" "isValid example_parent"
    by (simp_all add: example_options_def followed_def choose_parent_def choose_self_def usable_def
        example_parent_def SpanContext_def isValid_def TraceID_isValid_def)
  obtain s t' where r: "StartSpanWithOptions 64 example_env ''op'' ?opts example_tracer = Some (s, t')"
    using start_span_returns[OF example_tracer_live] by blast
  from start_span_child[OF p(1,3,2) r] obtain sp where "s = Some sp" "sp_context sp =
      SpanContext (traceID example_parent) (spanID (sp_context sp)) (spanID example_parent) (flags example_parent)
        (baggage example_parent) [] []" by blast
  then have "traceID (sp_context sp) = traceID example_parent" by (metis SpanContext_def span_context.select_convs(1))
  then show ?thesis unfolding r using \<open>s = Some sp\<close> by (simp add: example_parent_def SpanContext_def)
qed

text \<open>C29. A span started without a valid parent begins a trace. Without a reference to itself it has a
  trace id whose low half is not zero, and whose high half is not zero exactly if 128 bit ids are asked
  for, and the low half as span id; with one, and with no other reference, it has the trace id and the
  span id of that reference. It has no parent id. It is sampled if and only if the sampler says so for
  this trace id, with the sampler's tags, or the parent is a debug id, which also sets the debug flag.\<close>

theorem start_span_root:
  assumes "choose_parent (followed (opt_references opts)) = None \<or>
      \<not> isValid (the (choose_parent (followed (opt_references opts))))"
    and "choose_self (opt_references opts) = None \<or> followed (opt_references opts) = []"
    and "StartSpanWithOptions ld env operation opts t = Some (s, t')"
  defines "parent \<equiv> choose_parent (followed (opt_references opts))"
  shows "\<exists>sp. s = Some sp \<and> (let c = sp_context sp;
      verdict = fst (Sampler_isSampled ld (env_sampler_t0 env) (env_sampler_now env) (traceID c) operation (t_sampler t))
    in (case choose_self (opt_references opts) of
          None \<Rightarrow> isValid c \<and> low (traceID c) \<noteq> 0 \<and>
            (high (traceID c) \<noteq> 0 \<longleftrightarrow> t_options t AND kGen128BitOption \<noteq> 0) \<and> spanID c = low (traceID c)
        | Some self \<Rightarrow> traceID c = traceID self \<and> spanID c = spanID self) \<and> parentID c = 0 \<and>
      (if parent \<noteq> None \<and> isDebugIDContainerOnly (the parent)
       then isSampled c \<and> isDebug c \<and> last (sp_tags sp) = Tag kJaegerDebugHeader (VString (debugID (the parent)))
       else isSampled c = st_isSampled verdict \<and>
         sp_tags sp = map (\<lambda>(k, v). Tag k v) (opt_tags opts) @ (if isSampled c then st_tags verdict else [])))"
  using assms(1-3) unfolding parent_def by (rule start_new)

theorem start_span_root_witness:
  "isSampled (sp_context (the (fst (the (StartSpanWithOptions 64 example_env ''op''
     (example_options []) example_tracer)))))"
proof -
  let ?opts = "example_options []"
  have p: "choose_parent (followed (opt_references ?opts)) = None" "choose_self (opt_references ?opts) = None"
    by (simp_all add: example_options_def followed_def choose_parent_def choose_self_def)
  obtain s t' where r: "StartSpanWithOptions 64 example_env ''op'' ?opts example_tracer = Some (s, t')"
    using start_span_returns[OF example_tracer_live] by blast
  from start_span_root[OF disjI1[OF p(1)] disjI1[OF p(2)] r] show ?thesis
    unfolding r by (auto simp: Let_def p example_tracer_def ConstSampler_def Const_isSampled_def SamplingStatus_def)
qed

text \<open>C7. The counts of a tracer add up in every program: from a fresh tracer, whatever spans are
  started and whatever is done with them in whatever order, the program goes on (the random
  numbers never run out), every span started is counted once, as sampled or as not, every span
  finished is counted once, traces never outnumber spans, and an in-memory reporter holds finished
  sampled spans only and no more than were finished.\<close>

theorem tracer_accounting:
  assumes "rng_live (t_rng t)" and "t_metrics t = metrics0" and "t_reporter t \<in> {NullReporter, InMemoryReporter []}"
  shows "\<exists>p. program_run ld ops \<lparr>pr_tracer = t, pr_spans = []\<rparr> = Some p \<and> accounted p"
  using assms by (intro program_run_accounted) (auto simp: accounted_def metrics0_def)

theorem tracer_accounting_witness:
  "accounted (the (program_run 64
     [StartOp example_env ''op'' (example_options []), SpanOp 0 (OpFinish 30 0 []), SpanOp 0 (OpFinish 40 0 [])]
     \<lparr>pr_tracer = example_tracer, pr_spans = []\<rparr>))"
proof -
  have "t_metrics example_tracer = metrics0" "t_reporter example_tracer \<in> {NullReporter, InMemoryReporter []}"
    by (simp_all add: example_tracer_def)
  from tracer_accounting[OF example_tracer_live this] show ?thesis by (metis option.sel)
qed

end
