(* ===== verification/Configs.thy ===== *)
theory Configs
  imports Http TracerLaws
begin

text \<open>
  Configuration: the environment (\<^verbatim>\<open>utils/EnvVariable.h\<close>), the four \<^verbatim>\<open>Config\<close> classes, each
  with its constructor, what it reads from a YAML tree and from the environment, the objects it
  makes, and \<^verbatim>\<open>Tracer::make\<close>, which puts a tracer together. The YAML library and the platform
  (name resolution, sockets) are parameters.
\<close>

section \<open>The environment\<close>

type_synonym environment = "string \<Rightarrow> string option"

definition getStringVariable :: "environment \<Rightarrow> string \<Rightarrow> string" where
  "getStringVariable env v = (case env v of None \<Rightarrow> [] | Some s \<Rightarrow> s)"

definition getIntVariable :: "environment \<Rightarrow> string \<Rightarrow> bool \<times> int" where
  "getIntVariable env v =
     (let s = getStringVariable env v in
      if s \<noteq> [] then (case extract_int s of (ok, n) \<Rightarrow> if ok then (False, n) else (False, 0)) else (False, 0))"

definition getBoolVariable :: "environment \<Rightarrow> string \<Rightarrow> bool \<times> bool" where
  "getBoolVariable env v =
     (let s = getStringVariable env v in
      if s \<noteq> [] then (True, map to_lower s = ''true'') else (False, False))"

section \<open>Decimal text of a double\<close>

definition pow10 :: "int \<Rightarrow> rat" where
  "pow10 k = (if 0 \<le> k then 10 ^ nat k else 1 / 10 ^ nat (- k))"

text \<open>
  \<^verbatim>\<open>iss >> d\<close>: white space, a sign, digits with at most one point, and an exponent after a
  digit; all that could continue the number is taken, and a number that is not complete is a
  failure.
\<close>

definition scan_sign :: "string \<Rightarrow> bool \<times> string" where
  "scan_sign s =
     (case s of [] \<Rightarrow> (False, [])
      | c # cs \<Rightarrow> if c = CHR ''-'' then (True, cs) else if c = CHR ''+'' then (False, cs) else (False, s))"

definition extract_double :: "string \<Rightarrow> double option" where
  "extract_double s =
     (let (neg, s1) = scan_sign (dropWhile isspace s);
          whole = takeWhile isdigit s1; s2 = dropWhile isdigit s1;
          (fpart, s3) = (case s2 of
              c # cs \<Rightarrow> if c = CHR ''.'' then (takeWhile isdigit cs, dropWhile isdigit cs) else ([], s2)
            | [] \<Rightarrow> ([], []));
          mantissa = rat_of_nat (dec_value (whole @ fpart)) / 10 ^ length fpart;
          value = (\<lambda>e. fl 53 ((if neg then - mantissa else mantissa) * pow10 e))
      in if whole @ fpart = [] then None
         else case s3 of
             c # cs \<Rightarrow>
               if c = CHR ''e'' \<or> c = CHR ''E'' then
                 (let (eneg, s4) = scan_sign cs; ds = takeWhile isdigit s4 in
                  if ds = [] then None
                  else Some (value (if eneg then - int (dec_value ds) else int (dec_value ds))))
               else Some (value 0)
           | [] \<Rightarrow> Some (value 0))"

text \<open>\<^verbatim>\<open>oss << d\<close> with the default precision: six significant digits, as \<^verbatim>\<open>%g\<close>.\<close>

definition exponent10 :: "rat \<Rightarrow> int" where
  "exponent10 x =
     (case List.find (\<lambda>k. pow10 k \<le> x) (map (\<lambda>i. 308 - int i) [0..<633]) of None \<Rightarrow> -324 | Some k \<Rightarrow> k)"

definition strip_zeros :: "string \<Rightarrow> string" where
  "strip_zeros s = rev (dropWhile (\<lambda>c. c = CHR ''0'') (rev s))"

definition with_point :: "string \<Rightarrow> string \<Rightarrow> string" where
  "with_point whole fpart = (if strip_zeros fpart = [] then whole else whole @ ''.'' @ strip_zeros fpart)"

definition show_double :: "double \<Rightarrow> string" where
  "show_double d =
     (if d = 0 then ''0''
      else
        let x = \<bar>d\<bar>; e0 = exponent10 x; m0 = round_even (x / pow10 (e0 - 5));
            (m, e) = (if m0 = 10 ^ 6 then (10 ^ 5, e0 + 1) else (m0, e0));
            ds = dec_str (nat m);
            body =
              (if e < -4 \<or> 6 \<le> e then
                 with_point (take 1 ds) (drop 1 ds) @ ''e'' @ (if e < 0 then ''-'' else ''+'') @
                   (if \<bar>e\<bar> < 10 then ''0'' else []) @ dec_str (nat \<bar>e\<bar>)
               else if e < 0 then with_point ''0'' (replicate (nat (- e) - 1) (CHR ''0'') @ ds)
               else with_point (take (nat e + 1) ds) (drop (nat e + 1) ds))
        in (if d < 0 then ''-'' else []) @ body)"

section \<open>YAML\<close>

text \<open>What is used of a \<^verbatim>\<open>YAML::Node\<close>: \<^verbatim>\<open>node[key]\<close>, \<^verbatim>\<open>as<T>()\<close>, which may throw, and iteration.\<close>

record 'n yaml =
  y_isDefined :: "'n \<Rightarrow> bool"
  y_isMap :: "'n \<Rightarrow> bool"
  y_at :: "'n \<Rightarrow> string \<Rightarrow> 'n"
  y_string :: "'n \<Rightarrow> exception + string"
  y_bool :: "'n \<Rightarrow> exception + bool"
  y_int :: "'n \<Rightarrow> exception + int"
  y_double :: "'n \<Rightarrow> exception + double"
  y_items :: "'n \<Rightarrow> ('n \<times> 'n) list"

definition findOrDefault ::
  "'n yaml \<Rightarrow> ('n \<Rightarrow> exception + 'v) \<Rightarrow> 'n \<Rightarrow> string \<Rightarrow> 'v \<Rightarrow> exception + 'v" where
  "findOrDefault Y as node key dflt =
     (let valueNode = y_at Y node key in if \<not> y_isDefined Y valueNode then Inr dflt else as valueNode)"

definition nanoseconds :: "int \<Rightarrow> time" where
  "nanoseconds s = s * 1000000000"

section \<open>The sampler's configuration\<close>

definition kDefaultSamplingProbability :: double where "kDefaultSamplingProbability = fl 53 (1 / 1000)"
definition kDefaultSamplingServerURL :: string where
  "kDefaultSamplingServerURL = ''http://127.0.0.1:5778/sampling''"
definition kDefaultMaxOperations :: int where "kDefaultMaxOperations = 2000"
definition defaultSamplingRefreshInterval :: time where "defaultSamplingRefreshInterval = nanoseconds 60"

record sampler_config =
  sc_type :: string
  sc_param :: double
  sc_samplingServerURL :: string
  sc_maxOperations :: int
  sc_samplingRefreshInterval :: time

definition SamplerConfig :: "string \<Rightarrow> double \<Rightarrow> string \<Rightarrow> int \<Rightarrow> time \<Rightarrow> sampler_config" where
  "SamplerConfig ty param url maxOps interval =
     \<lparr>sc_type = (if ty = [] then kSamplerTypeRemote else ty),
      sc_param = (if param = -1 then kDefaultSamplingProbability else param),
      sc_samplingServerURL = (if url = [] then kDefaultSamplingServerURL else url),
      sc_maxOperations = (if maxOps = 0 then kDefaultMaxOperations else maxOps),
      sc_samplingRefreshInterval = (if interval > 0 then interval else defaultSamplingRefreshInterval)\<rparr>"

definition SamplerConfig0 :: sampler_config where
  "SamplerConfig0 = SamplerConfig kSamplerTypeRemote kDefaultSamplingProbability kDefaultSamplingServerURL
     kDefaultMaxOperations defaultSamplingRefreshInterval"

definition SamplerConfig_parse :: "'n yaml \<Rightarrow> 'n \<Rightarrow> exception + sampler_config" where
  "SamplerConfig_parse Y node =
     (if \<not> y_isDefined Y node \<or> \<not> y_isMap Y node then Inr SamplerConfig0
      else
        bindE (findOrDefault Y (y_string Y) node ''type'' []) (\<lambda>ty.
        bindE (findOrDefault Y (y_double Y) node ''param'' (-1)) (\<lambda>param.
        bindE (findOrDefault Y (y_string Y) node ''samplingServerURL'' []) (\<lambda>url.
        bindE (findOrDefault Y (y_int Y) node ''maxOperations'' 0) (\<lambda>maxOps.
        bindE (findOrDefault Y (y_int Y) node ''samplingRefreshInterval'' 0) (\<lambda>interval.
        Inr (SamplerConfig ty param url maxOps (nanoseconds interval))))))))"

definition SamplerConfig_fromEnv :: "environment \<Rightarrow> sampler_config \<Rightarrow> sampler_config" where
  "SamplerConfig_fromEnv env c =
     (let samplerType = getStringVariable env ''JAEGER_SAMPLER_TYPE'';
          c1 = (if samplerType \<noteq> [] then c\<lparr>sc_type := samplerType\<rparr> else c);
          param = getStringVariable env ''JAEGER_SAMPLER_PARAM'';
          c2 = (if param \<noteq> [] then (case extract_double param of
                    Some v \<Rightarrow> c1\<lparr>sc_param := v\<rparr> | None \<Rightarrow> c1) else c1);
          url = getStringVariable env ''JAEGER_SAMPLING_ENDPOINT''
      in if url \<noteq> [] then c2\<lparr>sc_samplingServerURL := url\<rparr> else c2)"

text \<open>
  The sampler, \<^term>\<open>None\<close> for the null pointer, or the exception; with the errors logged. The
  call for the remote type makes a copy of type \<^verbatim>\<open>probabilistic\<close> and calls itself once.
\<close>

definition makeProbabilistic :: "nat \<Rightarrow> sampler_config \<Rightarrow> (exception + sampler option) \<times> string list" where
  "makeProbabilistic ld c =
     (if sc_param c \<ge> 0 \<and> sc_param c \<le> 1 then
        (Inr (Some (SProbabilistic (ProbabilisticSampler ld (sc_param c)))), [])
      else
        (Inl (InvalidArgument ''Probabilistic sampling rate should be in the interval [0, 1].''),
         [''Invalid parameter for probabilistic sampler: '' @ show_double (sc_param c) @
          '', expecting value between 0 and 1'']))"

definition makeSampler :: "nat \<Rightarrow> time \<Rightarrow> sampler_config \<Rightarrow> (exception + sampler option) \<times> string list" where
  "makeSampler ld now c =
     (let samplerType = map to_lower (sc_type c) in
      if samplerType = kSamplerTypeConst then (Inr (Some (SConst (ConstSampler (sc_param c \<noteq> 0)))), [])
      else if samplerType = kSamplerTypeProbabilistic then makeProbabilistic ld c
      else if samplerType = kSamplerTypeRateLimiting then
        (Inr (Some (SRateLimiting (RateLimitingSampler (sc_param c) now))), [])
      else if samplerType = kSamplerTypeRemote \<or> samplerType = [] then
        (case makeProbabilistic ld (c\<lparr>sc_type := kSamplerTypeProbabilistic\<rparr>) of
           (Inl e, out) \<Rightarrow> (Inl e, out)
         | (Inr None, out) \<Rightarrow> (Inr None, out)
         | (Inr (Some initSampler), out) \<Rightarrow>
             (Inr (Some (SRemote initSampler (sc_maxOperations c) True)), out))
      else (Inr None, [''Unknown sampler type '' @ sc_type c]))"

section \<open>The reporter's configuration\<close>

definition IPAddress_parse :: "string \<Rightarrow> string \<times> int" where
  "IPAddress_parse hostPort =
     (takeWhile (\<lambda>c. c \<noteq> CHR '':'') hostPort,
      if CHR '':'' \<in> set hostPort then
        (case extract_int (tl (dropWhile (\<lambda>c. c \<noteq> CHR '':'') hostPort)) of (ok, n) \<Rightarrow> if ok then n else 0)
      else 0)"

definition kDefaultQueueSize :: int where "kDefaultQueueSize = 100"
definition kDefaultLocalAgentHostPort :: string where "kDefaultLocalAgentHostPort = ''127.0.0.1:6831''"
definition kDefaultEndpoint :: string where "kDefaultEndpoint = []"
definition defaultBufferFlushInterval :: time where "defaultBufferFlushInterval = nanoseconds 10"

record reporter_config =
  rc_queueSize :: int
  rc_bufferFlushInterval :: time
  rc_logSpans :: bool
  rc_localAgentHostPort :: string
  rc_endpoint :: string

definition ReporterConfig :: "int \<Rightarrow> time \<Rightarrow> bool \<Rightarrow> string \<Rightarrow> string \<Rightarrow> reporter_config" where
  "ReporterConfig queueSize interval logSpans hostPort endpoint =
     \<lparr>rc_queueSize = (if queueSize > 0 then queueSize else kDefaultQueueSize),
      rc_bufferFlushInterval = (if interval > 0 then interval else defaultBufferFlushInterval),
      rc_logSpans = logSpans,
      rc_localAgentHostPort = (if hostPort = [] then kDefaultLocalAgentHostPort else hostPort),
      rc_endpoint = endpoint\<rparr>"

definition ReporterConfig0 :: reporter_config where
  "ReporterConfig0 = ReporterConfig kDefaultQueueSize defaultBufferFlushInterval False
     kDefaultLocalAgentHostPort kDefaultEndpoint"

definition ReporterConfig_parse :: "'n yaml \<Rightarrow> 'n \<Rightarrow> exception + reporter_config" where
  "ReporterConfig_parse Y node =
     (if \<not> y_isDefined Y node \<or> \<not> y_isMap Y node then Inr ReporterConfig0
      else
        bindE (findOrDefault Y (y_int Y) node ''queueSize'' 0) (\<lambda>queueSize.
        bindE (findOrDefault Y (y_int Y) node ''bufferFlushInterval'' 0) (\<lambda>interval.
        bindE (findOrDefault Y (y_bool Y) node ''logSpans'' False) (\<lambda>logSpans.
        bindE (findOrDefault Y (y_string Y) node ''localAgentHostPort'' []) (\<lambda>hostPort.
        bindE (findOrDefault Y (y_string Y) node ''endpoint'' []) (\<lambda>endpoint.
        Inr (ReporterConfig queueSize (nanoseconds interval) logSpans hostPort endpoint)))))))"

definition ReporterConfig_fromEnv :: "environment \<Rightarrow> reporter_config \<Rightarrow> reporter_config" where
  "ReporterConfig_fromEnv env c =
     (let agentHost = getStringVariable env ''JAEGER_AGENT_HOST'';
          c1 = (if agentHost \<noteq> [] then c\<lparr>rc_localAgentHostPort :=
                  agentHost @ '':'' @ int_str (snd (IPAddress_parse (rc_localAgentHostPort c)))\<rparr> else c);
          agentPort = getStringVariable env ''JAEGER_AGENT_PORT'';
          c2 = (if agentPort \<noteq> [] then
                  (case extract_int agentPort of (ok, n) \<Rightarrow>
                     if ok then c1\<lparr>rc_localAgentHostPort :=
                       fst (IPAddress_parse (rc_localAgentHostPort c1)) @ '':'' @ int_str n\<rparr> else c1)
                else c1);
          endpoint = getStringVariable env ''JAEGER_ENDPOINT'';
          c3 = (if endpoint \<noteq> [] then c2\<lparr>rc_endpoint := endpoint\<rparr> else c2);
          (logSet, logSpan) = getBoolVariable env ''JAEGER_REPORTER_LOG_SPANS'';
          c4 = (if logSet then c3\<lparr>rc_logSpans := logSpan\<rparr> else c3);
          (f1, flushInterval) = getIntVariable env ''JAEGER_REPORTER_FLUSH_INTERVAL'';
          c5 = (if \<not> f1 \<and> flushInterval > 0 then c4\<lparr>rc_bufferFlushInterval := flushInterval * 1000000\<rparr> else c4);
          (f2, maxQueueSize) = getIntVariable env ''JAEGER_REPORTER_MAX_QUEUE_SIZE''
      in if \<not> f2 \<and> maxQueueSize > 0 then c5\<lparr>rc_queueSize := maxQueueSize\<rparr> else c5)"

text \<open>
  The transport the sender is made with, and the reporter; \<open>connect\<close> is the exception the
  transport's constructor throws, if it throws one.
\<close>

datatype transporter = UDPTransporter string int int | HTTPTransporter uri int

definition makeReporter ::
  "(transporter \<Rightarrow> exception option) \<Rightarrow> time \<Rightarrow> reporter_config \<Rightarrow> metrics \<Rightarrow>
   (exception + transporter \<times> thrift_sender reporter) \<times> string list" where
  "makeReporter connect now c ms =
     (let transport =
            (if rc_endpoint c = [] then
               (case IPAddress_parse (rc_localAgentHostPort c) of (ip, p) \<Rightarrow> UDPTransporter ip p (UDP_maxPacketSize 0))
             else HTTPTransporter (URI_parse (rc_endpoint c)) (HTTP_maxPacketSize 0));
          mx = (case transport of UDPTransporter _ _ n \<Rightarrow> n | HTTPTransporter _ n \<Rightarrow> n)
      in case connect transport of
           Some e \<Rightarrow> (Inl e, [])
         | None \<Rightarrow>
             let remote = RemoteReporterPtr
                   (RemoteReporter (rc_bufferFlushInterval c) (rc_queueSize c) (ThriftSender mx) ms now)
             in if rc_logSpans c then
                  (Inr (transport, CompositeReporter [remote, LoggingReporter []]), [''Initializing logging reporter''])
                else (Inr (transport, remote), []))"

section \<open>Headers and baggage restrictions\<close>

definition HeadersConfig_parse :: "'n yaml \<Rightarrow> 'n \<Rightarrow> exception + headers_config" where
  "HeadersConfig_parse Y node =
     (if \<not> y_isDefined Y node \<or> \<not> y_isMap Y node then Inr HeadersConfig0
      else
        bindE (findOrDefault Y (y_string Y) node ''jaegerDebugHeader'' []) (\<lambda>dbg.
        bindE (findOrDefault Y (y_string Y) node ''jaegerBaggageHeader'' []) (\<lambda>bag.
        bindE (findOrDefault Y (y_string Y) node ''TraceContextHeaderName'' []) (\<lambda>ctx.
        bindE (findOrDefault Y (y_string Y) node ''traceBaggageHeaderPrefix'' []) (\<lambda>pre.
        Inr (HeadersConfig dbg bag ctx pre))))))"

record restrictions_config =
  brc_denyBaggageOnInitializationFailure :: bool
  brc_hostPort :: string
  brc_refreshInterval :: time

definition RestrictionsConfig :: "bool \<Rightarrow> string \<Rightarrow> time \<Rightarrow> restrictions_config" where
  "RestrictionsConfig deny hostPort interval =
     \<lparr>brc_denyBaggageOnInitializationFailure = deny, brc_hostPort = hostPort, brc_refreshInterval = interval\<rparr>"

definition RestrictionsConfig0 :: restrictions_config where
  "RestrictionsConfig0 = RestrictionsConfig False [] 0"

definition RestrictionsConfig_parse :: "'n yaml \<Rightarrow> 'n \<Rightarrow> exception + restrictions_config" where
  "RestrictionsConfig_parse Y node =
     (if \<not> y_isDefined Y node \<or> \<not> y_isMap Y node then Inr RestrictionsConfig0
      else
        bindE (findOrDefault Y (y_bool Y) node ''denyBaggageOnInitializationFailure'' False) (\<lambda>deny.
        bindE (findOrDefault Y (y_string Y) node ''hostPort'' []) (\<lambda>hostPort.
        bindE (findOrDefault Y (y_int Y) node ''refreshInterval'' 0) (\<lambda>interval.
        Inr (RestrictionsConfig deny hostPort (nanoseconds interval))))))"

section \<open>The configuration of a tracer\<close>

record config =
  cfg_disabled :: bool
  cfg_traceId128Bit :: bool
  cfg_propagationFormat :: format
  cfg_serviceName :: string
  cfg_tags :: "tag list"
  cfg_sampler :: sampler_config
  cfg_reporter :: reporter_config
  cfg_headers :: headers_config
  cfg_baggageRestrictions :: restrictions_config

definition Config ::
  "bool \<Rightarrow> bool \<Rightarrow> sampler_config \<Rightarrow> reporter_config \<Rightarrow> headers_config \<Rightarrow> restrictions_config \<Rightarrow> string \<Rightarrow>
   tag list \<Rightarrow> format \<Rightarrow> config" where
  "Config disabled bits sampler reporter headers restrictions service tags fmt =
     \<lparr>cfg_disabled = disabled, cfg_traceId128Bit = bits, cfg_propagationFormat = fmt,
      cfg_serviceName = service, cfg_tags = tags, cfg_sampler = sampler, cfg_reporter = reporter,
      cfg_headers = headers, cfg_baggageRestrictions = restrictions\<rparr>"

definition Config0 :: config where
  "Config0 = Config False False SamplerConfig0 ReporterConfig0 HeadersConfig0 RestrictionsConfig0 [] [] FormatJAEGER"

text \<open>The format, and what goes to the error output.\<close>

definition parsePropagationFormat :: "string \<Rightarrow> format \<times> string list" where
  "parsePropagationFormat s =
     (if s = ''w3c'' then (FormatW3C, [])
      else if s \<noteq> ''jaeger'' then
        (FormatJAEGER, [''ERROR: unknown propagation format '' @ [CHR 0x27] @ s @ [CHR 0x27] @
           '', falling back to jaeger propagation format''])
      else (FormatJAEGER, []))"

definition Config_parse :: "'n yaml \<Rightarrow> 'n \<Rightarrow> exception + config" where
  "Config_parse Y node =
     (if \<not> y_isDefined Y node \<or> \<not> y_isMap Y node then Inr Config0
      else
        bindE (findOrDefault Y (y_string Y) node ''service_name'' []) (\<lambda>service.
        bindE (findOrDefault Y (y_bool Y) node ''disabled'' False) (\<lambda>disabled.
        bindE (findOrDefault Y (y_bool Y) node ''traceid_128bit'' False) (\<lambda>bits.
        bindE (findOrDefault Y (y_string Y) node ''propagation_format'' ''jaeger'') (\<lambda>fmt.
        bindE (SamplerConfig_parse Y (y_at Y node ''sampler'')) (\<lambda>sampler.
        bindE (ReporterConfig_parse Y (y_at Y node ''reporter'')) (\<lambda>reporter.
        bindE (HeadersConfig_parse Y (y_at Y node ''headers'')) (\<lambda>headers.
        bindE (RestrictionsConfig_parse Y (y_at Y node ''baggage_restrictions'')) (\<lambda>restrictions.
        bindE (mapE (\<lambda>(k, v). bindE (y_string Y k) (\<lambda>key. bindE (y_string Y v) (\<lambda>val.
                 Inr (Tag key (VString val))))) (y_items Y (y_at Y node ''tags''))) (\<lambda>tags.
        Inr (Config disabled bits sampler reporter headers restrictions service tags
               (fst (parsePropagationFormat fmt)))))))))))))"

text \<open>
  \<^verbatim>\<open>std::getline(in, str, delim)\<close> on a string stream: the state is \<open>str\<close>, what is left, and
  whether the stream is good. At its end the stream stops being good, after that \<open>str\<close> is left
  alone; the first component is the result.
\<close>

definition getline :: "char \<Rightarrow> string \<times> string \<times> bool \<Rightarrow> bool \<times> string \<times> string \<times> bool" where
  "getline d st =
     (case st of (str, left, good) \<Rightarrow>
        if \<not> good then (False, str, left, False)
        else if left = [] then (False, [], [], False)
        else if d \<in> set left then
          (True, takeWhile (\<lambda>c. c \<noteq> d) left, tl (dropWhile (\<lambda>c. c \<noteq> d) left), True)
        else (True, left, [], False))"

text \<open>One item of \<^verbatim>\<open>JAEGER_TAGS\<close>.\<close>

definition parse_env_tag :: "string \<Rightarrow> tag option" where
  "parse_env_tag s =
     (case getline (CHR ''='') ([], s, True) of (ok, tagKey, left, good) \<Rightarrow>
        if \<not> ok then None
        else
          case getline (CHR ''='') ([], left, good) of (_, tagValue1, left1, good1) \<Rightarrow>
            case getline (CHR ''='') (tagValue1, left1, good1) of (again, tagValue, _, _) \<Rightarrow>
              if again then None else Some (Tag tagKey (VString tagValue)))"

definition Config_fromEnv :: "environment \<Rightarrow> config \<Rightarrow> config" where
  "Config_fromEnv env c =
     (let (dSet, disabled) = getBoolVariable env ''JAEGER_DISABLED'';
          c1 = (if dSet then c\<lparr>cfg_disabled := disabled\<rparr> else c);
          (bSet, bits) = getBoolVariable env ''JAEGER_TRACEID_128BIT'';
          c2 = (if bSet then c1\<lparr>cfg_traceId128Bit := bits\<rparr> else c1);
          fmt = getStringVariable env ''JAEGER_PROPAGATION'';
          c3 = (if fmt \<noteq> [] then c2\<lparr>cfg_propagationFormat := fst (parsePropagationFormat fmt)\<rparr> else c2);
          service = getStringVariable env ''JAEGER_SERVICE_NAME'';
          c4 = (if service \<noteq> [] then c3\<lparr>cfg_serviceName := service\<rparr> else c3);
          tags = getStringVariable env ''JAEGER_TAGS'';
          c5 = (if tags \<noteq> [] then
                  c4\<lparr>cfg_tags := cfg_tags c4 @ List.map_filter parse_env_tag (getlines (CHR '','') tags)\<rparr>
                else c4)
      in c5\<lparr>cfg_reporter := ReporterConfig_fromEnv env (cfg_reporter c5),
            cfg_sampler := SamplerConfig_fromEnv env (cfg_sampler c5)\<rparr>)"

section \<open>Making a tracer\<close>

text \<open>
  \<open>platform\<close> is what the constructors ask of the host: its name, its address, whether a
  transport can be made. A tracer whose sampler is the null pointer is a case of its own: the
  first trace started with it dereferences the pointer.
\<close>

record platform =
  pl_version :: string
  pl_hostname :: "string option"
  pl_localIP :: "string option"
  pl_connect :: "transporter \<Rightarrow> exception option"
  pl_random :: "u64 stream"

definition tracer_tags :: "platform \<Rightarrow> tag list \<Rightarrow> tag list \<times> string list" where
  "tracer_tags pl tags =
     ([Tag ''jaeger.version'' (VCString (''C++-'' @ pl_version pl))] @
      (case pl_hostname pl of None \<Rightarrow> [] | Some h \<Rightarrow> [Tag ''hostname'' (VString h)]) @
      (case pl_localIP pl of None \<Rightarrow> [] | Some ip \<Rightarrow> [Tag ''ip'' (VString ip)]) @ tags,
      (case pl_localIP pl of None \<Rightarrow> [''Unable to determine this host'' @ [CHR 0x27] @ ''s IP address''] | Some _ \<Rightarrow> []))"

datatype made_tracer =
    NoopTracer
  | TracerWithoutSampler
  | JaegerTracer transporter "thrift_sender tracer"

definition Tracer_make ::
  "nat \<Rightarrow> platform \<Rightarrow> time \<Rightarrow> string \<Rightarrow> config \<Rightarrow> u32 \<Rightarrow> exception + made_tracer" where
  "Tracer_make ld pl now service c options =
     (if service = [] then Inl (InvalidArgument ''no service name provided'')
      else if cfg_disabled c then Inr NoopTracer
      else
        case makeSampler ld now (cfg_sampler c) of
          (Inl e, _) \<Rightarrow> Inl e
        | (Inr sampler, out1) \<Rightarrow>
            case makeReporter (pl_connect pl) now (cfg_reporter c) metrics0 of
              (Inl e, _) \<Rightarrow> Inl e
            | (Inr (transport, reporter), out2) \<Rightarrow>
                case tracer_tags pl (cfg_tags c) of (tags, out3) \<Rightarrow>
                  case sampler of
                    None \<Rightarrow> Inr TracerWithoutSampler
                  | Some smp \<Rightarrow> Inr (JaegerTracer transport
                      \<lparr>t_serviceName = service, t_sampler = smp, t_reporter = reporter, t_metrics = metrics0,
                       t_log = out1 @ out2 @ out3, t_rng = pl_random pl, t_format = cfg_propagationFormat c,
                       t_headers = cfg_headers c, t_tags = tags,
                       t_restrictionManager = DefaultRestrictionManager 0, t_options = options\<rparr>))"

definition Tracer_make_config :: "nat \<Rightarrow> platform \<Rightarrow> time \<Rightarrow> config \<Rightarrow> exception + made_tracer" where
  "Tracer_make_config ld pl now c =
     Tracer_make ld pl now (cfg_serviceName c) c (if cfg_traceId128Bit c then kGen128BitOption else 0)"

section \<open>Tags of the environment\<close>

definition print_env_tag :: "string \<times> string \<Rightarrow> string" where
  "print_env_tag kv = fst kv @ CHR ''='' # snd kv"

fun print_env_tags :: "(string \<times> string) list \<Rightarrow> string" where
  "print_env_tags [] = []"
| "print_env_tags [kv] = print_env_tag kv"
| "print_env_tags (kv # kvs) = print_env_tag kv @ CHR '','' # print_env_tags kvs"

definition plain_text :: "string \<Rightarrow> bool" where
  "plain_text s \<longleftrightarrow> CHR ''='' \<notin> set s \<and> CHR '','' \<notin> set s"

lemma until_delim [simp]:
  "d \<notin> set p \<Longrightarrow> takeWhile (\<lambda>c. c \<noteq> d) (p @ d # s) = p"
  "d \<notin> set p \<Longrightarrow> dropWhile (\<lambda>c. c \<noteq> d) (p @ d # s) = d # s"
  "d \<notin> set p \<Longrightarrow> takeWhile (\<lambda>c. c \<noteq> d) p = p"
  "d \<notin> set p \<Longrightarrow> dropWhile (\<lambda>c. c \<noteq> d) p = []"
  by (induction p) auto

lemma getlines_delim: "d \<notin> set p \<Longrightarrow> getlines d (p @ d # s) = p # getlines d s"
  by (subst getlines.simps) simp

lemma getlines_last: "d \<notin> set p \<Longrightarrow> p \<noteq> [] \<Longrightarrow> getlines d p = [p]"
  by (subst getlines.simps) simp

lemma parse_env_tag_print:
  "plain_text k \<Longrightarrow> plain_text v \<Longrightarrow> parse_env_tag (print_env_tag (k, v)) = Some (Tag k (VString v))"
  by (cases "v = []") (simp_all add: parse_env_tag_def print_env_tag_def getline_def plain_text_def)

lemma getlines_print_env_tags:
  "list_all (\<lambda>(k, v). plain_text k \<and> plain_text v) kvs \<Longrightarrow>
   getlines (CHR '','') (print_env_tags kvs) = map print_env_tag kvs"
proof (induction kvs rule: print_env_tags.induct)
  case (3 kv kv' kvs)
  have "CHR '','' \<notin> set (print_env_tag kv)" using 3 by (auto simp: plain_text_def print_env_tag_def)
  then show ?case using 3 by (simp add: getlines_delim)
qed (auto simp: getlines_last plain_text_def print_env_tag_def)

lemma map_filter_parse:
  "list_all (\<lambda>(k, v). plain_text k \<and> plain_text v) kvs \<Longrightarrow>
   List.map_filter parse_env_tag (map print_env_tag kvs) = map (\<lambda>(k, v). Tag k (VString v)) kvs"
  by (induction kvs) (auto simp: List.map_filter_simps parse_env_tag_print)

lemma cfg_tags_fromEnv:
  "cfg_tags (Config_fromEnv env c) =
     cfg_tags c @ List.map_filter parse_env_tag (getlines (CHR '','') (getStringVariable env ''JAEGER_TAGS''))"
  by (auto simp: Config_fromEnv_def Let_def List.map_filter_simps split: prod.splits)

section \<open>Properties\<close>

text \<open>Tags put into \<^verbatim>\<open>JAEGER_TAGS\<close> as a comma separated list of \<^verbatim>\<open>key=value\<close> are the tags the
  configuration gains, in order, for all keys and values without an equals sign or a comma, empty
  ones included.\<close>

lemma jaeger_tags_roundtrip:
  assumes "list_all (\<lambda>(k, v). plain_text k \<and> plain_text v) kvs"
    and "env ''JAEGER_TAGS'' = Some (print_env_tags kvs)"
  shows "cfg_tags (Config_fromEnv env c) = cfg_tags c @ map (\<lambda>(k, v). Tag k (VString v)) kvs"
  using assms
  by (simp add: cfg_tags_fromEnv getStringVariable_def getlines_print_env_tags map_filter_parse)

lemma jaeger_tags_roundtrip_witness:
  "cfg_tags (Config_fromEnv [''JAEGER_TAGS'' \<mapsto> ''a=1,b=''] Config0) = [Tag ''a'' (VString ''1''), Tag ''b'' (VString [])]"
  using jaeger_tags_roundtrip[of "[(''a'', ''1''), (''b'', [])]" "[''JAEGER_TAGS'' \<mapsto> ''a=1,b='']" Config0]
  by (simp add: plain_text_def print_env_tag_def Config0_def Config_def)

text \<open>What a sampler configuration makes: an exception exactly if the type, in any case, is
  probabilistic, remote or empty and the parameter is not a probability; the null pointer exactly
  if the type is none of those known; otherwise a sampler of that type, whose first decision bears
  the type's tag. An error is logged exactly when there is no sampler.\<close>

theorem make_sampler_outcome:
  fixes c :: sampler_config
  defines "ty \<equiv> map to_lower (sc_type c)"
  shows "((\<exists>e. fst (makeSampler ld now c) = Inl e) \<longleftrightarrow>
      ty \<in> {kSamplerTypeProbabilistic, kSamplerTypeRemote, []} \<and> \<not> (0 \<le> sc_param c \<and> sc_param c \<le> 1)) \<and>
    (fst (makeSampler ld now c) = Inr None \<longleftrightarrow>
      ty \<notin> {kSamplerTypeConst, kSamplerTypeProbabilistic, kSamplerTypeRateLimiting, kSamplerTypeRemote, []}) \<and>
    (\<forall>s. fst (makeSampler ld now c) = Inr (Some s) \<longrightarrow>
      Sampler_type s = (if ty = kSamplerTypeConst then kConstSampler
        else if ty = kSamplerTypeProbabilistic then kProbabilisticSampler
        else if ty = kSamplerTypeRateLimiting then kRateLimitingSampler else kRemotelyControlledSampler) \<and>
      hd (st_tags (fst (Sampler_isSampled ld t0 t tid operation s))) =
        Tag kSamplerTypeTagKey (VCString (if ty \<in> {kSamplerTypeRemote, []} then kSamplerTypeProbabilistic else ty))) \<and>
    (snd (makeSampler ld now c) = [] \<longleftrightarrow> (\<exists>s. fst (makeSampler ld now c) = Inr (Some s)))"
proof -
  consider "ty = kSamplerTypeConst" | "ty = kSamplerTypeProbabilistic" | "ty = kSamplerTypeRateLimiting"
    | "ty = kSamplerTypeRemote \<or> ty = []"
    | "ty \<notin> {kSamplerTypeConst, kSamplerTypeProbabilistic, kSamplerTypeRateLimiting, kSamplerTypeRemote, []}"
    by blast
  then show ?thesis
    by cases (auto simp: ty_def[symmetric] makeSampler_def makeProbabilistic_def Let_def sampler_constants
        Const_isSampled_def ConstSampler_def Prob_isSampled_def ProbabilisticSampler_def Rate_isSampled_def
        RateLimitingSampler_def SamplingStatus_def split: prod.splits)
qed

theorem make_sampler_outcome_witness:
  "\<exists>s. fst (makeSampler 64 0 (SamplerConfig ''Remote'' 1 [] 0 0)) = Inr (Some s) \<and>
     Sampler_type s = kRemotelyControlledSampler"
proof -
  let ?c = "SamplerConfig ''Remote'' 1 [] 0 0"
  have "map to_lower ''Remote'' = ''remote''" by code_simp
  then have ty: "map to_lower (sc_type ?c) = ''remote''" and p: "sc_param ?c = 1"
    by (simp_all add: SamplerConfig_def)
  from make_sampler_outcome[of 64 0 ?c 0 0 "TraceID 0 0" "[]", unfolded ty p sampler_constants]
  show ?thesis by (cases "fst (makeSampler 64 0 ?c)") auto
qed

lemma make_reporter_connected:
  assumes "connect = (\<lambda>_. None)"
  obtains transport rep out where "makeReporter connect now c ms = (Inr (transport, rep), out)"
    and "case transport of HTTPTransporter uri n \<Rightarrow> rc_endpoint c \<noteq> [] \<and> uri = URI_parse (rc_endpoint c)
       | UDPTransporter ip p n \<Rightarrow> rc_endpoint c = [] \<and> (ip, p) = IPAddress_parse (rc_localAgentHostPort c)"
proof (cases "rc_endpoint c = []")
  case True
  obtain ip p where "IPAddress_parse (rc_localAgentHostPort c) = (ip, p)" by fastforce
  with True assms show ?thesis by (cases "rc_logSpans c") (simp_all add: that makeReporter_def Let_def)
next
  case False
  with assms show ?thesis by (cases "rc_logSpans c") (simp_all add: that makeReporter_def Let_def)
qed

text \<open>C40. A usable configuration makes a usable tracer: with a service name, not disabled, a
  sampler type and parameter in range and a transport that connects, the tracer made reports over
  HTTP exactly if an endpoint is given, carries the configured tags last, and starts a span at
  once, with the name asked for and not finished, whatever the options are but for a reference to
  the span itself among others to follow, which is refused.\<close>

theorem tracer_make_usable:
  assumes "service \<noteq> []" and "\<not> cfg_disabled c"
    and "map to_lower (sc_type (cfg_sampler c)) \<in>
      {kSamplerTypeConst, kSamplerTypeProbabilistic, kSamplerTypeRateLimiting, kSamplerTypeRemote}"
    and "0 \<le> sc_param (cfg_sampler c)" and "sc_param (cfg_sampler c) \<le> 1"
    and "pl_connect pl = (\<lambda>_. None)" and "rng_live (pl_random pl)"
  shows "\<exists>transport t. Tracer_make ld pl now service c options = Inr (JaegerTracer transport t) \<and>
    (case transport of HTTPTransporter uri n \<Rightarrow> rc_endpoint (cfg_reporter c) \<noteq> [] \<and> uri = URI_parse (rc_endpoint (cfg_reporter c))
       | UDPTransporter ip p n \<Rightarrow> rc_endpoint (cfg_reporter c) = [] \<and>
           (ip, p) = IPAddress_parse (rc_localAgentHostPort (cfg_reporter c))) \<and>
    t_serviceName t = service \<and> (\<exists>own. t_tags t = own @ cfg_tags c) \<and>
    (choose_self (opt_references opts) = None \<or> followed (opt_references opts) = [] \<longrightarrow>
      (\<exists>sp t'. StartSpanWithOptions ld env operation opts t = Some (Some sp, t') \<and>
        sp_operationName sp = operation \<and> \<not> isFinished sp))"
proof -
  obtain smp out1 where s: "makeSampler ld now (cfg_sampler c) = (Inr (Some smp), out1)"
    using assms(3-5) by (auto simp: makeSampler_def makeProbabilistic_def Let_def sampler_constants)
  obtain transport rep out2 where r: "makeReporter (pl_connect pl) now (cfg_reporter c) metrics0 = (Inr (transport, rep), out2)"
    and tr: "case transport of HTTPTransporter uri n \<Rightarrow> rc_endpoint (cfg_reporter c) \<noteq> [] \<and> uri = URI_parse (rc_endpoint (cfg_reporter c))
       | UDPTransporter ip p n \<Rightarrow> rc_endpoint (cfg_reporter c) = [] \<and>
           (ip, p) = IPAddress_parse (rc_localAgentHostPort (cfg_reporter c))"
    by (rule make_reporter_connected[OF assms(6)])
  obtain tags out3 where tg: "tracer_tags pl (cfg_tags c) = (tags, out3)" by fastforce
  then have own: "\<exists>own. tags = own @ cfg_tags c" by (auto simp: tracer_tags_def)
  let ?t = "\<lparr>t_serviceName = service, t_sampler = smp, t_reporter = rep, t_metrics = metrics0,
    t_log = out1 @ out2 @ out3, t_rng = pl_random pl, t_format = cfg_propagationFormat c,
    t_headers = cfg_headers c, t_tags = tags, t_restrictionManager = DefaultRestrictionManager 0, t_options = options\<rparr>"
  have "Tracer_make ld pl now service c options = Inr (JaegerTracer transport ?t)"
    using assms(1,2) s r tg by (simp add: Tracer_make_def)
  moreover have "\<exists>sp t'. StartSpanWithOptions ld env operation opts ?t = Some (Some sp, t') \<and>
      sp_operationName sp = operation \<and> \<not> isFinished sp"
    if "choose_self (opt_references opts) = None \<or> followed (opt_references opts) = []"
    using that by (intro start_span_makes) (simp_all add: assms(7))
  ultimately show ?thesis using tr own by (intro exI[of _ transport] exI[of _ ?t]) simp
qed

definition example_platform :: platform where
  "example_platform = \<lparr>pl_version = ''0.0'', pl_hostname = Some ''h'', pl_localIP = None,
     pl_connect = (\<lambda>_. None), pl_random = sconst 7\<rparr>"

theorem tracer_make_usable_witness:
  "\<exists>transport t. Tracer_make 64 example_platform 0 ''svc''
     (Config0\<lparr>cfg_sampler := SamplerConfig ''Const'' 1 [] 0 0\<rparr>) 0 =
     Inr (JaegerTracer transport t) \<and>
     (\<exists>sp t'. StartSpanWithOptions 64 example_env ''op'' (example_options []) t = Some (Some sp, t') \<and> \<not> isFinished sp)"
proof -
  let ?c = "Config0\<lparr>cfg_sampler := SamplerConfig ''Const'' 1 [] 0 0\<rparr>"
  have "map to_lower ''Const'' = ''const''" by code_simp
  then have "cfg_disabled ?c = False" "map to_lower (sc_type (cfg_sampler ?c)) = kSamplerTypeConst" "sc_param (cfg_sampler ?c) = 1"
    by (simp_all add: Config0_def Config_def SamplerConfig_def kSamplerTypeConst_def)
  moreover have "choose_self (opt_references (example_options [])) = None"
    by (simp add: example_options_def choose_self_def)
  ultimately show ?thesis
    using tracer_make_usable[of "''svc''" ?c example_platform 64 0 0 "example_options []" example_env "''op''"] example_tracer_live
    by (force simp: example_platform_def example_tracer_def)
qed

end
