(* ===== verification/ThriftStructs.thy ===== *)
theory ThriftStructs
  imports Tags
begin

text \<open>
  The structures the library generates from \<^verbatim>\<open>jaeger.thrift\<close> and \<^verbatim>\<open>agent.thrift\<close>
  (\<^verbatim>\<open>thrift-gen/jaeger_types.cpp\<close>, \<^verbatim>\<open>thrift-gen/Agent.cpp\<close>): what \<^verbatim>\<open>write\<close> sends to a protocol and
  what \<^verbatim>\<open>read\<close> takes from one. A writer is the list of protocol calls it makes, in their order; a
  reader is state passing over the protocol's state. The protocol itself
  (\<^verbatim>\<open>::apache::thrift::protocol::TProtocol\<close>) is code of another project, the parameter \<open>P\<close>: each of
  its reads returns a value and the next state, throws, or never returns (\<^term>\<open>None\<close>). The byte
  counts that the methods add up and the recursion tracker are not modelled.
\<close>

section \<open>The protocol\<close>

datatype ttype = T_STOP | T_BOOL | T_DOUBLE | T_I16 | T_I32 | T_I64 | T_STRING | T_STRUCT | T_LIST
  | T_OTHER nat

datatype message_type = T_CALL | T_REPLY | T_EXCEPTION | T_ONEWAY

datatype call =
    CMessageBegin string message_type "32 word"
  | CMessageEnd
  | CStructBegin string
  | CStructEnd
  | CFieldBegin string ttype int
  | CFieldEnd
  | CFieldStop
  | CListBegin ttype u32
  | CListEnd
  | CString string
  | CBinary string
  | CI16 "16 word"
  | CI32 "32 word"
  | CI64 i64
  | CDouble double
  | CBool bool

text \<open>
  \<^verbatim>\<open>TProtocolException\<close> is \<open>InvalidData\<close> where the generated code throws it; what the protocol
  throws on its own is \<open>ProtocolFailure\<close>. An integer that is no enumerator is cast into the
  enumeration, which C++ leaves undefined; the model stops there with \<open>UndefinedEnumerator\<close>, and
  with \<open>NullPointer\<close> where a structure is read through a pointer that is null.
\<close>

datatype read_error = InvalidData | UndefinedEnumerator | NullPointer | ProtocolFailure string

type_synonym ('a, 'w) rd = "'w \<Rightarrow> (read_error + 'a \<times> 'w) option"

definition rret :: "'a \<Rightarrow> ('a, 'w) rd" where
  "rret v w = Some (Inr (v, w))"

definition rfail :: "read_error \<Rightarrow> ('a, 'w) rd" where
  "rfail e w = Some (Inl e)"

definition rbind :: "('a, 'w) rd \<Rightarrow> ('a \<Rightarrow> ('b, 'w) rd) \<Rightarrow> ('b, 'w) rd" where
  "rbind r k w =
     Option.bind (r w) (\<lambda>res. case res of Inl e \<Rightarrow> Some (Inl e) | Inr (v, w1) \<Rightarrow> k v w1)"

record 'w protocol =
  rd_MessageBegin :: "(string \<times> message_type \<times> 32 word, 'w) rd"
  rd_MessageEnd :: "(unit, 'w) rd"
  rd_StructBegin :: "(string, 'w) rd"
  rd_StructEnd :: "(unit, 'w) rd"
  rd_FieldBegin :: "(ttype \<times> int, 'w) rd"
  rd_FieldEnd :: "(unit, 'w) rd"
  rd_ListBegin :: "(ttype \<times> u32, 'w) rd"
  rd_ListEnd :: "(unit, 'w) rd"
  rd_String :: "(string, 'w) rd"
  rd_Binary :: "(string, 'w) rd"
  rd_I16 :: "(16 word, 'w) rd"
  rd_I32 :: "(32 word, 'w) rd"
  rd_I64 :: "(i64, 'w) rd"
  rd_Double :: "(double, 'w) rd"
  rd_Bool :: "(bool, 'w) rd"
  rd_skip :: "ttype \<Rightarrow> (unit, 'w) rd"

lemma rbind_Some [simp]: "r w = Some (Inr (v, w1)) \<Longrightarrow> rbind r k w = k v w1"
  by (simp add: rbind_def)

lemma rbind_rret [simp]: "rbind (rret v) k w = k v w"
  by (simp add: rbind_def rret_def)

section \<open>Reading\<close>

text \<open>
  The loop over the fields of a structure, the same in every \<^verbatim>\<open>read\<close>: \<open>step\<close> is its \<^verbatim>\<open>switch\<close>,
  on the state \<open>s\<close>, the structure so far and the numbers of the fields whose \<^verbatim>\<open>isset_\<close> local is true.
  A protocol may never give \<open>T_STOP\<close>, so the loop is a partial function.
\<close>

partial_function (option) read_fields ::
  "'w protocol \<Rightarrow> (ttype \<Rightarrow> int \<Rightarrow> 's \<Rightarrow> ('s, 'w) rd) \<Rightarrow> 's \<Rightarrow> ('s, 'w) rd" where
  "read_fields P step s w =
     Option.bind (rd_FieldBegin P w) (\<lambda>r0. case r0 of
       Inl e \<Rightarrow> Some (Inl e)
     | Inr (header, w1) \<Rightarrow>
         if fst header = T_STOP then Some (Inr (s, w1))
         else Option.bind (step (fst header) (snd header) s w1) (\<lambda>r1. case r1 of
           Inl e \<Rightarrow> Some (Inl e)
         | Inr (s1, w2) \<Rightarrow>
             Option.bind (rd_FieldEnd P w2) (\<lambda>r2. case r2 of
               Inl e \<Rightarrow> Some (Inl e)
             | Inr (_, w3) \<Rightarrow> read_fields P step s1 w3)))"

definition read_struct ::
  "'w protocol \<Rightarrow> (ttype \<Rightarrow> int \<Rightarrow> 'a \<times> int set \<Rightarrow> ('a \<times> int set, 'w) rd) \<Rightarrow> int set \<Rightarrow> 'a \<Rightarrow> ('a, 'w) rd" where
  "read_struct P step needed a =
     rbind (rd_StructBegin P) (\<lambda>_.
     rbind (read_fields P step (a, {})) (\<lambda>(a1, seen).
     rbind (rd_StructEnd P) (\<lambda>_.
     if needed \<subseteq> seen then rret a1 else rfail InvalidData)))"

text \<open>One \<^verbatim>\<open>case\<close>: a field of the declared type is read, another is skipped.\<close>

definition on_type ::
  "'w protocol \<Rightarrow> ttype \<Rightarrow> ttype \<Rightarrow> ('v, 'w) rd \<Rightarrow> ('v \<Rightarrow> 's \<Rightarrow> 's) \<Rightarrow> 's \<Rightarrow> ('s, 'w) rd" where
  "on_type P ft wanted r put s =
     (if ft = wanted then rbind r (\<lambda>v. rret (put v s)) else rbind (rd_skip P ft) (\<lambda>_. rret s))"

definition skip_field :: "'w protocol \<Rightarrow> ttype \<Rightarrow> 's \<Rightarrow> ('s, 'w) rd" where
  "skip_field P ft s = rbind (rd_skip P ft) (\<lambda>_. rret s)"

text \<open>The assignment of a required field, and of one with an \<^verbatim>\<open>__isset\<close> bit, which is its option.\<close>

definition required :: "int \<Rightarrow> ('v \<Rightarrow> 'a \<Rightarrow> 'a) \<Rightarrow> 'v \<Rightarrow> 'a \<times> int set \<Rightarrow> 'a \<times> int set" where
  "required i put v s = (put v (fst s), insert i (snd s))"

definition optional :: "('v \<Rightarrow> 'a \<Rightarrow> 'a) \<Rightarrow> 'v \<Rightarrow> 'a \<times> int set \<Rightarrow> 'a \<times> int set" where
  "optional put v s = (put v (fst s), snd s)"

text \<open>A list: cleared, resized to default elements, each then read in place.\<close>

primrec read_times :: "('a, 'w) rd \<Rightarrow> nat \<Rightarrow> ('a list, 'w) rd" where
  "read_times r 0 = rret []"
| "read_times r (Suc n) = rbind r (\<lambda>x. rbind (read_times r n) (\<lambda>xs. rret (x # xs)))"

definition read_list :: "'w protocol \<Rightarrow> ('a, 'w) rd \<Rightarrow> ('a list, 'w) rd" where
  "read_list P r =
     rbind (rd_ListBegin P) (\<lambda>(_, n).
     rbind (read_times r (unat n)) (\<lambda>xs.
     rbind (rd_ListEnd P) (\<lambda>_. rret xs)))"

definition read_enum :: "'w protocol \<Rightarrow> (32 word \<Rightarrow> 'e option) \<Rightarrow> ('e, 'w) rd" where
  "read_enum P decode =
     rbind (rd_I32 P) (\<lambda>n. case decode n of Some e \<Rightarrow> rret e | None \<Rightarrow> rfail UndefinedEnumerator)"

section \<open>Writing\<close>

definition write_field :: "string \<Rightarrow> ttype \<Rightarrow> int \<Rightarrow> call list \<Rightarrow> call list" where
  "write_field name t i value = CFieldBegin name t i # value @ [CFieldEnd]"

definition write_opt :: "string \<Rightarrow> ttype \<Rightarrow> int \<Rightarrow> ('v \<Rightarrow> call list) \<Rightarrow> 'v option \<Rightarrow> call list" where
  "write_opt name t i wr x = (case x of None \<Rightarrow> [] | Some v \<Rightarrow> write_field name t i (wr v))"

definition write_struct :: "string \<Rightarrow> call list \<Rightarrow> call list" where
  "write_struct name body = CStructBegin name # body @ [CFieldStop, CStructEnd]"

definition write_list :: "('a \<Rightarrow> call list) \<Rightarrow> 'a list \<Rightarrow> call list" where
  "write_list wr xs = CListBegin T_STRUCT (of_nat (length xs)) # concat (map wr xs) @ [CListEnd]"

section \<open>The structures of \<^verbatim>\<open>jaeger.thrift\<close>\<close>

definition TagType_of :: "32 word \<Rightarrow> tag_type option" where
  "TagType_of n =
     (if n = 0 then Some STRING else if n = 1 then Some DOUBLE else if n = 2 then Some BOOL
      else if n = 3 then Some LONG else if n = 4 then Some BINARY else None)"

primrec TagType_value :: "tag_type \<Rightarrow> 32 word" where
  "TagType_value STRING = 0"
| "TagType_value DOUBLE = 1"
| "TagType_value BOOL = 2"
| "TagType_value LONG = 3"
| "TagType_value BINARY = 4"

definition SpanRefType_of :: "32 word \<Rightarrow> span_ref_type option" where
  "SpanRefType_of n = (if n = 0 then Some CHILD_OF else if n = 1 then Some FOLLOWS_FROM else None)"

primrec SpanRefType_value :: "span_ref_type \<Rightarrow> 32 word" where
  "SpanRefType_value CHILD_OF = 0"
| "SpanRefType_value FOLLOWS_FROM = 1"

definition Tag_field ::
  "'w protocol \<Rightarrow> ttype \<Rightarrow> int \<Rightarrow> thrift_tag \<times> int set \<Rightarrow> (thrift_tag \<times> int set, 'w) rd" where
  "Tag_field P ft fid s =
     (if fid = 1 then on_type P ft T_STRING (rd_String P) (required 1 (\<lambda>v. tag_key_update (\<lambda>_. v))) s
      else if fid = 2 then on_type P ft T_I32 (read_enum P TagType_of) (required 2 (\<lambda>v. vType_update (\<lambda>_. v))) s
      else if fid = 3 then on_type P ft T_STRING (rd_String P) (optional (\<lambda>v. vStr_update (\<lambda>_. Some v))) s
      else if fid = 4 then on_type P ft T_DOUBLE (rd_Double P) (optional (\<lambda>v. vDouble_update (\<lambda>_. Some v))) s
      else if fid = 5 then on_type P ft T_BOOL (rd_Bool P) (optional (\<lambda>v. vBool_update (\<lambda>_. Some v))) s
      else if fid = 6 then on_type P ft T_I64 (rd_I64 P) (optional (\<lambda>v. vLong_update (\<lambda>_. Some v))) s
      else if fid = 7 then on_type P ft T_STRING (rd_Binary P) (optional (\<lambda>v. vBinary_update (\<lambda>_. Some v))) s
      else skip_field P ft s)"

definition Tag_read :: "'w protocol \<Rightarrow> thrift_tag \<Rightarrow> (thrift_tag, 'w) rd" where
  "Tag_read P = read_struct P (Tag_field P) {1, 2}"

definition Tag_write :: "thrift_tag \<Rightarrow> call list" where
  "Tag_write t = write_struct ''Tag''
     (write_field ''key'' T_STRING 1 [CString (tag_key t)] @
      write_field ''vType'' T_I32 2 [CI32 (TagType_value (vType t))] @
      write_opt ''vStr'' T_STRING 3 (\<lambda>v. [CString v]) (vStr t) @
      write_opt ''vDouble'' T_DOUBLE 4 (\<lambda>v. [CDouble v]) (vDouble t) @
      write_opt ''vBool'' T_BOOL 5 (\<lambda>v. [CBool v]) (vBool t) @
      write_opt ''vLong'' T_I64 6 (\<lambda>v. [CI64 v]) (vLong t) @
      write_opt ''vBinary'' T_STRING 7 (\<lambda>v. [CBinary v]) (vBinary t))"

definition thrift_log0 :: thrift_log where
  "thrift_log0 = \<lparr>log_timestamp = 0, log_fields = []\<rparr>"

definition Log_field ::
  "'w protocol \<Rightarrow> ttype \<Rightarrow> int \<Rightarrow> thrift_log \<times> int set \<Rightarrow> (thrift_log \<times> int set, 'w) rd" where
  "Log_field P ft fid s =
     (if fid = 1 then on_type P ft T_I64 (rd_I64 P) (required 1 (\<lambda>v. log_timestamp_update (\<lambda>_. v))) s
      else if fid = 2 then on_type P ft T_LIST (read_list P (Tag_read P thrift_tag0))
        (required 2 (\<lambda>v. log_fields_update (\<lambda>_. v))) s
      else skip_field P ft s)"

definition Log_read :: "'w protocol \<Rightarrow> thrift_log \<Rightarrow> (thrift_log, 'w) rd" where
  "Log_read P = read_struct P (Log_field P) {1, 2}"

definition Log_write :: "thrift_log \<Rightarrow> call list" where
  "Log_write l = write_struct ''Log''
     (write_field ''timestamp'' T_I64 1 [CI64 (log_timestamp l)] @
      write_field ''fields'' T_LIST 2 (write_list Tag_write (log_fields l)))"

definition thrift_span_ref0 :: thrift_span_ref where
  "thrift_span_ref0 = \<lparr>refType = CHILD_OF, ref_traceIdLow = 0, ref_traceIdHigh = 0, ref_spanId = 0\<rparr>"

definition SpanRef_field ::
  "'w protocol \<Rightarrow> ttype \<Rightarrow> int \<Rightarrow> thrift_span_ref \<times> int set \<Rightarrow> (thrift_span_ref \<times> int set, 'w) rd" where
  "SpanRef_field P ft fid s =
     (if fid = 1 then on_type P ft T_I32 (read_enum P SpanRefType_of) (required 1 (\<lambda>v. refType_update (\<lambda>_. v))) s
      else if fid = 2 then on_type P ft T_I64 (rd_I64 P) (required 2 (\<lambda>v. ref_traceIdLow_update (\<lambda>_. v))) s
      else if fid = 3 then on_type P ft T_I64 (rd_I64 P) (required 3 (\<lambda>v. ref_traceIdHigh_update (\<lambda>_. v))) s
      else if fid = 4 then on_type P ft T_I64 (rd_I64 P) (required 4 (\<lambda>v. ref_spanId_update (\<lambda>_. v))) s
      else skip_field P ft s)"

definition SpanRef_read :: "'w protocol \<Rightarrow> thrift_span_ref \<Rightarrow> (thrift_span_ref, 'w) rd" where
  "SpanRef_read P = read_struct P (SpanRef_field P) {1, 2, 3, 4}"

definition SpanRef_write :: "thrift_span_ref \<Rightarrow> call list" where
  "SpanRef_write r = write_struct ''SpanRef''
     (write_field ''refType'' T_I32 1 [CI32 (SpanRefType_value (refType r))] @
      write_field ''traceIdLow'' T_I64 2 [CI64 (ref_traceIdLow r)] @
      write_field ''traceIdHigh'' T_I64 3 [CI64 (ref_traceIdHigh r)] @
      write_field ''spanId'' T_I64 4 [CI64 (ref_spanId r)])"

definition thrift_span0 :: thrift_span where
  "thrift_span0 = \<lparr>span_traceIdLow = 0, span_traceIdHigh = 0, span_spanId = 0, span_parentSpanId = 0,
     span_operationName = [], span_references = None, span_flags = 0, span_startTime = 0,
     span_duration = 0, span_tags = None, span_logs = None\<rparr>"

definition Span_field ::
  "'w protocol \<Rightarrow> ttype \<Rightarrow> int \<Rightarrow> thrift_span \<times> int set \<Rightarrow> (thrift_span \<times> int set, 'w) rd" where
  "Span_field P ft fid s =
     (if fid = 1 then on_type P ft T_I64 (rd_I64 P) (required 1 (\<lambda>v. span_traceIdLow_update (\<lambda>_. v))) s
      else if fid = 2 then on_type P ft T_I64 (rd_I64 P) (required 2 (\<lambda>v. span_traceIdHigh_update (\<lambda>_. v))) s
      else if fid = 3 then on_type P ft T_I64 (rd_I64 P) (required 3 (\<lambda>v. span_spanId_update (\<lambda>_. v))) s
      else if fid = 4 then on_type P ft T_I64 (rd_I64 P) (required 4 (\<lambda>v. span_parentSpanId_update (\<lambda>_. v))) s
      else if fid = 5 then on_type P ft T_STRING (rd_String P)
        (required 5 (\<lambda>v. span_operationName_update (\<lambda>_. v))) s
      else if fid = 6 then on_type P ft T_LIST (read_list P (SpanRef_read P thrift_span_ref0))
        (optional (\<lambda>v. span_references_update (\<lambda>_. Some v))) s
      else if fid = 7 then on_type P ft T_I32 (rd_I32 P) (required 7 (\<lambda>v. span_flags_update (\<lambda>_. v))) s
      else if fid = 8 then on_type P ft T_I64 (rd_I64 P) (required 8 (\<lambda>v. span_startTime_update (\<lambda>_. v))) s
      else if fid = 9 then on_type P ft T_I64 (rd_I64 P) (required 9 (\<lambda>v. span_duration_update (\<lambda>_. v))) s
      else if fid = 10 then on_type P ft T_LIST (read_list P (Tag_read P thrift_tag0))
        (optional (\<lambda>v. span_tags_update (\<lambda>_. Some v))) s
      else if fid = 11 then on_type P ft T_LIST (read_list P (Log_read P thrift_log0))
        (optional (\<lambda>v. span_logs_update (\<lambda>_. Some v))) s
      else skip_field P ft s)"

definition Span_read :: "'w protocol \<Rightarrow> thrift_span \<Rightarrow> (thrift_span, 'w) rd" where
  "Span_read P = read_struct P (Span_field P) {1, 2, 3, 4, 5, 7, 8, 9}"

definition Span_write :: "thrift_span \<Rightarrow> call list" where
  "Span_write s = write_struct ''Span''
     (write_field ''traceIdLow'' T_I64 1 [CI64 (span_traceIdLow s)] @
      write_field ''traceIdHigh'' T_I64 2 [CI64 (span_traceIdHigh s)] @
      write_field ''spanId'' T_I64 3 [CI64 (span_spanId s)] @
      write_field ''parentSpanId'' T_I64 4 [CI64 (span_parentSpanId s)] @
      write_field ''operationName'' T_STRING 5 [CString (span_operationName s)] @
      write_opt ''references'' T_LIST 6 (write_list SpanRef_write) (span_references s) @
      write_field ''flags'' T_I32 7 [CI32 (span_flags s)] @
      write_field ''startTime'' T_I64 8 [CI64 (span_startTime s)] @
      write_field ''duration'' T_I64 9 [CI64 (span_duration s)] @
      write_opt ''tags'' T_LIST 10 (write_list Tag_write) (span_tags s) @
      write_opt ''logs'' T_LIST 11 (write_list Log_write) (span_logs s))"

definition Process_field ::
  "'w protocol \<Rightarrow> ttype \<Rightarrow> int \<Rightarrow> thrift_process \<times> int set \<Rightarrow> (thrift_process \<times> int set, 'w) rd" where
  "Process_field P ft fid s =
     (if fid = 1 then on_type P ft T_STRING (rd_String P)
        (required 1 (\<lambda>v. process_serviceName_update (\<lambda>_. v))) s
      else if fid = 2 then on_type P ft T_LIST (read_list P (Tag_read P thrift_tag0))
        (optional (\<lambda>v. process_tags_update (\<lambda>_. Some v))) s
      else skip_field P ft s)"

definition Process_read :: "'w protocol \<Rightarrow> thrift_process \<Rightarrow> (thrift_process, 'w) rd" where
  "Process_read P = read_struct P (Process_field P) {1}"

definition Process_write :: "thrift_process \<Rightarrow> call list" where
  "Process_write p = write_struct ''Process''
     (write_field ''serviceName'' T_STRING 1 [CString (process_serviceName p)] @
      write_opt ''tags'' T_LIST 2 (write_list Tag_write) (process_tags p))"

text \<open>The process of a batch is read in place, over what an earlier field 1 has left in it.\<close>

definition thrift_batch0 :: thrift_batch where
  "thrift_batch0 = \<lparr>batch_process = thrift_process0, batch_spans = []\<rparr>"

definition Batch_field ::
  "'w protocol \<Rightarrow> ttype \<Rightarrow> int \<Rightarrow> thrift_batch \<times> int set \<Rightarrow> (thrift_batch \<times> int set, 'w) rd" where
  "Batch_field P ft fid s =
     (if fid = 1 then on_type P ft T_STRUCT (Process_read P (batch_process (fst s)))
        (required 1 (\<lambda>v. batch_process_update (\<lambda>_. v))) s
      else if fid = 2 then on_type P ft T_LIST (read_list P (Span_read P thrift_span0))
        (required 2 (\<lambda>v. batch_spans_update (\<lambda>_. v))) s
      else skip_field P ft s)"

definition Batch_read :: "'w protocol \<Rightarrow> thrift_batch \<Rightarrow> (thrift_batch, 'w) rd" where
  "Batch_read P = read_struct P (Batch_field P) {1, 2}"

definition Batch_write :: "thrift_batch \<Rightarrow> call list" where
  "Batch_write b = write_struct ''Batch''
     (write_field ''process'' T_STRUCT 1 (Process_write (batch_process b)) @
      write_field ''spans'' T_LIST 2 (write_list Span_write (batch_spans b)))"

record batch_submit_response =
  response_ok :: bool

definition BatchSubmitResponse_field ::
  "'w protocol \<Rightarrow> ttype \<Rightarrow> int \<Rightarrow> batch_submit_response \<times> int set \<Rightarrow> (batch_submit_response \<times> int set, 'w) rd" where
  "BatchSubmitResponse_field P ft fid s =
     (if fid = 1 then on_type P ft T_BOOL (rd_Bool P) (required 1 (\<lambda>v. response_ok_update (\<lambda>_. v))) s
      else skip_field P ft s)"

definition BatchSubmitResponse_read ::
  "'w protocol \<Rightarrow> batch_submit_response \<Rightarrow> (batch_submit_response, 'w) rd" where
  "BatchSubmitResponse_read P = read_struct P (BatchSubmitResponse_field P) {1}"

definition BatchSubmitResponse_write :: "batch_submit_response \<Rightarrow> call list" where
  "BatchSubmitResponse_write r = write_struct ''BatchSubmitResponse''
     (write_field ''ok'' T_BOOL 1 [CBool (response_ok r)])"

section \<open>The call \<^verbatim>\<open>emitBatch\<close> of \<^verbatim>\<open>agent.thrift\<close>\<close>

text \<open>
  The arguments are a structure of one field that is not required; its \<^verbatim>\<open>__isset\<close> bit is kept
  beside the batch, which exists, empty, when the field never came.
\<close>

record emitBatch_args =
  args_batch :: thrift_batch
  args_isset :: bool

definition emitBatch_args0 :: emitBatch_args where
  "emitBatch_args0 = \<lparr>args_batch = thrift_batch0, args_isset = False\<rparr>"

definition emitBatch_args_field ::
  "'w protocol \<Rightarrow> ttype \<Rightarrow> int \<Rightarrow> emitBatch_args \<times> int set \<Rightarrow> (emitBatch_args \<times> int set, 'w) rd" where
  "emitBatch_args_field P ft fid s =
     (if fid = 1 then on_type P ft T_STRUCT (Batch_read P (args_batch (fst s)))
        (optional (\<lambda>v a. a\<lparr>args_batch := v, args_isset := True\<rparr>)) s
      else skip_field P ft s)"

definition emitBatch_args_read :: "'w protocol \<Rightarrow> emitBatch_args \<Rightarrow> (emitBatch_args, 'w) rd" where
  "emitBatch_args_read P = read_struct P (emitBatch_args_field P) {}"

definition emitBatch_args_write :: "emitBatch_args \<Rightarrow> call list" where
  "emitBatch_args_write a = write_struct ''Agent_emitBatch_args''
     (write_field ''batch'' T_STRUCT 1 (Batch_write (args_batch a)))"

definition emitBatch_pargs_write :: "thrift_batch \<Rightarrow> call list" where
  "emitBatch_pargs_write b = write_struct ''Agent_emitBatch_pargs''
     (write_field ''batch'' T_STRUCT 1 (Batch_write b))"

text \<open>The client's side, up to the transport's \<^verbatim>\<open>writeEnd\<close> and \<^verbatim>\<open>flush\<close>.\<close>

definition send_emitBatch :: "thrift_batch \<Rightarrow> call list" where
  "send_emitBatch b =
     CMessageBegin ''emitBatch'' T_ONEWAY 0 # emitBatch_pargs_write b @ [CMessageEnd]"

text \<open>
  The agent's side, without an event handler: the batch that \<^verbatim>\<open>process_emitBatch\<close> gives its
  handler, whose own exceptions are caught and end there, and \<^verbatim>\<open>dispatchCall\<close>, which looks the method's name up in \<^verbatim>\<open>processMap_\<close>, an argument;
  \<open>Inl\<close> is the answer \<^verbatim>\<open>UNKNOWN_METHOD\<close> that it writes for a name that is not there.
\<close>

definition process_emitBatch :: "'w protocol \<Rightarrow> (thrift_batch, 'w) rd" where
  "process_emitBatch P =
     rbind (emitBatch_args_read P emitBatch_args0) (\<lambda>a.
     rbind (rd_MessageEnd P) (\<lambda>_. rret (args_batch a)))"

definition dispatchCall ::
  "'w protocol \<Rightarrow> (string \<Rightarrow> ('r, 'w) rd option) \<Rightarrow> string \<Rightarrow> (string + 'r, 'w) rd" where
  "dispatchCall P processMap fname =
     (case processMap fname of
        None \<Rightarrow>
          rbind (rd_skip P T_STRUCT) (\<lambda>_.
          rbind (rd_MessageEnd P) (\<lambda>_.
          rret (Inl (''Invalid method name: ''@ [CHR 0x27] @ fname @ [CHR 0x27]))))
      | Some process \<Rightarrow> rbind process (\<lambda>r. rret (Inr r)))"

end
