(* ===== verification/ThriftLaws.thy ===== *)
theory ThriftLaws
  imports ThriftStructs
begin

text \<open>
  What the generated readers and writers of \<^verbatim>\<open>ThriftStructs\<close> guarantee over any protocol: a batch is
  read back as it was written, with its fields in any order; a required field that is missing is
  an error; a reader always returns when the input is finite.
\<close>

section \<open>Round trip\<close>

text \<open>
  What is asked of the protocol, for the calls of one message only: reading from \<open>w\<close>, each read
  gives back what the corresponding call wrote. \<open>carry P calls w\<close> is the state after them, if it
  does. Names of structures and fields may be lost on the way.
\<close>

definition expect :: "('v, 'w) rd \<Rightarrow> ('v \<Rightarrow> bool) \<Rightarrow> 'w \<Rightarrow> 'w option" where
  "expect r ok w =
     (case r w of Some (Inr (v, w1)) \<Rightarrow> (if ok v then Some w1 else None) | _ \<Rightarrow> None)"

primrec read_back :: "'w protocol \<Rightarrow> call \<Rightarrow> 'w \<Rightarrow> 'w option" where
  "read_back P (CMessageBegin n t i) = expect (rd_MessageBegin P) (\<lambda>v. v = (n, t, i))"
| "read_back P CMessageEnd = expect (rd_MessageEnd P) (\<lambda>_. True)"
| "read_back P (CStructBegin n) = expect (rd_StructBegin P) (\<lambda>_. True)"
| "read_back P CStructEnd = expect (rd_StructEnd P) (\<lambda>_. True)"
| "read_back P (CFieldBegin n t i) = expect (rd_FieldBegin P) (\<lambda>v. v = (t, i))"
| "read_back P CFieldEnd = expect (rd_FieldEnd P) (\<lambda>_. True)"
| "read_back P CFieldStop = expect (rd_FieldBegin P) (\<lambda>v. fst v = T_STOP)"
| "read_back P (CListBegin t n) = expect (rd_ListBegin P) (\<lambda>v. v = (t, n))"
| "read_back P CListEnd = expect (rd_ListEnd P) (\<lambda>_. True)"
| "read_back P (CString s) = expect (rd_String P) (\<lambda>v. v = s)"
| "read_back P (CBinary s) = expect (rd_Binary P) (\<lambda>v. v = s)"
| "read_back P (CI16 n) = expect (rd_I16 P) (\<lambda>v. v = n)"
| "read_back P (CI32 n) = expect (rd_I32 P) (\<lambda>v. v = n)"
| "read_back P (CI64 n) = expect (rd_I64 P) (\<lambda>v. v = n)"
| "read_back P (CDouble d) = expect (rd_Double P) (\<lambda>v. v = d)"
| "read_back P (CBool b) = expect (rd_Bool P) (\<lambda>v. v = b)"

primrec carry :: "'w protocol \<Rightarrow> call list \<Rightarrow> 'w \<Rightarrow> 'w option" where
  "carry P [] w = Some w"
| "carry P (c # cs) w = Option.bind (read_back P c w) (carry P cs)"

lemma expect_Some [simp]: "expect r ok w = Some u \<longleftrightarrow> (\<exists>v. r w = Some (Inr (v, u)) \<and> ok v)"
  by (auto simp: expect_def split: option.splits sum.splits)

lemma carry_append [simp]: "carry P (cs @ ds) w = Option.bind (carry P cs w) (carry P ds)"
  by (induction cs arbitrary: w) (simp_all split: bind_split)

text \<open>A reader serves a list of calls with a value: over what they wrote, it returns the value.\<close>

definition serves :: "'w protocol \<Rightarrow> call list \<Rightarrow> ('a, 'w) rd \<Rightarrow> 'a \<Rightarrow> bool" where
  "serves P cs r v \<longleftrightarrow> (\<forall>w u. carry P cs w = Some u \<longrightarrow> r w = Some (Inr (v, u)))"

definition steps ::
  "'w protocol \<Rightarrow> (ttype \<Rightarrow> int \<Rightarrow> 's \<Rightarrow> ('s, 'w) rd) \<Rightarrow> call list \<Rightarrow> 's \<Rightarrow> 's \<Rightarrow> bool" where
  "steps P step cs s s' \<longleftrightarrow>
     (\<forall>w u. carry P cs w = Some u \<longrightarrow> read_fields P step s w = read_fields P step s' u)"

lemma servesI: "(\<And>w u. carry P cs w = Some u \<Longrightarrow> r w = Some (Inr (v, u))) \<Longrightarrow> serves P cs r v"
  by (simp add: serves_def)

lemma servesD: "serves P cs r v \<Longrightarrow> carry P cs w = Some u \<Longrightarrow> r w = Some (Inr (v, u))"
  by (simp add: serves_def)

lemma serves_base [simp]:
  "serves P [CString s] (rd_String P) s"
  "serves P [CBinary s] (rd_Binary P) s"
  "serves P [CI16 k] (rd_I16 P) k"
  "serves P [CI32 n] (rd_I32 P) n"
  "serves P [CI64 m] (rd_I64 P) m"
  "serves P [CDouble d] (rd_Double P) d"
  "serves P [CBool b] (rd_Bool P) b"
  by (auto simp: serves_def bind_eq_Some_conv)

lemma serves_enum: "decode n = Some e \<Longrightarrow> serves P [CI32 n] (read_enum P decode) e"
  by (auto simp: serves_def read_enum_def rret_def bind_eq_Some_conv)

lemma serves_rret [simp]: "serves P [] (rret v) v"
  by (simp add: serves_def rret_def)

lemma serves_bind: "serves P cs r v \<Longrightarrow> serves P ds (k v) x \<Longrightarrow> serves P (cs @ ds) (rbind r k) x"
  by (auto simp: serves_def bind_eq_Some_conv)

lemma serves_map: "serves P cs r v \<Longrightarrow> serves P cs (rbind r (\<lambda>v. rret (f v))) (f v)"
  using serves_bind [where ds = "[]", OF _ serves_rret] by fastforce

lemma serves_end:
  "serves P [CStructEnd] (rbind (rd_StructEnd P) (\<lambda>_. rret v)) v"
  "serves P [CListEnd] (rbind (rd_ListEnd P) (\<lambda>_. rret w)) w"
  "serves P [CMessageEnd] (rbind (rd_MessageEnd P) (\<lambda>_. rret x)) x"
  by (auto simp: serves_def rret_def bind_eq_Some_conv)

text \<open>The elements of a list may be read as something else than what was written.\<close>

lemma serves_times:
  "(\<And>x. x \<in> set xs \<Longrightarrow> serves P (wr x) r (f x)) \<Longrightarrow>
   serves P (concat (map wr xs)) (read_times r (length xs)) (map f xs)"
proof (induction xs)
  case (Cons x xs)
  then have "serves P (concat (map wr xs) @ []) (rbind (read_times r (length xs)) (\<lambda>ys. rret (f x # ys))) (f x # map f xs)"
    by (intro serves_bind [where v = "map f xs"]) simp_all
  with Cons.prems show ?case
    by (auto intro: serves_bind)
qed (simp add: serves_rret)

lemma serves_list_map:
  assumes "\<And>x. x \<in> set xs \<Longrightarrow> serves P (wr x) r (f x)" and "length xs < 2 ^ 32"
  shows "serves P (write_list wr xs) (read_list P r) (map f xs)"
proof (rule servesI)
  fix w u
  have rest: "serves P (concat (map wr xs) @ [CListEnd])
    (rbind (read_times r (length xs)) (\<lambda>ys. rbind (rd_ListEnd P) (\<lambda>_. rret ys))) (map f xs)"
    using assms(1) by (intro serves_bind [where v = "map f xs"] serves_times serves_end)
  have "unat (of_nat (length xs) :: u32) = length xs"
    using assms(2) by (simp add: unat_of_nat take_bit_nat_eq_self)
  moreover assume "carry P (write_list wr xs) w = Some u"
  ultimately show "read_list P r w = Some (Inr (map f xs, u))"
    using servesD [OF rest] by (auto simp: write_list_def read_list_def bind_eq_Some_conv)
qed

lemma serves_list:
  assumes "\<And>x. x \<in> set xs \<Longrightarrow> serves P (wr x) r x" and "length xs < 2 ^ 32"
  shows "serves P (write_list wr xs) (read_list P r) xs"
  using serves_list_map [of xs P wr r "\<lambda>x. x", OF assms] by simp

lemma steps_Nil [simp]: "steps P step [] s s"
  by (simp add: steps_def)

lemma steps_append: "steps P step cs s t \<Longrightarrow> steps P step ds t t' \<Longrightarrow> steps P step (cs @ ds) s t'"
  by (auto simp: steps_def bind_eq_Some_conv)

lemma steps_field:
  assumes "t \<noteq> T_STOP" and "serves P cs (step t i s) s'"
  shows "steps P step (write_field name t i cs) s s'"
  using assms unfolding steps_def serves_def write_field_def
  by (auto simp: bind_eq_Some_conv read_fields.simps [of P step s])

lemma steps_opt:
  assumes "t \<noteq> T_STOP" and "\<And>v. x = Some v \<Longrightarrow> serves P (wr v) (step t i s) (put v s)"
  shows "steps P step (write_opt name t i wr x) s (case x of None \<Rightarrow> s | Some v \<Rightarrow> put v s)"
  using assms by (auto simp: write_opt_def intro: steps_field split: option.split)

lemma steps_read:
  assumes "steps P step body (a, {}) (a', seen)"
  shows "carry P (write_struct name body) w = Some u \<Longrightarrow>
    read_struct P step needed a w = (if needed \<subseteq> seen then Some (Inr (a', u)) else Some (Inl InvalidData))"
proof -
  assume "carry P (write_struct name body) w = Some u"
  then obtain nm w1 w2 w3 h where rd: "rd_StructBegin P w = Some (Inr (nm, w1))"
      "carry P body w1 = Some w2" "rd_FieldBegin P w2 = Some (Inr (h, w3))" "fst h = T_STOP"
      "rd_StructEnd P w3 = Some (Inr ((), u))"
    by (auto simp: write_struct_def bind_eq_Some_conv)
  then have "read_fields P step (a, {}) w1 = Some (Inr ((a', seen), w3))"
    using assms by (simp add: steps_def read_fields.simps [of P step "(a', seen)"])
  with rd show ?thesis
    by (simp add: read_struct_def rret_def rfail_def)
qed

lemma serves_struct:
  "needed \<subseteq> seen \<Longrightarrow> steps P step body (a, {}) (a', seen) \<Longrightarrow>
   serves P (write_struct name body) (read_struct P step needed a) a'"
  by (simp add: serves_def steps_read)

lemma serves_on_type: "serves P cs r v \<Longrightarrow> serves P cs (on_type P t t r put s) (put v s)"
  by (simp add: on_type_def serves_map [where f = "\<lambda>v. put v s"])

lemma steps_on_type:
  "t \<noteq> T_STOP \<Longrightarrow> step t i s = on_type P t t r put s \<Longrightarrow> serves P cs r v \<Longrightarrow>
   steps P step (write_field name t i cs) s (put v s)"
  by (simp add: steps_field serves_on_type)

lemma steps_opt_type:
  "t \<noteq> T_STOP \<Longrightarrow> step t i s = on_type P t t r put s \<Longrightarrow> (\<And>v. x = Some v \<Longrightarrow> serves P (wr v) r v) \<Longrightarrow>
   steps P step (write_opt name t i wr x) s (case x of None \<Rightarrow> s | Some v \<Rightarrow> put v s)"
  by (rule steps_opt) (simp_all add: serves_on_type)

lemma steps_eq: "steps P step cs s t \<Longrightarrow> t = t' \<Longrightarrow> steps P step cs s t'"
  by simp

lemma TagType_inverse [simp]: "TagType_of (TagType_value ty) = Some ty"
  by (cases ty) (simp_all add: TagType_of_def)

lemma SpanRefType_inverse [simp]: "SpanRefType_of (SpanRefType_value ty) = Some ty"
  by (cases ty) (simp_all add: SpanRefType_of_def)

lemmas wire_rules = serves_base serves_enum [where decode = TagType_of, OF TagType_inverse]
  serves_enum [where decode = SpanRefType_of, OF SpanRefType_inverse]

lemma put_defs: "required i put v (a, seen) = (put v a, insert i seen)" "optional put v (a, seen) = (put v a, seen)"
  by (simp_all add: required_def optional_def)

lemmas Tag_field_at =
  Tag_field_def [where fid = 1, simplified] Tag_field_def [where fid = 2, simplified]
  Tag_field_def [where fid = 3, simplified] Tag_field_def [where fid = 4, simplified]
  Tag_field_def [where fid = 5, simplified] Tag_field_def [where fid = 6, simplified]
  Tag_field_def [where fid = 7, simplified]

lemma Tag_serves: "serves P (Tag_write t) (Tag_read P thrift_tag0) t"
  unfolding Tag_write_def Tag_read_def
  by (rule serves_struct [where seen = "{1, 2}"], simp, rule steps_eq,
      (rule steps_append | rule steps_on_type steps_opt_type, simp, rule Tag_field_at, rule wire_rules)+)
    (cases t; auto simp: put_defs thrift_tag0_def split: option.splits)

text \<open>A list's length is sent in 32 bits.\<close>

definition fits :: "'a list \<Rightarrow> bool" where
  "fits xs \<longleftrightarrow> length xs < 2 ^ 32"

definition opt_fits :: "'a list option \<Rightarrow> bool" where
  "opt_fits x = (case x of None \<Rightarrow> True | Some xs \<Rightarrow> fits xs)"

definition Log_fits :: "thrift_log \<Rightarrow> bool" where
  "Log_fits l = fits (log_fields l)"

definition Span_fits :: "thrift_span \<Rightarrow> bool" where
  "Span_fits s = (opt_fits (span_references s) \<and> opt_fits (span_tags s) \<and> opt_fits (span_logs s) \<and>
     (\<forall>ls\<in>set_option (span_logs s). list_all Log_fits ls))"

definition Batch_fits :: "thrift_batch \<Rightarrow> bool" where
  "Batch_fits b = (opt_fits (process_tags (batch_process b)) \<and> fits (batch_spans b) \<and>
     list_all Span_fits (batch_spans b))"

lemma serves_fitting:
  "fits xs \<Longrightarrow> (\<And>x. x \<in> set xs \<Longrightarrow> serves P (wr x) r x) \<Longrightarrow> serves P (write_list wr xs) (read_list P r) xs"
  by (rule serves_list) (simp_all add: fits_def)

lemma opt_fits_Some [simp]: "opt_fits (Some xs) = fits xs"
  by (simp add: opt_fits_def)

lemmas Log_field_at =
  Log_field_def [where fid = 1, simplified] Log_field_def [where fid = 2, simplified]

lemma Log_serves:
  assumes "Log_fits l" shows "serves P (Log_write l) (Log_read P thrift_log0) l"
proof -
  have tags: "serves P (write_list Tag_write (log_fields l)) (read_list P (Tag_read P thrift_tag0)) (log_fields l)"
    using assms by (intro serves_fitting Tag_serves) (simp add: Log_fits_def)
  show ?thesis
    unfolding Log_write_def Log_read_def
    by (rule serves_struct [where seen = "{1, 2}"], simp, rule steps_eq,
        (rule steps_append | rule steps_on_type steps_opt_type, simp, rule Log_field_at, rule wire_rules tags)+)
      (cases l; auto simp: put_defs thrift_log0_def)
qed

lemmas SpanRef_field_at =
  SpanRef_field_def [where fid = 1, simplified] SpanRef_field_def [where fid = 2, simplified]
  SpanRef_field_def [where fid = 3, simplified] SpanRef_field_def [where fid = 4, simplified]

lemma SpanRef_serves: "serves P (SpanRef_write r) (SpanRef_read P thrift_span_ref0) r"
  unfolding SpanRef_write_def SpanRef_read_def
  by (rule serves_struct [where seen = "{1, 2, 3, 4}"], simp, rule steps_eq,
      (rule steps_append | rule steps_on_type steps_opt_type, simp, rule SpanRef_field_at, rule wire_rules)+)
    (cases r; auto simp: put_defs thrift_span_ref0_def)

lemmas Span_field_at =
  Span_field_def [where fid = 1, simplified] Span_field_def [where fid = 2, simplified]
  Span_field_def [where fid = 3, simplified] Span_field_def [where fid = 4, simplified]
  Span_field_def [where fid = 5, simplified] Span_field_def [where fid = 6, simplified]
  Span_field_def [where fid = 7, simplified] Span_field_def [where fid = 8, simplified]
  Span_field_def [where fid = 9, simplified] Span_field_def [where fid = 10, simplified]
  Span_field_def [where fid = 11, simplified]

lemma Span_serves:
  assumes "Span_fits s" shows "serves P (Span_write s) (Span_read P thrift_span0) s"
proof -
  have refs: "span_references s = Some v \<Longrightarrow>
      serves P (write_list SpanRef_write v) (read_list P (SpanRef_read P thrift_span_ref0)) v" for v
    using assms by (intro serves_fitting SpanRef_serves) (simp add: Span_fits_def)
  have tags: "span_tags s = Some v \<Longrightarrow>
      serves P (write_list Tag_write v) (read_list P (Tag_read P thrift_tag0)) v" for v
    using assms by (intro serves_fitting Tag_serves) (simp add: Span_fits_def)
  have logs: "span_logs s = Some v \<Longrightarrow>
      serves P (write_list Log_write v) (read_list P (Log_read P thrift_log0)) v" for v
    using assms by (intro serves_fitting Log_serves) (auto simp: Span_fits_def list_all_iff)
  show ?thesis
    unfolding Span_write_def Span_read_def
    by (rule serves_struct [where seen = "{1, 2, 3, 4, 5, 7, 8, 9}"], simp, rule steps_eq,
        (rule steps_append | rule steps_on_type steps_opt_type, simp, rule Span_field_at,
          (rule wire_rules | rule refs tags logs, assumption))+)
      (cases s; auto simp: put_defs thrift_span0_def split: option.splits)
qed

text \<open>A process is read over an older one: its tags stay when the new one has none.\<close>

definition merge_process :: "thrift_process \<Rightarrow> thrift_process \<Rightarrow> thrift_process" where
  "merge_process old p =
     p\<lparr>process_tags := (case process_tags p of None \<Rightarrow> process_tags old | Some tags \<Rightarrow> Some tags)\<rparr>"

lemma merge_process0 [simp]: "merge_process thrift_process0 p = p"
  by (cases p) (simp add: merge_process_def thrift_process0_def split: option.split)

lemmas Process_field_at =
  Process_field_def [where fid = 1, simplified] Process_field_def [where fid = 2, simplified]

lemma Process_serves:
  assumes "opt_fits (process_tags p)"
  shows "serves P (Process_write p) (Process_read P old) (merge_process old p)"
proof -
  have tags: "process_tags p = Some v \<Longrightarrow>
      serves P (write_list Tag_write v) (read_list P (Tag_read P thrift_tag0)) v" for v
    using assms by (intro serves_fitting Tag_serves) simp
  show ?thesis
    unfolding Process_write_def Process_read_def
    by (rule serves_struct [where seen = "{1}"], simp, rule steps_eq,
        (rule steps_append | rule steps_on_type steps_opt_type, simp, rule Process_field_at,
          (rule wire_rules | rule tags, assumption))+)
      (cases p; auto simp: put_defs merge_process_def split: option.splits)
qed

text \<open>The fields of a batch in any order and number: what is left of them in the structure.\<close>

datatype batch_part = is_ProcessPart: ProcessPart thrift_process | is_SpansPart: SpansPart "thrift_span list"

fun part_calls :: "batch_part \<Rightarrow> call list" where
  "part_calls (ProcessPart p) = write_field ''process'' T_STRUCT 1 (Process_write p)"
| "part_calls (SpansPart ss) = write_field ''spans'' T_LIST 2 (write_list Span_write ss)"

fun put_part :: "thrift_batch \<Rightarrow> batch_part \<Rightarrow> thrift_batch" where
  "put_part b (ProcessPart p) = b\<lparr>batch_process := merge_process (batch_process b) p\<rparr>"
| "put_part b (SpansPart ss) = b\<lparr>batch_spans := ss\<rparr>"

fun part_id :: "batch_part \<Rightarrow> int" where
  "part_id (ProcessPart _) = 1"
| "part_id (SpansPart _) = 2"

fun part_fits :: "batch_part \<Rightarrow> bool" where
  "part_fits (ProcessPart p) = opt_fits (process_tags p)"
| "part_fits (SpansPart ss) = (fits ss \<and> list_all Span_fits ss)"

lemmas Batch_field_at =
  Batch_field_def [where fid = 1, simplified] Batch_field_def [where fid = 2, simplified]

lemma part_steps:
  assumes "part_fits x"
  shows "steps P (Batch_field P) (part_calls x) (b, seen) (put_part b x, insert (part_id x) seen)"
proof (cases x)
  case (ProcessPart p)
  then have "serves P (Process_write p) (Process_read P (batch_process b)) (merge_process (batch_process b) p)"
    using assms by (intro Process_serves) simp
  then show ?thesis
    using ProcessPart steps_on_type [of T_STRUCT "Batch_field P" 1 "(b, seen)" P, OF _ Batch_field_at(1)]
    by (simp add: put_defs)
next
  case (SpansPart ss)
  then have "serves P (write_list Span_write ss) (read_list P (Span_read P thrift_span0)) ss"
    using assms by (intro serves_fitting Span_serves) (auto simp: list_all_iff)
  then show ?thesis
    using SpansPart steps_on_type [of T_LIST "Batch_field P" 2 "(b, seen)" P, OF _ Batch_field_at(2)]
    by (simp add: put_defs)
qed

lemma parts_steps:
  "list_all part_fits ps \<Longrightarrow>
   steps P (Batch_field P) (concat (map part_calls ps)) (b, seen) (foldl put_part b ps, part_id ` set ps \<union> seen)"
proof (induction ps arbitrary: b seen)
  case (Cons x ps)
  then have "steps P (Batch_field P) (part_calls x @ concat (map part_calls ps)) (b, seen)
      (foldl put_part (put_part b x) ps, part_id ` set ps \<union> insert (part_id x) seen)"
    by (intro steps_append [OF part_steps Cons.IH]) simp_all
  then show ?case by simp
qed simp

lemma part_id_image:
  "1 \<in> part_id ` set ps \<longleftrightarrow> list_ex is_ProcessPart ps"
  "2 \<in> part_id ` set ps \<longleftrightarrow> list_ex is_SpansPart ps"
proof -
  have "(1 = part_id x) = is_ProcessPart x" "(2 = part_id x) = is_SpansPart x" for x
    by (cases x; simp)+
  then show "1 \<in> part_id ` set ps \<longleftrightarrow> list_ex is_ProcessPart ps"
    and "2 \<in> part_id ` set ps \<longleftrightarrow> list_ex is_SpansPart ps"
    by (auto simp: image_iff list_ex_iff)
qed

lemma Batch_read_parts:
  "list_all part_fits ps \<Longrightarrow> carry P (write_struct name (concat (map part_calls ps))) w = Some u \<Longrightarrow>
   Batch_read P b w =
     Some (if list_ex is_ProcessPart ps \<and> list_ex is_SpansPart ps then Inr (foldl put_part b ps, u)
           else Inl InvalidData)"
  using steps_read [OF parts_steps [of ps P b "{}"], of name w u "{1, 2}"]
  by (simp add: Batch_read_def part_id_image)

lemma Batch_write_parts:
  "Batch_write b = write_struct ''Batch'' (concat (map part_calls [ProcessPart (batch_process b), SpansPart (batch_spans b)]))"
  by (simp add: Batch_write_def)

lemma Batch_serves:
  assumes "Batch_fits b" shows "serves P (Batch_write b) (Batch_read P thrift_batch0) b"
proof (rule servesI)
  fix w u assume "carry P (Batch_write b) w = Some u"
  with assms show "Batch_read P thrift_batch0 w = Some (Inr (b, u))"
    using Batch_read_parts [of "[ProcessPart (batch_process b), SpansPart (batch_spans b)]" P "''Batch''" w u thrift_batch0]
    by (simp add: Batch_write_parts Batch_fits_def) (simp add: thrift_batch0_def)
qed

lemmas emitBatch_args_field_at = emitBatch_args_field_def [where fid = 1, simplified]

lemma emitBatch_args_serves:
  assumes "Batch_fits b"
  shows "serves P (emitBatch_pargs_write b) (emitBatch_args_read P emitBatch_args0) \<lparr>args_batch = b, args_isset = True\<rparr>"
  unfolding emitBatch_pargs_write_def emitBatch_args_read_def
  by (rule serves_struct [where seen = "{}"], simp, rule steps_eq,
      rule steps_on_type, simp, rule emitBatch_args_field_at)
    (simp add: emitBatch_args0_def, rule Batch_serves [OF assms], simp add: put_defs emitBatch_args0_def)

lemma process_emitBatch_serves:
  assumes "Batch_fits b"
  shows "serves P (emitBatch_pargs_write b @ [CMessageEnd]) (process_emitBatch P) b"
  unfolding process_emitBatch_def
  by (rule serves_bind [OF emitBatch_args_serves [OF assms]]) (simp add: serves_end)

section \<open>Finite input\<close>

text \<open>
  A measure \<open>m\<close> of what is left to read: every operation of the protocol returns, none adds to
  what is left, and a field's header takes something off it.
\<close>

definition returns :: "('w \<Rightarrow> nat) \<Rightarrow> ('a, 'w) rd \<Rightarrow> bool" where
  "returns m r \<longleftrightarrow> (\<forall>w. \<exists>res. r w = Some res \<and> (\<forall>v u. res = Inr (v, u) \<longrightarrow> m u \<le> m w))"

definition finite_input :: "'w protocol \<Rightarrow> ('w \<Rightarrow> nat) \<Rightarrow> bool" where
  "finite_input P m \<longleftrightarrow>
     returns m (rd_MessageEnd P) \<and> returns m (rd_StructBegin P) \<and> returns m (rd_StructEnd P) \<and>
     returns m (rd_FieldBegin P) \<and> returns m (rd_FieldEnd P) \<and> returns m (rd_ListBegin P) \<and>
     returns m (rd_ListEnd P) \<and> returns m (rd_String P) \<and> returns m (rd_Binary P) \<and>
     returns m (rd_I16 P) \<and> returns m (rd_I32 P) \<and> returns m (rd_I64 P) \<and> returns m (rd_Double P) \<and>
     returns m (rd_Bool P) \<and> (\<forall>t. returns m (rd_skip P t)) \<and>
     (\<forall>w h u. rd_FieldBegin P w = Some (Inr (h, u)) \<longrightarrow> m u < m w)"

lemma returnsE:
  assumes "returns m r"
  obtains (Fails) e where "r w = Some (Inl e)" | (Reads) v u where "r w = Some (Inr (v, u))" "m u \<le> m w"
  using assms unfolding returns_def by (metis obj_sumE surj_pair)

lemma returns_rret [simp]: "returns m (rret v)"
  by (simp add: returns_def rret_def)

lemma returns_rfail [simp]: "returns m (rfail e)"
  by (simp add: returns_def rfail_def)

lemma returns_bind: "returns m r \<Longrightarrow> (\<And>v. returns m (k v)) \<Longrightarrow> returns m (rbind r k)"
  unfolding returns_def [of m "rbind r k"]
proof
  fix w assume r: "returns m r" and k: "\<And>v. returns m (k v)"
  show "\<exists>res. rbind r k w = Some res \<and> (\<forall>v u. res = Inr (v, u) \<longrightarrow> m u \<le> m w)"
    using r
  proof (cases rule: returnsE [where w = w])
    case (Reads v u)
    show ?thesis using k [of v]
      by (cases rule: returnsE [where w = u]) (use Reads in \<open>auto intro: order_trans\<close>)
  qed (simp add: rbind_def)
qed

lemma returns_fields:
  assumes "finite_input P m" and step: "\<And>t i s. returns m (step t i s)"
  shows "returns m (read_fields P step s)"
  unfolding returns_def
proof
  have fb: "returns m (rd_FieldBegin P)" and fe: "returns m (rd_FieldEnd P)"
    and dec: "\<And>w h u. rd_FieldBegin P w = Some (Inr (h, u)) \<Longrightarrow> m u < m w"
    using assms(1) by (auto simp: finite_input_def)
  fix w
  show "\<exists>res. read_fields P step s w = Some res \<and> (\<forall>v u. res = Inr (v, u) \<longrightarrow> m u \<le> m w)"
  proof (induction "m w" arbitrary: w s rule: less_induct)
    case less
    show ?case using fb
    proof (cases rule: returnsE [where w = w])
      case (Reads h w1)
      show ?thesis using step [of "fst h" "snd h" s]
      proof (cases rule: returnsE [where w = w1])
        case step1: (Reads s1 w2)
        show ?thesis using fe
        proof (cases rule: returnsE [where w = w2])
          case end1: (Reads x w3)
          have "m w3 < m w" using dec [OF Reads(1)] step1(2) end1(2) by simp
          then show ?thesis using less [of w3 s1] Reads step1(1) end1(1)
            by (auto simp: read_fields.simps [of P step s w] intro: order_trans less_imp_le)
        qed (use Reads step1 in \<open>simp add: read_fields.simps [of P step s w]\<close>)
      qed (use Reads in \<open>simp add: read_fields.simps [of P step s w]\<close>)
    qed (simp add: read_fields.simps [of P step s w])
  qed
qed

lemma returns_struct:
  "finite_input P m \<Longrightarrow> (\<And>t i s. returns m (step t i s)) \<Longrightarrow> returns m (read_struct P step needed a)"
  unfolding read_struct_def
  by (intro returns_bind) (auto simp: finite_input_def split: prod.split intro!: returns_bind returns_fields)

lemma returns_on_type: "finite_input P m \<Longrightarrow> returns m r \<Longrightarrow> returns m (on_type P ft t r put s)"
  by (auto simp: on_type_def finite_input_def intro!: returns_bind)

lemma returns_skip: "finite_input P m \<Longrightarrow> returns m (skip_field P ft s)"
  by (auto simp: skip_field_def finite_input_def intro!: returns_bind)

lemma returns_times: "returns m r \<Longrightarrow> returns m (read_times r n)"
  by (induction n) (auto intro!: returns_bind)

lemma returns_list: "finite_input P m \<Longrightarrow> returns m r \<Longrightarrow> returns m (read_list P r)"
  by (auto simp: read_list_def finite_input_def intro!: returns_bind returns_times split: prod.split)

lemma returns_enum: "finite_input P m \<Longrightarrow> returns m (read_enum P decode)"
  by (auto simp: read_enum_def finite_input_def intro!: returns_bind split: option.split)

lemma returns_base:
  "finite_input P m \<Longrightarrow> returns m (rd_String P)" "finite_input P m \<Longrightarrow> returns m (rd_Binary P)"
  "finite_input P m \<Longrightarrow> returns m (rd_I16 P)" "finite_input P m \<Longrightarrow> returns m (rd_I32 P)" "finite_input P m \<Longrightarrow> returns m (rd_I64 P)"
  "finite_input P m \<Longrightarrow> returns m (rd_Double P)" "finite_input P m \<Longrightarrow> returns m (rd_Bool P)"
  "finite_input P m \<Longrightarrow> returns m (rd_MessageEnd P)"
  by (simp_all add: finite_input_def)

lemmas returns_rules = returns_struct returns_on_type returns_skip returns_list returns_enum returns_base

lemma returns_Tag: "finite_input P m \<Longrightarrow> returns m (Tag_read P t)"
  by (auto simp: Tag_read_def Tag_field_def intro!: returns_rules)

lemma returns_Log: "finite_input P m \<Longrightarrow> returns m (Log_read P l)"
  by (auto simp: Log_read_def Log_field_def intro!: returns_rules returns_Tag)

lemma returns_SpanRef: "finite_input P m \<Longrightarrow> returns m (SpanRef_read P r)"
  by (auto simp: SpanRef_read_def SpanRef_field_def intro!: returns_rules)

lemma returns_Span: "finite_input P m \<Longrightarrow> returns m (Span_read P s)"
  by (auto simp: Span_read_def Span_field_def intro!: returns_rules returns_Tag returns_Log returns_SpanRef)

lemma returns_Process: "finite_input P m \<Longrightarrow> returns m (Process_read P p)"
  by (auto simp: Process_read_def Process_field_def intro!: returns_rules returns_Tag)

lemma returns_Batch: "finite_input P m \<Longrightarrow> returns m (Batch_read P b)"
  by (auto simp: Batch_read_def Batch_field_def intro!: returns_rules returns_Process returns_Span)

lemma returns_process_emitBatch: "finite_input P m \<Longrightarrow> returns m (process_emitBatch P)"
  by (auto simp: process_emitBatch_def emitBatch_args_read_def emitBatch_args_field_def
      intro!: returns_bind returns_rules returns_Batch)

section \<open>A protocol\<close>

text \<open>
  A concrete instance: the calls themselves as the medium. A value of a structure or list type is
  skipped up to its matching end.
\<close>

definition pop :: "(call \<Rightarrow> 'a option) \<Rightarrow> ('a, call list) rd" where
  "pop f w =
     (case w of
        [] \<Rightarrow> Some (Inl (ProtocolFailure ''end of input''))
      | c # cs \<Rightarrow> (case f c of None \<Rightarrow> Some (Inl (ProtocolFailure ''unexpected'')) | Some v \<Rightarrow> Some (Inr (v, cs))))"

fun skip_tokens :: "nat \<Rightarrow> call list \<Rightarrow> (read_error + unit \<times> call list) option" where
  "skip_tokens depth [] = Some (Inl (ProtocolFailure ''end of input''))"
| "skip_tokens depth (c # cs) =
     (let d = (case c of CStructBegin _ \<Rightarrow> depth + 1 | CListBegin _ _ \<Rightarrow> depth + 1
               | CStructEnd \<Rightarrow> depth - 1 | CListEnd \<Rightarrow> depth - 1 | _ \<Rightarrow> depth)
      in if d = 0 then Some (Inr ((), cs)) else skip_tokens d cs)"

definition tokens :: "call list protocol" where
  "tokens =
     \<lparr>rd_MessageBegin = pop (\<lambda>c. case c of CMessageBegin n t i \<Rightarrow> Some (n, t, i) | _ \<Rightarrow> None),
      rd_MessageEnd = pop (\<lambda>c. case c of CMessageEnd \<Rightarrow> Some () | _ \<Rightarrow> None),
      rd_StructBegin = pop (\<lambda>c. case c of CStructBegin n \<Rightarrow> Some n | _ \<Rightarrow> None),
      rd_StructEnd = pop (\<lambda>c. case c of CStructEnd \<Rightarrow> Some () | _ \<Rightarrow> None),
      rd_FieldBegin = pop (\<lambda>c. case c of CFieldBegin _ t i \<Rightarrow> Some (t, i) | CFieldStop \<Rightarrow> Some (T_STOP, 0) | _ \<Rightarrow> None),
      rd_FieldEnd = pop (\<lambda>c. case c of CFieldEnd \<Rightarrow> Some () | _ \<Rightarrow> None),
      rd_ListBegin = pop (\<lambda>c. case c of CListBegin t n \<Rightarrow> Some (t, n) | _ \<Rightarrow> None),
      rd_ListEnd = pop (\<lambda>c. case c of CListEnd \<Rightarrow> Some () | _ \<Rightarrow> None),
      rd_String = pop (\<lambda>c. case c of CString v \<Rightarrow> Some v | _ \<Rightarrow> None),
      rd_Binary = pop (\<lambda>c. case c of CBinary v \<Rightarrow> Some v | _ \<Rightarrow> None),
      rd_I16 = pop (\<lambda>c. case c of CI16 v \<Rightarrow> Some v | _ \<Rightarrow> None),
      rd_I32 = pop (\<lambda>c. case c of CI32 v \<Rightarrow> Some v | _ \<Rightarrow> None),
      rd_I64 = pop (\<lambda>c. case c of CI64 v \<Rightarrow> Some v | _ \<Rightarrow> None),
      rd_Double = pop (\<lambda>c. case c of CDouble v \<Rightarrow> Some v | _ \<Rightarrow> None),
      rd_Bool = pop (\<lambda>c. case c of CBool v \<Rightarrow> Some v | _ \<Rightarrow> None),
      rd_skip = (\<lambda>t. skip_tokens 0)\<rparr>"

lemma tokens_carry: "carry tokens cs (cs @ w) = Some w"
proof (induction cs)
  case (Cons c cs)
  have "read_back tokens c (c # cs @ w) = Some (cs @ w)"
    by (cases c) (simp_all add: tokens_def expect_def pop_def)
  with Cons show ?case by simp
qed simp

lemma tokens_carry_all: "carry tokens cs cs = Some []"
  using tokens_carry [of cs "[]"] by simp

lemma pop_Inr: "pop f w = Some (Inr (v, u)) \<Longrightarrow> length u < length w"
  by (auto simp: pop_def split: list.splits option.splits)

lemma returns_pop: "returns length (pop f)"
  by (auto simp: returns_def pop_def split: list.splits option.splits)

lemma returns_skip_tokens: "returns length (skip_tokens d)"
proof -
  have "\<exists>res. skip_tokens d w = Some res \<and> (\<forall>v u. res = Inr (v, u) \<longrightarrow> length u \<le> length w)" for w
    by (induction d w rule: skip_tokens.induct) (auto simp: Let_def intro: le_SucI)
  then show ?thesis by (simp add: returns_def)
qed

lemma tokens_finite: "finite_input tokens length"
  by (auto simp: finite_input_def tokens_def returns_pop returns_skip_tokens dest: pop_Inr)

definition example_thrift_batch :: thrift_batch where
  "example_thrift_batch =
     \<lparr>batch_process = \<lparr>process_serviceName = ''svc'',
        process_tags = Some [Tag_thrift (Tag ''hostname'' (VString ''h'')) thrift_tag0]\<rparr>,
      batch_spans =
        [thrift_span0\<lparr>span_traceIdLow := 7, span_operationName := ''op'',
           span_references := Some [thrift_span_ref0\<lparr>refType := FOLLOWS_FROM, ref_spanId := 3\<rparr>],
           span_tags := Some [Tag_thrift (Tag ''n'' (VInt64 5)) thrift_tag0],
           span_logs := Some [\<lparr>log_timestamp = 9, log_fields = [Tag_thrift (Tag ''ok'' (VBool True)) thrift_tag0]\<rparr>]\<rparr>,
         thrift_span0]\<rparr>"

lemma example_fits: "Batch_fits example_thrift_batch"
  by (simp add: example_thrift_batch_def Batch_fits_def Span_fits_def Log_fits_def opt_fits_def fits_def thrift_span0_def)

section \<open>Properties\<close>

text \<open>C12. The agent receives the batch the client sends: over any protocol that gives back what
  the client's calls wrote, the message is the one-way call \<open>emitBatch\<close>, and dispatching it reads
  the arguments and gives the handler exactly the batch, with all its spans, references, tags and
  logs, leaving the input where the message ends. Lists must be shorter than 2^32.\<close>

theorem emitBatch_roundtrip:
  assumes "Batch_fits b" and "carry P (send_emitBatch b) w = Some u"
    and "processMap ''emitBatch'' = Some (process_emitBatch P)"
  shows "\<exists>w1. rd_MessageBegin P w = Some (Inr ((''emitBatch'', T_ONEWAY, 0), w1)) \<and>
    dispatchCall P processMap ''emitBatch'' w1 = Some (Inr (Inr b, u))"
proof -
  obtain w1 where w1: "rd_MessageBegin P w = Some (Inr ((''emitBatch'', T_ONEWAY, 0), w1))"
    and rest: "carry P (emitBatch_pargs_write b @ [CMessageEnd]) w1 = Some u"
    using assms(2) by (auto simp: send_emitBatch_def bind_eq_Some_conv)
  from servesD [OF process_emitBatch_serves [OF assms(1)] rest]
  have "dispatchCall P processMap ''emitBatch'' w1 = Some (Inr (Inr b, u))"
    using assms(3) by (simp add: dispatchCall_def rret_def)
  with w1 show ?thesis by blast
qed

theorem emitBatch_roundtrip_witness:
  "\<exists>w1. rd_MessageBegin tokens (send_emitBatch example_thrift_batch) =
      Some (Inr ((''emitBatch'', T_ONEWAY, 0), w1)) \<and>
    dispatchCall tokens [''emitBatch'' \<mapsto> process_emitBatch tokens] ''emitBatch'' w1 =
      Some (Inr (Inr example_thrift_batch, []))"
  by (rule emitBatch_roundtrip [OF example_fits tokens_carry_all]) simp

text \<open>C27. A batch is accepted exactly when both its required fields arrive, in whatever order and
  however often: then the last list of spans wins, and each process is read over the one before;
  with either field missing the reader throws \<open>INVALID_DATA\<close>.\<close>

theorem batch_required_fields:
  assumes "list_all part_fits parts" and "carry P (write_struct name (concat (map part_calls parts))) w = Some u"
  shows "Batch_read P b w =
    Some (if list_ex is_ProcessPart parts \<and> list_ex is_SpansPart parts then Inr (foldl put_part b parts, u)
          else Inl InvalidData)"
  using assms by (rule Batch_read_parts)

theorem batch_required_fields_witness:
  "Batch_read tokens thrift_batch0 (write_struct ''Batch'' (part_calls (SpansPart [thrift_span0]))) =
     Some (Inl InvalidData) \<and>
   Batch_read tokens thrift_batch0 (write_struct ''Batch'' (concat (map part_calls
       [SpansPart [thrift_span0], ProcessPart \<lparr>process_serviceName = ''a'', process_tags = Some []\<rparr>,
        ProcessPart \<lparr>process_serviceName = ''b'', process_tags = None\<rparr>]))) =
     Some (Inr (\<lparr>batch_process = \<lparr>process_serviceName = ''b'', process_tags = Some []\<rparr>,
       batch_spans = [thrift_span0]\<rparr>, []))"
  using batch_required_fields [of "[SpansPart [thrift_span0]]", OF _ tokens_carry_all]
    batch_required_fields [of "[SpansPart [thrift_span0], ProcessPart \<lparr>process_serviceName = ''a'', process_tags = Some []\<rparr>,
        ProcessPart \<lparr>process_serviceName = ''b'', process_tags = None\<rparr>]", OF _ tokens_carry_all]
  by (simp add: fits_def Span_fits_def opt_fits_def thrift_span0_def thrift_batch0_def merge_process_def)

text \<open>C13. The agent's reading of a call always ends, whatever the bytes are: over a finite input
  it returns a batch or an exception, and never reads backwards.\<close>

theorem process_emitBatch_terminates:
  assumes "finite_input P m"
  shows "\<exists>res. process_emitBatch P w = Some res \<and> (\<forall>b u. res = Inr (b, u) \<longrightarrow> m u \<le> m w)"
  using returns_process_emitBatch [OF assms] by (simp add: returns_def)

theorem process_emitBatch_terminates_witness:
  "\<exists>res. process_emitBatch tokens [CStructBegin ''args'', CFieldBegin ''batch'' T_STRUCT 1] = Some res \<and>
     (\<forall>b u. res = Inr (b, u) \<longrightarrow> length u \<le> 2)"
  using process_emitBatch_terminates [OF tokens_finite, of "[CStructBegin ''args'', CFieldBegin ''batch'' T_STRUCT 1]"]
  by (simp add: numeral_2_eq_2)

end
