(* ===== verification/ThriftSampling.thy ===== *)
theory ThriftSampling
  imports ThriftLaws Samplers
begin

text \<open>
  What an agent answers about sampling and baggage: the structures of \<^verbatim>\<open>thrift-gen/sampling_types.cpp\<close>
  and \<^verbatim>\<open>thrift-gen/baggage_types.cpp\<close> in the manner of \<^verbatim>\<open>ThriftStructs\<close>. The records are those the
  samplers use, where a structure of one field is the field's value.
\<close>

section \<open>The structures of \<^verbatim>\<open>sampling.thrift\<close>\<close>

definition StrategyType_of :: "32 word \<Rightarrow> strategy_type option" where
  "StrategyType_of n = (if n = 0 then Some PROBABILISTIC else if n = 1 then Some RATE_LIMITING else None)"

primrec StrategyType_value :: "strategy_type \<Rightarrow> 32 word" where
  "StrategyType_value PROBABILISTIC = 0"
| "StrategyType_value RATE_LIMITING = 1"

definition ProbabilisticStrategy_field ::
  "'w protocol \<Rightarrow> ttype \<Rightarrow> int \<Rightarrow> double \<times> int set \<Rightarrow> (double \<times> int set, 'w) rd" where
  "ProbabilisticStrategy_field P ft fid s =
     (if fid = 1 then on_type P ft T_DOUBLE (rd_Double P) (required 1 (\<lambda>v _. v)) s
      else skip_field P ft s)"

definition ProbabilisticStrategy_read :: "'w protocol \<Rightarrow> double \<Rightarrow> (double, 'w) rd" where
  "ProbabilisticStrategy_read P = read_struct P (ProbabilisticStrategy_field P) {1}"

definition ProbabilisticStrategy_write :: "double \<Rightarrow> call list" where
  "ProbabilisticStrategy_write rate = write_struct ''ProbabilisticSamplingStrategy''
     (write_field ''samplingRate'' T_DOUBLE 1 [CDouble rate])"

text \<open>The rate of a rate limiting strategy is an \<^verbatim>\<open>int16_t\<close>.\<close>

definition RateLimitingStrategy_field ::
  "'w protocol \<Rightarrow> ttype \<Rightarrow> int \<Rightarrow> int \<times> int set \<Rightarrow> (int \<times> int set, 'w) rd" where
  "RateLimitingStrategy_field P ft fid s =
     (if fid = 1 then on_type P ft T_I16 (rd_I16 P) (required 1 (\<lambda>v _. sint v)) s
      else skip_field P ft s)"

definition RateLimitingStrategy_read :: "'w protocol \<Rightarrow> int \<Rightarrow> (int, 'w) rd" where
  "RateLimitingStrategy_read P = read_struct P (RateLimitingStrategy_field P) {1}"

definition RateLimitingStrategy_write :: "int \<Rightarrow> call list" where
  "RateLimitingStrategy_write n = write_struct ''RateLimitingSamplingStrategy''
     (write_field ''maxTracesPerSecond'' T_I16 1 [CI16 (word_of_int n)])"

definition operation_strategy0 :: operation_strategy where
  "operation_strategy0 = \<lparr>os_operation = [], os_samplingRate = 0\<rparr>"

definition OperationStrategy_field ::
  "'w protocol \<Rightarrow> ttype \<Rightarrow> int \<Rightarrow> operation_strategy \<times> int set \<Rightarrow> (operation_strategy \<times> int set, 'w) rd" where
  "OperationStrategy_field P ft fid s =
     (if fid = 1 then on_type P ft T_STRING (rd_String P) (required 1 (\<lambda>v. os_operation_update (\<lambda>_. v))) s
      else if fid = 2 then on_type P ft T_STRUCT (ProbabilisticStrategy_read P (os_samplingRate (fst s)))
        (required 2 (\<lambda>v. os_samplingRate_update (\<lambda>_. v))) s
      else skip_field P ft s)"

definition OperationStrategy_read :: "'w protocol \<Rightarrow> operation_strategy \<Rightarrow> (operation_strategy, 'w) rd" where
  "OperationStrategy_read P = read_struct P (OperationStrategy_field P) {1, 2}"

definition OperationStrategy_write :: "operation_strategy \<Rightarrow> call list" where
  "OperationStrategy_write s = write_struct ''OperationSamplingStrategy''
     (write_field ''operation'' T_STRING 1 [CString (os_operation s)] @
      write_field ''probabilisticSampling'' T_STRUCT 2 (ProbabilisticStrategy_write (os_samplingRate s)))"

definition per_operation_strategies0 :: per_operation_strategies where
  "per_operation_strategies0 = \<lparr>defaultSamplingProbability = 0, defaultLowerBoundTracesPerSecond = 0,
     perOperationStrategies = [], defaultUpperBoundTracesPerSecond = None\<rparr>"

definition PerOperationStrategies_field ::
  "'w protocol \<Rightarrow> ttype \<Rightarrow> int \<Rightarrow> per_operation_strategies \<times> int set \<Rightarrow>
   (per_operation_strategies \<times> int set, 'w) rd" where
  "PerOperationStrategies_field P ft fid s =
     (if fid = 1 then on_type P ft T_DOUBLE (rd_Double P)
        (required 1 (\<lambda>v. defaultSamplingProbability_update (\<lambda>_. v))) s
      else if fid = 2 then on_type P ft T_DOUBLE (rd_Double P)
        (required 2 (\<lambda>v. defaultLowerBoundTracesPerSecond_update (\<lambda>_. v))) s
      else if fid = 3 then on_type P ft T_LIST (read_list P (OperationStrategy_read P operation_strategy0))
        (required 3 (\<lambda>v. perOperationStrategies_update (\<lambda>_. v))) s
      else if fid = 4 then on_type P ft T_DOUBLE (rd_Double P)
        (optional (\<lambda>v. defaultUpperBoundTracesPerSecond_update (\<lambda>_. Some v))) s
      else skip_field P ft s)"

definition PerOperationStrategies_read ::
  "'w protocol \<Rightarrow> per_operation_strategies \<Rightarrow> (per_operation_strategies, 'w) rd" where
  "PerOperationStrategies_read P = read_struct P (PerOperationStrategies_field P) {1, 2, 3}"

definition PerOperationStrategies_write :: "per_operation_strategies \<Rightarrow> call list" where
  "PerOperationStrategies_write s = write_struct ''PerOperationSamplingStrategies''
     (write_field ''defaultSamplingProbability'' T_DOUBLE 1 [CDouble (defaultSamplingProbability s)] @
      write_field ''defaultLowerBoundTracesPerSecond'' T_DOUBLE 2 [CDouble (defaultLowerBoundTracesPerSecond s)] @
      write_field ''perOperationStrategies'' T_LIST 3 (write_list OperationStrategy_write (perOperationStrategies s)) @
      write_opt ''defaultUpperBoundTracesPerSecond'' T_DOUBLE 4 (\<lambda>v. [CDouble v])
        (defaultUpperBoundTracesPerSecond s))"

text \<open>An optional structure is read in place: over the default, or over what is there.\<close>

definition StrategyResponse_field ::
  "'w protocol \<Rightarrow> ttype \<Rightarrow> int \<Rightarrow> strategy_response \<times> int set \<Rightarrow> (strategy_response \<times> int set, 'w) rd" where
  "StrategyResponse_field P ft fid s =
     (if fid = 1 then on_type P ft T_I32 (read_enum P StrategyType_of)
        (required 1 (\<lambda>v. strategyType_update (\<lambda>_. v))) s
      else if fid = 2 then on_type P ft T_STRUCT
        (ProbabilisticStrategy_read P (case resp_probabilistic (fst s) of None \<Rightarrow> 0 | Some v \<Rightarrow> v))
        (optional (\<lambda>v. resp_probabilistic_update (\<lambda>_. Some v))) s
      else if fid = 3 then on_type P ft T_STRUCT
        (RateLimitingStrategy_read P (case resp_rateLimiting (fst s) of None \<Rightarrow> 0 | Some v \<Rightarrow> v))
        (optional (\<lambda>v. resp_rateLimiting_update (\<lambda>_. Some v))) s
      else if fid = 4 then on_type P ft T_STRUCT
        (PerOperationStrategies_read P
          (case resp_operation (fst s) of None \<Rightarrow> per_operation_strategies0 | Some v \<Rightarrow> v))
        (optional (\<lambda>v. resp_operation_update (\<lambda>_. Some v))) s
      else skip_field P ft s)"

definition StrategyResponse_read :: "'w protocol \<Rightarrow> strategy_response \<Rightarrow> (strategy_response, 'w) rd" where
  "StrategyResponse_read P = read_struct P (StrategyResponse_field P) {1}"

definition StrategyResponse_write :: "strategy_response \<Rightarrow> call list" where
  "StrategyResponse_write r = write_struct ''SamplingStrategyResponse''
     (write_field ''strategyType'' T_I32 1 [CI32 (StrategyType_value (strategyType r))] @
      write_opt ''probabilisticSampling'' T_STRUCT 2 ProbabilisticStrategy_write (resp_probabilistic r) @
      write_opt ''rateLimitingSampling'' T_STRUCT 3 RateLimitingStrategy_write (resp_rateLimiting r) @
      write_opt ''operationSampling'' T_STRUCT 4 PerOperationStrategies_write (resp_operation r))"

section \<open>The structure of \<^verbatim>\<open>baggage.thrift\<close>\<close>

definition BaggageRestriction_field ::
  "'w protocol \<Rightarrow> ttype \<Rightarrow> int \<Rightarrow> (string \<times> int) \<times> int set \<Rightarrow> ((string \<times> int) \<times> int set, 'w) rd" where
  "BaggageRestriction_field P ft fid s =
     (if fid = 1 then on_type P ft T_STRING (rd_String P) (required 1 (\<lambda>v r. (v, snd r))) s
      else if fid = 2 then on_type P ft T_I32 (rd_I32 P) (required 2 (\<lambda>v r. (fst r, sint v))) s
      else skip_field P ft s)"

definition BaggageRestriction_read :: "'w protocol \<Rightarrow> string \<times> int \<Rightarrow> (string \<times> int, 'w) rd" where
  "BaggageRestriction_read P = read_struct P (BaggageRestriction_field P) {1, 2}"

definition BaggageRestriction_write :: "string \<times> int \<Rightarrow> call list" where
  "BaggageRestriction_write r = write_struct ''BaggageRestriction''
     (write_field ''baggageKey'' T_STRING 1 [CString (fst r)] @
      write_field ''maxValueLength'' T_I32 2 [CI32 (word_of_int (snd r))])"

section \<open>Round trip\<close>

lemma StrategyType_inverse [simp]: "StrategyType_of (StrategyType_value ty) = Some ty"
  by (cases ty) (simp_all add: StrategyType_of_def)

lemmas Strategy_fields_at =
  ProbabilisticStrategy_field_def [where fid = 1, simplified]
  RateLimitingStrategy_field_def [where fid = 1, simplified]
  OperationStrategy_field_def [where fid = 1, simplified] OperationStrategy_field_def [where fid = 2, simplified]
  PerOperationStrategies_field_def [where fid = 1, simplified]
  PerOperationStrategies_field_def [where fid = 2, simplified]
  PerOperationStrategies_field_def [where fid = 3, simplified]
  PerOperationStrategies_field_def [where fid = 4, simplified]
  StrategyResponse_field_def [where fid = 1, simplified] StrategyResponse_field_def [where fid = 2, simplified]
  StrategyResponse_field_def [where fid = 3, simplified] StrategyResponse_field_def [where fid = 4, simplified]
  BaggageRestriction_field_def [where fid = 1, simplified] BaggageRestriction_field_def [where fid = 2, simplified]

lemma ProbabilisticStrategy_serves:
  "serves P (ProbabilisticStrategy_write r) (ProbabilisticStrategy_read P old) r"
  unfolding ProbabilisticStrategy_write_def ProbabilisticStrategy_read_def
  by (rule serves_struct [where seen = "{1}"], simp, rule steps_eq,
      rule steps_on_type, simp, rule Strategy_fields_at, rule wire_rules)
    (simp add: put_defs)

lemma RateLimitingStrategy_serves:
  assumes "in_int16 n"
  shows "serves P (RateLimitingStrategy_write n) (RateLimitingStrategy_read P old) n"
  unfolding RateLimitingStrategy_write_def RateLimitingStrategy_read_def
  by (rule serves_struct [where seen = "{1}"], simp, rule steps_eq,
      rule steps_on_type, simp, rule Strategy_fields_at, rule wire_rules)
    (use assms in \<open>simp add: put_defs \<close>)

lemma OperationStrategy_serves:
  "serves P (OperationStrategy_write s) (OperationStrategy_read P old) s"
  unfolding OperationStrategy_write_def OperationStrategy_read_def
  by (rule serves_struct [where seen = "{1, 2}"], simp, rule steps_eq,
      (rule steps_append | rule steps_on_type, simp, rule Strategy_fields_at,
        rule wire_rules ProbabilisticStrategy_serves)+)
    (cases s; auto simp: put_defs)

lemma PerOperationStrategies_serves:
  assumes "fits (perOperationStrategies s)"
  shows "serves P (PerOperationStrategies_write s) (PerOperationStrategies_read P per_operation_strategies0) s"
proof -
  have ops: "serves P (write_list OperationStrategy_write (perOperationStrategies s))
      (read_list P (OperationStrategy_read P operation_strategy0)) (perOperationStrategies s)"
    using assms by (intro serves_fitting OperationStrategy_serves)
  show ?thesis
    unfolding PerOperationStrategies_write_def PerOperationStrategies_read_def
    by (rule serves_struct [where seen = "{1, 2, 3}"], simp, rule steps_eq,
        (rule steps_append | rule steps_on_type steps_opt_type, simp, rule Strategy_fields_at, rule wire_rules ops)+)
      (cases s; auto simp: put_defs per_operation_strategies0_def split: option.splits)
qed

definition response_fits :: "strategy_response \<Rightarrow> bool" where
  "response_fits r =
     ((case resp_rateLimiting r of None \<Rightarrow> True | Some n \<Rightarrow> in_int16 n) \<and>
      (case resp_operation r of None \<Rightarrow> True | Some s \<Rightarrow> fits (perOperationStrategies s)))"

lemma StrategyResponse_serves:
  assumes "response_fits r"
  shows "serves P (StrategyResponse_write r) (StrategyResponse_read P strategy_response0) r"
proof -
  have rate: "resp_rateLimiting r = Some v \<Longrightarrow>
      serves P (RateLimitingStrategy_write v) (RateLimitingStrategy_read P old) v" for v old
    using assms by (intro RateLimitingStrategy_serves) (simp_all add: response_fits_def)
  have ops: "resp_operation r = Some v \<Longrightarrow> old = per_operation_strategies0 \<Longrightarrow>
      serves P (PerOperationStrategies_write v) (PerOperationStrategies_read P old) v" for v old
    using assms by (simp add: PerOperationStrategies_serves response_fits_def)
  show ?thesis
    unfolding StrategyResponse_write_def StrategyResponse_read_def
    by (rule serves_struct [where seen = "{1}"], simp, rule steps_eq,
        (rule steps_append | rule steps_on_type steps_opt_type, simp, rule Strategy_fields_at,
          (rule wire_rules ProbabilisticStrategy_serves
             serves_enum [where decode = StrategyType_of, OF StrategyType_inverse]
           | rule rate, assumption
           | rule ops, assumption, simp add: put_defs strategy_response0_def split: option.split))+)
      (cases r; auto simp: put_defs strategy_response0_def split: option.splits)
qed

lemma BaggageRestriction_serves:
  assumes "INT_MIN \<le> snd r" and "snd r \<le> INT_MAX"
  shows "serves P (BaggageRestriction_write r) (BaggageRestriction_read P old) r"
  unfolding BaggageRestriction_write_def BaggageRestriction_read_def
  by (rule serves_struct [where seen = "{1, 2}"], simp, rule steps_eq,
      (rule steps_append | rule steps_on_type, simp, rule Strategy_fields_at, rule wire_rules)+)
    (use assms in \<open>auto simp: put_defs sint32\<close>)

section \<open>Properties\<close>

text \<open>A sampling strategy is read from a protocol as it was written to it, whichever of the
  three strategies it has, each operation with its rate; the rate limit must be an \<^verbatim>\<open>int16_t\<close>.\<close>

theorem strategy_thrift_roundtrip:
  assumes "response_fits r" and "carry P (StrategyResponse_write r) w = Some u"
  shows "StrategyResponse_read P strategy_response0 w = Some (Inr (r, u))"
  using servesD [OF StrategyResponse_serves [OF assms(1)] assms(2)] .

theorem strategy_thrift_roundtrip_witness:
  "StrategyResponse_read tokens strategy_response0
     (StrategyResponse_write (strategy_response0\<lparr>resp_rateLimiting := Some 7, resp_operation := Some
        (per_operation_strategies0\<lparr>perOperationStrategies := [\<lparr>os_operation = ''op'', os_samplingRate = 1\<rparr>]\<rparr>)\<rparr>)) =
   Some (Inr (strategy_response0\<lparr>resp_rateLimiting := Some 7, resp_operation := Some
        (per_operation_strategies0\<lparr>perOperationStrategies := [\<lparr>os_operation = ''op'', os_samplingRate = 1\<rparr>]\<rparr>)\<rparr>, []))"
  by (rule strategy_thrift_roundtrip [OF _ tokens_carry_all])
    (simp add: response_fits_def in_int16_def fits_def strategy_response0_def per_operation_strategies0_def)

end
