(* ===== verification/RemoteJSON.thy ===== *)
theory RemoteJSON
  imports SamplerLaws Baggage "HOL-Library.Countable"
begin

text \<open>
  What the agent answers over HTTP: \<^verbatim>\<open>samplers/RemoteSamplingJSON.h\<close>,
  \<^verbatim>\<open>baggage/RemoteRestrictionJSON.h\<close>, and the \<^verbatim>\<open>HTTPSamplingManager\<close> of
  \<^verbatim>\<open>samplers/RemotelyControlledSampler.cpp\<close>. The JSON library (\<^verbatim>\<open>nlohmann::json\<close>) is the parameter
  \<open>J\<close>: documents of type \<^typ>\<open>'j\<close> with their accessors, which throw on a document of another type, and
  their constructors.
\<close>

section \<open>The JSON library\<close>

record 'j json =
  j_parse :: "string \<Rightarrow> exception + 'j"
  j_at :: "'j \<Rightarrow> string \<Rightarrow> exception + 'j"
  j_find :: "'j \<Rightarrow> string \<Rightarrow> 'j option"
  j_string :: "'j \<Rightarrow> exception + string"
  j_double :: "'j \<Rightarrow> exception + double"
  j_int :: "'j \<Rightarrow> exception + int"
  j_array :: "'j \<Rightarrow> exception + 'j list"
  j_bool :: "'j \<Rightarrow> exception + bool"
  j_string_map :: "'j \<Rightarrow> exception + (string \<times> string) list"
  j_is_null :: "'j \<Rightarrow> bool"
  j_dump :: "'j \<Rightarrow> exception + string"
  of_string :: "string \<Rightarrow> 'j"
  of_double :: "double \<Rightarrow> 'j"
  of_number :: "int \<Rightarrow> 'j"
  of_bool_json :: "bool \<Rightarrow> 'j"
  of_array :: "'j list \<Rightarrow> 'j"
  of_object :: "(string \<times> 'j) list \<Rightarrow> 'j"

text \<open>\<^verbatim>\<open>get<std::vector<T>>\<close>: every element in turn.\<close>

primrec get_all :: "('j \<Rightarrow> exception + 'a) \<Rightarrow> 'j list \<Rightarrow> exception + 'a list" where
  "get_all get [] = Inr []"
| "get_all get (j # js) = bindE (get j) (\<lambda>x. bindE (get_all get js) (\<lambda>xs. Inr (x # xs)))"

definition get_field :: "'j json \<Rightarrow> ('j \<Rightarrow> exception + 'a) \<Rightarrow> 'j \<Rightarrow> string \<Rightarrow> exception + 'a" where
  "get_field J get j key = bindE (j_at J j key) get"

definition get_vector :: "'j json \<Rightarrow> ('j \<Rightarrow> exception + 'a) \<Rightarrow> 'j \<Rightarrow> exception + 'a list" where
  "get_vector J get j = bindE (j_array J j) (get_all get)"

text \<open>An optional field: what it is \<open>put\<close> into, when it is found.\<close>

definition find_field ::
  "'j json \<Rightarrow> ('j \<Rightarrow> exception + 'a) \<Rightarrow> ('a \<Rightarrow> 'r \<Rightarrow> 'r) \<Rightarrow> 'j \<Rightarrow> string \<Rightarrow> 'r \<Rightarrow> exception + 'r" where
  "find_field J get put j key r =
     (case j_find J j key of None \<Rightarrow> Inr r | Some v \<Rightarrow> bindE (get v) (\<lambda>x. Inr (put x r)))"

section \<open>Sampling strategies\<close>

primrec StrategyType_name :: "strategy_type \<Rightarrow> string" where
  "StrategyType_name PROBABILISTIC = ''PROBABILISTIC''"
| "StrategyType_name RATE_LIMITING = ''RATE_LIMITING''"

definition StrategyType_to_json :: "'j json \<Rightarrow> strategy_type \<Rightarrow> 'j" where
  "StrategyType_to_json J ty = of_string J (StrategyType_name ty)"

definition StrategyType_from_json :: "'j json \<Rightarrow> 'j \<Rightarrow> exception + strategy_type" where
  "StrategyType_from_json J j =
     bindE (j_string J j) (\<lambda>str.
       if str = ''PROBABILISTIC'' then Inr PROBABILISTIC
       else if str = ''RATE_LIMITING'' then Inr RATE_LIMITING
       else Inl (InvalidArgument (''Invalid sampling strategy type '' @ str)))"

definition ProbabilisticStrategy_to_json :: "'j json \<Rightarrow> double \<Rightarrow> 'j" where
  "ProbabilisticStrategy_to_json J rate = of_object J [(''samplingRate'', of_double J rate)]"

definition ProbabilisticStrategy_from_json :: "'j json \<Rightarrow> 'j \<Rightarrow> exception + double" where
  "ProbabilisticStrategy_from_json J j = get_field J (j_double J) j ''samplingRate''"

text \<open>The rate of this strategy is an \<^verbatim>\<open>int16_t\<close>, to which the library's integer is cast.\<close>

definition RateLimitingStrategy_to_json :: "'j json \<Rightarrow> int \<Rightarrow> 'j" where
  "RateLimitingStrategy_to_json J n = of_object J [(''maxTracesPerSecond'', of_number J n)]"

definition RateLimitingStrategy_from_json :: "'j json \<Rightarrow> 'j \<Rightarrow> exception + int" where
  "RateLimitingStrategy_from_json J j =
     bindE (get_field J (j_int J) j ''maxTracesPerSecond'') (\<lambda>n. Inr (sint (word_of_int n :: 16 word)))"

definition OperationStrategy_to_json :: "'j json \<Rightarrow> operation_strategy \<Rightarrow> 'j" where
  "OperationStrategy_to_json J s =
     of_object J [(''operation'', of_string J (os_operation s)),
                  (''probabilisticSampling'', ProbabilisticStrategy_to_json J (os_samplingRate s))]"

definition OperationStrategy_from_json :: "'j json \<Rightarrow> 'j \<Rightarrow> exception + operation_strategy" where
  "OperationStrategy_from_json J j =
     bindE (get_field J (j_string J) j ''operation'') (\<lambda>operation.
     bindE (get_field J (ProbabilisticStrategy_from_json J) j ''probabilisticSampling'') (\<lambda>rate.
     Inr \<lparr>os_operation = operation, os_samplingRate = rate\<rparr>))"

definition PerOperationStrategies_to_json :: "'j json \<Rightarrow> per_operation_strategies \<Rightarrow> 'j" where
  "PerOperationStrategies_to_json J s =
     of_object J
       ([(''defaultSamplingProbability'', of_double J (defaultSamplingProbability s)),
         (''defaultLowerBoundTracesPerSecond'', of_double J (defaultLowerBoundTracesPerSecond s)),
         (''perOperationStrategies'', of_array J (map (OperationStrategy_to_json J) (perOperationStrategies s)))] @
        (case defaultUpperBoundTracesPerSecond s of
           None \<Rightarrow> []
         | Some ub \<Rightarrow> [(''defaultUpperBoundTracesPerSecond'', of_double J ub)]))"

definition PerOperationStrategies_from_json :: "'j json \<Rightarrow> 'j \<Rightarrow> exception + per_operation_strategies" where
  "PerOperationStrategies_from_json J j =
     bindE (get_field J (j_double J) j ''defaultSamplingProbability'') (\<lambda>probability.
     bindE (get_field J (j_double J) j ''defaultLowerBoundTracesPerSecond'') (\<lambda>lowerBound.
     bindE (get_field J (get_vector J (OperationStrategy_from_json J)) j ''perOperationStrategies'') (\<lambda>strategies.
     find_field J (j_double J) (\<lambda>ub. defaultUpperBoundTracesPerSecond_update (\<lambda>_. Some ub)) j
       ''defaultUpperBoundTracesPerSecond''
       \<lparr>defaultSamplingProbability = probability, defaultLowerBoundTracesPerSecond = lowerBound,
        perOperationStrategies = strategies, defaultUpperBoundTracesPerSecond = None\<rparr>)))"

definition StrategyResponse_to_json :: "'j json \<Rightarrow> strategy_response \<Rightarrow> 'j" where
  "StrategyResponse_to_json J r =
     of_object J
       ([(''strategyType'', StrategyType_to_json J (strategyType r))] @
        (case resp_probabilistic r of
           None \<Rightarrow> [] | Some p \<Rightarrow> [(''probabilisticSampling'', ProbabilisticStrategy_to_json J p)]) @
        (case resp_rateLimiting r of
           None \<Rightarrow> [] | Some n \<Rightarrow> [(''rateLimitingSampling'', RateLimitingStrategy_to_json J n)]) @
        (case resp_operation r of
           None \<Rightarrow> [] | Some s \<Rightarrow> [(''operationSampling'', PerOperationStrategies_to_json J s)]))"

definition StrategyResponse_from_json :: "'j json \<Rightarrow> 'j \<Rightarrow> exception + strategy_response" where
  "StrategyResponse_from_json J j =
     bindE (get_field J (StrategyType_from_json J) j ''strategyType'') (\<lambda>ty.
     bindE (find_field J (ProbabilisticStrategy_from_json J) (\<lambda>p. resp_probabilistic_update (\<lambda>_. Some p)) j
       ''probabilisticSampling'' (strategy_response0\<lparr>strategyType := ty\<rparr>)) (\<lambda>r1.
     bindE (find_field J (RateLimitingStrategy_from_json J) (\<lambda>n. resp_rateLimiting_update (\<lambda>_. Some n)) j
       ''rateLimitingSampling'' r1) (\<lambda>r2.
     find_field J (PerOperationStrategies_from_json J) (\<lambda>s. resp_operation_update (\<lambda>_. Some s)) j
       ''operationSampling'' r2)))"

section \<open>The sampling manager\<close>

text \<open>
  \<open>reachable\<close> is whether the constructor could connect to the server: if not, the address stays
  the default one for good. The request's answer \<open>get\<close> is that of \<^verbatim>\<open>net::http::get\<close>; what the logger
  is given is the second result.
\<close>

definition getSamplingStrategy ::
  "'j json \<Rightarrow> bool \<Rightarrow> uri \<Rightarrow> string \<Rightarrow> (uri \<Rightarrow> get_error + response) \<Rightarrow>
   (exception + strategy_response) \<times> string list" where
  "getSamplingStrategy J reachable serverURI serviceName get =
     (if \<not> reachable then (Inr strategy_response0, [])
      else
        let uri = serverURI\<lparr>query := ''service='' @ queryEscape serviceName\<rparr> in
        case get uri of
          Inl _ \<Rightarrow> (Inl UnknownException, [])
        | Inr responseHTTP \<Rightarrow>
            if resp_statusCode responseHTTP \<noteq> 200 then
              (Inr strategy_response0, [''Received HTTP error response, uri='' @ URI_print uri @
                 '', statusCode='' @ int_str (resp_statusCode responseHTTP) @
                 '', reason='' @ resp_reason responseHTTP])
            else (bindE (j_parse J (resp_body responseHTTP)) (StrategyResponse_from_json J), []))"

text \<open>One poll of a remotely controlled sampler.\<close>

definition poll_sampler ::
  "'j json \<Rightarrow> nat \<Rightarrow> bool \<Rightarrow> uri \<Rightarrow> string \<Rightarrow> (uri \<Rightarrow> get_error + response) \<Rightarrow> time \<Rightarrow> sampler \<Rightarrow> metrics \<Rightarrow>
   sampler \<times> metrics" where
  "poll_sampler J ld reachable serverURI serviceName get now s ms =
     updateSampler ld
       (case fst (getSamplingStrategy J reachable serverURI serviceName get) of
          Inl _ \<Rightarrow> None | Inr response \<Rightarrow> Some response) now s ms"

section \<open>Baggage restrictions\<close>

definition BaggageRestriction_to_json :: "'j json \<Rightarrow> string \<times> int \<Rightarrow> 'j" where
  "BaggageRestriction_to_json J r =
     of_object J [(''baggageKey'', of_string J (fst r)), (''maxValueLength'', of_number J (snd r))]"

definition BaggageRestriction_from_json :: "'j json \<Rightarrow> 'j \<Rightarrow> exception + string \<times> int" where
  "BaggageRestriction_from_json J j =
     bindE (get_field J (j_string J) j ''baggageKey'') (\<lambda>key.
     bindE (get_field J (j_int J) j ''maxValueLength'') (\<lambda>n.
     Inr (key, sint (word_of_int n :: 32 word))))"

definition BaggageRestrictions_to_json :: "'j json \<Rightarrow> (string \<times> int) list \<Rightarrow> 'j" where
  "BaggageRestrictions_to_json J rs = of_array J (map (BaggageRestriction_to_json J) rs)"

definition BaggageRestrictions_from_json :: "'j json \<Rightarrow> 'j \<Rightarrow> exception + (string \<times> int) list" where
  "BaggageRestrictions_from_json J = get_vector J (BaggageRestriction_from_json J)"

text \<open>The body of the agent's answer, as \<open>updateRestrictions\<close> takes it.\<close>

definition json_restrictions :: "'j json \<Rightarrow> string \<Rightarrow> (string \<times> int) list option" where
  "json_restrictions J body =
     (case bindE (j_parse J body) (BaggageRestrictions_from_json J) of Inl _ \<Rightarrow> None | Inr rs \<Rightarrow> Some rs)"

section \<open>Round trip\<close>

text \<open>What the library documents of the documents it makes, in the ranges its integers have.\<close>

definition json_laws :: "'j json \<Rightarrow> bool" where
  "json_laws J \<longleftrightarrow>
     (\<forall>kvs k v. map_of kvs k = Some v \<longrightarrow> j_at J (of_object J kvs) k = Inr v) \<and>
     (\<forall>kvs k. j_find J (of_object J kvs) k = map_of kvs k) \<and>
     (\<forall>s. j_string J (of_string J s) = Inr s) \<and>
     (\<forall>d. j_double J (of_double J d) = Inr d) \<and>
     (\<forall>n. INT_MIN \<le> n \<and> n \<le> INT_MAX \<longrightarrow> j_int J (of_number J n) = Inr n) \<and>
     (\<forall>xs. j_array J (of_array J xs) = Inr xs)"

lemma json_lawsD:
  assumes "json_laws J"
  shows "map_of kvs k = Some v \<Longrightarrow> j_at J (of_object J kvs) k = Inr v"
    and "j_find J (of_object J kvs) k = map_of kvs k"
    and "j_string J (of_string J s) = Inr s" and "j_double J (of_double J d) = Inr d"
    and "INT_MIN \<le> n \<Longrightarrow> n \<le> INT_MAX \<Longrightarrow> j_int J (of_number J n) = Inr n"
    and "j_array J (of_array J xs) = Inr xs"
  using assms by (simp_all add: json_laws_def)

lemmas json_defs = get_field_def get_vector_def find_field_def StrategyType_to_json_def
  StrategyType_from_json_def ProbabilisticStrategy_to_json_def ProbabilisticStrategy_from_json_def
  RateLimitingStrategy_to_json_def RateLimitingStrategy_from_json_def OperationStrategy_to_json_def
  OperationStrategy_from_json_def PerOperationStrategies_to_json_def PerOperationStrategies_from_json_def

lemma get_all_map: "(\<And>x. x \<in> set xs \<Longrightarrow> get (f x) = Inr x) \<Longrightarrow> get_all get (map f xs) = Inr xs"
  by (induction xs) simp_all

definition response_in_range :: "strategy_response \<Rightarrow> bool" where
  "response_in_range r = (case resp_rateLimiting r of None \<Rightarrow> True | Some n \<Rightarrow> in_int16 n)"

lemma StrategyType_json: "json_laws J \<Longrightarrow> StrategyType_from_json J (StrategyType_to_json J ty) = Inr ty"
  by (cases ty) (simp_all add: json_defs json_lawsD)

lemma ProbabilisticStrategy_json:
  "json_laws J \<Longrightarrow> ProbabilisticStrategy_from_json J (ProbabilisticStrategy_to_json J p) = Inr p"
  by (simp add: json_defs json_lawsD)

lemma RateLimitingStrategy_json:
  "json_laws J \<Longrightarrow> in_int16 n \<Longrightarrow> RateLimitingStrategy_from_json J (RateLimitingStrategy_to_json J n) = Inr n"
  by (simp add: json_defs json_lawsD) (simp add: in_int16_def json_lawsD INT_MIN_def INT_MAX_def)

lemma OperationStrategy_json:
  "json_laws J \<Longrightarrow> OperationStrategy_from_json J (OperationStrategy_to_json J s) = Inr s"
  by (cases s) (simp add: json_defs json_lawsD)

lemma PerOperationStrategies_json:
  assumes "json_laws J"
  shows "PerOperationStrategies_from_json J (PerOperationStrategies_to_json J s) = Inr s"
proof -
  have "get_all (OperationStrategy_from_json J) (map (OperationStrategy_to_json J) (perOperationStrategies s))
      = Inr (perOperationStrategies s)"
    using assms by (intro get_all_map OperationStrategy_json)
  then show ?thesis
    using assms
    by (cases s) (simp add: PerOperationStrategies_to_json_def PerOperationStrategies_from_json_def
        get_field_def get_vector_def find_field_def json_lawsD split: option.split)
qed

lemma StrategyResponse_json:
  assumes "json_laws J" and "response_in_range r"
  shows "StrategyResponse_from_json J (StrategyResponse_to_json J r) = Inr r"
  using assms
  by (cases r) (auto simp: StrategyResponse_to_json_def StrategyResponse_from_json_def get_field_def
      find_field_def json_lawsD StrategyType_json ProbabilisticStrategy_json RateLimitingStrategy_json
      PerOperationStrategies_json response_in_range_def strategy_response0_def split: option.splits)

lemma BaggageRestriction_json:
  assumes "json_laws J" and "INT_MIN \<le> snd r" "snd r \<le> INT_MAX"
  shows "BaggageRestriction_from_json J (BaggageRestriction_to_json J r) = Inr r"
  using assms by (simp add: BaggageRestriction_to_json_def BaggageRestriction_from_json_def get_field_def
      json_lawsD sint32)

lemma BaggageRestrictions_json:
  assumes "json_laws J" and "list_all (\<lambda>(_, n). INT_MIN \<le> n \<and> n \<le> INT_MAX) rs"
  shows "BaggageRestrictions_from_json J (BaggageRestrictions_to_json J rs) = Inr rs"
proof -
  have "get_all (BaggageRestriction_from_json J) (map (BaggageRestriction_to_json J) rs) = Inr rs"
    using assms by (intro get_all_map BaggageRestriction_json) (auto simp: list_all_iff)
  then show ?thesis
    using assms by (simp add: BaggageRestrictions_from_json_def BaggageRestrictions_to_json_def
        get_vector_def json_lawsD)
qed

section \<open>What an agent's answer brings about\<close>

definition answered :: "'j json \<Rightarrow> get_error + response \<Rightarrow> 'j \<Rightarrow> bool" where
  "answered J got doc =
     (case got of Inl _ \<Rightarrow> False
      | Inr resp \<Rightarrow> resp_statusCode resp = 200 \<and> j_parse J (resp_body resp) = Inr doc)"

lemma answeredE:
  assumes "answered J got doc"
  obtains resp where "got = Inr resp" "resp_statusCode resp = 200" "j_parse J (resp_body resp) = Inr doc"
  using assms by (auto simp: answered_def split: sum.splits)

text \<open>The sampler that a response asks for, in the place of \<open>inner\<close>.\<close>

definition requested :: "nat \<Rightarrow> strategy_response \<Rightarrow> int \<Rightarrow> time \<Rightarrow> sampler \<Rightarrow> sampler option" where
  "requested ld r maxOperations now inner =
     (case (resp_operation r, resp_probabilistic r, resp_rateLimiting r) of
        (Some strategies, _, _) \<Rightarrow> Some (updateAdaptiveSampler ld strategies maxOperations now inner)
      | (None, Some rate, _) \<Rightarrow> Some (SProbabilistic (ProbabilisticSampler ld rate))
      | (None, None, Some n) \<Rightarrow> Some (SRateLimiting (RateLimitingSampler (of_int n) now))
      | (None, None, None) \<Rightarrow> None)"

lemma updateSampler_requested:
  "updateSampler ld (Some r) now (SRemote inner maxOperations running) ms =
     (case requested ld r maxOperations now inner of
        Some s \<Rightarrow> (SRemote s maxOperations running, inc SamplerUpdated 1 (inc SamplerRetrieved 1 ms))
      | None \<Rightarrow> (SRemote inner maxOperations running, inc SamplerUpdateFailure 1 (inc SamplerRetrieved 1 ms)))"
  by (simp add: updateSampler_def requested_def updateRateLimitingOrProbabilisticSampler_def Let_def
      split: option.split)

lemma list_all_insert_first:
  "list_all Q m \<Longrightarrow> list_all (\<lambda>(k, n). Q (k, f n)) rs \<Longrightarrow>
   list_all Q (foldl (\<lambda>m (k, n). insert_first (k, f n) m) m rs)"
proof (induction rs arbitrary: m)
  case (Cons x rs)
  then have "list_all Q (insert_first (fst x, f (snd x)) m)"
    by (cases x) (simp add: insert_first_def)
  with Cons show ?case by (simp add: case_prod_beta)
qed simp

lemma strategy_installed:
  assumes "json_laws J" and "response_in_range r"
    and "answered J (get (serverURI\<lparr>query := ''service='' @ queryEscape serviceName\<rparr>)) (StrategyResponse_to_json J r)"
  shows "poll_sampler J ld True serverURI serviceName get now (SRemote inner maxOperations running) ms =
     (case requested ld r maxOperations now inner of
        Some s \<Rightarrow> (SRemote s maxOperations running, inc SamplerUpdated 1 (inc SamplerRetrieved 1 ms))
      | None \<Rightarrow> (SRemote inner maxOperations running, inc SamplerUpdateFailure 1 (inc SamplerRetrieved 1 ms)))"
  using assms(3) StrategyResponse_json [OF assms(1,2)]
  by (elim answeredE) (simp add: poll_sampler_def getSamplingStrategy_def Let_def updateSampler_requested)

lemma restrictions_enforced:
  assumes "json_laws J" and "list_all (\<lambda>(_, n). 0 \<le> n \<and> n \<le> INT_MAX) rs"
    and "answered J got (BaggageRestrictions_to_json J rs)"
    and "updateRestrictions (json_restrictions J) remoteURI got rm ms out = (rm', ms', out')"
    and "int (length value) \<le> INT_MAX"
  shows "ms' = inc BaggageRestrictionsUpdateSuccess 1 ms \<and>
    fst (setBaggage (RemoteManager rm') service sampled bag key value ms'') =
      (case map_of rs key of None \<Rightarrow> bag | Some n \<Rightarrow> AList.update key (take (nat n) value) bag)"
proof -
  have "BaggageRestrictions_from_json J (BaggageRestrictions_to_json J rs) = Inr rs"
    using assms(2) by (intro BaggageRestrictions_json [OF assms(1)]) (auto simp: list_all_iff INT_MIN_def)
  then have upd: "rm' = rm\<lparr>rm_restrictions := foldl (\<lambda>m (k, n). insert_first (k, Restriction True n) m) [] rs,
      rm_initialized := True\<rparr>" "ms' = inc BaggageRestrictionsUpdateSuccess 1 ms"
    using assms(3,4)
    by (auto elim!: answeredE simp: updateRestrictions_def restriction_list_from_json_def json_restrictions_def)
  have "manager_ok (RemoteManager rm')"
    using list_all_insert_first [of "\<lambda>(k, r). 0 \<le> maxValueLength r \<and> maxValueLength r \<le> INT_MAX" "[]" "Restriction True" rs]
      assms(2) by (simp add: manager_ok_def upd case_prod_unfold)
  moreover have "getRestriction (RemoteManager rm') service key =
      (case map_of rs key of None \<Rightarrow> Restriction False 0 | Some n \<Rightarrow> Restriction True n)"
    by (simp add: getRestriction_def upd insert_first_map_of split: option.split)
  moreover have "0 \<le> n" if "map_of rs key = Some n" for n
    using map_of_SomeD [OF that] assms(2) by (auto simp: list_all_iff)
  ultimately show ?thesis
    by (simp add: setBaggage_refines set_item_def cut_length_eq assms(5) upd split: option.split)
qed

text \<open>A poll of the agent that is answered with the JSON text of a strategy puts the sampler
  in place that the strategy asks for, per operation before probabilistic before rate limiting, and
  counts a retrieval and an update; a strategy without any of the three is counted as a failed
  update, and the sampler stays.\<close>

theorem agent_strategy_installed:
  assumes "json_laws J" and "response_in_range r"
    and "answered J (get (serverURI\<lparr>query := ''service='' @ queryEscape serviceName\<rparr>)) (StrategyResponse_to_json J r)"
  shows "poll_sampler J ld True serverURI serviceName get now (SRemote inner maxOperations running) ms =
     (case requested ld r maxOperations now inner of
        Some s \<Rightarrow> (SRemote s maxOperations running, inc SamplerUpdated 1 (inc SamplerRetrieved 1 ms))
      | None \<Rightarrow> (SRemote inner maxOperations running, inc SamplerUpdateFailure 1 (inc SamplerRetrieved 1 ms)))"
  using assms by (rule strategy_installed)

text \<open>A sampling server that could not be connected to when the sampler was made, or that
  answers with another status than 200, is not seen as a failed query: every poll counts a
  retrieval and a failed update, and the sampler stays what it is.\<close>

lemma unreachable_server_counts_retrievals:
  assumes "\<not> reachable \<or>
    (\<exists>resp. get (serverURI\<lparr>query := ''service='' @ queryEscape serviceName\<rparr>) = Inr resp \<and> resp_statusCode resp \<noteq> 200)"
  shows "poll_sampler J ld reachable serverURI serviceName get now (SRemote inner maxOperations running) ms =
     (SRemote inner maxOperations running, inc SamplerUpdateFailure 1 (inc SamplerRetrieved 1 ms))"
  using assms
  by (auto simp: poll_sampler_def getSamplingStrategy_def Let_def updateSampler_requested requested_def
      strategy_response0_def)

text \<open>The restrictions an agent publishes are enforced: after an update answered with their
  JSON text, a baggage item with a listed key is stored, cut to the length of its first entry, and
  one with any other key leaves the baggage as it was.\<close>

theorem agent_restrictions_enforced:
  assumes "json_laws J" and "list_all (\<lambda>(_, n). 0 \<le> n \<and> n \<le> INT_MAX) rs"
    and "answered J got (BaggageRestrictions_to_json J rs)"
    and "updateRestrictions (json_restrictions J) remoteURI got rm ms out = (rm', ms', out')"
    and "int (length value) \<le> INT_MAX"
  shows "ms' = inc BaggageRestrictionsUpdateSuccess 1 ms \<and>
    fst (setBaggage (RemoteManager rm') service sampled bag key value ms'') =
      (case map_of rs key of None \<Rightarrow> bag | Some n \<Rightarrow> AList.update key (take (nat n) value) bag)"
  using assms by (rule restrictions_enforced)

section \<open>A library of documents\<close>

text \<open>
  A concrete library: documents as values, and a text that only it can read, of as many letters
  as the number of the document.
\<close>

datatype json_value = JString string | JDouble double | JInt int | JBool bool | JNull
  | JArray "json_value list" | JObject "(string \<times> json_value) list"

instance json_value :: countable
  by countable_datatype

definition documents :: "json_value json" where
  "documents =
     \<lparr>j_parse = (\<lambda>s. Inr (from_nat (length s))),
      j_at = (\<lambda>j k. case j of JObject kvs \<Rightarrow> (case map_of kvs k of Some v \<Rightarrow> Inr v | None \<Rightarrow> Inl UnknownException)
                    | _ \<Rightarrow> Inl UnknownException),
      j_find = (\<lambda>j k. case j of JObject kvs \<Rightarrow> map_of kvs k | _ \<Rightarrow> None),
      j_string = (\<lambda>j. case j of JString s \<Rightarrow> Inr s | _ \<Rightarrow> Inl UnknownException),
      j_double = (\<lambda>j. case j of JDouble x \<Rightarrow> Inr x | JInt n \<Rightarrow> Inr (of_int n) | _ \<Rightarrow> Inl UnknownException),
      j_int = (\<lambda>j. case j of JInt n \<Rightarrow> Inr n | _ \<Rightarrow> Inl UnknownException),
      j_array = (\<lambda>j. case j of JArray js \<Rightarrow> Inr js | _ \<Rightarrow> Inl UnknownException),
      j_bool = (\<lambda>j. case j of JBool b \<Rightarrow> Inr b | _ \<Rightarrow> Inl UnknownException),
      j_string_map = (\<lambda>j. case j of
         JObject kvs \<Rightarrow> get_all (\<lambda>(k, v). case v of JString s \<Rightarrow> Inr (k, s) | _ \<Rightarrow> Inl UnknownException) kvs
       | _ \<Rightarrow> Inl UnknownException),
      j_is_null = (\<lambda>j. j = JNull),
      j_dump = (\<lambda>j. Inr (replicate (to_nat j) (CHR ''x''))),
      of_string = JString, of_double = JDouble, of_number = JInt, of_bool_json = JBool,
      of_array = JArray, of_object = JObject\<rparr>"

lemma documents_laws: "json_laws documents"
  by (simp add: json_laws_def documents_def)

definition document_response :: "json_value \<Rightarrow> response" where
  "document_response d = \<lparr>resp_version = ''1.1'', resp_statusCode = 200, resp_reason = ''OK'',
     resp_headers = [], resp_body = replicate (to_nat d) (CHR ''x'')\<rparr>"

lemma documents_answered: "answered documents (Inr (document_response d)) d"
  by (simp add: answered_def documents_def document_response_def)

theorem agent_strategy_installed_witness:
  "poll_sampler documents 64 True URI0 ''svc''
     (\<lambda>_. Inr (document_response (StrategyResponse_to_json documents (strategy_response0\<lparr>resp_probabilistic := Some 1\<rparr>))))
     7 (SRemote (SConst (ConstSampler True)) 10 True) metrics0 =
   (SRemote (SProbabilistic (ProbabilisticSampler 64 1)) 10 True,
    inc SamplerUpdated 1 (inc SamplerRetrieved 1 metrics0))"
  using agent_strategy_installed [where r = "strategy_response0\<lparr>resp_probabilistic := Some 1\<rparr>" and
      get = "\<lambda>_. Inr (document_response (StrategyResponse_to_json documents (strategy_response0\<lparr>resp_probabilistic := Some 1\<rparr>)))",
      OF documents_laws _ documents_answered]
  by (simp add: response_in_range_def requested_def strategy_response0_def)

lemma unreachable_server_counts_retrievals_witness:
  "snd (poll_sampler documents 64 False URI0 ''svc'' (\<lambda>_. Inr (document_response JNull)) 7
     (SRemote (SConst (ConstSampler True)) 10 True) metrics0) SamplerRetrieved = 1"
  using unreachable_server_counts_retrievals [where J = documents and reachable = False] by (simp add: metrics0_def)

theorem agent_restrictions_enforced_witness:
  "\<exists>rm' ms' out'. updateRestrictions (json_restrictions documents) URI0
      (Inr (document_response (BaggageRestrictions_to_json documents [(''user'', 3)]))) example_manager metrics0 [] =
      (rm', ms', out') \<and>
     fst (setBaggage (RemoteManager rm') ''svc'' True [] ''user'' ''abcdef'' metrics0) = [(''user'', ''abc'')] \<and>
     fst (setBaggage (RemoteManager rm') ''svc'' True [] ''other'' ''x'' metrics0) = []"
proof -
  obtain rm' ms' out' where u: "updateRestrictions (json_restrictions documents) URI0
      (Inr (document_response (BaggageRestrictions_to_json documents [(''user'', 3)]))) example_manager metrics0 [] =
      (rm', ms', out')"
    by (metis prod_cases3)
  note enforced = agent_restrictions_enforced [OF documents_laws _ documents_answered u]
  show ?thesis
    using u enforced [of "''abcdef''" "''svc''" True "[]" "''user''" metrics0]
      enforced [of "''x''" "''svc''" True "[]" "''other''" metrics0]
    by (simp add: INT_MAX_def numeral_3_eq_3)
qed

end
