(* ===== verification/JsonDocuments.thy ===== *)
theory JsonDocuments
  imports RemoteJSON
begin

text \<open>
  What the JSON library documents of text: a document of plain strings and representable numbers is
  dumped, and parsing the text gives the document back.
\<close>

definition plain_string :: "string \<Rightarrow> bool" where
  "plain_string s \<longleftrightarrow> (\<forall>c \<in> set s. ord c < 128)"

inductive text_document :: "'j json \<Rightarrow> 'j \<Rightarrow> bool" for J where
  text_string: "plain_string s \<Longrightarrow> text_document J (of_string J s)"
| text_bool: "text_document J (of_bool_json J b)"
| text_double: "fl 53 d = d \<Longrightarrow> text_document J (of_double J d)"
| text_number: "INT_MIN \<le> n \<Longrightarrow> n \<le> INT_MAX \<Longrightarrow> text_document J (of_number J n)"
| text_array: "(\<And>v. v \<in> set vs \<Longrightarrow> text_document J v) \<Longrightarrow> text_document J (of_array J vs)"
| text_object: "(\<And>k v. (k, v) \<in> set kvs \<Longrightarrow> plain_string k \<and> text_document J v) \<Longrightarrow> text_document J (of_object J kvs)"

definition document_laws :: "'j json \<Rightarrow> bool" where
  "document_laws J \<longleftrightarrow> json_laws J \<and> (\<forall>b. j_bool J (of_bool_json J b) = Inr b) \<and>
     (\<forall>kvs. \<not> j_is_null J (of_object J kvs)) \<and>
     (\<forall>d. text_document J d \<longrightarrow> (\<exists>s. j_dump J d = Inr s \<and> j_parse J s = Inr d))"

lemma document_lawsD:
  assumes "document_laws J"
  shows "json_laws J" and "j_bool J (of_bool_json J b) = Inr b" and "\<not> j_is_null J (of_object J kvs)"
    and "text_document J d \<Longrightarrow> \<exists>s. j_dump J d = Inr s \<and> j_parse J s = Inr d"
  using assms by (simp_all add: document_laws_def)

lemma plain_string_lit [simp]: "plain_string []" "plain_string (c # s) \<longleftrightarrow> ord c < 128 \<and> plain_string s"
  "plain_string (s @ t) \<longleftrightarrow> plain_string s \<and> plain_string t"
  by (auto simp: plain_string_def)

lemma documents_document_laws: "document_laws documents"
  using documents_laws by (simp add: document_laws_def documents_def)

end
