(* ===== verification/Loggers.thy ===== *)
theory Loggers
  imports Tags
begin

text \<open>
  Loggers (\<^verbatim>\<open>Logging.h\<close>, \<^verbatim>\<open>Logging.cpp\<close>) and the report of an exception (\<^verbatim>\<open>utils/ErrorUtil.h\<close>). A
  logger's effect is on what the process has written to its two output streams.
\<close>

record console =
  c_out :: string
  c_err :: string

datatype logger = NullLogger | ConsoleLogger

definition Logger_error :: "logger \<Rightarrow> string \<Rightarrow> console \<Rightarrow> console" where
  "Logger_error l message c =
     (case l of NullLogger \<Rightarrow> c
      | ConsoleLogger \<Rightarrow> c\<lparr>c_err := c_err c @ ''ERROR: '' @ message @ [CHR 0x0A]\<rparr>)"

definition Logger_info :: "logger \<Rightarrow> string \<Rightarrow> console \<Rightarrow> console" where
  "Logger_info l message c =
     (case l of NullLogger \<Rightarrow> c
      | ConsoleLogger \<Rightarrow> c\<lparr>c_out := c_out c @ ''INFO: '' @ message @ [CHR 0x0A]\<rparr>)"

text \<open>What an exception says of itself; one that is no \<^verbatim>\<open>std::exception\<close> says nothing.\<close>

definition exception_what :: "exception \<Rightarrow> string option" where
  "exception_what e =
     (case e of
        InvalidArgument w \<Rightarrow> Some w
      | SysError w _ \<Rightarrow> Some w
      | LogicError w \<Rightarrow> Some w
      | SenderException w _ \<Rightarrow> Some w
      | RuntimeError w \<Rightarrow> Some w
      | UnknownException \<Rightarrow> None)"

text \<open>The catch clauses are tried in order, the most derived class first.\<close>

definition logError_text :: "string \<Rightarrow> exception \<Rightarrow> string" where
  "logError_text message e =
     (case e of
        SenderException w n \<Rightarrow> message @ '': '' @ w @ '', numFailed='' @ int_str n
      | SysError w code \<Rightarrow> message @ '': '' @ w @ '', code='' @ int_str code
      | _ \<Rightarrow> (case exception_what e of Some w \<Rightarrow> message @ '': '' @ w | None \<Rightarrow> message))"

definition logError :: "logger \<Rightarrow> string \<Rightarrow> exception \<Rightarrow> console \<Rightarrow> console" where
  "logError l message e = Logger_error l (logError_text message e)"

text \<open>A logger only ever adds to what has been written, and an error message is always part of it.\<close>

locale append_only =
  fixes log :: "string \<Rightarrow> console \<Rightarrow> console"
  assumes extends: "\<exists>o' e'. c_out (log m c) = c_out c @ o' \<and> c_err (log m c) = c_err c @ e'"
begin

lemma fold_extends: "\<exists>o' e'. c_out (fold log ms c) = c_out c @ o' \<and> c_err (fold log ms c) = c_err c @ e'"
proof (induction ms arbitrary: c)
  case (Cons m ms)
  obtain o1 e1 where 1: "c_out (log m c) = c_out c @ o1" "c_err (log m c) = c_err c @ e1"
    using extends by blast
  obtain o2 e2 where "c_out (fold log ms (log m c)) = c_out (log m c) @ o2"
    "c_err (fold log ms (log m c)) = c_err (log m c) @ e2"
    using Cons by blast
  with 1 show ?case by simp
qed simp

end

interpretation errors: append_only "Logger_error l" for l
  by unfold_locales (cases l; simp add: Logger_error_def)

interpretation infos: append_only "Logger_info l" for l
  by unfold_locales (cases l; simp add: Logger_info_def)

end
