(* ===== verification/Crossdock.thy ===== *)
theory Crossdock
  imports Configs JsonDocuments Loggers
begin

text \<open>
  The interoperability server (\<^verbatim>\<open>src/crossdock/Server.h\<close>, \<^verbatim>\<open>src/crossdock/Server.cpp\<close>): a chain of
  servers that hand a trace on to each other over HTTP and report what each observes of it. A
  \<open>world\<close> gives every server by its authority, \<^verbatim>\<open>host:port\<close>; an action is a function of the world that
  may never return (\<^term>\<open>None\<close>), and throws or returns with the world after it. The structures are
  those of \<^verbatim>\<open>thrift-gen/tracetest_types.h\<close>.
\<close>

section \<open>Structures\<close>

datatype transport_type = HTTP | TCHANNEL | DUMMY

datatype downstream =
  Downstream (ds_serviceName: string) (ds_serverRole: string) (ds_host: string) (ds_port: string)
    (ds_transport: transport_type) (ds_downstream: "downstream option")

record start_trace_request =
  st_serverRole :: string
  st_sampled :: bool
  st_baggage :: string
  st_downstream :: downstream

record join_trace_request =
  jt_serverRole :: string
  jt_downstream :: "downstream option"

record observed_span =
  os_traceId :: string
  os_sampled :: bool
  os_baggage :: string

datatype trace_response =
  TraceResponse (tr_span: "observed_span option") (tr_downstream: "trace_response option")
    (tr_notImplementedError: string)

record generate_traces_request =
  gt_type :: string
  gt_operation :: string
  gt_tags :: strmap
  gt_count :: int

section \<open>JSON\<close>

primrec Transport_name :: "transport_type \<Rightarrow> string" where
  "Transport_name HTTP = ''HTTP''"
| "Transport_name TCHANNEL = ''TCHANNEL''"
| "Transport_name DUMMY = ''DUMMY''"

definition Transport_from_json :: "'j json \<Rightarrow> 'j \<Rightarrow> exception + transport_type" where
  "Transport_from_json J j =
     bindE (j_string J j) (\<lambda>str.
       if str = ''HTTP'' then Inr HTTP
       else if str = ''TCHANNEL'' then Inr TCHANNEL
       else if str = ''DUMMY'' then Inr DUMMY
       else Inl (InvalidArgument (''Invalid transport value '' @ str)))"

fun Downstream_to_json :: "'j json \<Rightarrow> downstream \<Rightarrow> 'j" where
  "Downstream_to_json J (Downstream service role hst prt transport ds) =
     of_object J
       ([(''serviceName'', of_string J service), (''serverRole'', of_string J role),
         (''host'', of_string J hst), (''port'', of_string J prt),
         (''transport'', of_string J (Transport_name transport))] @
        (case ds of None \<Rightarrow> [] | Some d \<Rightarrow> [(''downstream'', Downstream_to_json J d)]))"

text \<open>The fields before the nested structure, which is then put in.\<close>

definition Downstream_fields :: "'j json \<Rightarrow> 'j \<Rightarrow> exception + (downstream option \<Rightarrow> downstream)" where
  "Downstream_fields J j =
     bindE (get_field J (j_string J) j ''serviceName'') (\<lambda>service.
     bindE (get_field J (j_string J) j ''serverRole'') (\<lambda>role.
     bindE (get_field J (j_string J) j ''host'') (\<lambda>hst.
     bindE (get_field J (j_string J) j ''port'') (\<lambda>prt.
     bindE (get_field J (Transport_from_json J) j ''transport'') (\<lambda>transport.
     Inr (Downstream service role hst prt transport))))))"

definition find_nonnull :: "'j json \<Rightarrow> 'j \<Rightarrow> string \<Rightarrow> 'j option" where
  "find_nonnull J j key =
     (case j_find J j key of None \<Rightarrow> None | Some v \<Rightarrow> if j_is_null J v then None else Some v)"

partial_function (option) Downstream_from_json ::
  "'j json \<Rightarrow> 'j \<Rightarrow> (exception + downstream) option" where
  "Downstream_from_json J j =
     (case Downstream_fields J j of
        Inl e \<Rightarrow> Some (Inl e)
      | Inr mk \<Rightarrow>
          (case find_nonnull J j ''downstream'' of
             None \<Rightarrow> Some (Inr (mk None))
           | Some v \<Rightarrow>
               Option.bind (Downstream_from_json J v) (\<lambda>r.
                 case r of Inl e \<Rightarrow> Some (Inl e) | Inr d \<Rightarrow> Some (Inr (mk (Some d))))))"

definition bindO ::
  "(exception + 'a) option \<Rightarrow> ('a \<Rightarrow> (exception + 'b) option) \<Rightarrow> (exception + 'b) option" where
  "bindO r f = Option.bind r (\<lambda>x. case x of Inl e \<Rightarrow> Some (Inl e) | Inr y \<Rightarrow> f y)"

definition StartTraceRequest_to_json :: "'j json \<Rightarrow> start_trace_request \<Rightarrow> 'j" where
  "StartTraceRequest_to_json J r =
     of_object J [(''serverRole'', of_string J (st_serverRole r)), (''sampled'', of_bool_json J (st_sampled r)),
       (''baggage'', of_string J (st_baggage r)), (''downstream'', Downstream_to_json J (st_downstream r))]"

definition StartTraceRequest_from_json :: "'j json \<Rightarrow> 'j \<Rightarrow> (exception + start_trace_request) option" where
  "StartTraceRequest_from_json J j =
     bindO (Some (get_field J (j_string J) j ''serverRole'')) (\<lambda>role.
     bindO (Some (get_field J (j_bool J) j ''sampled'')) (\<lambda>smp.
     bindO (Some (get_field J (j_string J) j ''baggage'')) (\<lambda>bag.
     bindO (Some (j_at J j ''downstream'')) (\<lambda>d.
     bindO (Downstream_from_json J d) (\<lambda>ds.
     Some (Inr \<lparr>st_serverRole = role, st_sampled = smp, st_baggage = bag, st_downstream = ds\<rparr>))))))"

definition JoinTraceRequest_to_json :: "'j json \<Rightarrow> join_trace_request \<Rightarrow> 'j" where
  "JoinTraceRequest_to_json J r =
     of_object J
       ([(''serverRole'', of_string J (jt_serverRole r))] @
        (case jt_downstream r of None \<Rightarrow> [] | Some d \<Rightarrow> [(''downstream'', Downstream_to_json J d)]))"

definition JoinTraceRequest_from_json :: "'j json \<Rightarrow> 'j \<Rightarrow> (exception + join_trace_request) option" where
  "JoinTraceRequest_from_json J j =
     bindO (Some (get_field J (j_string J) j ''serverRole'')) (\<lambda>role.
     case find_nonnull J j ''downstream'' of
       None \<Rightarrow> Some (Inr \<lparr>jt_serverRole = role, jt_downstream = None\<rparr>)
     | Some v \<Rightarrow>
         bindO (Downstream_from_json J v) (\<lambda>d.
         Some (Inr \<lparr>jt_serverRole = role, jt_downstream = Some d\<rparr>)))"

definition ObservedSpan_to_json :: "'j json \<Rightarrow> observed_span \<Rightarrow> 'j" where
  "ObservedSpan_to_json J s =
     of_object J [(''traceId'', of_string J (os_traceId s)), (''sampled'', of_bool_json J (os_sampled s)),
       (''baggage'', of_string J (os_baggage s))]"

definition ObservedSpan_from_json :: "'j json \<Rightarrow> 'j \<Rightarrow> exception + observed_span" where
  "ObservedSpan_from_json J j =
     bindE (get_field J (j_string J) j ''traceId'') (\<lambda>tid.
     bindE (get_field J (j_bool J) j ''sampled'') (\<lambda>smp.
     bindE (get_field J (j_string J) j ''baggage'') (\<lambda>bag.
     Inr \<lparr>os_traceId = tid, os_sampled = smp, os_baggage = bag\<rparr>)))"

fun TraceResponse_to_json :: "'j json \<Rightarrow> trace_response \<Rightarrow> 'j" where
  "TraceResponse_to_json J (TraceResponse sp ds err) =
     of_object J
       ((case sp of None \<Rightarrow> [] | Some s \<Rightarrow> [(''span'', ObservedSpan_to_json J s)]) @
        (case ds of None \<Rightarrow> [] | Some d \<Rightarrow> [(''downstream'', TraceResponse_to_json J d)]) @
        [(''notImplementedError'', of_string J err)])"

definition find_span :: "'j json \<Rightarrow> 'j \<Rightarrow> exception + observed_span option" where
  "find_span J j =
     (case find_nonnull J j ''span'' of
        None \<Rightarrow> Inr None
      | Some v \<Rightarrow> bindE (ObservedSpan_from_json J v) (\<lambda>s. Inr (Some s)))"

partial_function (option) TraceResponse_from_json ::
  "'j json \<Rightarrow> 'j \<Rightarrow> (exception + trace_response) option" where
  "TraceResponse_from_json J j =
     (case find_span J j of
        Inl e \<Rightarrow> Some (Inl e)
      | Inr sp \<Rightarrow>
          (let last = (\<lambda>ds. bindE (get_field J (j_string J) j ''notImplementedError'') (\<lambda>err.
                 Inr (TraceResponse sp ds err)))
           in case find_nonnull J j ''downstream'' of
             None \<Rightarrow> Some (last None)
           | Some v \<Rightarrow>
               Option.bind (TraceResponse_from_json J v) (\<lambda>r.
                 case r of Inl e \<Rightarrow> Some (Inl e) | Inr d \<Rightarrow> Some (last (Some d)))))"

definition GenerateTracesRequest_from_json :: "'j json \<Rightarrow> 'j \<Rightarrow> exception + generate_traces_request" where
  "GenerateTracesRequest_from_json J j =
     bindE (get_field J (j_string J) j ''type'') (\<lambda>ty.
     bindE (get_field J (j_string J) j ''operation'') (\<lambda>op.
     bindE (get_field J (j_string_map J) j ''tags'') (\<lambda>tags.
     bindE (get_field J (j_int J) j ''count'') (\<lambda>count.
     Inr \<lparr>gt_type = ty, gt_operation = op, gt_tags = tags, gt_count = count\<rparr>))))"

section \<open>Actions\<close>

text \<open>
  What a thread does to the world of servers, numbered. It returns or throws, or it waits for ever
  for more bytes after a message; \<^term>\<open>None\<close> is a loop that does not end or a null pointer.
\<close>

datatype 'a outcome = Returned 'a | Thrown exception | Blocked string

record server =
  sv_tracer :: "thrift_sender tracer"
  sv_clock :: "start_env stream"
  sv_console :: console
  sv_tracers :: "(string \<times> made_tracer) list"
  sv_agentHostPort :: string
  sv_collectorEndpoint :: string
  sv_samplingServerURL :: string

type_synonym world = "nat \<Rightarrow> server"
type_synonym 'a act = "world \<Rightarrow> ('a outcome \<times> world) option"

definition ret :: "'a \<Rightarrow> 'a act" where
  "ret x w = Some (Returned x, w)"

definition lift :: "exception + 'a \<Rightarrow> 'a act" where
  "lift r w = Some (case r of Inl e \<Rightarrow> Thrown e | Inr x \<Rightarrow> Returned x, w)"

definition liftO :: "(exception + 'a) option \<Rightarrow> 'a act" where
  "liftO r = (case r of None \<Rightarrow> (\<lambda>w. None) | Some x \<Rightarrow> lift x)"

definition seq :: "'a act \<Rightarrow> ('a \<Rightarrow> 'b act) \<Rightarrow> 'b act" where
  "seq m f w =
     (case m w of
        None \<Rightarrow> None
      | Some (Returned x, w') \<Rightarrow> f x w'
      | Some (Thrown e, w') \<Rightarrow> Some (Thrown e, w')
      | Some (Blocked s, w') \<Rightarrow> Some (Blocked s, w'))"

definition catch :: "'a act \<Rightarrow> (exception \<Rightarrow> 'a act) \<Rightarrow> 'a act" where
  "catch m f w = (case m w of Some (Thrown e, w') \<Rightarrow> f e w' | r \<Rightarrow> r)"

definition update_server :: "nat \<Rightarrow> (server \<Rightarrow> server) \<Rightarrow> unit act" where
  "update_server i f w = Some (Returned (), w(i := f (w i)))"

definition get_server :: "nat \<Rightarrow> server act" where
  "get_server i w = Some (Returned (w i), w)"

definition log_info :: "nat \<Rightarrow> string \<Rightarrow> unit act" where
  "log_info i message = update_server i (\<lambda>sv. sv\<lparr>sv_console := Logger_info ConsoleLogger message (sv_console sv)\<rparr>)"

definition log_error :: "nat \<Rightarrow> string \<Rightarrow> unit act" where
  "log_error i message = update_server i (\<lambda>sv. sv\<lparr>sv_console := Logger_error ConsoleLogger message (sv_console sv)\<rparr>)"

text \<open>Every look at the clocks takes the next reading.\<close>

definition read_clock :: "nat \<Rightarrow> start_env act" where
  "read_clock i =
     seq (get_server i) (\<lambda>sv.
     seq (update_server i (\<lambda>sv. sv\<lparr>sv_clock := stl (sv_clock sv)\<rparr>)) (\<lambda>_.
     ret (shd (sv_clock sv))))"

section \<open>The host of a server\<close>

text \<open>
  What the servers need of their hosts: the JSON library, the precision of \<^verbatim>\<open>long double\<close>, which
  server a socket reaches when it is opened and connected, how much of a message a call of
  \<^verbatim>\<open>write\<close> takes, and the platform of new tracers.
\<close>

record 'j host_env =
  he_json :: "'j json"
  he_ld :: nat
  he_connect :: "uri \<Rightarrow> exception + nat"
  he_write :: "string \<Rightarrow> int"
  he_platform :: platform

text \<open>The bytes a message puts on the wire.\<close>

definition written :: "'j host_env \<Rightarrow> string \<Rightarrow> string" where
  "written X message = take (nat (he_write X message)) message"

text \<open>
  A stream socket: \<open>\<^term>\<open>Some\<close> block\<close> is what a call of \<^verbatim>\<open>read\<close> returns, an empty block the end of the
  file, \<^term>\<open>None\<close> an error, whose -1 \<^verbatim>\<open>append\<close> takes for a size. When the list is at its end, so is
  what the other side sent, and \<^verbatim>\<open>read\<close> waits.
\<close>

definition kReadSize :: nat where "kReadSize = 256"

fun bufferedRead :: "string option list \<Rightarrow> (exception + string) option" where
  "bufferedRead [] = None"
| "bufferedRead (None # bs) = Some (Inl (LogicError ''basic_string::append''))"
| "bufferedRead (Some b # bs) =
     (if length b = kReadSize then
        (case bufferedRead bs of
           None \<Rightarrow> None
         | Some (Inl e) \<Rightarrow> Some (Inl e)
         | Some (Inr s) \<Rightarrow> Some (Inr (b @ s)))
      else Some (Inr b))"

text \<open>What a reader gets of a stream that came whole, its sender having closed the socket or not (\<open>eof\<close>).\<close>

definition stream_blocks :: "bool \<Rightarrow> string \<Rightarrow> string option list" where
  "stream_blocks eof s = map Some (blocks_of kReadSize s) @ (if eof then [Some []] else [])"

definition read_stream :: "bool \<Rightarrow> string \<Rightarrow> string act" where
  "read_stream eof s =
     (case bufferedRead (stream_blocks eof s) of
        None \<Rightarrow> (\<lambda>w. Some (Blocked s, w))
      | Some r \<Rightarrow> lift r)"

section \<open>Spans\<close>

definition start_span :: "'j host_env \<Rightarrow> nat \<Rightarrow> string \<Rightarrow> start_options \<Rightarrow> span act" where
  "start_span X i operation opts =
     seq (read_clock i) (\<lambda>env w.
       case StartSpanWithOptions (he_ld X) env operation opts (sv_tracer (w i)) of
         Some (Some s, t') \<Rightarrow> Some (Returned s, w(i := (w i)\<lparr>sv_tracer := t'\<rparr>))
       | _ \<Rightarrow> None)"

definition finish_span :: "nat \<Rightarrow> span \<Rightarrow> unit act" where
  "finish_span i s =
     seq (read_clock i) (\<lambda>env.
     case FinishWithOptions (env_steady_now env) 0 [] s of (s', rep) \<Rightarrow>
       update_server i (\<lambda>sv. if rep then sv\<lparr>sv_tracer := reportSpan s' (sv_tracer sv)\<rparr> else sv))"

text \<open>The destructor finishes a span, whichever way the block is left.\<close>

definition with_span :: "nat \<Rightarrow> span \<Rightarrow> 'a act \<Rightarrow> 'a act" where
  "with_span i s body =
     seq (catch body (\<lambda>e. seq (finish_span i s) (\<lambda>_. lift (Inl e)))) (\<lambda>x.
     seq (finish_span i s) (\<lambda>_. ret x))"

text \<open>\<^verbatim>\<open>SetBaggageItem\<close> asks the tracer's restriction manager.\<close>

definition set_baggage :: "nat \<Rightarrow> string \<Rightarrow> string \<Rightarrow> span \<Rightarrow> span act" where
  "set_baggage i key v s =
     seq (read_clock i) (\<lambda>env.
     seq (get_server i) (\<lambda>sv.
     case SetBaggageItem (t_restrictionManager (sv_tracer sv)) (env_system_now env) key v s (t_metrics (sv_tracer sv)) of
       (s', ms') \<Rightarrow>
         seq (update_server i (\<lambda>sv. sv\<lparr>sv_tracer := (sv_tracer sv)\<lparr>t_metrics := ms'\<rparr>\<rparr>)) (\<lambda>_. ret s')))"

definition no_options :: start_options where
  "no_options = \<lparr>opt_references = [], opt_tags = [], opt_start_system = 0, opt_start_steady = 0\<rparr>"

section \<open>A server's operations\<close>

definition kBaggageKey :: string where "kBaggageKey = ''crossdock-baggage-key''"
definition kDefaultTracerServiceName :: string where "kDefaultTracerServiceName = ''crossdock-cpp''"

definition escape :: "string \<Rightarrow> string" where
  "escape str = concat (map (\<lambda>ch.
     if ch = LF then [CHR 0x5C, CHR ''n''] else if ch = CR then [CHR 0x5C, CHR ''r''] else [ch]) str)"

text \<open>The carriers: the headers in their order, and lines put out one after the other.\<close>

definition RequestReader :: "request \<Rightarrow> strmap" where
  "RequestReader q = map (\<lambda>h. (hkey h, hvalue h)) (req_headers q)"

definition RequestWriter :: "strmap \<Rightarrow> string" where
  "RequestWriter kvs = concat (map (\<lambda>(k, v). k @ '': '' @ v @ [CR, LF]) kvs)"

definition observeSpan :: "span_context \<Rightarrow> observed_span" where
  "observeSpan sc =
     \<lparr>os_traceId = TraceID_print (traceID sc), os_sampled = isSampled sc,
      os_baggage = (case map_of (baggage sc) kBaggageKey of None \<Rightarrow> [] | Some v \<Rightarrow> v)\<rparr>"

text \<open>
  \<open>call\<close> is what happens between the connection to a server and the end of what it answers: given
  the message, the blocks that can be read.
\<close>

type_synonym remote_call = "nat \<Rightarrow> string \<Rightarrow> (string option list) act"

definition downstream_message :: "string \<Rightarrow> strmap \<Rightarrow> string \<Rightarrow> string" where
  "downstream_message authority carrier requestJSON =
     ''POST /join_trace HTTP/1.1'' @ [CR, LF] @ ''Host: '' @ authority @ [CR, LF] @ RequestWriter carrier @
     ''Connection: close'' @ [CR, LF] @ ''Content-Type: application/json'' @ [CR, LF] @
     ''Content-Length: '' @ dec_str (length requestJSON) @ [CR, LF, CR, LF] @ requestJSON"

definition read_blocks :: "string \<Rightarrow> string option list \<Rightarrow> string act" where
  "read_blocks sent bs = (case bufferedRead bs of None \<Rightarrow> (\<lambda>w. Some (Blocked sent, w)) | Some r \<Rightarrow> lift r)"

definition lift_parse :: "http_error + 'a \<Rightarrow> 'a act" where
  "lift_parse r = lift (case r of Inl e \<Rightarrow> Inl (InvalidArgument (ParseError_what e)) | Inr x \<Rightarrow> Inr x)"

definition callDownstreamHTTP ::
  "'j host_env \<Rightarrow> remote_call \<Rightarrow> nat \<Rightarrow> span_context \<Rightarrow> downstream \<Rightarrow> trace_response act" where
  "callDownstreamHTTP X call i ctx target =
     (let J = he_json X;
          request = \<lparr>jt_serverRole = ds_serverRole target, jt_downstream = ds_downstream target\<rparr>;
          authority = ds_host target @ CHR '':'' # ds_port target
      in
      seq (lift (j_dump J (JoinTraceRequest_to_json J request))) (\<lambda>requestJSON.
      seq (lift (he_connect X (URI_parse (''http://'' @ authority)))) (\<lambda>peer.
      seq (get_server i) (\<lambda>sv.
      let carrier = (case Inject_HTTPHeaders (sv_tracer sv) (Some ctx) [] of Inl _ \<Rightarrow> [] | Inr c \<Rightarrow> c);
          message = downstream_message authority carrier requestJSON
      in
      seq (log_info i (''Sending request downstream: '' @ escape message)) (\<lambda>_.
      seq (call peer (written X message)) (\<lambda>blocks.
      seq (read_blocks message blocks) (\<lambda>responseStr.
      seq (log_info i (''Received downstream response: '' @ escape responseStr)) (\<lambda>_.
      seq (lift_parse (Response_parse (istream_of responseStr))) (\<lambda>response.
      seq (lift (j_parse J (resp_body response))) (\<lambda>j.
      liftO (TraceResponse_from_json J j)))))))))))"

text \<open>\<^verbatim>\<open>from_json\<close> makes no other transport than the three.\<close>

definition callDownstream ::
  "'j host_env \<Rightarrow> remote_call \<Rightarrow> nat \<Rightarrow> span_context \<Rightarrow> downstream \<Rightarrow> trace_response act" where
  "callDownstream X call i ctx target =
     (case ds_transport target of
        HTTP \<Rightarrow> callDownstreamHTTP X call i ctx target
      | TCHANNEL \<Rightarrow> ret (TraceResponse None None ''TCHANNEL transport not implemented'')
      | DUMMY \<Rightarrow> ret (TraceResponse None None ''DUMMY transport not implemented''))"

definition prepareResponse ::
  "'j host_env \<Rightarrow> remote_call \<Rightarrow> nat \<Rightarrow> span_context \<Rightarrow> downstream option \<Rightarrow> trace_response act" where
  "prepareResponse X call i ctx target =
     (case target of
        None \<Rightarrow> ret (TraceResponse (Some (observeSpan ctx)) None [])
      | Some d \<Rightarrow>
          seq (callDownstream X call i ctx d) (\<lambda>response.
          ret (TraceResponse (Some (observeSpan ctx)) (Some response) [])))"

definition startTrace ::
  "'j host_env \<Rightarrow> remote_call \<Rightarrow> nat \<Rightarrow> start_trace_request \<Rightarrow> trace_response act" where
  "startTrace X call i request =
     seq (start_span X i (st_serverRole request) no_options) (\<lambda>s0.
     seq (set_baggage i kBaggageKey (st_baggage request)
            (if st_sampled request then SetTag ''sampling.priority'' (VInt64 1) s0 else s0)) (\<lambda>s.
     with_span i s (prepareResponse X call i (sp_context s) (Some (st_downstream request)))))"

definition joinTrace ::
  "'j host_env \<Rightarrow> remote_call \<Rightarrow> nat \<Rightarrow> join_trace_request \<Rightarrow> span_context \<Rightarrow> trace_response act" where
  "joinTrace X call i request ctx = prepareResponse X call i ctx (jt_downstream request)"

section \<open>Requests\<close>

definition reply :: "string \<Rightarrow> string \<Rightarrow> string" where
  "reply headers message =
     ''HTTP/1.1 '' @ headers @ [CR, LF] @ ''Content-Length: '' @ dec_str (length message) @
     [CR, LF, CR, LF] @ message"

definition with_what :: "string \<Rightarrow> exception \<Rightarrow> string" where
  "with_what message e = message @ (case exception_what e of Some w \<Rightarrow> '': '' @ w | None \<Rightarrow> [])"

text \<open>A document that the destination can not be read from is answered.\<close>

definition answer_document ::
  "'j host_env \<Rightarrow> request \<Rightarrow> ('j \<Rightarrow> (exception + 'req) option) \<Rightarrow> ('req \<Rightarrow> trace_response act) \<Rightarrow> string act" where
  "answer_document X request from_json handler =
     (case bindO (Some (j_parse (he_json X) (req_body request))) from_json of
        None \<Rightarrow> (\<lambda>w. None)
      | Some (Inl e) \<Rightarrow>
          ret (reply ''500 Internal Server Error''
            (with_what ''Cannot parse request JSON'' e @ '', json: '' @ req_body request))
      | Some (Inr thriftRequest) \<Rightarrow>
          seq (handler thriftRequest) (\<lambda>thriftResponse.
          case j_dump (he_json X) (TraceResponse_to_json (he_json X) thriftResponse) of
            Inl e \<Rightarrow> ret (reply ''500 Internal Server Error'' (with_what ''Cannot marshal response to JSON'' e))
          | Inr message \<Rightarrow>
              ret (reply (''200 OK'' @ [CR, LF] @ ''Content-Type: application/json'') message)))"

definition post_options :: "span_context option \<Rightarrow> start_env \<Rightarrow> start_options" where
  "post_options ctx now =
     \<lparr>opt_references = (case ctx of None \<Rightarrow> [] | Some c \<Rightarrow> [(ChildOfRef, Some c)]), opt_tags = [],
      opt_start_system = env_system_now now, opt_start_steady = env_steady_now now\<rparr>"

text \<open>The tracer's \<^verbatim>\<open>Extract\<close> never gives an error, so that the branch for one is not taken.\<close>

definition handleJSON ::
  "'j host_env \<Rightarrow> nat \<Rightarrow> request \<Rightarrow> ('j \<Rightarrow> (exception + 'req) option) \<Rightarrow>
   ('req \<Rightarrow> span_context \<Rightarrow> trace_response act) \<Rightarrow> string act" where
  "handleJSON X i request from_json handler =
     seq (get_server i) (\<lambda>sv.
     case Extract_HTTPHeaders (RequestReader request) (sv_tracer sv) of (ctx, t') \<Rightarrow>
     seq (update_server i (\<lambda>sv. sv\<lparr>sv_tracer := t'\<rparr>)) (\<lambda>_.
     seq (read_clock i) (\<lambda>now.
     seq (start_span X i ''post'' (post_options ctx now)) (\<lambda>s.
     with_span i s (answer_document X request from_json (\<lambda>r. handler r (sp_context s)))))))"

section \<open>End to end tests\<close>

text \<open>
  \<^verbatim>\<open>makeEndToEndConfig\<close> leaves out the constructor's second argument, as if \<^verbatim>\<open>traceId128Bit\<close> were not
  there; here it has its default.
\<close>

definition makeEndToEndConfig :: "server \<Rightarrow> string \<Rightarrow> config" where
  "makeEndToEndConfig sv samplerType =
     Config False False
       (SamplerConfig samplerType 1 (sv_samplingServerURL sv) kDefaultMaxOperations (nanoseconds 5))
       (ReporterConfig kDefaultQueueSize (nanoseconds 1) False (sv_agentHostPort sv) (sv_collectorEndpoint sv))
       HeadersConfig0 RestrictionsConfig0 [] [] FormatJAEGER"

definition init_tracer :: "'j host_env \<Rightarrow> nat \<Rightarrow> string \<Rightarrow> string act" where
  "init_tracer X i samplerType =
     seq (get_server i) (\<lambda>sv.
     let config = makeEndToEndConfig sv samplerType; key = sc_type (cfg_sampler config) in
     seq (read_clock i) (\<lambda>env.
     seq (lift (Tracer_make (he_ld X) (he_platform X) (env_sampler_now env) kDefaultTracerServiceName config 0)) (\<lambda>tracer.
     seq (update_server i (\<lambda>sv. sv\<lparr>sv_tracers := AList.update key tracer (sv_tracers sv)\<rparr>)) (\<lambda>_.
     ret key))))"

text \<open>The tracer is given by its key in the table.\<close>

definition findOrMakeTracer :: "'j host_env \<Rightarrow> nat \<Rightarrow> string \<Rightarrow> string act" where
  "findOrMakeTracer X i samplerType0 =
     (let samplerType = (if samplerType0 = [] then kSamplerTypeRemote else samplerType0) in
      seq (get_server i) (\<lambda>sv.
      case map_of (sv_tracers sv) samplerType of
        Some _ \<Rightarrow> ret samplerType
      | None \<Rightarrow> init_tracer X i samplerType))"

text \<open>A span of the table's tracer, with its tags; a null sampler is dereferenced.\<close>

definition generate_trace :: "'j host_env \<Rightarrow> nat \<Rightarrow> string \<Rightarrow> generate_traces_request \<Rightarrow> unit act" where
  "generate_trace X i key request =
     seq (read_clock i) (\<lambda>env.
     seq (read_clock i) (\<lambda>env'.
     seq (get_server i) (\<lambda>sv.
     case map_of (sv_tracers sv) key of
       Some (JaegerTracer transport t) \<Rightarrow>
         (case StartSpanWithOptions (he_ld X) env (gt_operation request) no_options t of
            Some (Some s, t') \<Rightarrow>
              let s1 = foldl (\<lambda>s (k, v). SetTag k (VString v) s) s (gt_tags request) in
              (case FinishWithOptions (env_steady_now env') 0 [] s1 of (s2, rep) \<Rightarrow>
                 update_server i (\<lambda>sv. sv\<lparr>sv_tracers := AList.update key
                   (JaegerTracer transport (if rep then reportSpan s2 t' else t')) (sv_tracers sv)\<rparr>))
          | _ \<Rightarrow> (\<lambda>w. None))
     | Some NoopTracer \<Rightarrow> ret ()
     | _ \<Rightarrow> (\<lambda>w. None))))"

primrec repeat_act :: "nat \<Rightarrow> unit act \<Rightarrow> unit act" where
  "repeat_act 0 m = ret ()"
| "repeat_act (Suc n) m = seq m (\<lambda>_. repeat_act n m)"

text \<open>\<^verbatim>\<open>Tracer::make\<close> gives no null pointer, so that the tracer is always there.\<close>

definition generateTraces :: "'j host_env \<Rightarrow> nat \<Rightarrow> request \<Rightarrow> string act" where
  "generateTraces X i requestHTTP =
     (case bindE (j_parse (he_json X) (req_body requestHTTP)) (GenerateTracesRequest_from_json (he_json X)) of
        Inl e \<Rightarrow> ret (reply ''400 Bad Request'' (with_what ''JSON payload is invalid'' e))
      | Inr request \<Rightarrow>
          seq (findOrMakeTracer X i (gt_type request)) (\<lambda>key.
          seq (repeat_act (nat (gt_count request)) (generate_trace X i key request)) (\<lambda>_.
          ret (''HTTP/1.1 200 OK'' @ [CR, LF, CR, LF]))))"

section \<open>Serving\<close>

definition handleRequest :: "'j host_env \<Rightarrow> remote_call \<Rightarrow> nat \<Rightarrow> request \<Rightarrow> string act" where
  "handleRequest X call i request =
     (if req_target request = ''/'' then ret (''HTTP/1.1 200 OK'' @ [CR, LF, CR, LF])
      else if req_target request = ''/start_trace'' then
        handleJSON X i request (StartTraceRequest_from_json (he_json X)) (\<lambda>r ctx. startTrace X call i r)
      else if req_target request = ''/join_trace'' then
        handleJSON X i request (JoinTraceRequest_from_json (he_json X)) (joinTrace X call i)
      else if req_target request = ''/create_traces'' then generateTraces X i request
      else ret (''HTTP/1.1 404 Not Found'' @ [CR, LF, CR, LF]))"

text \<open>
  The task of a client's socket, from what it reads to what it writes before it closes the socket.
  An exception while reading leaves the task. The size of the message for an error is taken of the
  pointer to it, eight bytes, and not of its text.
\<close>

definition server_error :: string where
  "server_error = take (8 - 1) (''HTTP/1.1 500 Internal Server Error'' @ [CR, LF, CR, LF])"

definition serve_client :: "'j host_env \<Rightarrow> remote_call \<Rightarrow> nat \<Rightarrow> string act \<Rightarrow> string act" where
  "serve_client X call i receive =
     seq receive (\<lambda>requestStr.
     seq (log_info i (''Received request: '' @ escape requestStr)) (\<lambda>_.
     catch
       (seq (lift_parse (Request_parse (istream_of requestStr))) (\<lambda>request.
        seq (handleRequest X call i request) (\<lambda>responseStr.
        let numWritten = he_write X responseStr in
        seq (if numWritten \<noteq> int (length responseStr) then
               log_error i (''Unable to write entire response, numWritten='' @ int_str numWritten @
                 '', responseSize='' @ dec_str (length responseStr))
             else ret ()) (\<lambda>_.
        ret (written X responseStr)))))
       (\<lambda>e. seq (log_error i (logError_text ''Server error'' e)) (\<lambda>_. ret (written X server_error)))))"

text \<open>
  The servers call each other, at most \<open>fuel\<close> deep. The client does not close its side before it
  has its answer; a server that leaves its task closes the socket.
\<close>

primrec network :: "nat \<Rightarrow> 'j host_env \<Rightarrow> remote_call" where
  "network 0 X peer message = (\<lambda>w. None)"
| "network (Suc fuel) X peer message =
     catch
       (seq (serve_client X (network fuel X) peer (read_stream False message)) (\<lambda>responseStr.
        ret (stream_blocks True responseStr)))
       (\<lambda>e. ret (stream_blocks True []))"

section \<open>A new server\<close>

text \<open>Its tracer is one of the default configuration; \<^term>\<open>None\<close> would be a tracer of another kind.\<close>

definition Server_make ::
  "nat \<Rightarrow> platform \<Rightarrow> start_env stream \<Rightarrow> string \<Rightarrow> string \<Rightarrow> string \<Rightarrow> exception + server option" where
  "Server_make ld pl clock agentHostPort collectorEndpoint samplingServerURL =
     bindE (Tracer_make ld pl (env_sampler_now (shd clock)) kDefaultTracerServiceName Config0 0) (\<lambda>tracer.
     case tracer of
       JaegerTracer transport t \<Rightarrow>
         Inr (Some \<lparr>sv_tracer = t, sv_clock = stl clock, sv_console = \<lparr>c_out = [], c_err = []\<rparr>, sv_tracers = [],
           sv_agentHostPort = agentHostPort, sv_collectorEndpoint = collectorEndpoint,
           sv_samplingServerURL = samplingServerURL\<rparr>)
     | _ \<Rightarrow> Inr None)"

text \<open>\<^verbatim>\<open>main\<close>: a message for the error output, or the three strings the server is made with.\<close>

definition crossdock_main :: "(string \<Rightarrow> string option) \<Rightarrow> string + string \<times> string \<times> string" where
  "crossdock_main getenv =
     (let get = (\<lambda>name. case getenv name of None \<Rightarrow> [] | Some v \<Rightarrow> v);
          senderType = get ''SENDER''; agentHostPort = get ''AGENT_HOST_PORT'';
          collectorEndpoint = (if senderType = ''http'' then ''http://jaeger-collector:14268/api/traces'' else []);
          samplingServerURL = get ''SAMPLING_SERVER_URL''
      in if senderType = [] then Inl (''env SENDER is not specified!'' @ [LF])
         else if agentHostPort = [] \<and> senderType = ''udp'' then Inl (''env AGENT_HOST_PORT is not specified!'' @ [LF])
         else if samplingServerURL = [] then Inl (''env SAMPLING_SERVER_URL is not specified!'' @ [LF])
         else Inr (agentHostPort, collectorEndpoint, samplingServerURL))"

end
