(* ===== verification/CrossdockLaws.thy ===== *)
theory CrossdockLaws
  imports Crossdock
begin

text \<open>
  What holds of the interoperability servers. \<open>good\<close> is a total-correctness triple on actions: from
  worlds of good servers, to such a world, with a result. The rules follow the code; the chain of
  servers is an induction over the request's nested structure.
\<close>

section \<open>The structures as JSON\<close>

lemma bindO_simps [simp]: "bindO (Some (Inr x)) f = f x" "bindO (Some (Inl e)) f = Some (Inl e)" "bindO None f = None"
  by (simp_all add: bindO_def)

lemma Transport_json: "json_laws J \<Longrightarrow> Transport_from_json J (of_string J (Transport_name t)) = Inr t"
  by (cases t) (simp_all add: Transport_from_json_def json_lawsD)

lemma Downstream_to_json_object:
  "\<exists>kvs. Downstream_to_json J d = of_object J kvs"
  by (cases d) auto

lemma Downstream_json:
  assumes "document_laws J"
  shows "Downstream_from_json J (Downstream_to_json J d) = Some (Inr d)"
proof (induction d)
  case (Downstream service role hst prt transport ds)
  note laws = document_lawsD[OF assms] and j = json_lawsD[OF document_lawsD(1)[OF assms]]
  have f: "Downstream_fields J (Downstream_to_json J (Downstream service role hst prt transport ds)) =
      Inr (Downstream service role hst prt transport)"
    by (cases ds) (simp_all add: Downstream_fields_def get_field_def j Transport_json laws(1))
  show ?case
  proof (cases ds)
    case None
    then show ?thesis
      using f by (subst Downstream_from_json.simps) (simp add: find_nonnull_def j)
  next
    case (Some d)
    obtain kvs where o: "Downstream_to_json J d = of_object J kvs" using Downstream_to_json_object by blast
    have "find_nonnull J (Downstream_to_json J (Downstream service role hst prt transport ds)) ''downstream'' =
        Some (Downstream_to_json J d)"
      using Some laws(3)[of kvs] by (simp add: find_nonnull_def j o)
    moreover have "Downstream_from_json J (Downstream_to_json J d) = Some (Inr d)"
      using Downstream Some by simp
    ultimately show ?thesis
      using f Some by (subst Downstream_from_json.simps) simp
  qed
qed

lemma JoinTraceRequest_json:
  assumes "document_laws J"
  shows "JoinTraceRequest_from_json J (JoinTraceRequest_to_json J r) = Some (Inr r)"
proof -
  note laws = document_lawsD[OF assms] and j = json_lawsD[OF document_lawsD(1)[OF assms]]
  have "\<not> j_is_null J (Downstream_to_json J d)" for d
    using Downstream_to_json_object[of J d] laws(3) by auto
  then show ?thesis
    by (cases r) (auto simp: JoinTraceRequest_from_json_def JoinTraceRequest_to_json_def get_field_def
        find_nonnull_def j Downstream_json[OF assms] split: option.splits)
qed

lemma StartTraceRequest_json:
  assumes "document_laws J"
  shows "StartTraceRequest_from_json J (StartTraceRequest_to_json J r) = Some (Inr r)"
  using document_lawsD[OF assms] json_lawsD[OF document_lawsD(1)[OF assms]]
  by (cases r) (simp add: StartTraceRequest_from_json_def StartTraceRequest_to_json_def get_field_def
      Downstream_json[OF assms])

lemma ObservedSpan_json:
  assumes "document_laws J"
  shows "ObservedSpan_from_json J (ObservedSpan_to_json J s) = Inr s"
  using document_lawsD[OF assms] json_lawsD[OF document_lawsD(1)[OF assms]]
  by (cases s) (simp add: ObservedSpan_from_json_def ObservedSpan_to_json_def get_field_def)

lemma TraceResponse_to_json_object:
  "\<exists>kvs. TraceResponse_to_json J r = of_object J kvs"
  by (cases r) auto

lemma TraceResponse_json:
  assumes "document_laws J"
  shows "TraceResponse_from_json J (TraceResponse_to_json J r) = Some (Inr r)"
proof (induction r)
  case (TraceResponse sp ds err)
  note laws = document_lawsD[OF assms] and j = json_lawsD[OF document_lawsD(1)[OF assms]]
  let ?j = "TraceResponse_to_json J (TraceResponse sp ds err)"
  have "\<not> j_is_null J (ObservedSpan_to_json J s)" for s
    by (simp add: ObservedSpan_to_json_def laws(3))
  then have s: "find_span J ?j = Inr sp"
    by (cases sp; cases ds) (simp_all add: find_span_def find_nonnull_def j ObservedSpan_json[OF assms])
  have e: "get_field J (j_string J) ?j ''notImplementedError'' = Inr err"
    by (cases sp; cases ds) (simp_all add: get_field_def j)
  have n: "\<not> j_is_null J (TraceResponse_to_json J r)" for r
    using TraceResponse_to_json_object[of J r] laws(3) by auto
  have d: "find_nonnull J ?j ''downstream'' = map_option (TraceResponse_to_json J) ds"
    by (cases sp; cases ds) (simp_all add: find_nonnull_def j n)
  show ?case
    using s e d TraceResponse by (subst TraceResponse_from_json.simps) (auto simp: Let_def split: option.splits)
qed

section \<open>Documents of plain text\<close>

text \<open>What a chain of servers can be given: plain text, addresses of one line.\<close>

primrec plain_downstream :: "downstream \<Rightarrow> bool" where
  "plain_downstream (Downstream service role hst prt transport ds) \<longleftrightarrow>
     plain_string service \<and> plain_string role \<and> plain_string hst \<and> plain_string prt \<and>
     pred_option (\<lambda>x. x) (map_option plain_downstream ds)"

lemma text_Downstream: "plain_downstream d \<Longrightarrow> text_document J (Downstream_to_json J d)"
proof (induction d)
  case (Downstream service role hst prt transport ds)
  have "plain_string (Transport_name transport)" by (cases transport) simp_all
  then show ?case
    using Downstream by (auto intro!: text_object text_string split: option.splits)
qed

lemma text_JoinTraceRequest:
  "plain_string (jt_serverRole r) \<Longrightarrow> (\<And>d. jt_downstream r = Some d \<Longrightarrow> plain_downstream d) \<Longrightarrow>
   text_document J (JoinTraceRequest_to_json J r)"
  by (auto simp: JoinTraceRequest_to_json_def intro!: text_object text_string text_Downstream split: option.splits)

lemma text_StartTraceRequest:
  "plain_string (st_serverRole r) \<Longrightarrow> plain_string (st_baggage r) \<Longrightarrow> plain_downstream (st_downstream r) \<Longrightarrow>
   text_document J (StartTraceRequest_to_json J r)"
  by (auto simp: StartTraceRequest_to_json_def intro!: text_object text_string text_bool text_Downstream)

lemma text_ObservedSpan:
  "plain_string (os_traceId s) \<Longrightarrow> plain_string (os_baggage s) \<Longrightarrow> text_document J (ObservedSpan_to_json J s)"
  by (auto simp: ObservedSpan_to_json_def intro!: text_object text_string text_bool)

text \<open>The answer of a chain in which every server observes the same.\<close>

primrec answer_to :: "observed_span \<Rightarrow> downstream \<Rightarrow> trace_response" where
  "answer_to s (Downstream service role hst prt transport ds) =
     TraceResponse (Some s) (map_option (answer_to s) ds) []"

lemma text_answer:
  "plain_string (os_traceId s) \<Longrightarrow> plain_string (os_baggage s) \<Longrightarrow>
   text_document J (TraceResponse_to_json J (answer_to s d))"
proof (induction d)
  case (Downstream service role hst prt transport ds)
  then show ?case
    by (auto intro!: text_object text_string text_ObservedSpan split: option.splits)
qed

primrec links :: "downstream \<Rightarrow> nat" where
  "links (Downstream service role hst prt transport ds) = Suc (case map_option links ds of None \<Rightarrow> 0 | Some n \<Rightarrow> n)"

primrec observations :: "trace_response \<Rightarrow> (observed_span option \<times> string) list" where
  "observations (TraceResponse sp ds err) =
     (sp, err) # (case map_option observations ds of None \<Rightarrow> [] | Some xs \<Rightarrow> xs)"

lemma observations_answer: "observations (answer_to s d) = replicate (links d) (Some s, [])"
proof (induction d)
  case (Downstream service role hst prt transport ds)
  then show ?case by (cases ds) simp_all
qed

section \<open>Streams\<close>

lemma bufferedRead_stream:
  "bufferedRead (stream_blocks eof s) = (if eof \<or> \<not> kReadSize dvd length s then Some (Inr s) else None)"
  unfolding stream_blocks_def
proof (induction s rule: blocks_of_induct[where n = kReadSize])
  case (Short s)
  then have "\<not> kReadSize dvd length s" by (metis length_0_conv nat_dvd_not_less neq0_conv)
  then show ?case using Short by (simp add: blocks_of.simps[of _ s] kReadSize_def)
next
  case (Full s)
  then show ?case using dvd_drop[of kReadSize s] by auto
qed (simp_all add: kReadSize_def)

section \<open>Actions that keep the servers well\<close>

text \<open>
  From any good world an action that is \<open>good\<close> comes to an end in a good world, without an
  exception, with a result as described, unless it waits after a message of whole blocks.
\<close>

definition server_ok :: "server \<Rightarrow> bool" where
  "server_ok sv \<longleftrightarrow> t_format (sv_tracer sv) = FormatJAEGER \<and> t_headers (sv_tracer sv) = HeadersConfig0 \<and>
     t_restrictionManager (sv_tracer sv) = DefaultRestrictionManager 0 \<and> rng_live (t_rng (sv_tracer sv))"

definition good :: "'a act \<Rightarrow> ('a \<Rightarrow> bool) \<Rightarrow> bool" where
  "good m P \<longleftrightarrow> (\<forall>w. (\<forall>i. server_ok (w i)) \<longrightarrow>
     (\<exists>r w'. m w = Some (r, w') \<and> (\<forall>i. server_ok (w' i)) \<and>
       (case r of Returned x \<Rightarrow> P x | Thrown _ \<Rightarrow> False | Blocked s \<Rightarrow> kReadSize dvd length s)))"

named_theorems good_intros

lemma good_ret [good_intros]: "P x \<Longrightarrow> good (ret x) P"
  by (simp add: good_def ret_def)

lemma good_lift [good_intros]: "P x \<Longrightarrow> good (lift (Inr x)) P"
  by (simp add: good_def lift_def)

lemma good_seq:
  assumes "good m P" and "\<And>x. P x \<Longrightarrow> good (f x) Q"
  shows "good (seq m f) Q"
  unfolding good_def
proof (intro allI impI)
  fix w :: world
  assume w: "\<forall>i. server_ok (w i)"
  obtain r w1 where 1: "m w = Some (r, w1)" "\<forall>i. server_ok (w1 i)"
    "case r of Returned x \<Rightarrow> P x | Thrown _ \<Rightarrow> False | Blocked s \<Rightarrow> kReadSize dvd length s"
    using assms(1)[unfolded good_def, rule_format, of w] w by auto
  show "\<exists>r w'. seq m f w = Some (r, w') \<and> (\<forall>i. server_ok (w' i)) \<and>
       (case r of Returned x \<Rightarrow> Q x | Thrown _ \<Rightarrow> False | Blocked s \<Rightarrow> kReadSize dvd length s)"
  proof (cases r)
    case (Returned x)
    then show ?thesis
      using 1 assms(2)[of x, unfolded good_def, rule_format, of w1] by (simp add: seq_def)
  qed (use 1 in \<open>simp_all add: seq_def\<close>)
qed

lemma good_catch [good_intros]:
  assumes "good m P"
  shows "good (catch m h) P"
  unfolding good_def
proof (intro allI impI)
  fix w :: world
  assume "\<forall>i. server_ok (w i)"
  with assms obtain r w' where 1: "m w = Some (r, w')" "\<forall>i. server_ok (w' i)"
    "case r of Returned x \<Rightarrow> P x | Thrown _ \<Rightarrow> False | Blocked s \<Rightarrow> kReadSize dvd length s"
    unfolding good_def by blast
  then have "catch m h w = Some (r, w')" by (cases r) (simp_all add: catch_def)
  with 1 show "\<exists>r w'. catch m h w = Some (r, w') \<and> (\<forall>i. server_ok (w' i)) \<and>
      (case r of Returned x \<Rightarrow> P x | Thrown _ \<Rightarrow> False | Blocked s \<Rightarrow> kReadSize dvd length s)"
    by blast
qed

lemma good_update [good_intros]:
  "(\<And>sv. server_ok sv \<Longrightarrow> server_ok (f sv)) \<Longrightarrow> good (update_server i f) (\<lambda>_. True)"
  by (simp add: good_def update_server_def)

lemma good_get [good_intros]: "good (get_server i) server_ok"
  by (simp add: good_def get_server_def)

lemma outcome_weaken:
  "(case r of Returned x \<Rightarrow> P x | Thrown _ \<Rightarrow> False | Blocked s \<Rightarrow> B s) \<Longrightarrow> (\<And>x. P x \<Longrightarrow> Q x) \<Longrightarrow>
   (case r of Returned x \<Rightarrow> Q x | Thrown _ \<Rightarrow> False | Blocked s \<Rightarrow> B s)"
  by (cases r) simp_all

lemma good_weaken:
  assumes "good m P" and "\<And>x. P x \<Longrightarrow> Q x"
  shows "good m Q"
  unfolding good_def
proof (intro allI impI)
  fix w :: world
  assume "\<forall>i. server_ok (w i)"
  with assms(1) obtain r w' where 1: "m w = Some (r, w')" "\<forall>i. server_ok (w' i)"
    "case r of Returned x \<Rightarrow> P x | Thrown _ \<Rightarrow> False | Blocked s \<Rightarrow> kReadSize dvd length s"
    unfolding good_def by blast
  from outcome_weaken[where Q = Q, OF 1(3) assms(2)]
  show "\<exists>r w'. m w = Some (r, w') \<and> (\<forall>i. server_ok (w' i)) \<and>
      (case r of Returned x \<Rightarrow> Q x | Thrown _ \<Rightarrow> False | Blocked s \<Rightarrow> kReadSize dvd length s)"
    using 1 by blast
qed

lemma good_read_clock [good_intros]: "good (read_clock i) (\<lambda>_. True)"
  unfolding read_clock_def
  by (rule good_seq, rule good_get, rule good_seq, rule good_update, simp add: server_ok_def, rule good_ret, rule TrueI)

lemma good_log [good_intros]: "good (log_info i m) (\<lambda>_. True)" "good (log_error i m) (\<lambda>_. True)"
  unfolding log_info_def log_error_def by (rule good_update, simp add: server_ok_def)+

lemma server_ok_tracer:
  assumes "tracer_config t = tracer_config (sv_tracer sv)" and "rng_live (t_rng t)" and "server_ok sv"
  shows "server_ok (sv\<lparr>sv_tracer := t\<rparr>)"
  using assms by (simp add: server_ok_def tracer_config_def)

lemma reportSpan_kept: "tracer_config (reportSpan s t) = tracer_config t" "t_rng (reportSpan s t) = t_rng t"
  by (simp_all add: reportSpan_def Let_def)

lemma good_finish [good_intros]: "good (finish_span i s) (\<lambda>_. True)"
  unfolding finish_span_def
proof (rule good_seq[OF good_read_clock])
  fix env
  show "good (case FinishWithOptions (env_steady_now env) 0 [] s of (s', rep) \<Rightarrow>
       update_server i (\<lambda>sv. if rep then sv\<lparr>sv_tracer := reportSpan s' (sv_tracer sv)\<rparr> else sv)) (\<lambda>_. True)"
    by (cases "FinishWithOptions (env_steady_now env) 0 [] s")
      (auto intro!: good_update server_ok_tracer simp: reportSpan_kept, simp add: server_ok_def)
qed

lemma good_with_span: "good body P \<Longrightarrow> good (with_span i s body) P"
  unfolding with_span_def
  by (rule good_seq[OF good_catch], assumption) (rule good_seq[OF good_finish], rule good_ret)

lemma good_start:
  assumes "\<And>ld env (t :: thrift_sender tracer) s t'. StartSpanWithOptions ld env operation opts t = Some (s, t') \<Longrightarrow> \<exists>sp. s = Some sp \<and> P sp"
  shows "good (start_span X i operation opts) P"
  unfolding start_span_def
proof (rule good_seq[OF good_read_clock], unfold good_def, intro allI impI)
  fix env and w :: world
  let ?run = "StartSpanWithOptions (he_ld X) env operation opts (sv_tracer (w i))"
  assume w: "\<forall>i. server_ok (w i)"
  then have "rng_live (t_rng (sv_tracer (w i)))" by (simp add: server_ok_def)
  then obtain s t' where s: "?run = Some (s, t')" using start_span_returns by blast
  then obtain sp where sp: "s = Some sp" "P sp" using assms by blast
  have "server_ok ((w i)\<lparr>sv_tracer := t'\<rparr>)"
    using start_span_config[OF s] start_span_live[OF s] w by (intro server_ok_tracer) (auto simp: server_ok_def)
  then show "\<exists>r w'. (case ?run of Some (Some s, t') \<Rightarrow> Some (Returned s, w(i := (w i)\<lparr>sv_tracer := t'\<rparr>)) | _ \<Rightarrow> None) =
      Some (r, w') \<and> (\<forall>i. server_ok (w' i)) \<and>
      (case r of Returned x \<Rightarrow> P x | Thrown _ \<Rightarrow> False | Blocked s \<Rightarrow> kReadSize dvd length s)"
    using s sp w by simp
qed

lemma good_set_baggage:
  assumes "int (length v) \<le> INT_MAX"
  shows "good (set_baggage i key v s) (\<lambda>s'. sp_context s' =
     withBaggage (sp_context s) (AList.update key (take (nat kDefaultMaxValueLength) v) (baggage (sp_context s))))"
  unfolding set_baggage_def
proof (rule good_seq[OF good_read_clock], rule good_seq[OF good_get])
  fix env and sv
  assume sv: "server_ok sv"
  let ?set = "SetBaggageItem (t_restrictionManager (sv_tracer sv)) (env_system_now env) key v s (t_metrics (sv_tracer sv))"
  obtain s' ms' where set: "?set = (s', ms')" by fastforce
  have "sp_context s' =
     withBaggage (sp_context s) (AList.update key (take (nat kDefaultMaxValueLength) v) (baggage (sp_context s)))"
    using set sv by (auto simp: SetBaggageItem_def setBaggage_def server_ok_def DefaultRestrictionManager_def
        getRestriction_def Restriction_def kDefaultMaxValueLength_def logFieldsNoLocking_def Let_def
        int32_nonneg assms split: option.splits if_splits)
  then show "good (case ?set of (s', ms') \<Rightarrow>
      seq (update_server i (\<lambda>sv. sv\<lparr>sv_tracer := (sv_tracer sv)\<lparr>t_metrics := ms'\<rparr>\<rparr>)) (\<lambda>_. ret s'))
     (\<lambda>s'. sp_context s' =
       withBaggage (sp_context s) (AList.update key (take (nat kDefaultMaxValueLength) v) (baggage (sp_context s))))"
    unfolding set prod.case
    by (intro good_seq[OF good_update] good_ret) (simp_all add: server_ok_def)
qed

section \<open>The spans of a chain\<close>

text \<open>What a chain carries on: a valid context with the one baggage item.\<close>

definition carries :: "string \<Rightarrow> span_context \<Rightarrow> bool" where
  "carries v c \<longleftrightarrow> isValid c \<and> baggage c = [(kBaggageKey, v)]"

lemma start_span_some:
  assumes "choose_self (opt_references opts) = None"
    and "StartSpanWithOptions ld env operation opts t = Some (s, t')"
  shows "\<exists>sp. s = Some sp"
  using start_span_eq[OF _ assms(2)] assms(1) by (auto simp: analyzeReferences_eq)

lemma choose_self_child: "choose_self [] = None" "choose_self [(ChildOfRef, c)] = None"
  by (simp_all add: choose_self_def)

lemma good_start_any:
  "choose_self (opt_references opts) = None \<Longrightarrow> good (start_span X i operation opts) (\<lambda>_. True)"
  by (rule good_start) (use start_span_some in blast)

lemma good_start_child:
  assumes "isValid g" and "opt_references opts = [(ChildOfRef, Some g)]"
  shows "good (start_span X i operation opts) (\<lambda>s. isValid (sp_context s) \<and>
    traceID (sp_context s) = traceID g \<and> flags (sp_context s) = flags g \<and> baggage (sp_context s) = baggage g)"
proof (rule good_start)
  fix ld env s t' and t :: "thrift_sender tracer"
  assume "StartSpanWithOptions ld env operation opts t = Some (s, t')"
  from start_from_parent[OF assms this] obtain sp where sp: "s = Some sp" "spanID (sp_context sp) \<noteq> 0"
    "sp_context sp = SpanContext (traceID g) (spanID (sp_context sp)) (spanID g) (flags g) (baggage g) [] []"
    by blast
  from arg_cong[OF sp(3), of traceID] arg_cong[OF sp(3), of flags] arg_cong[OF sp(3), of baggage]
  show "\<exists>sp. s = Some sp \<and> isValid (sp_context sp) \<and> traceID (sp_context sp) = traceID g \<and>
      flags (sp_context sp) = flags g \<and> baggage (sp_context sp) = baggage g"
    using sp(1,2) assms(1) by (simp add: SpanContext_def isValid_def)
qed

lemma good_start_root:
  "good (start_span X i operation no_options) (\<lambda>s. isValid (sp_context s) \<and> baggage (sp_context s) = [])"
proof (rule good_start)
  fix ld env s t' and t :: "thrift_sender tracer"
  assume run: "StartSpanWithOptions ld env operation no_options t = Some (s, t')"
  have a: "fst (analyzeReferences []) = \<lparr>ar_parent = None, ar_self = None, ar_references = []\<rparr>"
    by (simp add: analyzeReferences_eq followed_def choose_parent_def choose_self_def)
  from start_span_eq[OF _ run] obtain ctx tags newTrace t1 sp where
    c: "start_context ld env operation None None (t\<lparr>t_log := t_log t @ snd (analyzeReferences [])\<rparr>) = Some (ctx, tags, newTrace, t1)"
    and s: "s = Some sp" "(sp, t') = startSpanInternal ctx operation (fst (determineStartTimes env no_options))
      (snd (determineStartTimes env no_options)) tags [] newTrace [] t1"
    by (auto simp: no_options_def a)
  have "sp_context sp = ctx"
    using arg_cong[OF s(2), of fst] by (simp add: startSpanInternal_span Span_def)
  then show "\<exists>sp. s = Some sp \<and> isValid (sp_context sp) \<and> baggage (sp_context sp) = []"
    using start_context_root[OF disjI1[OF refl] c] s(1) by (auto simp: isValid_def TraceID_isValid_def)
qed

section \<open>The message to the next server\<close>

lemma SpanContext_print_chars: "c \<in> set (SpanContext_print ctx) \<Longrightarrow> isHex c \<or> c = CHR '':''"
  using TraceID_print_hex[of "traceID ctx"] put_hex_hex_string[of 16 "spanID ctx"]
    put_hex_hex_string[of 16 "parentID ctx"] put_hex_hex_string[of 0 "flags ctx"]
  by (auto simp: SpanContext_print_def hex_string_def)

lemma queryEscape_nonempty: "v \<noteq> [] \<Longrightarrow> queryEscape v \<noteq> []"
  by (cases v) (auto simp: queryEscape_def escape_char_def)

lemma chain_headers:
  "headers_ok HeadersConfig0" "lowercase (traceContextHeaderName HeadersConfig0)"
  "lowercase (addBaggageKeyPrefix HeadersConfig0 kBaggageKey)"
  by code_simp+

definition as_header :: "string \<times> string \<Rightarrow> header" where
  "as_header kv = Header (fst kv) (snd kv)"

lemma injected_headers_wf:
  assumes "carries v ctx" and "v \<noteq> []"
  shows "\<forall>kv \<in> set (jaeger_doInject HeadersConfig0 http_codec ctx []). header_wf (as_header kv)"
proof -
  have "CHR '':'' \<in> set (SpanContext_print ctx)" by (simp add: SpanContext_print_def)
  then have p: "SpanContext_print ctx \<noteq> []" "set (SpanContext_print ctx) \<inter> {CR, LF} = {}"
    using SpanContext_print_chars[of CR ctx] SpanContext_print_chars[of LF ctx] by (auto simp: isHex_ord)
  have q: "set (queryEscape v) \<inter> {CR, LF} = {}"
    using queryEscape_alphabet[of CR v] queryEscape_alphabet[of LF v] by (auto simp: isUnreserved_def isalpha_def isupper_def islower_def isdigit_def)
  have k: "traceContextHeaderName HeadersConfig0 = ''uber-trace-id''"
    "addBaggageKeyPrefix HeadersConfig0 kBaggageKey = ''uberctx-crossdock-baggage-key''"
    by code_simp+
  show ?thesis
    using assms p q queryEscape_nonempty[of v]
    by (auto simp: jaeger_doInject_eq jaeger_pair_def carries_def header_wf_def as_header_def Header_def k http_codec_def)
qed

definition own_headers :: "string \<Rightarrow> nat \<Rightarrow> strmap \<times> strmap" where
  "own_headers authority n = ([(''Host'', authority)],
     [(''Connection'', ''close''), (''Content-Type'', ''application/json''), (''Content-Length'', dec_str n)])"

lemma own_headers_irrelevant:
  "\<forall>kv \<in> set (fst (own_headers a n) @ snd (own_headers a n)). irrelevant HeadersConfig0 http_codec kv"
proof -
  have "\<forall>k \<in> {''Host'', ''Connection'', ''Content-Type'', ''Content-Length''}.
      irrelevant HeadersConfig0 http_codec (k, x)" for x
    unfolding irrelevant_def fst_conv by code_simp
  then show ?thesis by (simp add: own_headers_def)
qed

lemma own_headers_wf:
  assumes "a \<noteq> []" and "set a \<inter> {CR, LF} = {}"
  shows "\<forall>kv \<in> set (fst (own_headers a n) @ snd (own_headers a n)). header_wf (as_header kv)"
proof -
  have "set (dec_str n) \<inter> {CR, LF} = {}"
    using dec_str_digits[of CR n] dec_str_digits[of LF n] by (auto simp: isdigit_def)
  moreover have "dec_str n \<noteq> []" by (subst dec_str.simps) simp
  ultimately show ?thesis using assms by (auto simp: own_headers_def header_wf_def as_header_def Header_def)
qed

lemma RequestWriter_headers: "RequestWriter kvs = concat (map (\<lambda>h. print_header h @ [CR, LF]) (map as_header kvs))"
  by (simp add: RequestWriter_def print_header_def as_header_def Header_def comp_def split_def)

lemma downstream_message_parses:
  assumes "a \<noteq> []" and "set a \<inter> {CR, LF} = {}" and "\<forall>kv \<in> set carrier. header_wf (as_header kv)"
  shows "Request_parse (istream_of (downstream_message a carrier body)) =
    Inr \<lparr>req_method = POST, req_target = ''/join_trace'', req_version = ''1.1'',
      req_headers = map as_header (fst (own_headers a (length body)) @ carrier @ snd (own_headers a (length body))),
      req_body = body\<rparr>"
proof -
  let ?hs = "map as_header (fst (own_headers a (length body)) @ carrier @ snd (own_headers a (length body)))"
  have "downstream_message a carrier body =
      ''POST'' @ '' '' @ ''/join_trace'' @ '' HTTP/'' @ ''1.1'' @ [CR, LF] @ print_headers ?hs @ body"
    unfolding downstream_message_def RequestWriter_headers
    by (simp add: print_headers_def own_headers_def as_header_def print_header_def Header_def)
  moreover have "\<forall>h \<in> set ?hs. header_wf h"
    using own_headers_wf[OF assms(1,2), of "length body"] assms(3) by auto
  moreover have "parseMethod ''POST'' = POST" by (simp add: parseMethod_def kMethodNames_def)
  moreover have "match_version ''1.1''" by (simp add: match_version_def isdigit_def)
  ultimately show ?thesis
    using Request_parse_print[of "''POST''" "''/join_trace''" "''1.1''" ?hs body] by (simp add: isupper_def)
qed

lemma reply_parses:
  "Response_parse (istream_of (reply (''200 OK'' @ [CR, LF] @ ''Content-Type: application/json'') body)) =
    Inr \<lparr>resp_version = ''1.1'', resp_statusCode = 200, resp_reason = ''OK'',
      resp_headers = map as_header [(''Content-Type'', ''application/json''), (''Content-Length'', dec_str (length body))],
      resp_body = body\<rparr>"
proof -
  let ?hs = "map as_header [(''Content-Type'', ''application/json''), (''Content-Length'', dec_str (length body))]"
  have d: "dec_str 200 = ''200''" by code_simp
  have "reply (''200 OK'' @ [CR, LF] @ ''Content-Type: application/json'') body =
      ''HTTP/'' @ ''1.1'' @ '' '' @ dec_str 200 @ '' '' @ ''OK'' @ [CR, LF] @ print_headers ?hs @ body"
    unfolding d reply_def by (simp add: print_headers_def as_header_def print_header_def Header_def)
  moreover have "\<forall>h \<in> set ?hs. header_wf h"
    using own_headers_wf[of "''x''" "length body"] by (simp add: own_headers_def)
  moreover have "match_version ''1.1''" by (simp add: match_version_def isdigit_def)
  ultimately show ?thesis
    using Response_parse_print[of "''1.1''" 200 "''OK''" ?hs body] by (simp add: INT_MAX_def)
qed

section \<open>A chain of servers\<close>

text \<open>
  The chain a request describes: plain text, HTTP throughout, every address on one line and
  reached by a socket.
\<close>

primrec reachable_chain :: "'j host_env \<Rightarrow> downstream \<Rightarrow> bool" where
  "reachable_chain X (Downstream service role hst prt transport ds) \<longleftrightarrow>
     transport = HTTP \<and> set (hst @ prt) \<inter> {CR, LF} = {} \<and>
     (\<exists>peer. he_connect X (URI_parse (''http://'' @ hst @ CHR '':'' # prt)) = Inr peer) \<and>
     pred_option (\<lambda>x. x) (map_option (reachable_chain X) ds)"

text \<open>A host whose sockets take a message whole, with a JSON library as documented.\<close>

definition host_ok :: "'j host_env \<Rightarrow> bool" where
  "host_ok X \<longleftrightarrow> document_laws (he_json X) \<and> (\<forall>m. he_write X m = int (length m))"

lemma host_okD:
  assumes "host_ok X"
  shows "document_laws (he_json X)" "he_write X m = int (length m)" "written X m = m"
  using assms by (simp_all add: host_ok_def written_def)

lemma single_item: "strmap_ok m \<Longrightarrow> map_of m = map_of [(k, v)] \<Longrightarrow> m = [(k, v)]"
proof -
  assume "strmap_ok m" and eq: "map_of m = map_of [(k, v)]"
  then have d: "distinct (map fst m)" by (simp add: strmap_ok_def)
  have s: "set m = {(k, v)}" using map_of_inject_set[OF d, of "[(k, v)]"] eq by simp
  have "distinct m" using d by (simp add: distinct_map)
  then have "length m = 1" using s by (metis card.empty card_insert_if distinct_card empty_iff finite.emptyI One_nat_def)
  then show ?thesis using s by (cases m) auto
qed

lemma observe_carries: "carries v c \<Longrightarrow> observeSpan c = \<lparr>os_traceId = TraceID_print (traceID c), os_sampled = isSampled c, os_baggage = v\<rparr>"
  by (simp add: observeSpan_def carries_def)

lemma observe_same:
  "carries v c \<Longrightarrow> carries v c' \<Longrightarrow> traceID c' = traceID c \<Longrightarrow> flags c' = flags c \<Longrightarrow> observeSpan c' = observeSpan c"
  by (simp add: observe_carries isSampled_def)

lemma plain_trace_id: "plain_string (TraceID_print t)"
  using TraceID_print_hex[of t] by (auto simp: plain_string_def hex_string_def isHex_ord)

lemma escapable_plain: "escapable_string v \<Longrightarrow> plain_string v"
  by (auto simp: escapable_string_def escapable_def plain_string_def)

lemma good_liftO: "P x \<Longrightarrow> good (liftO (Some (Inr x))) P"
  by (simp add: liftO_def good_lift)

lemma seq_simps [simp]: "seq (ret x) f = f x" "seq (lift (Inr x)) f = f x" "lift_parse (Inr x) = lift (Inr x)"
  by (auto simp: seq_def ret_def lift_def lift_parse_def)

lemma good_receive: "good (read_stream False m) (\<lambda>s. s = m)"
  by (simp add: read_stream_def bufferedRead_stream good_lift) (simp add: good_def)

text \<open>A request that is handled is answered.\<close>

lemma good_network:
  assumes "host_ok X" and "Request_parse (istream_of m) = Inr q"
    and "good (handleRequest X (network fuel X) peer q) P"
  shows "good (network (Suc fuel) X peer m) (\<lambda>bs. \<exists>s. bufferedRead bs = Some (Inr s) \<and> P s)"
proof -
  have w: "(\<lambda>responseStr. let numWritten = he_write X responseStr in
      seq (if numWritten \<noteq> int (length responseStr) then log_error peer (''Unable to write entire response, numWritten='' @
             int_str numWritten @ '', responseSize='' @ dec_str (length responseStr)) else ret ()) (\<lambda>_.
      ret (written X responseStr))) = ret"
    by (rule ext) (simp add: host_okD[OF assms(1)] Let_def)
  have "good (seq (handleRequest X (network fuel X) peer q) ret) P"
    by (rule good_seq[OF assms(3)]) (rule good_ret)
  then have "good (serve_client X (network fuel X) peer (read_stream False m)) P"
    unfolding serve_client_def w
    by (intro good_seq[OF good_receive] good_seq[OF good_log(1)] good_catch) (simp add: assms(2))
  then show ?thesis
    unfolding network.simps by (intro good_catch) (erule good_seq, auto intro!: good_ret simp: bufferedRead_stream)
qed

lemma extract_kept:
  assumes "Extract_HTTPHeaders hs t = (ctx, t')"
  shows "tracer_config t' = tracer_config t" "t_rng t' = t_rng t"
  using assms by (auto simp: Extract_HTTPHeaders_def Extract_text_def split: prod.splits)

definition ok_reply :: "string \<Rightarrow> string" where
  "ok_reply = reply (''200 OK'' @ [CR, LF] @ ''Content-Type: application/json'')"

lemma good_answer_document:
  assumes "host_ok X" and "j_parse (he_json X) (req_body q) = Inr j" and "from_json j = Some (Inr r)"
    and "good (handler r) (\<lambda>tr. text_document (he_json X) (TraceResponse_to_json (he_json X) tr) \<and> P tr)"
  shows "good (answer_document X q from_json handler) (\<lambda>resp. \<exists>tr msg. P tr \<and>
    j_parse (he_json X) msg = Inr (TraceResponse_to_json (he_json X) tr) \<and> resp = ok_reply msg)"
  unfolding answer_document_def assms(2) bindO_simps assms(3) option.case sum.case
proof (rule good_seq[OF assms(4)])
  fix tr
  let ?j = "TraceResponse_to_json (he_json X) tr"
  assume tr: "text_document (he_json X) ?j \<and> P tr"
  then obtain msg where "j_dump (he_json X) ?j = Inr msg" "j_parse (he_json X) msg = Inr ?j"
    using document_lawsD(4)[OF host_okD(1)[OF assms(1)]] by blast
  then show "good (case j_dump (he_json X) ?j of
          Inl e \<Rightarrow> ret (reply ''500 Internal Server Error'' (with_what ''Cannot marshal response to JSON'' e))
        | Inr message \<Rightarrow> ret (reply (''200 OK'' @ [CR, LF] @ ''Content-Type: application/json'') message))
      (\<lambda>resp. \<exists>tr msg. P tr \<and> j_parse (he_json X) msg = Inr (TraceResponse_to_json (he_json X) tr) \<and> resp = ok_reply msg)"
    using tr by (auto intro!: good_ret simp: ok_reply_def)
qed

text \<open>\<open>R\<close> holds of the extracted context, \<open>S\<close> of the span that is started with it.\<close>

lemma good_handleJSON:
  assumes "host_ok X" and "j_parse (he_json X) (req_body q) = Inr j" and "from_json j = Some (Inr r)"
    and "\<And>t ctx t'. t_format t = FormatJAEGER \<Longrightarrow> t_headers t = HeadersConfig0 \<Longrightarrow>
      Extract_HTTPHeaders (RequestReader q) (t :: thrift_sender tracer) = (ctx, t') \<Longrightarrow> R ctx"
    and "\<And>ctx now. R ctx \<Longrightarrow> good (start_span X i ''post'' (post_options ctx now)) S"
    and "\<And>s. S s \<Longrightarrow> good (handler r (sp_context s))
      (\<lambda>tr. text_document (he_json X) (TraceResponse_to_json (he_json X) tr) \<and> P tr)"
  shows "good (handleJSON X i q from_json handler) (\<lambda>resp. \<exists>tr msg. P tr \<and>
    j_parse (he_json X) msg = Inr (TraceResponse_to_json (he_json X) tr) \<and> resp = ok_reply msg)"
  unfolding handleJSON_def
proof (rule good_seq[OF good_get])
  fix sv
  assume sv: "server_ok sv"
  obtain ctx t' where x: "Extract_HTTPHeaders (RequestReader q) (sv_tracer sv) = (ctx, t')" by fastforce
  have R: "R ctx" using sv by (intro assms(4)[OF _ _ x]) (simp_all add: server_ok_def)
  have upd: "server_ok (sv'\<lparr>sv_tracer := t'\<rparr>)" for sv'
    using extract_kept[OF x] sv by (simp add: server_ok_def tracer_config_def)
  show "good (case Extract_HTTPHeaders (RequestReader q) (sv_tracer sv) of (ctx, t') \<Rightarrow>
      seq (update_server i (\<lambda>sv. sv\<lparr>sv_tracer := t'\<rparr>)) (\<lambda>_.
      seq (read_clock i) (\<lambda>now.
      seq (start_span X i ''post'' (post_options ctx now)) (\<lambda>s.
      with_span i s (answer_document X q from_json (\<lambda>r. handler r (sp_context s)))))))
     (\<lambda>resp. \<exists>tr msg. P tr \<and> j_parse (he_json X) msg = Inr (TraceResponse_to_json (he_json X) tr) \<and> resp = ok_reply msg)"
    unfolding x prod.case
    by (rule good_seq[OF good_update[OF upd]], rule good_seq[OF good_read_clock], rule good_seq[OF assms(5)[OF R]],
        rule good_with_span, rule good_answer_document[where from_json = from_json and j = j and r = r, OF assms(1-3)],
        erule assms(6))
qed

text \<open>One link: what the next server answers is what it observes and the answer of the rest.\<close>

lemma good_joinTrace:
  assumes "host_ok X" and "carries v ctx" and "escapable_string v" "v \<noteq> []"
    and "a \<noteq> []" "set a \<inter> {CR, LF} = {}" and "j_parse (he_json X) body = Inr (JoinTraceRequest_to_json (he_json X) r)"
    and "\<And>c. carries v c \<Longrightarrow> observeSpan c = observeSpan ctx \<Longrightarrow>
      good (prepareResponse X (network fuel X) peer c (jt_downstream r)) (\<lambda>tr. tr = answer_to (observeSpan ctx) d)"
  shows "good (network (Suc fuel) X peer (downstream_message a (jaeger_doInject HeadersConfig0 http_codec ctx []) body))
    (\<lambda>bs. \<exists>s msg. bufferedRead bs = Some (Inr s) \<and> s = ok_reply msg \<and>
       j_parse (he_json X) msg = Inr (TraceResponse_to_json (he_json X) (answer_to (observeSpan ctx) d)))"
proof -
  let ?J = "he_json X"
  let ?w = "jaeger_doInject HeadersConfig0 http_codec ctx []"
  let ?own = "own_headers a (length body)"
  obtain q where parse: "Request_parse (istream_of (downstream_message a ?w body)) = Inr q"
    and q: "req_target q = ''/join_trace''" "req_body q = body" "RequestReader q = fst ?own @ ?w @ snd ?own"
    unfolding downstream_message_parses[OF assms(5,6) injected_headers_wf[OF assms(2,4)]]
    by (simp add: RequestReader_def as_header_def Header_def comp_def)
  have ctx: "isValid ctx" "strmap_ok (baggage ctx)" "baggage ctx = [(kBaggageKey, v)]"
    using assms(2) by (simp_all add: carries_def strmap_ok_def)
  then have vb: "\<forall>kv \<in> set (baggage ctx). lowercase (addBaggageKeyPrefix HeadersConfig0 (fst kv)) \<and> escapable_string (snd kv)"
    using chain_headers(3) assms(3) by simp
  have ms: "mset (RequestReader q) = mset ?w + mset (fst ?own @ snd ?own)" by (simp add: q(3))
  define R where "R got \<longleftrightarrow> (\<exists>g. got = Some g \<and> carries v g \<and> observeSpan g = observeSpan ctx)" for got
  define S where "S s \<longleftrightarrow> carries v (sp_context s) \<and> observeSpan (sp_context s) = observeSpan ctx" for s :: span
  have 1: "R got" if "t_format t = FormatJAEGER" "t_headers t = HeadersConfig0"
    "Extract_HTTPHeaders (RequestReader q) (t :: thrift_sender tracer) = (got, t')" for t got t'
  proof -
    from extract_carried[OF chain_headers(1,2) that(1,2) ctx(1,2) vb own_headers_irrelevant ms that(3)]
    obtain g where g: "got = Some g" "isValid g" "traceID g = traceID ctx" "flags g = flags ctx"
      "map_of (baggage g) = map_of (baggage ctx)" "strmap_ok (baggage g)" by blast
    then have "carries v g" using single_item[of "baggage g" kBaggageKey v] ctx(3) by (simp add: carries_def)
    then show ?thesis using g observe_same[OF assms(2)] by (simp add: R_def)
  qed
  have 2: "good (start_span X peer ''post'' (post_options got now)) S" if R: "R got" for got now
  proof -
    obtain g where g: "got = Some g" "carries v g" "observeSpan g = observeSpan ctx"
      using R unfolding R_def by blast
    have "isValid g" "opt_references (post_options got now) = [(ChildOfRef, Some g)]"
      using g by (simp_all add: carries_def post_options_def)
    note good_start_child[OF this, of X peer "''post''"]
    then show ?thesis
    proof (rule good_weaken)
      fix s :: span
      assume "isValid (sp_context s) \<and> traceID (sp_context s) = traceID g \<and> flags (sp_context s) = flags g \<and>
        baggage (sp_context s) = baggage g"
      moreover from this have "carries v (sp_context s)" using g(2) by (simp add: carries_def)
      ultimately show "S s" using observe_same[OF g(2)] g(3) by (simp add: S_def)
    qed
  qed
  have doc: "text_document ?J (TraceResponse_to_json ?J (answer_to (observeSpan ctx) d))"
    using assms(2,3) by (intro text_answer) (simp_all add: observe_carries plain_trace_id escapable_plain)
  have 3: "good (joinTrace X (network fuel X) peer r (sp_context s))
      (\<lambda>tr. text_document ?J (TraceResponse_to_json ?J tr) \<and> tr = answer_to (observeSpan ctx) d)" if "S s" for s
    unfolding joinTrace_def by (rule good_weaken[OF assms(8)]) (use that doc in \<open>auto simp: S_def\<close>)
  have j: "j_parse ?J (req_body q) = Inr (JoinTraceRequest_to_json ?J r)" by (simp add: q(2) assms(7))
  note good_handleJSON[where R = R and S = S and q = q and from_json = "JoinTraceRequest_from_json ?J"
      and handler = "joinTrace X (network fuel X) peer" and P = "\<lambda>tr. tr = answer_to (observeSpan ctx) d",
      OF assms(1) j JoinTraceRequest_json[OF host_okD(1)[OF assms(1)]] 1 2 3]
  then have "good (handleRequest X (network fuel X) peer q) (\<lambda>resp. \<exists>tr msg. tr = answer_to (observeSpan ctx) d \<and>
      j_parse ?J msg = Inr (TraceResponse_to_json ?J tr) \<and> resp = ok_reply msg)"
    unfolding handleRequest_def q(1) by simp
  from good_network[OF assms(1) parse this] show ?thesis by (rule good_weaken) auto
qed

lemma ok_reply_parses:
  "\<exists>resp. Response_parse (istream_of (ok_reply body)) = Inr resp \<and> resp_statusCode resp = 200 \<and> resp_body resp = body"
  unfolding ok_reply_def reply_parses by simp

lemma good_read_answer:
  assumes "document_laws J" and "j_parse J msg = Inr (TraceResponse_to_json J tr0)"
  shows "good (seq (log_info i m) (\<lambda>_.
      seq (lift_parse (Response_parse (istream_of (ok_reply msg)))) (\<lambda>response.
      seq (lift (j_parse J (resp_body response))) (\<lambda>j. liftO (TraceResponse_from_json J j))))) (\<lambda>tr. tr = tr0)"
proof -
  obtain resp where "Response_parse (istream_of (ok_reply msg)) = Inr resp" "resp_body resp = msg"
    using ok_reply_parses by blast
  then show ?thesis
    by (intro good_seq[OF good_log(1)]) (simp add: assms(2) TraceResponse_json[OF assms(1)] liftO_def good_lift)
qed

lemma good_callDownstream:
  assumes X: "host_ok X" and v: "escapable_string v" "v \<noteq> []"
  shows "carries v ctx \<Longrightarrow> plain_downstream d \<Longrightarrow> reachable_chain X d \<Longrightarrow> links d \<le> fuel \<Longrightarrow>
    good (callDownstream X (network fuel X) i ctx d) (\<lambda>tr. tr = answer_to (observeSpan ctx) d)"
proof (induction d arbitrary: fuel i ctx)
  case (Downstream service role hst prt transport ds)
  let ?d = "Downstream service role hst prt transport ds"
  let ?J = "he_json X"
  let ?a = "hst @ CHR '':'' # prt"
  let ?r = "\<lparr>jt_serverRole = role, jt_downstream = ds\<rparr>"
  from Downstream.prems(4) obtain f where f: "fuel = Suc f" by (cases fuel) auto
  from Downstream.prems(3) obtain peer where peer: "he_connect X (URI_parse (''http://'' @ ?a)) = Inr peer"
    and a: "transport = HTTP" "set ?a \<inter> {CR, LF} = {}" "?a \<noteq> []" by auto
  have "text_document ?J (JoinTraceRequest_to_json ?J ?r)"
    using Downstream.prems(2) by (intro text_JoinTraceRequest) auto
  then obtain body where body: "j_dump ?J (JoinTraceRequest_to_json ?J ?r) = Inr body"
    "j_parse ?J body = Inr (JoinTraceRequest_to_json ?J ?r)"
    using document_lawsD(4)[OF host_okD(1)[OF X]] by blast
  have next_server: "good (prepareResponse X (network f X) peer c (jt_downstream ?r)) (\<lambda>tr. tr = answer_to (observeSpan ctx) ?d)"
    if c: "carries v c" "observeSpan c = observeSpan ctx" for c
  proof (cases ds)
    case None
    then show ?thesis by (simp add: prepareResponse_def c good_ret)
  next
    case (Some d')
    have "good (callDownstream X (network f X) peer c d') (\<lambda>tr. tr = answer_to (observeSpan c) d')"
      using Downstream.prems f Some by (intro Downstream.IH[OF _ c(1)]) auto
    then show ?thesis
      unfolding prepareResponse_def using Some c(2) by (auto elim!: good_seq intro!: good_ret)
  qed
  let ?m = "downstream_message ?a (jaeger_doInject HeadersConfig0 http_codec ctx []) body"
  let ?answer = "\<lambda>msg. j_parse ?J msg = Inr (TraceResponse_to_json ?J (answer_to (observeSpan ctx) ?d))"
  have call: "good (network (Suc f) X peer ?m) (\<lambda>bs. \<exists>s msg. bufferedRead bs = Some (Inr s) \<and> s = ok_reply msg \<and> ?answer msg)"
    by (rule good_joinTrace[OF X Downstream.prems(1) v a(3,2) body(2)]) (rule next_server)
  have exchange: "good (seq (log_info i (''Sending request downstream: '' @ escape ?m)) (\<lambda>_.
      seq (network fuel X peer (written X ?m)) (\<lambda>blocks.
      seq (read_blocks ?m blocks) (\<lambda>responseStr.
      seq (log_info i (''Received downstream response: '' @ escape responseStr)) (\<lambda>_.
      seq (lift_parse (Response_parse (istream_of responseStr))) (\<lambda>response.
      seq (lift (j_parse ?J (resp_body response))) (\<lambda>j. liftO (TraceResponse_from_json ?J j))))))))
    (\<lambda>tr. tr = answer_to (observeSpan ctx) ?d)"
    unfolding f host_okD(3)[OF X]
  proof (rule good_seq[OF good_log(1)], rule good_seq[OF call], elim exE conjE)
    fix bs s msg
    assume "bufferedRead bs = Some (Inr s)" and "s = ok_reply msg" and msg: "?answer msg"
    then have r: "read_blocks ?m bs = lift (Inr (ok_reply msg))" by (simp only: read_blocks_def option.case)
    show "good (seq (read_blocks ?m bs) (\<lambda>responseStr.
        seq (log_info i (''Received downstream response: '' @ escape responseStr)) (\<lambda>_.
        seq (lift_parse (Response_parse (istream_of responseStr))) (\<lambda>response.
        seq (lift (j_parse ?J (resp_body response))) (\<lambda>j. liftO (TraceResponse_from_json ?J j))))))
      (\<lambda>tr. tr = answer_to (observeSpan ctx) ?d)"
      unfolding r seq_simps(2) by (rule good_read_answer[OF host_okD(1)[OF X] msg])
  qed
  have inj: "(case Inject_HTTPHeaders (sv_tracer sv) (Some ctx) [] of Inl _ \<Rightarrow> [] | Inr c \<Rightarrow> c) =
      jaeger_doInject HeadersConfig0 http_codec ctx []" if "server_ok sv" for sv
    using that by (simp add: Inject_HTTPHeaders_def Inject_text_def server_ok_def)
  show ?case
    unfolding callDownstream_def callDownstreamHTTP_def
    using peer by (simp add: a(1) body(1) Let_def) (rule good_seq[OF good_get], simp add: inj exchange[simplified])
qed

lemma good_startTrace:
  assumes X: "host_ok X" and v: "escapable_string (st_baggage r)" "st_baggage r \<noteq> []"
      "int (length (st_baggage r)) \<le> INT_MAX"
    and d: "plain_downstream (st_downstream r)" "reachable_chain X (st_downstream r)" "links (st_downstream r) \<le> fuel"
  shows "good (startTrace X (network fuel X) i r) (\<lambda>tr. \<exists>seen.
    tr = TraceResponse (Some seen) (Some (answer_to seen (st_downstream r))) [] \<and>
    plain_string (os_traceId seen) \<and> os_baggage seen = take (nat kDefaultMaxValueLength) (st_baggage r) \<and>
    (st_sampled r \<longrightarrow> os_sampled seen))"
proof -
  define v where "v = take (nat kDefaultMaxValueLength) (st_baggage r)"
  have v_ok: "escapable_string v" "v \<noteq> []"
    using assms(2,3) by (auto simp: v_def escapable_string_def kDefaultMaxValueLength_def dest: in_set_takeD)
  let ?set = "\<lambda>s0. if st_sampled r then SetTag ''sampling.priority'' (VInt64 1) s0 else s0"
  have p: "isValid (sp_context (?set s0)) \<and> baggage (sp_context (?set s0)) = [] \<and>
      (st_sampled r \<longrightarrow> isSampled (sp_context (?set s0)))"
    if "isValid (sp_context s0) \<and> baggage (sp_context s0) = []" for s0
  proof -
    have "sampling_priority (VInt64 1)" by (simp add: sampling_priority_def word_sless_alt)
    moreover have "(f OR (kSampled OR kDebug)) AND kSampled \<noteq> 0" for f :: u8
    proof -
      have "bit ((f OR (kSampled OR kDebug)) AND kSampled) 0" by (simp add: bit_simps kSampled_def kDebug_def)
      then show ?thesis by auto
    qed
    ultimately show ?thesis
      using that by (simp add: SetTag_def setSamplingPriority_def Let_def SpanContext_def isValid_def isSampled_def)
  qed
  have answer: "good (with_span i s (prepareResponse X (network fuel X) i (sp_context s) (Some (st_downstream r))))
     (\<lambda>tr. \<exists>seen. tr = TraceResponse (Some seen) (Some (answer_to seen (st_downstream r))) [] \<and>
        plain_string (os_traceId seen) \<and> os_baggage seen = v \<and> (st_sampled r \<longrightarrow> os_sampled seen))"
    if s: "carries v (sp_context s)" "st_sampled r \<longrightarrow> isSampled (sp_context s)" for s
    unfolding prepareResponse_def option.case
    by (rule good_with_span, rule good_seq[OF good_callDownstream[OF X v_ok s(1) d]], rule good_ret)
      (use s in \<open>auto simp: observe_carries plain_trace_id\<close>)
  show ?thesis
    unfolding startTrace_def v_def[symmetric]
  proof (rule good_seq[OF good_start_root], drule p, rule good_seq[OF good_set_baggage[OF v(3)]], rule answer)
    fix s0 s
    assume 1: "isValid (sp_context (?set s0)) \<and> baggage (sp_context (?set s0)) = [] \<and>
        (st_sampled r \<longrightarrow> isSampled (sp_context (?set s0)))"
      and 2: "sp_context s = withBaggage (sp_context (?set s0))
        (AList.update kBaggageKey (take (nat kDefaultMaxValueLength) (st_baggage r)) (baggage (sp_context (?set s0))))"
    show "carries v (sp_context s)" "st_sampled r \<longrightarrow> isSampled (sp_context s)"
      unfolding 2 using 1 by (auto simp: carries_def withBaggage_def v_def SpanContext_def isValid_def isSampled_def)
  qed
qed

section \<open>Generated traces\<close>

lemma SetTag_kept [simp]: "sp_tracer (SetTag k v s) = sp_tracer s" "sp_duration (SetTag k v s) = sp_duration s"
  by (simp_all add: SetTag_def setSamplingPriority_def Let_def)

lemma foldl_SetTag_kept:
  "sp_tracer (foldl (\<lambda>s (k, v). SetTag k (f v) s) s kvs) = sp_tracer s"
  "sp_duration (foldl (\<lambda>s (k, v). SetTag k (f v) s) s kvs) = sp_duration s"
  by (induction kvs arbitrary: s) auto

definition counted :: "'s tracer \<Rightarrow> int \<Rightarrow> 's tracer \<Rightarrow> bool" where
  "counted t n t' \<longleftrightarrow> t_metrics t' SpansStarted = t_metrics t SpansStarted + n \<and>
     t_metrics t' SpansFinished = t_metrics t SpansFinished + n"

lemma start_span_new:
  assumes "StartSpanWithOptions ld env operation opts t = Some (Some s, t')" and "rng_live (t_rng t)"
  shows "sp_tracer s \<noteq> None" "sp_duration s = 0" "t_metrics t' SpansStarted = t_metrics t SpansStarted + 1"
    "t_metrics t' SpansFinished = t_metrics t SpansFinished"
proof -
  from assms(1) obtain out parent self ctx tags newTrace t1 sys steady refs where
    c: "start_context ld env operation parent self (t\<lparr>t_log := out\<rparr>) = Some (ctx, tags, newTrace, t1)"
    and s: "Some s = Some (fst (startSpanInternal ctx operation sys steady tags (opt_tags opts) newTrace refs t1))"
    and t': "t' = snd (startSpanInternal ctx operation sys steady tags (opt_tags opts) newTrace refs t1)"
    by (rule start_span_cases) auto
  have m: "t_metrics t1 = t_metrics t" 
    using start_context_returns[of "t\<lparr>t_log := out\<rparr>" ld env operation parent self] assms(2) c by auto
  show "sp_tracer s \<noteq> None" "sp_duration s = 0"
    using s by (simp_all add: startSpanInternal_span Span_def)
  show "t_metrics t' SpansStarted = t_metrics t SpansStarted + 1" "t_metrics t' SpansFinished = t_metrics t SpansFinished"
    by (simp_all add: t' startSpanInternal_metrics m)
qed

lemma generate_trace_counts:
  assumes "map_of (sv_tracers (w i)) key = Some (JaegerTracer transport t)" and "rng_live (t_rng t)"
  shows "\<exists>w' t'. generate_trace X i key r w = Some (Returned (), w') \<and>
    map_of (sv_tracers (w' i)) key = Some (JaegerTracer transport t') \<and> rng_live (t_rng t') \<and> counted t 1 t'"
proof -
  let ?env = "shd (sv_clock (w i))"
  let ?env' = "shd (stl (sv_clock (w i)))"
  obtain s0 t1 where run: "StartSpanWithOptions (he_ld X) ?env (gt_operation r) no_options t = Some (s0, t1)"
    using start_span_returns[OF assms(2)] by blast
  have "choose_self (opt_references no_options) = None" by (simp add: no_options_def choose_self_def)
  from start_span_some[OF this run] obtain s where s: "s0 = Some s" by blast
  note new = start_span_new[OF run[unfolded s] assms(2)] and live = start_span_live[OF run assms(2)]
  let ?s1 = "foldl (\<lambda>s (k, v). SetTag k (VString v) s) s (gt_tags r)"
  obtain s2 rep where fin: "FinishWithOptions (env_steady_now ?env') 0 [] ?s1 = (s2, rep)" by fastforce
  have rep: rep
    using fin new(1,2) by (auto simp: FinishWithOptions_def isFinished_def foldl_SetTag_kept Let_def split: if_splits)
  let ?t2 = "reportSpan s2 t1"
  have "counted t 1 ?t2" using new(3,4) by (simp add: counted_def reportSpan_def Let_def)
  moreover have "rng_live (t_rng ?t2)" using live by (simp add: reportSpan_kept)
  moreover have "\<exists>w'. generate_trace X i key r w = Some (Returned (), w') \<and>
      map_of (sv_tracers (w' i)) key = Some (JaegerTracer transport ?t2)"
    using assms(1) run s fin rep
    by (simp add: generate_trace_def seq_def read_clock_def get_server_def update_server_def ret_def Let_def update_conv')
  ultimately show ?thesis by blast
qed

lemma repeat_generate_counts:
  assumes "map_of (sv_tracers (w i)) key = Some (JaegerTracer transport t)" and "rng_live (t_rng t)"
  shows "\<exists>w' t'. repeat_act n (generate_trace X i key r) w = Some (Returned (), w') \<and>
    map_of (sv_tracers (w' i)) key = Some (JaegerTracer transport t') \<and> counted t (int n) t'"
  using assms
proof (induction n arbitrary: w t)
  case 0
  then show ?case by (auto simp: ret_def counted_def)
next
  case (Suc n)
  from generate_trace_counts[where w = w and i = i, OF Suc.prems] obtain w1 t1 where 1: "generate_trace X i key r w = Some (Returned (), w1)"
    "map_of (sv_tracers (w1 i)) key = Some (JaegerTracer transport t1)" "rng_live (t_rng t1)" "counted t 1 t1" by blast
  from Suc.IH[where w = w1, OF 1(2,3)] obtain w2 t2 where "repeat_act n (generate_trace X i key r) w1 = Some (Returned (), w2)"
    "map_of (sv_tracers (w2 i)) key = Some (JaegerTracer transport t2)" "counted t1 (int n) t2" by blast
  then show ?case using 1 by (auto simp: seq_def counted_def)
qed

lemma server_error_unreadable: "isl (Response_parse (istream_of (take n server_error)))"
proof -
  consider "n = 0" | "n = 1" | "n = 2" | "n = 3" | "n = 4" | "n = 5" | "n = 6" | "n \<ge> 7" by linarith
  then show ?thesis
    by cases (simp_all add: server_error_def Response_parse_def readLineCRLF_def istream_of_def match_status_line_def
        numeral_eq_Suc)
qed

section \<open>Properties\<close>

lemma TraceResponse_answer:
  "TraceResponse (Some seen) (Some (answer_to seen d)) [] = answer_to seen (Downstream [] [] [] [] HTTP (Some d))"
  by simp

text \<open>C2. A trace survives the chain. A server is asked to start a trace, with a baggage that is
  neither empty nor as long as \<open>2 ^ 31\<close> bytes and consists of printable ASCII characters, and to hand
  it on along a chain of servers, as deep as the request says, all over HTTP and all reachable, with
  names that JSON keeps as they are. It answers with what every server on the way has observed: all
  saw the same trace id, the same sampling decision, which is to sample if the request asks for it,
  and the request's baggage, up to the length a server carries, and none found anything not
  implemented. The servers are as good as before. If instead no answer comes, some message was a
  multiple of the reader's block size long and its reader waits for more. (An empty baggage makes
  the next server refuse the request, and a hop that is not HTTP answers that it is not
  implemented.)\<close>

theorem crossdock_chain:
  assumes "host_ok X" and "\<forall>j. server_ok (w j)"
    and "Request_parse (istream_of m) = Inr q" and "req_target q = ''/start_trace''"
    and "j_parse (he_json X) (req_body q) = Inr (StartTraceRequest_to_json (he_json X) r)"
    and "escapable_string (st_baggage r)" and "st_baggage r \<noteq> []"
    and "int (length (st_baggage r)) \<le> INT_MAX"
    and "plain_downstream (st_downstream r)" and "reachable_chain X (st_downstream r)"
    and "links (st_downstream r) \<le> fuel"
  shows "\<exists>out w'. network (Suc fuel) X i m w = Some (out, w') \<and> (\<forall>j. server_ok (w' j)) \<and>
    (case out of
       Returned blocks \<Rightarrow> \<exists>s resp tr seen. bufferedRead blocks = Some (Inr s) \<and>
         Response_parse (istream_of s) = Inr resp \<and> resp_statusCode resp = 200 \<and>
         bindO (Some (j_parse (he_json X) (resp_body resp))) (TraceResponse_from_json (he_json X)) = Some (Inr tr) \<and>
         observations tr = replicate (Suc (links (st_downstream r))) (Some seen, []) \<and>
         os_baggage seen = take 2048 (st_baggage r) \<and> (st_sampled r \<longrightarrow> os_sampled seen)
     | Thrown _ \<Rightarrow> False
     | Blocked s \<Rightarrow> kReadSize dvd length s)"
proof -
  let ?J = "he_json X"
  let ?d = "st_downstream r"
  let ?seen = "\<lambda>tr seen. tr = TraceResponse (Some seen) (Some (answer_to seen ?d)) [] \<and>
    os_baggage seen = take (nat kDefaultMaxValueLength) (st_baggage r) \<and> (st_sampled r \<longrightarrow> os_sampled seen)"
  have v: "plain_string (take (nat kDefaultMaxValueLength) (st_baggage r))"
    using escapable_plain[OF assms(6)] by (auto simp: plain_string_def dest: in_set_takeD)
  have start: "good (startTrace X (network fuel X) i r)
      (\<lambda>tr. text_document ?J (TraceResponse_to_json ?J tr) \<and> (\<exists>seen. ?seen tr seen))"
    by (rule good_weaken[OF good_startTrace[OF assms(1,6-11)]])
      (elim exE conjE, unfold TraceResponse_answer, intro conjI exI, simp only: text_answer v, auto)
  have post: "good (start_span X i ''post'' (post_options ctx now)) (\<lambda>_. True)" for ctx now
    by (rule good_start_any) (simp add: post_options_def choose_self_child split: option.split)
  note good_handleJSON[where R = "\<lambda>_. True" and S = "\<lambda>_. True" and q = q and i = i
      and from_json = "StartTraceRequest_from_json ?J" and handler = "\<lambda>r ctx. startTrace X (network fuel X) i r",
      OF assms(1,5) StartTraceRequest_json[OF host_okD(1)[OF assms(1)]] TrueI post start]
  then have "good (handleRequest X (network fuel X) i q) (\<lambda>resp. \<exists>tr msg. (\<exists>seen. ?seen tr seen) \<and>
      j_parse ?J msg = Inr (TraceResponse_to_json ?J tr) \<and> resp = ok_reply msg)"
    unfolding handleRequest_def assms(4) by simp
  from good_network[OF assms(1,3) this, unfolded good_def, rule_format, of w] assms(2)
  obtain out w' where run: "network (Suc fuel) X i m w = Some (out, w')" "\<forall>j. server_ok (w' j)"
    "case out of Returned blocks \<Rightarrow> \<exists>s. bufferedRead blocks = Some (Inr s) \<and> (\<exists>tr msg. (\<exists>seen. ?seen tr seen) \<and>
       j_parse ?J msg = Inr (TraceResponse_to_json ?J tr) \<and> s = ok_reply msg)
     | Thrown _ \<Rightarrow> False | Blocked s \<Rightarrow> kReadSize dvd length s" by blast
  have "\<exists>s resp tr seen. bufferedRead blocks = Some (Inr s) \<and>
      Response_parse (istream_of s) = Inr resp \<and> resp_statusCode resp = 200 \<and>
      bindO (Some (j_parse ?J (resp_body resp))) (TraceResponse_from_json ?J) = Some (Inr tr) \<and>
      observations tr = replicate (Suc (links ?d)) (Some seen, []) \<and>
      os_baggage seen = take 2048 (st_baggage r) \<and> (st_sampled r \<longrightarrow> os_sampled seen)"
    if "out = Returned blocks" for blocks
  proof -
    from run(3)[unfolded that outcome.case] obtain s tr msg seen where "bufferedRead blocks = Some (Inr s)"
      "s = ok_reply msg" and a: "?seen tr seen" "j_parse ?J msg = Inr (TraceResponse_to_json ?J tr)" by blast
    then have b: "bufferedRead blocks = Some (Inr (ok_reply msg))" by simp
    obtain resp where resp: "Response_parse (istream_of (ok_reply msg)) = Inr resp" "resp_statusCode resp = 200"
      "resp_body resp = msg" using ok_reply_parses by blast
    show ?thesis
      using a b resp TraceResponse_json[OF host_okD(1)[OF assms(1)], of tr]
      by (intro exI[of _ "ok_reply msg"] exI[of _ resp] exI[of _ tr] exI[of _ seen])
        (simp add: observations_answer kDefaultMaxValueLength_def)
  qed
  then show ?thesis using run by (cases out) auto
qed

text \<open>A request whose length is a multiple of the block size is never answered: the server reads on
  while its client waits for the answer.\<close>

theorem whole_block_request_waits:
  assumes "kReadSize dvd length m"
  shows "network (Suc fuel) X i m w = Some (Blocked m, w)"
  using assms by (simp add: serve_client_def seq_def catch_def read_stream_def bufferedRead_stream)

text \<open>The structures survive JSON: a trace request with its chain of servers, however long, and the
  answer with its chain of answers are read back as they were written.\<close>

theorem crossdock_json_roundtrip:
  assumes "document_laws J"
  shows "StartTraceRequest_from_json J (StartTraceRequest_to_json J s) = Some (Inr s) \<and>
    JoinTraceRequest_from_json J (JoinTraceRequest_to_json J r) = Some (Inr r) \<and>
    TraceResponse_from_json J (TraceResponse_to_json J a) = Some (Inr a)"
  using StartTraceRequest_json[OF assms] JoinTraceRequest_json[OF assms] TraceResponse_json[OF assms] by blast

text \<open>A request for \<open>n\<close> traces of a known sampler type starts and finishes exactly \<open>n\<close> spans with
  that type's tracer.\<close>

theorem generate_traces_counts:
  assumes "bindE (j_parse (he_json X) (req_body q)) (GenerateTracesRequest_from_json (he_json X)) = Inr r"
    and "gt_type r \<noteq> []" and "map_of (sv_tracers (w i)) (gt_type r) = Some (JaegerTracer transport t)"
    and "rng_live (t_rng t)"
  shows "\<exists>w' t'. generateTraces X i q w = Some (Returned (''HTTP/1.1 200 OK'' @ [CR, LF, CR, LF]), w') \<and>
    map_of (sv_tracers (w' i)) (gt_type r) = Some (JaegerTracer transport t') \<and>
    t_metrics t' SpansStarted = t_metrics t SpansStarted + max 0 (gt_count r) \<and>
    t_metrics t' SpansFinished = t_metrics t SpansFinished + max 0 (gt_count r)"
proof -
  have "findOrMakeTracer X i (gt_type r) w = Some (Returned (gt_type r), w)"
    using assms(2,3) by (simp add: findOrMakeTracer_def seq_def get_server_def ret_def Let_def)
  moreover obtain w' t' where "repeat_act (nat (gt_count r)) (generate_trace X i (gt_type r) r) w = Some (Returned (), w')"
    "map_of (sv_tracers (w' i)) (gt_type r) = Some (JaegerTracer transport t')"
    "counted t (int (nat (gt_count r))) t'"
    using repeat_generate_counts[where w = w and i = i, OF assms(3,4), where n = "nat (gt_count r)" and X = X and r = r] by blast
  ultimately show ?thesis
    using assms(1) by (auto simp: generateTraces_def seq_def ret_def counted_def max_def)
qed

text \<open>A request for traces of a sampler type that no one knows ends the server: the tracer is made
  without a sampler and its first span dereferences the null pointer.\<close>

theorem generate_traces_unknown_type:
  assumes "bindE (j_parse (he_json X) (req_body q)) (GenerateTracesRequest_from_json (he_json X)) = Inr r"
    and "map to_lower (gt_type r) \<notin>
      {kSamplerTypeConst, kSamplerTypeProbabilistic, kSamplerTypeRateLimiting, kSamplerTypeRemote, []}"
    and "map_of (sv_tracers (w i)) (gt_type r) = None" and "pl_connect (he_platform X) = (\<lambda>_. None)"
    and "0 < gt_count r"
  shows "generateTraces X i q w = None"
proof -
  let ?c = "makeEndToEndConfig (w i) (gt_type r)"
  have ty: "gt_type r \<noteq> []" using assms(2) by auto
  then have c: "sc_type (cfg_sampler ?c) = gt_type r" "\<not> cfg_disabled ?c"
    by (simp_all add: makeEndToEndConfig_def Config_def SamplerConfig_def)
  obtain out1 where s: "makeSampler ld now (cfg_sampler ?c) = (Inr None, out1)" for ld now
    using assms(2) by (simp add: makeSampler_def Let_def c)
  have none: "Tracer_make (he_ld X) (he_platform X) now kDefaultTracerServiceName ?c 0 = Inr TracerWithoutSampler" for now
  proof -
    obtain transport rep out where "makeReporter (pl_connect (he_platform X)) now (cfg_reporter ?c) metrics0 =
        (Inr (transport, rep), out)" by (rule make_reporter_connected[OF assms(4)])
    then show ?thesis by (simp add: Tracer_make_def c(2) s kDefaultTracerServiceName_def split: prod.split)
  qed
  obtain n where n: "nat (gt_count r) = Suc n" using assms(5) by (cases "nat (gt_count r)") auto
  have find: "\<exists>w'. findOrMakeTracer X i (gt_type r) w = Some (Returned (gt_type r), w') \<and>
      map_of (sv_tracers (w' i)) (gt_type r) = Some TracerWithoutSampler"
    using assms(3) ty by (simp add: findOrMakeTracer_def init_tracer_def seq_def get_server_def read_clock_def
        update_server_def ret_def lift_def Let_def none c(1) update_conv')
  have crash: "generate_trace X i (gt_type r) r w' = None"
    if "map_of (sv_tracers (w' i)) (gt_type r) = Some TracerWithoutSampler" for w'
    using that by (simp add: generate_trace_def seq_def get_server_def read_clock_def update_server_def ret_def)
  show ?thesis using find crash assms(1) by (auto simp: generateTraces_def seq_def n)
qed

text \<open>C22. A request that can not be parsed, and whose length is not a multiple of the block size, is
  answered, but no client can read the answer: of the status line for a server error at most the first seven bytes
  are sent, and they do not parse. (Of a request as long as whole blocks the server never sees the
  end, so it does not come to parse it.)\<close>

theorem rejected_request_unreadable:
  assumes "Request_parse (istream_of message) = Inl e" and "\<not> kReadSize dvd length message"
  shows "\<exists>blocks answer w'. network (Suc fuel) X peer message w = Some (Returned blocks, w') \<and>
    bufferedRead blocks = Some (Inr answer) \<and> length answer \<le> 7 \<and> isl (Response_parse (istream_of answer))"
proof -
  have read: "read_stream False message w = Some (Returned message, w)" for w
    using assms(2) bufferedRead_stream [of False message] by (simp add: read_stream_def lift_def)
  show ?thesis
    using bufferedRead_stream [of True "written X server_error"] assms(1) server_error_unreadable
    by (auto simp: serve_client_def seq_def read ret_def catch_def log_info_def log_error_def update_server_def
        lift_parse_def lift_def written_def server_error_def)
qed

section \<open>Examples\<close>

lemma Server_make_ok:
  assumes "pl_connect pl = (\<lambda>_. None)" and "rng_live (pl_random pl)"
  shows "\<exists>sv. Server_make ld pl clock a c s = Inr (Some sv) \<and> server_ok sv"
proof -
  obtain transport rep out where "makeReporter (pl_connect pl) (env_sampler_now (shd clock)) (cfg_reporter Config0) metrics0 =
      (Inr (transport, rep), out)" by (rule make_reporter_connected[OF assms(1)])
  moreover have "map to_lower (sc_type SamplerConfig0) = kSamplerTypeRemote"
    by (simp add: SamplerConfig0_def SamplerConfig_def kSamplerTypeRemote_def to_lower_def isupper_def)
  moreover have "0 \<le> kDefaultSamplingProbability" "kDefaultSamplingProbability \<le> 1"
    using ieee.rnd_nonneg[of "1 / 1000"] ieee.rnd_le[of "1 / 1000" 1] fl_pow2[of 53 0]
    by (simp_all add: kDefaultSamplingProbability_def)
  moreover from this have "kDefaultSamplingProbability \<noteq> -1" by linarith
  ultimately show ?thesis
    using assms(2)
    by (simp add: Server_make_def Tracer_make_def Config0_def Config_def kDefaultTracerServiceName_def makeSampler_def
        sampler_constants makeProbabilistic_def SamplerConfig0_def SamplerConfig_def
        Let_def server_ok_def split: prod.split)
qed

definition example_host :: "json_value host_env" where
  "example_host = \<lparr>he_json = documents, he_ld = 64, he_connect = (\<lambda>_. Inr 1),
     he_write = (\<lambda>m. int (length m)), he_platform = example_platform\<rparr>"

definition example_world :: world where
  "example_world = (\<lambda>_. case Server_make 64 example_platform (sconst example_env) [] [] [] of Inr (Some sv) \<Rightarrow> sv)"

lemma example_made: "\<exists>sv. Server_make 64 example_platform (sconst example_env) [] [] [] = Inr (Some sv) \<and> server_ok sv"
  using example_tracer_live by (intro Server_make_ok) (simp_all add: example_platform_def example_tracer_def)

lemma example_world_ok: "\<forall>i. server_ok (example_world i)"
  using example_made by (auto simp: example_world_def)

lemma example_host_ok: "host_ok example_host"
  by (simp add: host_ok_def example_host_def documents_document_laws)

definition example_start :: start_trace_request where
  "example_start = \<lparr>st_serverRole = ''S1'', st_sampled = True, st_baggage = ''b'',
     st_downstream = Downstream ''cpp'' ''S2'' ''next'' ''8081'' HTTP None\<rparr>"

definition example_post :: "string \<Rightarrow> json_value \<Rightarrow> string" where
  "example_post target doc =
     ''POST'' @ '' '' @ target @ '' HTTP/'' @ ''1.1'' @ [CR, LF] @ print_headers [] @ replicate (to_nat doc) (CHR ''x'')"

lemma example_post_parses:
  assumes "target \<noteq> []" and "set target \<inter> {CHR '' '', CR} = {}"
  shows "\<exists>q. Request_parse (istream_of (example_post target doc)) = Inr q \<and> req_target q = target \<and>
    j_parse documents (req_body q) = Inr doc"
  using Request_parse_print[of "''POST''" target "''1.1''" "[]" "replicate (to_nat doc) (CHR ''x'')"] assms
  by (simp add: example_post_def isupper_def match_version_def isdigit_def documents_def)

theorem crossdock_chain_witness:
  "\<exists>out w'. network 2 example_host 0 (example_post ''/start_trace'' (StartTraceRequest_to_json documents example_start))
     example_world = Some (out, w') \<and> (\<forall>e. out \<noteq> Thrown e)"
proof -
  let ?m = "example_post ''/start_trace'' (StartTraceRequest_to_json documents example_start)"
  obtain q where q: "Request_parse (istream_of ?m) = Inr q" "req_target q = ''/start_trace''"
    "j_parse (he_json example_host) (req_body q) = Inr (StartTraceRequest_to_json (he_json example_host) example_start)"
    using example_post_parses[of "''/start_trace''"] by (auto simp: example_host_def)
  have "escapable_string (st_baggage example_start)" "st_baggage example_start \<noteq> []"
    "int (length (st_baggage example_start)) \<le> INT_MAX"
    "plain_downstream (st_downstream example_start)" "reachable_chain example_host (st_downstream example_start)"
    "links (st_downstream example_start) \<le> 1"
    by (simp_all add: example_start_def example_host_def escapable_string_def escapable_def INT_MAX_def)
  from crossdock_chain[OF example_host_ok example_world_ok q this, of 0]
  show ?thesis by (fastforce simp: numeral_2_eq_2)
qed

theorem whole_block_request_waits_witness:
  "network 1 example_host 0 (replicate 512 (CHR ''x'')) example_world =
     Some (Blocked (replicate 512 (CHR ''x'')), example_world)"
  using whole_block_request_waits[of "replicate 512 (CHR ''x'')" 0 example_host 0 example_world]
  by (simp add: kReadSize_def)

theorem crossdock_json_roundtrip_witness:
  "TraceResponse_from_json documents (TraceResponse_to_json documents
     (TraceResponse None (Some (TraceResponse None None ''x'')) ''y'')) =
   Some (Inr (TraceResponse None (Some (TraceResponse None None ''x'')) ''y''))"
  using crossdock_json_roundtrip[OF documents_document_laws] by blast

definition example_generate :: "string \<Rightarrow> json_value" where
  "example_generate ty = JObject [(''type'', JString ty), (''operation'', JString ''op''),
     (''tags'', JObject [(''k'', JString ''v'')]), (''count'', JInt 3)]"

definition example_request :: "json_value \<Rightarrow> request" where
  "example_request doc = \<lparr>req_method = POST, req_target = ''/create_traces'', req_version = ''1.1'',
     req_headers = [], req_body = replicate (to_nat doc) (CHR ''x'')\<rparr>"

lemma example_generate_parses:
  "bindE (j_parse (he_json example_host) (req_body (example_request (example_generate ty))))
     (GenerateTracesRequest_from_json (he_json example_host)) =
   Inr \<lparr>gt_type = ty, gt_operation = ''op'', gt_tags = [(''k'', ''v'')], gt_count = 3\<rparr>"
  by (simp add: example_host_def example_request_def example_generate_def documents_def
      GenerateTracesRequest_from_json_def get_field_def)

theorem generate_traces_counts_witness:
  "\<exists>w' t'. generateTraces example_host 0 (example_request (example_generate ''const''))
     (\<lambda>_. (example_world 0)\<lparr>sv_tracers := [(''const'', JaegerTracer (UDPTransporter [] 0 0)
       (sv_tracer (example_world 0)))]\<rparr>) = Some (Returned (''HTTP/1.1 200 OK'' @ [CR, LF, CR, LF]), w') \<and>
     map_of (sv_tracers (w' 0)) ''const'' = Some (JaegerTracer (UDPTransporter [] 0 0) t') \<and>
     t_metrics t' SpansFinished = t_metrics (sv_tracer (example_world 0)) SpansFinished + 3"
proof -
  let ?t = "sv_tracer (example_world 0)"
  let ?w = "\<lambda>_. (example_world 0)\<lparr>sv_tracers := [(''const'', JaegerTracer (UDPTransporter [] 0 0) ?t)]\<rparr>"
  have "rng_live (t_rng ?t)" using example_world_ok by (simp add: server_ok_def)
  from generate_traces_counts[where w = ?w and i = 0 and transport = "UDPTransporter [] 0 0",
      OF example_generate_parses[of "''const''"] _ _ this]
  show ?thesis by (force simp: max_def)
qed

theorem generate_traces_unknown_type_witness:
  "generateTraces example_host 0 (example_request (example_generate ''foo'')) example_world = None"
proof -
  have "map to_lower ''foo'' = ''foo''" by code_simp
  moreover have "sv_tracers (example_world 0) = []"
  proof -
    obtain sv where sv: "Server_make 64 example_platform (sconst example_env) [] [] [] = Inr (Some sv)"
      using example_made by blast
    then show ?thesis by (auto simp: example_world_def Server_make_def bindE_def split: sum.splits made_tracer.splits)
  qed
  moreover have "pl_connect (he_platform example_host) = (\<lambda>_. None)"
    by (simp add: example_host_def example_platform_def)
  ultimately show ?thesis
    using generate_traces_unknown_type[where w = example_world and i = 0, OF example_generate_parses[of "''foo''"]]
    by (simp add: sampler_constants)
qed

theorem rejected_request_unreadable_witness:
  "\<exists>blocks answer w'. network 1 example_host 0 ''GET'' example_world = Some (Returned blocks, w') \<and>
    bufferedRead blocks = Some (Inr answer) \<and> isl (Response_parse (istream_of answer))"
proof -
  obtain e where "Request_parse (istream_of ''GET'') = Inl e"
    by (simp add: Request_parse_def readLineCRLF_def istream_of_def)
  moreover have "\<not> kReadSize dvd length ''GET''" by (auto simp: kReadSize_def dest!: dvd_imp_le)
  ultimately show ?thesis
    using rejected_request_unreadable [of "''GET''" e 0 example_host 0 example_world] unfolding One_nat_def by blast
qed

end
