(* ===== verification/TestAgent.thy ===== *)
theory TestAgent
  imports Configs JsonDocuments ThriftLaws Loggers
begin

text \<open>
  The agent of the test utilities (\<^verbatim>\<open>testutils/MockAgent.*\<close>, \<^verbatim>\<open>testutils/SamplingManager.h\<close>,
  \<^verbatim>\<open>testutils/TUDPTransport.h\<close>, \<^verbatim>\<open>testutils/TracerUtil.cpp\<close>): what it answers over HTTP and what it
  keeps of the packets it gets. With it the client's polls can be followed from end to end.
\<close>

section \<open>The agent\<close>

record mock_agent =
  ma_batches :: "thrift_batch list"
  ma_sampling :: "(string \<times> strategy_response) list"
  ma_restrictions :: "(string \<times> restriction) list"

definition MockAgent :: mock_agent where
  "MockAgent = \<lparr>ma_batches = [], ma_sampling = [], ma_restrictions = []\<rparr>"

definition emitBatch :: "thrift_batch \<Rightarrow> mock_agent \<Rightarrow> mock_agent" where
  "emitBatch b a = a\<lparr>ma_batches := ma_batches a @ [b]\<rparr>"

definition resetBatches :: "mock_agent \<Rightarrow> mock_agent" where
  "resetBatches a = a\<lparr>ma_batches := []\<rparr>"

definition emitZipkinBatch_error :: exception where
  "emitZipkinBatch_error = LogicError ''emitZipkinBatch not implemented''"

definition addSamplingStrategy :: "string \<Rightarrow> strategy_response \<Rightarrow> mock_agent \<Rightarrow> mock_agent" where
  "addSamplingStrategy service r a = a\<lparr>ma_sampling := AList.update service r (ma_sampling a)\<rparr>"

text \<open>\<^verbatim>\<open>insert\<close> keeps what is there.\<close>

definition addBaggageRestriction :: "string \<Rightarrow> restriction \<Rightarrow> mock_agent \<Rightarrow> mock_agent" where
  "addBaggageRestriction key r a = a\<lparr>ma_restrictions := insert_first (key, r) (ma_restrictions a)\<rparr>"

definition agent_strategy :: "mock_agent \<Rightarrow> string \<Rightarrow> strategy_response" where
  "agent_strategy a service =
     (case map_of (ma_sampling a) service of
        Some r \<Rightarrow> r
      | None \<Rightarrow> strategy_response0\<lparr>strategyType := PROBABILISTIC, resp_probabilistic := Some (fl 53 (1 / 100))\<rparr>)"

section \<open>HTTP\<close>

definition startsWith :: "string \<Rightarrow> string \<Rightarrow> bool" where
  "startsWith str pre \<longleftrightarrow>
     (if length str < length pre then False else take (length pre) str = pre)"

text \<open>
  The first match of \<^verbatim>\<open>[?&]service=([^?&]+)\<close> from the left, with the text after it.
\<close>

fun search_service :: "string \<Rightarrow> (string \<times> string) option" where
  "search_service [] = None"
| "search_service (c # s) =
     (case span_not {CHR ''?'', CHR ''&''} (drop 8 s) of (v, after) \<Rightarrow>
        if c \<in> {CHR ''?'', CHR ''&''} \<and> take 8 s = ''service='' \<and> v \<noteq> [] then Some (v, after)
        else search_service s)"

text \<open>
  The blocks \<^verbatim>\<open>recv\<close> gives for a request; an empty one is the end of the stream or an error, and
  \<^term>\<open>None\<close> says that the agent waits for more.
\<close>

fun agent_read :: "string list \<Rightarrow> string option" where
  "agent_read [] = None"
| "agent_read (b # bs) =
     (if b = [] then Some []
      else if length b < 256 then Some b
      else map_option (\<lambda>s. b @ s) (agent_read bs))"

datatype agent_error = BadRequest string | Failure exception

definition agent_document ::
  "'j json \<Rightarrow> string \<Rightarrow> mock_agent \<Rightarrow> string \<Rightarrow> agent_error + 'j" where
  "agent_document J httpAuthority a requestStr =
     (case Request_parse (istream_of requestStr) of
        Inl e \<Rightarrow> Inl (BadRequest (ParseError_what e))
      | Inr request \<Rightarrow>
          let target = req_target request;
              is_baggage = (startsWith target ''/baggageRestrictions'' \<or>
                startsWith target (httpAuthority @ ''/baggageRestrictions''))
          in case search_service target of
               None \<Rightarrow> Inl (BadRequest (''no '' @ [CHR 0x27] @ ''service'' @ [CHR 0x27] @ '' parameter''))
             | Some (service, after) \<Rightarrow>
                 if search_service after \<noteq> None then
                   Inl (BadRequest ([CHR 0x27] @ ''service'' @ [CHR 0x27] @ '' parameter must occur only once''))
                 else if \<not> is_baggage then Inr (StrategyResponse_to_json J (agent_strategy a service))
                 else Inr (BaggageRestrictions_to_json J
                   (map (\<lambda>(key, r). (key, maxValueLength r)) (ma_restrictions a))))"

text \<open>What is sent; an exception that is no \<^verbatim>\<open>std::exception\<close> ends the thread (\<^term>\<open>None\<close>).\<close>

definition agent_http :: "'j json \<Rightarrow> string \<Rightarrow> mock_agent \<Rightarrow> string \<Rightarrow> string option" where
  "agent_http J httpAuthority a requestStr =
     (case (case agent_document J httpAuthority a requestStr of
              Inl e \<Rightarrow> Inl e
            | Inr doc \<Rightarrow> (case j_dump J doc of Inl e \<Rightarrow> Inl (Failure e) | Inr s \<Rightarrow> Inr s)) of
        Inr responseJSON \<Rightarrow>
          Some (''HTTP/1.1 200 OK'' @ [CR, LF] @ ''Content-Type: application/json'' @ [CR, LF, CR, LF] @ responseJSON)
      | Inl (BadRequest w) \<Rightarrow> Some (''HTTP/1.1 400 Bad Request'' @ [CR, LF, CR, LF] @ w)
      | Inl (Failure e) \<Rightarrow>
          map_option (\<lambda>w. ''HTTP/1.1 500 Internal Server Error'' @ [CR, LF, CR, LF] @ w) (exception_what e))"

text \<open>\<^verbatim>\<open>net::http::get\<close> with this agent at the other end, each side reading what the other sends.\<close>

definition get_from_agent ::
  "'j json \<Rightarrow> string \<Rightarrow> mock_agent \<Rightarrow> string \<Rightarrow> uri \<Rightarrow> (get_error + response) option" where
  "get_from_agent J httpAuthority a version u =
     Option.bind (agent_read (blocks_of 256 (get_request version u))) (\<lambda>requestStr.
     map_option (\<lambda>s. http_get version u (int (length (get_request version u))) (blocks_of kBufferSize s))
       (agent_http J httpAuthority a requestStr))"

section \<open>UDP\<close>

definition TUDPTransport_read :: "int \<Rightarrow> int" where
  "TUDPTransport_read numRead = max 0 numRead"

text \<open>
  A packet is put behind what is left in the buffer (\<open>put\<close>), and the processor reads one message
  from it. \<^term>\<open>None\<close>: the processor threw, which is only logged, or did not return, and the buffer
  keeps what it had not read.
\<close>

definition agent_process :: "'w protocol \<Rightarrow> (string + thrift_batch, 'w) rd" where
  "agent_process P =
     rbind (rd_MessageBegin P) (\<lambda>(fname, ty, seqid).
     dispatchCall P [''emitBatch'' \<mapsto> process_emitBatch P] fname)"

definition serve_packet ::
  "'w protocol \<Rightarrow> ('d \<Rightarrow> 'w \<Rightarrow> 'w) \<Rightarrow> 'd \<Rightarrow> mock_agent \<times> 'w \<Rightarrow> (mock_agent \<times> 'w) option" where
  "serve_packet P put packet st =
     (case st of (a, buffer) \<Rightarrow>
        case agent_process P (put packet buffer) of
          Some (Inr (Inr b, rest')) \<Rightarrow> Some (emitBatch b a, rest')
        | Some (Inr (Inl _, rest')) \<Rightarrow> Some (a, rest')
        | _ \<Rightarrow> None)"

fun serve_packets ::
  "'w protocol \<Rightarrow> ('d \<Rightarrow> 'w \<Rightarrow> 'w) \<Rightarrow> 'd list \<Rightarrow> mock_agent \<times> 'w \<Rightarrow> (mock_agent \<times> 'w) option" where
  "serve_packets P put [] st = Some st"
| "serve_packets P put (d # ds) st = Option.bind (serve_packet P put d st) (serve_packets P put ds)"

section \<open>The tracer of the tests\<close>

definition test_config :: "bool \<Rightarrow> format \<Rightarrow> string \<Rightarrow> string \<Rightarrow> config" where
  "test_config traceId128Bit propagationFormat samplingAuthority spanAuthority =
     Config False traceId128Bit
       (SamplerConfig ''const'' 1 (''http://'' @ samplingAuthority) 0 0)
       (ReporterConfig 0 0 False spanAuthority [])
       HeadersConfig0 RestrictionsConfig0 [] [] propagationFormat"

definition installGlobalTracer ::
  "nat \<Rightarrow> platform \<Rightarrow> time \<Rightarrow> bool \<Rightarrow> format \<Rightarrow> string \<Rightarrow> string \<Rightarrow> exception + made_tracer" where
  "installGlobalTracer ld pl now traceId128Bit propagationFormat samplingAuthority spanAuthority =
     Tracer_make ld pl now ''test-service'' (test_config traceId128Bit propagationFormat samplingAuthority spanAuthority)
       (if traceId128Bit then kGen128BitOption else 0)"

definition buildTracer :: "nat \<Rightarrow> platform \<Rightarrow> time \<Rightarrow> string \<Rightarrow> exception + made_tracer" where
  "buildTracer ld pl now endpoint =
     Tracer_make ld pl now ''test-service''
       (Config False False (SamplerConfig ''const'' 1 [] 0 0) (ReporterConfig 0 100000000 False [] endpoint)
         HeadersConfig0 RestrictionsConfig0 [] [] FormatJAEGER) 0"

section \<open>A service in the target\<close>

lemma search_service_skip:
  "set p \<inter> {CHR ''?'', CHR ''&''} = {} \<Longrightarrow> search_service (p @ s) = search_service s"
  by (induction p) (auto split: prod.split)

lemma search_service_query:
  assumes "set p \<inter> {CHR ''?'', CHR ''&''} = {}" and "set v \<inter> {CHR ''?'', CHR ''&''} = {}" and "v \<noteq> []"
  shows "search_service (p @ ''?service='' @ v) = Some (v, [])"
proof -
  have "span_not {CHR ''?'', CHR ''&''} v = (v, [])"
    using span_not_stop[of v "{CHR ''?'', CHR ''&''}" "[]"] assms(2) by auto
  then show ?thesis using assms by (simp add: search_service_skip)
qed

lemma agent_read_blocks: "agent_read (blocks_of 256 s) = (if 256 dvd length s then None else Some s)"
proof (induction s rule: blocks_of_induct[where n = 256])
  case (Short s)
  then have "\<not> 256 dvd length s" by (metis length_0_conv nat_dvd_not_less neq0_conv)
  then show ?case using Short by (simp add: blocks_of.simps[of _ s])
next
  case (Full s)
  then show ?case using dvd_drop[of 256 s] by auto
qed simp_all

lemma queryEscape_service: "set (queryEscape v) \<inter> {CHR ''?'', CHR ''&''} = {}"
  using queryEscape_alphabet[of "CHR ''?''" v] queryEscape_alphabet[of "CHR ''&''" v]
  by (auto simp: isUnreserved_def isalpha_def isupper_def islower_def isdigit_def)

lemma queryEscape_line: "set (queryEscape v) \<inter> {CHR '' '', CR, LF} = {}"
  using queryEscape_alphabet[of "CHR '' ''" v] queryEscape_alphabet[of CR v] queryEscape_alphabet[of LF v]
  by (auto simp: isUnreserved_def isalpha_def isupper_def islower_def isdigit_def)

text \<open>The query of a client for a service, to an agent at an address and a path of one line each.\<close>

definition asks :: "string \<Rightarrow> string \<Rightarrow> uri \<Rightarrow> bool" where
  "asks version service u \<longleftrightarrow> query u = ''service='' @ queryEscape service \<and> service \<noteq> [] \<and>
     set (path u) \<inter> {CHR ''?'', CHR ''&'', CHR '' '', CR} = {} \<and>
     URI_authority u \<noteq> [] \<and> set (URI_authority u) \<inter> {CR, LF} = {} \<and> set version \<inter> {CR, LF} = {} \<and>
     \<not> 256 dvd length (get_request version u)"

lemma asks_target:
  assumes "asks version service u"
  shows "URI_target u = (if path u = [] then ''/'' else path u) @ ''?service='' @ queryEscape service"
  using assms by (simp add: asks_def URI_target_def)

definition asks_baggage :: "string \<Rightarrow> uri \<Rightarrow> bool" where
  "asks_baggage httpAuthority u \<longleftrightarrow> startsWith (URI_target u) ''/baggageRestrictions'' \<or>
     startsWith (URI_target u) (httpAuthority @ ''/baggageRestrictions'')"

lemma agent_document_asked:
  assumes "asks version service u"
  shows "agent_document J httpAuthority a (get_request version u) =
    Inr (if asks_baggage httpAuthority u
         then BaggageRestrictions_to_json J (map (\<lambda>(key, r). (key, maxValueLength r)) (ma_restrictions a))
         else StrategyResponse_to_json J (agent_strategy a (queryEscape service)))"
proof -
  let ?p = "if path u = [] then ''/'' else path u"
  have t: "URI_target u = ?p @ ''?service='' @ queryEscape service" by (rule asks_target[OF assms])
  have "set (URI_target u) \<inter> {CHR '' '', CR} = {}"
    using assms queryEscape_line[of service] by (auto simp: t asks_def)
  then have parse: "Request_parse (istream_of (get_request version u)) =
    Inr \<lparr>req_method = GET, req_target = URI_target u, req_version = ''1.1'',
      req_headers = [Header ''Host'' (URI_authority u),
        Header ''User-Agent'' (''jaegertracing/'' @ version)], req_body = []\<rparr>"
    using assms by (intro Request_parse_get_request) (auto simp: asks_def)
  have "queryEscape service \<noteq> []" using assms by (cases service) (auto simp: asks_def queryEscape_def escape_char_def)
  moreover have "set ?p \<inter> {CHR ''?'', CHR ''&''} = {}" using assms by (auto simp: asks_def)
  ultimately have "search_service (URI_target u) = Some (queryEscape service, [])"
    unfolding t by (intro search_service_query queryEscape_service)
  then show ?thesis by (simp add: agent_document_def parse asks_baggage_def Let_def)
qed

lemma agent_reply_parses:
  "\<exists>resp. Response_parse (istream_of (''HTTP/1.1 200 OK'' @ [CR, LF] @ ''Content-Type: application/json'' @
     [CR, LF, CR, LF] @ body)) = Inr resp \<and> resp_statusCode resp = 200 \<and> resp_body resp = body"
proof -
  have d: "dec_str 200 = ''200''" by code_simp
  have "''HTTP/1.1 200 OK'' @ [CR, LF] @ ''Content-Type: application/json'' @ [CR, LF, CR, LF] @ body =
      ''HTTP/'' @ ''1.1'' @ '' '' @ dec_str 200 @ '' '' @ ''OK'' @ [CR, LF] @
      print_headers [Header ''Content-Type'' ''application/json''] @ body"
    unfolding d by (simp add: print_headers_def print_header_def Header_def)
  moreover have "match_version ''1.1''" "\<forall>h \<in> set [Header ''Content-Type'' ''application/json'']. header_wf h"
    by (simp_all add: match_version_def isdigit_def header_wf_def Header_def)
  ultimately show ?thesis
    using Response_parse_print[of "''1.1''" 200 "''OK''" "[Header ''Content-Type'' ''application/json'']" body]
    by (simp only:) (simp add: INT_MAX_def)
qed

text \<open>What the client gets is an answer with the document the agent has for it.\<close>

lemma get_from_agent_answered:
  assumes "document_laws J" and "asks version service u"
    and "agent_document J httpAuthority a (get_request version u) = Inr doc" and "text_document J doc"
  shows "\<exists>got. get_from_agent J httpAuthority a version u = Some got \<and> answered J got doc"
proof -
  obtain s where s: "j_dump J doc = Inr s" "j_parse J s = Inr doc"
    using document_lawsD(4)[OF assms(1,4)] by blast
  obtain resp where "Response_parse (istream_of (''HTTP/1.1 200 OK'' @ [CR, LF] @ ''Content-Type: application/json'' @
     [CR, LF, CR, LF] @ s)) = Inr resp" "resp_statusCode resp = 200" "resp_body resp = s"
    using agent_reply_parses by blast
  then show ?thesis
    using assms(2,3) s
    by (simp add: get_from_agent_def agent_read_blocks asks_def agent_http_def http_get_def http_read_def
        SocketReader_read_blocks answered_def Let_def)
qed

section \<open>Strategies and restrictions as text\<close>

definition text_strategies :: "per_operation_strategies \<Rightarrow> bool" where
  "text_strategies s \<longleftrightarrow> fl 53 (defaultSamplingProbability s) = defaultSamplingProbability s \<and>
     fl 53 (defaultLowerBoundTracesPerSecond s) = defaultLowerBoundTracesPerSecond s \<and>
     pred_option (\<lambda>ub. fl 53 ub = ub) (defaultUpperBoundTracesPerSecond s) \<and>
     list_all (\<lambda>o'. plain_string (os_operation o') \<and> fl 53 (os_samplingRate o') = os_samplingRate o') (perOperationStrategies s)"

definition text_response :: "strategy_response \<Rightarrow> bool" where
  "text_response r \<longleftrightarrow> response_in_range r \<and> pred_option (\<lambda>p. fl 53 p = p) (resp_probabilistic r) \<and>
     pred_option text_strategies (resp_operation r)"

lemma text_StrategyResponse:
  assumes "text_response r"
  shows "text_document J (StrategyResponse_to_json J r)"
proof -
  have "text_document J (StrategyType_to_json J ty)" for ty
    by (cases ty) (auto simp: StrategyType_to_json_def intro!: text_string)
  moreover have "text_document J (ProbabilisticStrategy_to_json J p)" if "fl 53 p = p" for p
    using that by (auto simp: ProbabilisticStrategy_to_json_def intro!: text_object text_double)
  moreover have "text_document J (RateLimitingStrategy_to_json J n)" if "in_int16 n" for n
    using that by (auto simp: RateLimitingStrategy_to_json_def in_int16_def INT_MIN_def INT_MAX_def intro!: text_object text_number)
  moreover have "text_document J (PerOperationStrategies_to_json J s)" if "text_strategies s" for s
    using that by (auto simp: PerOperationStrategies_to_json_def text_strategies_def OperationStrategy_to_json_def
        ProbabilisticStrategy_to_json_def list_all_iff intro!: text_object text_array text_double text_string
        split: option.splits)
  ultimately show ?thesis
    using assms by (auto simp: StrategyResponse_to_json_def text_response_def response_in_range_def
        intro!: text_object split: option.splits)
qed

lemma text_BaggageRestrictions:
  "\<forall>(key, n) \<in> set rs. plain_string key \<and> 0 \<le> n \<and> n \<le> INT_MAX \<Longrightarrow>
   text_document J (BaggageRestrictions_to_json J rs)"
  by (force simp: BaggageRestrictions_to_json_def BaggageRestriction_to_json_def INT_MIN_def
      intro!: text_array text_object text_string text_number)

section \<open>Packets\<close>

lemma serve_packet_sent:
  assumes "Batch_fits b" and "carry P (send_emitBatch b) (put d w0) = Some w0"
  shows "serve_packet P put d (a, w0) = Some (emitBatch b a, w0)"
proof -
  obtain w1 where w1: "rd_MessageBegin P (put d w0) = Some (Inr ((''emitBatch'', T_ONEWAY, 0), w1))"
    and body: "carry P (emitBatch_pargs_write b @ [CMessageEnd]) w1 = Some w0"
    using assms(2) by (auto simp: send_emitBatch_def bind_eq_Some_conv)
  from servesD [OF process_emitBatch_serves [OF assms(1)] body]
  show ?thesis using w1 by (simp add: serve_packet_def agent_process_def dispatchCall_def rret_def)
qed

lemma serve_packets_sent:
  assumes "\<forall>b. Batch_fits b \<longrightarrow> carry P (send_emitBatch b) (put (serialize b) w0) = Some w0"
  shows "list_all Batch_fits bs \<Longrightarrow>
    serve_packets P put (map serialize bs) (a, w0) = Some (a\<lparr>ma_batches := ma_batches a @ bs\<rparr>, w0)"
proof (induction bs arbitrary: a)
  case (Cons b bs)
  then show ?case using serve_packet_sent[of b P put "serialize b" w0 a] assms by (simp add: emitBatch_def)
qed simp

lemma converted_given:
  "\<forall>x \<in> set xs. \<exists>t. conv x = Inr t \<Longrightarrow>
   mapE conv xs = Inr (converted conv (map (\<lambda>x. (out, x)) (map Some xs @ [None])))"
  by (induction xs) (auto simp: converted_def)

section \<open>Properties\<close>

text \<open>C14. A poll from end to end: the request for a service's strategy, written by the client and read by
  the agent, is answered with the strategy the agent has under the service's escaped name, and what
  the client reads of the answer installs that strategy in the sampler. The request is one the agent
  can read (\<open>asks\<close>): its service is not empty, its path has no separators and is not
  that of the baggage restrictions, its parts have no line ends, and it is not as long as whole blocks of the 256 bytes the agent reads at once, for then the
  agent reads on for ever and nothing is answered. The strategy is one that JSON keeps as it is
  (\<open>text_response\<close>): plain names, counts of 32 bits, rates that are doubles.\<close>

theorem polled_strategy_installed:
  assumes "document_laws J" and "asks version service u" and "\<not> asks_baggage httpAuthority u"
    and "u = serverURI\<lparr>query := ''service='' @ queryEscape service\<rparr>"
    and "text_response (agent_strategy a (queryEscape service))"
  shows "\<exists>got. get_from_agent J httpAuthority a version u = Some got \<and>
    poll_sampler J ld True serverURI service (\<lambda>_. got) now (SRemote inner maxOperations running) ms =
      (case requested ld (agent_strategy a (queryEscape service)) maxOperations now inner of
         Some s \<Rightarrow> (SRemote s maxOperations running, inc SamplerUpdated 1 (inc SamplerRetrieved 1 ms))
       | None \<Rightarrow> (SRemote inner maxOperations running, inc SamplerUpdateFailure 1 (inc SamplerRetrieved 1 ms)))"
proof -
  have "agent_document J httpAuthority a (get_request version u) =
      Inr (StrategyResponse_to_json J (agent_strategy a (queryEscape service)))"
    using agent_document_asked[OF assms(2), of J httpAuthority a] assms(3) by simp
  from get_from_agent_answered[OF assms(1,2) this text_StrategyResponse[OF assms(5)]]
  obtain got where "get_from_agent J httpAuthority a version u = Some got"
    "answered J got (StrategyResponse_to_json J (agent_strategy a (queryEscape service)))" by blast
  moreover have "response_in_range (agent_strategy a (queryEscape service))" using assms(5) by (simp add: text_response_def)
  ultimately show ?thesis
    using strategy_installed[OF document_lawsD(1)[OF assms(1)], where get = "\<lambda>_. got" and serverURI = serverURI
        and serviceName = service] by blast
qed

text \<open>C15. The same of baggage: after an update from the agent, the restrictions that were added to the
  agent are enforced, key by key, on every value shorter than \<open>2 ^ 31\<close> bytes, and every other key is
  refused. Again the request is one the agent can read (\<open>asks\<close>), for a service that is not empty and
  not as long as whole blocks of 256 bytes, which the agent does not answer; the keys are plain and
  the bounds lengths an \<^verbatim>\<open>int\<close> can hold.\<close>

theorem polled_restrictions_enforced:
  assumes "document_laws J" and "asks version service u" and "asks_baggage httpAuthority u"
    and "\<forall>(key, r) \<in> set (ma_restrictions a). plain_string key \<and> 0 \<le> maxValueLength r \<and> maxValueLength r \<le> INT_MAX"
    and "int (length value) \<le> INT_MAX"
  shows "\<exists>got rm' ms' out'. get_from_agent J httpAuthority a version u = Some got \<and>
    updateRestrictions (json_restrictions J) u got rm ms out = (rm', ms', out') \<and>
    ms' = inc BaggageRestrictionsUpdateSuccess 1 ms \<and>
    fst (setBaggage (RemoteManager rm') service' sampled bag key value ms'') =
      (case map_of (ma_restrictions a) key of
         None \<Rightarrow> bag | Some r \<Rightarrow> AList.update key (take (nat (maxValueLength r)) value) bag)"
proof -
  let ?rs = "map (\<lambda>(key, r). (key, maxValueLength r)) (ma_restrictions a)"
  have written_text: "text_document J (BaggageRestrictions_to_json J ?rs)"
    using assms(4) by (intro text_BaggageRestrictions) auto
  have doc: "agent_document J httpAuthority a (get_request version u) = Inr (BaggageRestrictions_to_json J ?rs)"
    using agent_document_asked[OF assms(2), of J httpAuthority a] assms(3) by simp
  from get_from_agent_answered[OF assms(1,2) doc written_text] obtain got
    where got: "get_from_agent J httpAuthority a version u = Some got" "answered J got (BaggageRestrictions_to_json J ?rs)"
    by blast
  obtain rm' ms' out' where upd: "updateRestrictions (json_restrictions J) u got rm ms out = (rm', ms', out')"
    by (metis prod_cases3)
  have "list_all (\<lambda>(_, n). 0 \<le> n \<and> n \<le> INT_MAX) ?rs" using assms(4) by (auto simp: list_all_iff)
  from restrictions_enforced[OF document_lawsD(1)[OF assms(1)] this got(2) upd assms(5)]
  have "ms' = inc BaggageRestrictionsUpdateSuccess 1 ms"
    "fst (setBaggage (RemoteManager rm') service' sampled bag key value ms'') =
      (case map_of ?rs key of None \<Rightarrow> bag | Some n \<Rightarrow> AList.update key (take (nat n) value) bag)" by blast+
  moreover have "map_of ?rs key = map_option maxValueLength (map_of (ma_restrictions a) key)"
    by (simp add: map_of_map)
  ultimately show ?thesis using got(1) upd by (auto split: option.splits)
qed

text \<open>C3. Spans from end to end: if every call on a sender is accepted, the last a flush, the agent that
  reads the packets one by one has, behind what it had, exactly the spans that were given to the
  sender, converted, in their order.\<close>

theorem spans_reach_agent:
  assumes "sender_calls (\<lambda>emit sp. ThriftSender_append sz service tgs emit sp) ThriftSender_flush
      (map (\<lambda>x. (emit, x)) (map Some sps @ [None])) (ThriftSender mx) = (rs, s')"
    and "list_all (\<lambda>r. \<not> isl r) rs" and "list_all Batch_fits (ts_emitted s')"
    and "\<forall>b. Batch_fits b \<longrightarrow> carry P (send_emitBatch b) (put (serialize b) w0) = Some w0"
  shows "\<exists>ts a'. mapE Span_thrift sps = Inr ts \<and>
    serve_packets P put (map serialize (ts_emitted s')) (a, w0) = Some (a', w0) \<and>
    concat (map batch_spans (ma_batches a')) = concat (map batch_spans (ma_batches a)) @ ts"
proof -
  have new: "sender_emitted (ThriftSender mx) = []" "ts_spanBuffer (ThriftSender mx) = []"
    by (simp_all add: ThriftSender_def sender_emitted_def)
  note acc = thrift.calls_accepted[OF assms(1,2), unfolded new]
  then have "mapE Span_thrift sps = Inr (sender_emitted s')"
    by (subst converted_given[where out = emit]) auto
  moreover have "serve_packets P put (map serialize (ts_emitted s')) (a, w0) =
      Some (a\<lparr>ma_batches := ma_batches a @ ts_emitted s'\<rparr>, w0)"
    using serve_packets_sent[where serialize = serialize and put = put, OF assms(4), of "ts_emitted s'" a] assms(3) by blast
  ultimately show ?thesis by (auto simp: sender_emitted_def)
qed

section \<open>Examples\<close>

definition example_agent :: mock_agent where
  "example_agent = addBaggageRestriction ''user'' (Restriction True 3)
     (addSamplingStrategy ''svc'' (strategy_response0\<lparr>resp_probabilistic := Some 1\<rparr>) MockAgent)"

definition example_agent_uri :: "string \<Rightarrow> uri" where
  "example_agent_uri p = \<lparr>scheme = ''http'', host = ''h'', port = 0, path = p, query = ''service=svc''\<rparr>"

lemma escape_svc: "queryEscape ''svc'' = ''svc''"
  by code_simp

lemma example_asks: "p \<in> {''/sampling'', ''/baggageRestrictions''} \<Longrightarrow> asks ''0.0'' ''svc'' (example_agent_uri p)"
  by (auto simp: asks_def example_agent_uri_def escape_svc URI_authority_def get_request_def URI_target_def dest!: dvd_imp_le)

lemma example_agent_strategy: "agent_strategy example_agent ''svc'' = strategy_response0\<lparr>resp_probabilistic := Some 1\<rparr>"
  by (simp add: agent_strategy_def example_agent_def addSamplingStrategy_def addBaggageRestriction_def MockAgent_def)

theorem polled_strategy_installed_witness:
  "\<exists>got. get_from_agent documents ''h'' example_agent ''0.0'' (example_agent_uri ''/sampling'') = Some got \<and>
    poll_sampler documents 64 True (example_agent_uri ''/sampling'') ''svc'' (\<lambda>_. got) 7
      (SRemote (SConst (ConstSampler True)) 10 True) metrics0 =
    (SRemote (SProbabilistic (ProbabilisticSampler 64 1)) 10 True, inc SamplerUpdated 1 (inc SamplerRetrieved 1 metrics0))"
proof -
  let ?u = "example_agent_uri ''/sampling''"
  have "\<not> asks_baggage ''h'' ?u"
    by (simp add: asks_baggage_def startsWith_def URI_target_def example_agent_uri_def)
  moreover have "?u = ?u\<lparr>query := ''service='' @ queryEscape ''svc''\<rparr>" by (simp add: example_agent_uri_def escape_svc)
  moreover have "text_response (agent_strategy example_agent (queryEscape ''svc''))"
    using fl_pow2[of 53 0]
    by (simp add: escape_svc example_agent_strategy text_response_def response_in_range_def strategy_response0_def)
  ultimately show ?thesis
    using polled_strategy_installed[OF documents_document_laws example_asks[of "''/sampling''"],
        where serverURI = ?u and a = example_agent]
    by (simp add: escape_svc example_agent_strategy requested_def strategy_response0_def)
qed

theorem polled_restrictions_enforced_witness:
  "\<exists>got rm' ms' out'. get_from_agent documents ''h'' example_agent ''0.0'' (example_agent_uri ''/baggageRestrictions'') = Some got \<and>
    updateRestrictions (json_restrictions documents) (example_agent_uri ''/baggageRestrictions'') got example_manager
      metrics0 [] = (rm', ms', out') \<and>
    fst (setBaggage (RemoteManager rm') ''svc'' True [] ''user'' ''abcdef'' metrics0) = [(''user'', ''abc'')]"
proof -
  let ?u = "example_agent_uri ''/baggageRestrictions''"
  have b: "asks_baggage ''h'' ?u"
    by (simp add: asks_baggage_def startsWith_def URI_target_def example_agent_uri_def)
  have r: "ma_restrictions example_agent = [(''user'', Restriction True 3)]"
    by (simp add: example_agent_def addSamplingStrategy_def addBaggageRestriction_def MockAgent_def insert_first_def)
  have "\<forall>(key, r) \<in> set (ma_restrictions example_agent). plain_string key \<and> 0 \<le> maxValueLength r \<and> maxValueLength r \<le> INT_MAX"
    by (simp add: r INT_MAX_def)
  from polled_restrictions_enforced[OF documents_document_laws example_asks b this, of "''abcdef''" example_manager metrics0 "[]"
      "''svc''" True "[]" "''user''" metrics0]
  show ?thesis by (auto simp: r numeral_3_eq_3 INT_MAX_def)
qed

theorem spans_reach_agent_witness:
  "\<exists>ts a' s'. s' = snd (sender_calls (\<lambda>emit sp. ThriftSender_append example_sizes ''svc'' [] emit sp) ThriftSender_flush
      [(\<lambda>_. None, Some example_span), (\<lambda>_. None, None)] (ThriftSender 200)) \<and>
    mapE Span_thrift [example_span] = Inr ts \<and>
    serve_packets tokens (\<lambda>d w. w @ d) (map send_emitBatch (ts_emitted s')) (MockAgent, []) = Some (a', []) \<and>
    concat (map batch_spans (ma_batches a')) = ts"
proof -
  let ?cs = "[(\<lambda>_ :: thrift_batch. None :: exception option, Some example_span), (\<lambda>_. None, None)]"
  obtain rs s' where r: "sender_calls (\<lambda>emit sp. ThriftSender_append example_sizes ''svc'' [] emit sp) ThriftSender_flush
      ?cs (ThriftSender 200) = (rs, s')" by fastforce
  have "list_all (\<lambda>r. \<not> isl r) rs \<and> list_all Batch_fits (ts_emitted s')"
    using r by (auto simp: sender_call_def ThriftSender_append_def ThriftSender_flush_def ThriftSender_def set_process_def
        example_sizes_def example_span_def Span_def Span_thrift_def Let_def kEmitBatchOverhead_def thrift_process0_def
        resetBuffers_def Batch_fits_def Span_fits_def opt_fits_def fits_def thrift_tags_def int32_nonneg INT_MAX_def)
  moreover have "\<forall>b. Batch_fits b \<longrightarrow> carry tokens (send_emitBatch b) ([] @ send_emitBatch b) = Some []"
    by (simp add: tokens_carry_all)
  ultimately show ?thesis
    using spans_reach_agent[where sps = "[example_span]" and emit = "\<lambda>_. None" and rs = rs and s' = s' and
        P = tokens and put = "\<lambda>d w. w @ d" and serialize = send_emitBatch and ?w0.0 = "[]" and a = MockAgent] r
    by (force simp: MockAgent_def)
qed

end
