(* ===== verification/Addresses.thy ===== *)
theory Addresses
  imports Configs
begin

text \<open>
  Addresses and sockets (\<^verbatim>\<open>net/IPAddress.*\<close>, \<^verbatim>\<open>net/Socket.*\<close>, \<^verbatim>\<open>platform/Hostname.h\<close>, the branches
  for POSIX). A \<^verbatim>\<open>sockaddr_storage\<close> is its 128 bytes, laid out as on Linux: the family in two bytes,
  the port in two, most significant first, then the four bytes of an IPv4 address, or the flow
  information and the sixteen bytes of an IPv6 address. What the system answers is the parameter \<open>N\<close>.
\<close>

section \<open>The system\<close>

type_synonym bytes = "u8 list"

datatype family = AF_INET | AF_INET6

record system =
  sys_family :: "family \<Rightarrow> bytes"
  sys_pton :: "family \<Rightarrow> string \<Rightarrow> bytes option"
  sys_ntop :: "family \<Rightarrow> bytes \<Rightarrow> string option"
  sys_getaddrinfo :: "string \<Rightarrow> string \<Rightarrow> family \<Rightarrow> string + bytes \<times> bytes list"
  sys_gethostname :: "int + string"
  sys_ifaddrs :: "bytes option list"
  sys_connect :: "bytes \<Rightarrow> bool"
  sys_bind :: "bytes \<Rightarrow> int"
  sys_listen :: "int \<Rightarrow> int"

text \<open>
  \<open>sys_family\<close> is the family's number as a \<^verbatim>\<open>sa_family_t\<close>; \<open>sys_pton\<close> gives \<^term>\<open>None\<close> for a text that is
  no address; \<open>sys_getaddrinfo\<close> a message or the addresses, at least one; \<open>sys_gethostname\<close> \<^verbatim>\<open>errno\<close> or
  what the buffer of 256 bytes holds then; \<open>sys_ifaddrs\<close> the interfaces' addresses, some of them null;
  \<open>sys_bind\<close> and \<open>sys_listen\<close> give 0 or \<^verbatim>\<open>errno\<close>.
\<close>

abbreviation sockaddr_in_size :: nat where "sockaddr_in_size \<equiv> 16"
abbreviation sockaddr_in6_size :: nat where "sockaddr_in6_size \<equiv> 28"
abbreviation storage_size :: nat where "storage_size \<equiv> 128"

definition memcpy :: "bytes \<Rightarrow> nat \<Rightarrow> bytes \<Rightarrow> bytes" where
  "memcpy dst off src = take off dst @ src @ drop (off + length src) dst"

definition slice :: "nat \<Rightarrow> nat \<Rightarrow> bytes \<Rightarrow> bytes" where
  "slice off n bs = take n (drop off bs)"

section \<open>Addresses\<close>

record ip_address =
  ia_addr :: bytes
  ia_addrLen :: nat

definition IPAddress0 :: ip_address where
  "IPAddress0 = \<lparr>ia_addr = replicate storage_size 0, ia_addrLen = sockaddr_in_size\<rparr>"

definition IPAddress_storage :: "bytes \<Rightarrow> nat \<Rightarrow> ip_address" where
  "IPAddress_storage addr addrLen = \<lparr>ia_addr = addr, ia_addrLen = addrLen\<rparr>"

text \<open>The delegating constructor leaves the length at its default.\<close>

definition IPAddress_sockaddr :: "bytes \<Rightarrow> nat \<Rightarrow> ip_address" where
  "IPAddress_sockaddr addr addrLen =
     IPAddress0\<lparr>ia_addr := memcpy (ia_addr IPAddress0) 0 (take addrLen addr)\<rparr>"

definition IPAddress_in :: "bytes \<Rightarrow> ip_address" where
  "IPAddress_in addr = IPAddress_sockaddr addr sockaddr_in_size"

definition IPAddress_in6 :: "bytes \<Rightarrow> ip_address" where
  "IPAddress_in6 addr = IPAddress_sockaddr addr sockaddr_in6_size"

definition IPAddress_eq :: "ip_address \<Rightarrow> ip_address \<Rightarrow> bool" where
  "IPAddress_eq a b \<longleftrightarrow>
     (if ia_addrLen a \<noteq> ia_addrLen b then False
      else take (ia_addrLen a) (ia_addr a) = take (ia_addrLen a) (ia_addr b))"

definition IPAddress_family :: "ip_address \<Rightarrow> family" where
  "IPAddress_family a = (if ia_addrLen a = sockaddr_in_size then AF_INET else AF_INET6)"

definition ntohs :: "bytes \<Rightarrow> int" where
  "ntohs bs = 256 * uint (bs ! 0) + uint (bs ! 1)"

definition htons :: "int \<Rightarrow> bytes" where
  "htons n = [word_of_int (n div 256), word_of_int n]"

definition IPAddress_port :: "ip_address \<Rightarrow> int" where
  "IPAddress_port a = ntohs (slice 2 2 (ia_addr a))"

definition IPAddress_host :: "system \<Rightarrow> ip_address \<Rightarrow> string" where
  "IPAddress_host N a =
     (case sys_ntop N (IPAddress_family a)
             (if IPAddress_family a = AF_INET then slice 4 4 (ia_addr a) else slice 8 16 (ia_addr a)) of
        None \<Rightarrow> [] | Some s \<Rightarrow> s)"

definition IPAddress_authority :: "system \<Rightarrow> ip_address \<Rightarrow> string" where
  "IPAddress_authority N a =
     (if IPAddress_port a \<noteq> 0 then IPAddress_host N a @ CHR '':'' # int_str (IPAddress_port a)
      else IPAddress_host N a)"

text \<open>The family is printed as its number.\<close>

definition IPAddress_print :: "system \<Rightarrow> ip_address \<Rightarrow> string" where
  "IPAddress_print N a =
     ''{ family='' @ int_str (case IPAddress_family a of AF_INET \<Rightarrow> 2 | AF_INET6 \<Rightarrow> 10) @
     (if IPAddress_host N a \<noteq> [] then '', addr='' @ IPAddress_host N a else []) @
     '', port='' @ int_str (IPAddress_port a) @ '' }''"

section \<open>Names\<close>

definition hostname :: "system \<Rightarrow> exception + string" where
  "hostname N =
     (case sys_gethostname N of
        Inl errno \<Rightarrow> Inl (SysError ''Failed to get hostname'' errno)
      | Inr buffer \<Rightarrow> Inr (takeWhile (\<lambda>c. c \<noteq> CHR 0x00) buffer))"

definition resolveAddress :: "system \<Rightarrow> string \<Rightarrow> int \<Rightarrow> family \<Rightarrow> exception + bytes \<times> bytes list" where
  "resolveAddress N hostText p fam =
     (case sys_getaddrinfo N hostText (if p \<noteq> 0 then int_str p else []) fam of
        Inl message \<Rightarrow> Inl (RuntimeError (''Error resolving address: '' @ message))
      | Inr answers \<Rightarrow> Inr answers)"

definition versionFromString :: "system \<Rightarrow> string \<Rightarrow> int \<Rightarrow> family \<Rightarrow> exception + ip_address" where
  "versionFromString N ip p fam =
     (let storage = memcpy (memcpy (replicate storage_size 0) 0 (sys_family N fam)) 2 (htons p);
          off = (if fam = AF_INET then 4 else 8);
          len = (if fam = AF_INET then sockaddr_in_size else sockaddr_in6_size)
      in case sys_pton N fam ip of
           Some bs \<Rightarrow> Inr (IPAddress_storage (memcpy storage off bs) len)
         | None \<Rightarrow>
             bindE (resolveAddress N ip p fam) (\<lambda>(first, others).
             Inr (IPAddress_storage (memcpy storage 0 first) len)))"

definition IPAddress_v4 :: "system \<Rightarrow> string \<Rightarrow> int \<Rightarrow> exception + ip_address" where
  "IPAddress_v4 N ip p = versionFromString N ip p AF_INET"

definition IPAddress_v6 :: "system \<Rightarrow> string \<Rightarrow> int \<Rightarrow> exception + ip_address" where
  "IPAddress_v6 N ip p = versionFromString N ip p AF_INET6"

definition IPAddress_v4_parse :: "system \<Rightarrow> string \<Rightarrow> exception + ip_address" where
  "IPAddress_v4_parse N hostPort = (case IPAddress_parse hostPort of (ip, p) \<Rightarrow> IPAddress_v4 N ip p)"

text \<open>
  The first interface of the family. The length is that of the family of the list's first entry,
  whose address may be null (\<^term>\<open>None\<close>).
\<close>

definition localIP_interface :: "system \<Rightarrow> family \<Rightarrow> ip_address option" where
  "localIP_interface N fam =
     (case List.find (\<lambda>a. case a of None \<Rightarrow> False | Some bs \<Rightarrow> take 2 bs = sys_family N fam) (sys_ifaddrs N) of
        Some (Some bs) \<Rightarrow>
          (case hd (sys_ifaddrs N) of
             None \<Rightarrow> None
           | Some first \<Rightarrow>
               Some (IPAddress_sockaddr bs
                 (if take 2 first = sys_family N AF_INET then sockaddr_in_size else sockaddr_in6_size)))
      | _ \<Rightarrow> Some IPAddress0)"

definition localIP :: "system \<Rightarrow> family \<Rightarrow> ip_address option" where
  "localIP N fam =
     (case bindE (hostname N) (\<lambda>h. versionFromString N h 0 fam) of
        Inr a \<Rightarrow> Some a
      | Inl _ \<Rightarrow> localIP_interface N fam)"

text \<open>What a new tracer asks of its host: the name and the address it puts into its tags.\<close>

definition tracer_hostname :: "system \<Rightarrow> string option" where
  "tracer_hostname N = (case hostname N of Inl _ \<Rightarrow> None | Inr h \<Rightarrow> Some h)"

definition tracer_localIP :: "system \<Rightarrow> string option option" where
  "tracer_localIP N =
     map_option (\<lambda>a. if IPAddress_eq a IPAddress0 then None else Some (IPAddress_host N a)) (localIP N AF_INET)"

section \<open>Connecting\<close>

definition connect_address :: "system \<Rightarrow> ip_address \<Rightarrow> exception + unit" where
  "connect_address N a =
     (if \<not> sys_connect N (take (ia_addrLen a) (ia_addr a)) then
        Inl (RuntimeError (''Cannot connect socket to remote address '' @ IPAddress_print N a))
      else Inr ())"

definition connect_uri :: "system \<Rightarrow> uri \<Rightarrow> exception + ip_address" where
  "connect_uri N serverURI =
     bindE (resolveAddress N (host serverURI) (port serverURI) AF_INET) (\<lambda>(first, others).
     case List.find (sys_connect N) (first # others) of
       Some a \<Rightarrow> Inr (IPAddress_sockaddr a (length a))
     | None \<Rightarrow> Inl (RuntimeError (''Cannot connect socket to remote address '' @ URI_print serverURI)))"

definition connect_string :: "system \<Rightarrow> string \<Rightarrow> exception + ip_address" where
  "connect_string N serverURIStr = connect_uri N (URI_parse serverURIStr)"

definition Socket_bind :: "system \<Rightarrow> ip_address \<Rightarrow> exception + unit" where
  "Socket_bind N a =
     (if sys_bind N (take (ia_addrLen a) (ia_addr a)) \<noteq> 0 then
        Inl (SysError (''Failed to bind socket to address, addr='' @ IPAddress_print N a)
               (sys_bind N (take (ia_addrLen a) (ia_addr a))))
      else Inr ())"

definition Socket_bind_port :: "system \<Rightarrow> string \<Rightarrow> int \<Rightarrow> exception + unit" where
  "Socket_bind_port N ip p = bindE (IPAddress_v4 N ip p) (Socket_bind N)"

definition kDefaultBacklog :: int where
  "kDefaultBacklog = 128"

definition Socket_listen :: "system \<Rightarrow> int \<Rightarrow> exception + unit" where
  "Socket_listen N backlog =
     (if sys_listen N backlog \<noteq> 0 then Inl (SysError ''Failed to listen on socket'' (sys_listen N backlog))
      else Inr ())"

section \<open>Handles\<close>

text \<open>
  A socket object owns a handle, -1 if it has none. \<open>handle\<close> is what the system call \<^verbatim>\<open>socket\<close> or
  \<^verbatim>\<open>accept\<close> returns: a handle that is not open yet, or a negative number and an \<^verbatim>\<open>errno\<close>.
\<close>

record socket =
  so_handle :: int
  so_family :: int
  so_type :: int

definition Socket0 :: socket where
  "Socket0 = \<lparr>so_handle = -1, so_family = -1, so_type = -1\<rparr>"

definition isHandleInvalid :: "int \<Rightarrow> bool" where
  "isHandleInvalid h \<longleftrightarrow> h < 0"

definition Socket_open :: "int \<Rightarrow> int \<Rightarrow> int \<Rightarrow> int \<Rightarrow> socket \<Rightarrow> exception + socket" where
  "Socket_open handle errno fam ty s =
     (if isHandleInvalid handle then
        Inl (SysError (''Failed to open socket, family='' @ int_str fam @ '', type='' @ int_str ty) errno)
      else Inr \<lparr>so_handle = handle, so_family = fam, so_type = ty\<rparr>)"

definition Socket_accept :: "int \<Rightarrow> int \<Rightarrow> nat \<Rightarrow> exception + socket" where
  "Socket_accept handle errno addrLen =
     (if isHandleInvalid handle then Inl (SysError ''Failed to accept on socket'' errno)
      else Inr (Socket0\<lparr>so_handle := handle, so_family := (if addrLen = sockaddr_in_size then 2 else 10),
                        so_type := 1\<rparr>))"

text \<open>The move constructor and the move assignment: the new object and the one moved from.\<close>

definition Socket_move :: "socket \<Rightarrow> socket \<times> socket" where
  "Socket_move s = (s, s\<lparr>so_handle := -1\<rparr>)"

definition Socket_assign :: "socket \<Rightarrow> socket \<Rightarrow> socket \<times> socket" where
  "Socket_assign s rhs =
     (s\<lparr>so_handle := so_handle rhs, so_family := so_family rhs, so_type := so_type rhs\<rparr>, rhs)"

text \<open>
  The objects that are alive, by number, the handles that are open, and how often a handle that
  was not open has been closed.
\<close>

record sockets =
  sk_objects :: "nat \<rightharpoonup> socket"
  sk_open :: "int set"
  sk_faults :: nat

definition no_sockets :: sockets where
  "no_sockets = \<lparr>sk_objects = Map.empty, sk_open = {}, sk_faults = 0\<rparr>"

definition Socket_close :: "nat \<Rightarrow> socket \<Rightarrow> sockets \<Rightarrow> sockets" where
  "Socket_close i s k =
     (if so_handle s \<ge> 0 then
        k\<lparr>sk_objects := (sk_objects k)(i \<mapsto> s\<lparr>so_handle := -1\<rparr>), sk_open := sk_open k - {so_handle s},
          sk_faults := (if so_handle s \<in> sk_open k then sk_faults k else Suc (sk_faults k))\<rparr>
      else k)"

text \<open>What a program does with its sockets; the destructor closes.\<close>

datatype socket_op =
  Construct nat | Open nat int int int | Accept nat int nat | Move nat nat | Assign nat nat | Close nat | Destroy nat

definition put_socket :: "nat \<Rightarrow> socket \<Rightarrow> sockets \<Rightarrow> sockets" where
  "put_socket i s k = k\<lparr>sk_objects := (sk_objects k)(i \<mapsto> s), sk_open := insert (so_handle s) (sk_open k)\<rparr>"

fun socket_step :: "socket_op \<Rightarrow> sockets \<Rightarrow> sockets" where
  "socket_step (Construct i) k = k\<lparr>sk_objects := (sk_objects k)(i \<mapsto> Socket0)\<rparr>"
| "socket_step (Open i handle fam ty) k =
     (case sk_objects k i of
        Some s \<Rightarrow> (case Socket_open handle 0 fam ty s of Inl _ \<Rightarrow> k | Inr s' \<Rightarrow> put_socket i s' k)
      | None \<Rightarrow> k)"
| "socket_step (Accept i handle addrLen) k =
     (case Socket_accept handle 0 addrLen of Inl _ \<Rightarrow> k | Inr s' \<Rightarrow> put_socket i s' k)"
| "socket_step (Move i j) k =
     (case sk_objects k j of
        Some s \<Rightarrow> (case Socket_move s of (new, old) \<Rightarrow>
          k\<lparr>sk_objects := (sk_objects k)(i \<mapsto> new, j \<mapsto> old)\<rparr>)
      | None \<Rightarrow> k)"
| "socket_step (Assign i j) k =
     (case (sk_objects k i, sk_objects k j) of
        (Some s, Some rhs) \<Rightarrow> (case Socket_assign s rhs of (new, old) \<Rightarrow>
          k\<lparr>sk_objects := (sk_objects k)(i \<mapsto> new, j \<mapsto> old)\<rparr>)
      | _ \<Rightarrow> k)"
| "socket_step (Close i) k = (case sk_objects k i of Some s \<Rightarrow> Socket_close i s k | None \<Rightarrow> k)"
| "socket_step (Destroy i) k =
     (case sk_objects k i of
        Some s \<Rightarrow> (Socket_close i s k)\<lparr>sk_objects := (sk_objects (Socket_close i s k))(i := None)\<rparr>
      | None \<Rightarrow> k)"

text \<open>
  What the language and the kernel see to, constructors work on fresh objects and new handles are
  not open, and two rules a program has to keep by itself: no move assignment, and \<^verbatim>\<open>open\<close> only on
  an object without a handle.
\<close>

fun orderly :: "socket_op \<Rightarrow> sockets \<Rightarrow> bool" where
  "orderly (Construct i) k \<longleftrightarrow> sk_objects k i = None"
| "orderly (Open i handle fam ty) k \<longleftrightarrow>
     handle \<notin> sk_open k \<and> (case sk_objects k i of Some s \<Rightarrow> so_handle s < 0 | None \<Rightarrow> False)"
| "orderly (Accept i handle addrLen) k \<longleftrightarrow> handle \<notin> sk_open k \<and> sk_objects k i = None"
| "orderly (Move i j) k \<longleftrightarrow> sk_objects k i = None"
| "orderly (Assign i j) k \<longleftrightarrow> False"
| "orderly (Close i) k \<longleftrightarrow> True"
| "orderly (Destroy i) k \<longleftrightarrow> True"

fun orderly_run :: "socket_op list \<Rightarrow> sockets \<Rightarrow> bool" where
  "orderly_run [] k \<longleftrightarrow> True"
| "orderly_run (op # ops) k \<longleftrightarrow> orderly op k \<and> orderly_run ops (socket_step op k)"

text \<open>The objects' handles are the open ones, and no two objects have the same.\<close>

definition owner :: "sockets \<Rightarrow> int \<Rightarrow> nat \<Rightarrow> bool" where
  "owner k h i \<longleftrightarrow> (case sk_objects k i of Some s \<Rightarrow> so_handle s = h | None \<Rightarrow> False)"

definition owned :: "sockets \<Rightarrow> bool" where
  "owned k \<longleftrightarrow> sk_faults k = 0 \<and> (\<forall>h. h \<in> sk_open k \<longrightarrow> 0 \<le> h) \<and>
     (\<forall>h. 0 \<le> h \<longrightarrow> (h \<in> sk_open k \<longleftrightarrow> (\<exists>i. owner k h i))) \<and>
     (\<forall>h i j. 0 \<le> h \<longrightarrow> owner k h i \<longrightarrow> owner k h j \<longrightarrow> i = j)"

lemmas socket_defs = owner_def put_socket_def Socket_open_def Socket_accept_def Socket_move_def Socket_close_def
  Socket0_def isHandleInvalid_def

text \<open>A step that moves no handle but the one of an object it frees.\<close>

lemma owned_close:
  assumes k: "owned k" and s: "sk_objects k i = Some s"
  shows "owned (Socket_close i s k)"
proof (cases "so_handle s \<ge> 0")
  case True
  have own: "owner (Socket_close i s k) h j \<longleftrightarrow> owner k h j \<and> h \<noteq> so_handle s" if "0 \<le> h" for h j
    using that True s k unfolding owned_def by (auto simp: socket_defs split: option.splits if_splits)
  have "owner k (so_handle s) i" using s by (simp add: owner_def)
  then have "so_handle s \<in> sk_open k" using k True unfolding owned_def by blast
  then show ?thesis using k own unfolding owned_def by (auto simp: Socket_close_def True)
qed (use k in \<open>simp add: Socket_close_def\<close>)

lemma owned_put:
  assumes k: "owned k" and h: "0 \<le> so_handle s" "so_handle s \<notin> sk_open k"
    and i: "\<And>s'. sk_objects k i = Some s' \<Longrightarrow> so_handle s' < 0"
  shows "owned (put_socket i s k)"
proof -
  have own: "owner (put_socket i s k) h j \<longleftrightarrow> owner k h j \<and> j \<noteq> i \<or> h = so_handle s \<and> j = i" for h j
    by (auto simp: put_socket_def owner_def split: option.splits)
  have "\<not> owner k h i" if "0 \<le> h" for h using i that by (auto simp: owner_def split: option.splits)
  moreover have "\<not> owner k (so_handle s) j" for j using k h unfolding owned_def by auto
  ultimately show ?thesis using k h own unfolding owned_def by (auto simp: put_socket_def) metis+
qed

lemma owned_frame:
  assumes "owned k" and "\<And>h j. 0 \<le> h \<Longrightarrow> owner k' h j \<longleftrightarrow> owner k h (f j)"
    and "\<And>j. f (f j) = j"
    and "sk_open k' = sk_open k" "sk_faults k' = sk_faults k"
  shows "owned k'"
proof -
  have "(\<exists>i. owner k' h i) \<longleftrightarrow> (\<exists>i. owner k h i)" if "0 \<le> h" for h using assms(2,3) that by metis
  moreover have "i = j" if "0 \<le> h" "owner k' h i" "owner k' h j" for h i j
    using assms(1-3) that unfolding owned_def by metis
  ultimately show ?thesis using assms(1,4,5) unfolding owned_def by metis
qed

lemmas owned_same = owned_frame [where f = "\<lambda>j. j", simplified]

lemma owned_step: "owned k \<Longrightarrow> orderly op k \<Longrightarrow> owned (socket_step op k)"
proof (cases op)
  case (Construct i)
  assume k: "owned k" "orderly op k"
  show ?thesis by (rule owned_same [OF k(1)]) (use k(2) Construct in \<open>auto simp: socket_defs\<close>)
next
  case (Open i handle fam ty)
  assume k: "owned k" "orderly op k"
  then obtain s where "sk_objects k i = Some s" "so_handle s < 0" "handle \<notin> sk_open k"
    using Open by (auto split: option.splits)
  then show ?thesis using k Open
    by (auto simp: Socket_open_def isHandleInvalid_def intro!: owned_put)
next
  case (Accept i handle addrLen)
  assume "owned k" "orderly op k"
  then show ?thesis using Accept
    by (auto simp: Socket_accept_def isHandleInvalid_def intro!: owned_put)
next
  case (Move i j)
  assume k: "owned k" "orderly op k"
  show ?thesis
  proof (cases "sk_objects k j")
    case (Some s)
    then have "i \<noteq> j" using k(2) Move by auto
    with Some show ?thesis
      by (intro owned_frame [OF k(1), where f = "id(i := j, j := i)"])
         (use k(2) Move in \<open>auto simp: socket_defs split: if_splits\<close>)
  qed (use k Move in simp)
next
  case (Close i)
  assume "owned k" "orderly op k"
  then show ?thesis using Close by (auto simp: owned_close split: option.splits)
next
  case (Destroy i)
  assume k: "owned k" "orderly op k"
  show ?thesis
  proof (cases "sk_objects k i")
    case (Some s)
    show ?thesis
      by (rule owned_same [OF owned_close [OF k(1) Some]])
         (use Some Destroy in \<open>auto simp: socket_defs split: if_splits\<close>)
  qed (use k Destroy in simp)
qed simp

lemma owned_run: "owned k \<Longrightarrow> orderly_run ops k \<Longrightarrow> owned (fold socket_step ops k)"
  by (induction ops arbitrary: k) (auto intro: owned_step)

lemma owned_none: "owned no_sockets"
  by (simp add: owned_def no_sockets_def owner_def)

text \<open>C21. An orderly program of sockets leaks no handle and closes none twice.\<close>

theorem sockets_own_handles:
  assumes "orderly_run ops no_sockets" and "k = fold socket_step ops no_sockets"
  shows "sk_faults k = 0 \<and>
    (\<forall>h \<in> sk_open k. \<exists>!i. \<exists>s. sk_objects k i = Some s \<and> so_handle s = h) \<and>
    (sk_objects k = Map.empty \<longrightarrow> sk_open k = {})"
proof (intro conjI ballI impI)
  have k: "owned k" using owned_run [OF owned_none assms(1)] assms(2) by simp
  then show "sk_faults k = 0" by (simp add: owned_def)
  have own: "(\<exists>s. sk_objects k i = Some s \<and> so_handle s = h) \<longleftrightarrow> owner k h i" for h i
    by (auto simp: owner_def split: option.splits)
  show "\<exists>!i. \<exists>s. sk_objects k i = Some s \<and> so_handle s = h" if "h \<in> sk_open k" for h
    unfolding own using k that unfolding owned_def by metis
  show "sk_open k = {}" if "sk_objects k = Map.empty"
    using k that unfolding owned_def by (auto simp: owner_def)
qed

abbreviation accept_and_hand_over :: "socket_op list" where
  "accept_and_hand_over \<equiv> [Construct 0, Open 0 3 2 1, Accept 1 4 16, Move 2 1, Destroy 1]"

theorem sockets_own_handles_witness:
  "sk_faults (fold socket_step accept_and_hand_over no_sockets) = 0 \<and>
   sk_open (fold socket_step accept_and_hand_over no_sockets) = {3, 4}"
  using sockets_own_handles [of accept_and_hand_over, OF _ refl]
  by (auto simp: no_sockets_def socket_defs)

text \<open>After a move assignment both objects have the handle, and the second destructor closes it again.\<close>

lemma assign_closes_twice:
  assumes "sk_objects k i = Some s" "sk_objects k j = Some rhs" "i \<noteq> j"
    and "0 \<le> so_handle rhs" "so_handle rhs \<in> sk_open k"
  shows "sk_faults (fold socket_step [Assign i j, Destroy j, Destroy i] k) = Suc (sk_faults k)"
  using assms by (simp add: Socket_assign_def socket_defs)

section \<open>Texts of addresses\<close>

text \<open>
  What \<^verbatim>\<open>inet_ntop\<close> and \<^verbatim>\<open>inet_pton\<close> promise of IPv4 addresses: every four bytes have a text without
  colon, which is read as these bytes.
\<close>

definition inet_laws :: "system \<Rightarrow> bool" where
  "inet_laws N \<longleftrightarrow> length (sys_family N AF_INET) = 2 \<and>
     (\<forall>s bs. sys_pton N AF_INET s = Some bs \<longrightarrow> length bs = 4) \<and>
     (\<forall>bs. length bs = 4 \<longrightarrow> (\<exists>s. sys_ntop N AF_INET bs = Some s \<and> sys_pton N AF_INET s = Some bs \<and>
        CHR '':'' \<notin> set s))"

lemma length_htons [simp]: "length (htons n) = 2"
  by (simp add: htons_def)

lemma ntohs_htons:
  assumes "0 \<le> p" "p < 65536"
  shows "ntohs (htons p) = p"
proof -
  have "p div 256 < 256" "0 \<le> p div 256" using assms by auto
  then show ?thesis using assms
    by (simp add: ntohs_def htons_def take_bit_eq_mod unsigned_of_int)
qed

lemma IPAddress_parse_colon:
  assumes "CHR '':'' \<notin> set s" "0 \<le> p" "p \<le> INT_MAX"
  shows "IPAddress_parse (s @ CHR '':'' # int_str p) = (s, p)"
  using assms extract_int_dec_str [of "nat p" "[]"]
  by (auto simp: IPAddress_parse_def int_str_def takeWhile_append dropWhile_append)

lemma IPAddress_parse_host: "CHR '':'' \<notin> set s \<Longrightarrow> IPAddress_parse s = (s, 0)"
  by (auto simp: IPAddress_parse_def)

text \<open>The address a text stands for, and what the accessors give of it.\<close>

lemma v4_fields:
  assumes fam: "length (sys_family N AF_INET) = 2" and ip: "sys_pton N AF_INET ip = Some bs" "length bs = 4"
    and p: "0 \<le> p" "p < 65536" and a: "IPAddress_v4 N ip p = Inr a"
  shows "IPAddress_family a = AF_INET" and "IPAddress_port a = p" and "slice 4 4 (ia_addr a) = bs"
proof -
  have a: "a = \<lparr>ia_addr = sys_family N AF_INET @ htons p @ bs @ replicate 120 0, ia_addrLen = 16\<rparr>"
    using a ip fam by (simp add: IPAddress_v4_def versionFromString_def IPAddress_storage_def memcpy_def)
  then show "IPAddress_family a = AF_INET" by (simp add: IPAddress_family_def)
  show "IPAddress_port a = p" using a fam p ntohs_htons by (simp add: IPAddress_port_def slice_def)
  show "slice 4 4 (ia_addr a) = bs" using a fam ip by (simp add: slice_def)
qed

text \<open>The text of an IPv4 address and its port are read as the same address.\<close>

lemma ipv4_authority_roundtrip:
  assumes laws: "inet_laws N" and ip: "sys_pton N AF_INET ip = Some bs"
    and p: "0 \<le> p" "p < 65536" and a: "IPAddress_v4 N ip p = Inr a"
  shows "IPAddress_port a = p \<and> sys_ntop N AF_INET bs = Some (IPAddress_host N a) \<and>
    IPAddress_v4_parse N (IPAddress_authority N a) = Inr a"
proof -
  have bs: "length bs = 4" using laws ip by (auto simp: inet_laws_def)
  then obtain s where s: "sys_ntop N AF_INET bs = Some s" "sys_pton N AF_INET s = Some bs" "CHR '':'' \<notin> set s"
    using laws unfolding inet_laws_def by blast
  note fields = v4_fields [OF _ ip bs p a]
  have fam: "length (sys_family N AF_INET) = 2" using laws by (simp add: inet_laws_def)
  have h: "IPAddress_host N a = s" using fields [OF fam] s by (simp add: IPAddress_host_def)
  have "IPAddress_v4 N s p = IPAddress_v4 N ip p"
    using ip s by (simp add: IPAddress_v4_def versionFromString_def)
  moreover have "IPAddress_parse (IPAddress_authority N a) = (s, p)"
    using fields [OF fam] h s p
    by (auto simp: IPAddress_authority_def IPAddress_parse_colon IPAddress_parse_host INT_MAX_def)
  ultimately show ?thesis using fields [OF fam] h s a by (simp add: IPAddress_v4_parse_def)
qed

text \<open>Dotted decimal texts keep these laws.\<close>

definition dotted :: "bytes \<Rightarrow> string" where
  "dotted bs = dec_str (unat (bs ! 0)) @ CHR ''.'' # dec_str (unat (bs ! 1)) @ CHR ''.'' #
     dec_str (unat (bs ! 2)) @ CHR ''.'' # dec_str (unat (bs ! 3))"

definition undotted :: "string \<Rightarrow> bytes option" where
  "undotted s =
     (let ps = getlines (CHR ''.'') s in
      if length ps = 4 \<and> list_all (list_all isdigit) ps then Some (map (\<lambda>p. word_of_nat (dec_value p)) ps)
      else None)"

definition dotted_system :: system where
  "dotted_system =
     \<lparr>sys_family = (\<lambda>fam. [if fam = AF_INET then 2 else 10, 0]), sys_pton = (\<lambda>fam. undotted),
      sys_ntop = (\<lambda>fam bs. Some (dotted bs)), sys_getaddrinfo = (\<lambda>_ _ _. Inl ''unknown''),
      sys_gethostname = Inr ''host'', sys_ifaddrs = [], sys_connect = (\<lambda>_. True),
      sys_bind = (\<lambda>_. 0), sys_listen = (\<lambda>_. 0)\<rparr>"

lemma dec_str_free: "\<not> isdigit c \<Longrightarrow> c \<notin> set (dec_str n)"
  using dec_str_digits by blast

lemma undotted_dotted: "length bs = 4 \<Longrightarrow> undotted (dotted bs) = Some bs"
proof -
  assume "length bs = 4"
  then obtain a b c d where bs: "bs = [a, b, c, d]" by (auto simp: numeral_eq_Suc length_Suc_conv)
  have free: "CHR ''.'' \<notin> set (dec_str n)" for n by (rule dec_str_free) (simp add: isdigit_def)
  have "list_all isdigit (dec_str n)" for n using dec_str_digits by (simp add: list_all_iff)
  then show ?thesis unfolding bs
    by (simp add: undotted_def dotted_def Let_def getlines_delim getlines_last free)
qed

lemma dotted_laws: "inet_laws dotted_system"
proof -
  have "CHR '':'' \<notin> set (dotted bs)" for bs
    using dec_str_free [of "CHR '':''"] by (simp add: dotted_def isdigit_def)
  moreover have "length bs = 4" if "undotted s = Some bs" for s bs
    using that by (auto simp: undotted_def Let_def split: if_splits)
  ultimately show ?thesis by (simp add: inet_laws_def dotted_system_def undotted_dotted)
qed

lemma ipv4_authority_roundtrip_witness:
  "\<exists>a. IPAddress_v4 dotted_system (dotted [127, 0, 0, 1]) 6831 = Inr a \<and> IPAddress_port a = 6831 \<and>
     IPAddress_v4_parse dotted_system (IPAddress_authority dotted_system a) = Inr a"
proof -
  have ip: "sys_pton dotted_system AF_INET (dotted [127, 0, 0, 1]) = Some [127, 0, 0, 1]"
    by (simp add: dotted_system_def undotted_dotted)
  then obtain a where a: "IPAddress_v4 dotted_system (dotted [127, 0, 0, 1]) 6831 = Inr a"
    by (simp add: IPAddress_v4_def versionFromString_def)
  show ?thesis using a ipv4_authority_roundtrip [OF dotted_laws ip _ _ a] by auto
qed

text \<open>The socket address of an IPv6 connection is copied in full, but read as one of IPv4.\<close>

lemma in6_read_as_in: "IPAddress_family (IPAddress_in6 addr) = AF_INET"
  by (simp add: IPAddress_in6_def IPAddress_sockaddr_def IPAddress0_def IPAddress_family_def)

end
