(* ===== verification/Factory.thy ===== *)
theory Factory
  imports Configs Loggers
begin

text \<open>
  How a tracer is made for a program that only knows OpenTracing (\<^verbatim>\<open>TracerFactory.*\<close>,
  \<^verbatim>\<open>DynamicLoad.cpp\<close>): the library is loaded, its factory reads a configuration. The YAML parser is
  a parameter; \<open>yaml\<close> tells whether the library is built with it.
\<close>

section \<open>The factory\<close>

datatype 'n yaml_load = Loaded 'n | ParserException string | LoadThrows exception | LoadOutOfMemory

datatype factory_error = NotSupported | ConfigurationParseError | InvalidConfigurationError | NotEnoughMemory

record factory =
  fa_readFromEnv :: bool

definition TracerFactory0 :: factory where
  "TracerFactory0 = \<lparr>fa_readFromEnv = False\<rparr>"

definition TracerFactory :: "bool \<Rightarrow> factory" where
  "TracerFactory readFromEnv = \<lparr>fa_readFromEnv = readFromEnv\<rparr>"

text \<open>
  The body of the try block: the result and the error message, or what is thrown. The handlers,
  then: an exception that is no \<^verbatim>\<open>std::exception\<close> leaves the \<^verbatim>\<open>noexcept\<close> function and ends the
  process, which is \<^term>\<open>None\<close>.
\<close>

definition MakeTracer_body ::
  "bool \<Rightarrow> 'n yaml \<Rightarrow> 'n yaml_load \<Rightarrow> nat \<Rightarrow> platform \<Rightarrow> time \<Rightarrow> environment \<Rightarrow> factory \<Rightarrow> string \<Rightarrow>
   exception + (factory_error + made_tracer) \<times> string" where
  "MakeTracer_body yaml Y loaded ld pl now env f errorMessage =
     (if \<not> yaml then
        Inr (Inl NotSupported, ''Failed to construct tracer: Jaeger was not build with yaml support.'')
      else case loaded of
        ParserException what \<Rightarrow> Inr (Inl ConfigurationParseError, what)
      | LoadThrows e \<Rightarrow> Inl e
      | LoadOutOfMemory \<Rightarrow> Inr (Inl NotEnoughMemory, errorMessage)
      | Loaded node \<Rightarrow>
          bindE (Config_parse Y node) (\<lambda>parsed.
          let tracerConfig = (if fa_readFromEnv f then Config_fromEnv env parsed else parsed)
          in if cfg_serviceName tracerConfig = [] then
               Inr (Inl InvalidConfigurationError, ''`service_name` not provided'')
             else bindE (Tracer_make_config ld pl now tracerConfig) (\<lambda>tracer. Inr (Inr tracer, errorMessage))))"

definition MakeTracer ::
  "bool \<Rightarrow> 'n yaml \<Rightarrow> (string \<Rightarrow> 'n yaml_load) \<Rightarrow> nat \<Rightarrow> platform \<Rightarrow> time \<Rightarrow> environment \<Rightarrow> factory \<Rightarrow> string \<Rightarrow> string \<Rightarrow>
   ((factory_error + made_tracer) \<times> string) option" where
  "MakeTracer yaml Y load ld pl now env f configuration errorMessage =
     (case MakeTracer_body yaml Y (load configuration) ld pl now env f errorMessage of
        Inr r \<Rightarrow> Some r
      | Inl e \<Rightarrow> (case exception_what e of
          Some what \<Rightarrow> Some (Inl InvalidConfigurationError, what)
        | None \<Rightarrow> None))"

section \<open>Loading the library\<close>

text \<open>
  The error codes are those of OpenTracing's category, the last one the generic category's.
  \<open>allocated\<close> tells whether the factory can be allocated.
\<close>

datatype load_error = DynamicLoadNotSupported | IncompatibleLibraryVersions | GenericNotEnoughMemory

definition makeTracerFactory :: "bool \<Rightarrow> string \<Rightarrow> bool \<Rightarrow> string \<Rightarrow> load_error + factory" where
  "makeTracerFactory yaml abiVersion allocated opentracingABIVersion =
     (if \<not> yaml then Inl DynamicLoadNotSupported
      else if opentracingABIVersion \<noteq> abiVersion then Inl IncompatibleLibraryVersions
      else if \<not> allocated then Inl GenericNotEnoughMemory
      else Inr (TracerFactory True))"

section \<open>Properties\<close>

lemma service_name_fromEnv:
  "cfg_serviceName (Config_fromEnv env c) =
     (if getStringVariable env ''JAEGER_SERVICE_NAME'' \<noteq> [] then getStringVariable env ''JAEGER_SERVICE_NAME''
      else cfg_serviceName c)"
  by (simp add: Config_fromEnv_def Let_def split: prod.splits)

lemma tracer_make_service:
  "Tracer_make ld pl now service c options = Inr (JaegerTracer transport t) \<Longrightarrow> t_serviceName t = service"
  by (auto simp: Tracer_make_def split: if_splits prod.splits sum.splits option.splits)

text \<open>The name of the service: the environment's if it is read and set, the document's otherwise.\<close>

definition effective_name :: "factory \<Rightarrow> environment \<Rightarrow> config \<Rightarrow> string" where
  "effective_name f env c =
     (let name = getStringVariable env ''JAEGER_SERVICE_NAME''
      in if fa_readFromEnv f \<and> name \<noteq> [] then name else cfg_serviceName c)"

lemma effective_name:
  "cfg_serviceName (if fa_readFromEnv f then Config_fromEnv env c else c) = effective_name f env c"
  by (simp add: effective_name_def Let_def service_name_fromEnv)

lemma make_tracer_outcome:
  assumes node: "load configuration = Loaded node" and parsed: "Config_parse Y node = Inr c"
    and result: "MakeTracer True Y load ld pl now env f configuration [] = Some (r, message)"
  shows "(effective_name f env c = [] \<longrightarrow> r = Inl InvalidConfigurationError \<and> message = ''`service_name` not provided'') \<and>
    (\<forall>transport t. r = Inr (JaegerTracer transport t) \<longrightarrow>
       t_serviceName t = effective_name f env c \<and> effective_name f env c \<noteq> []) \<and>
    (\<forall>e. r = Inl e \<longrightarrow> e = InvalidConfigurationError) \<and> ((\<exists>tracer. r = Inr tracer) \<longrightarrow> message = [])"
proof -
  let ?c = "if fa_readFromEnv f then Config_fromEnv env c else c"
  have name: "cfg_serviceName ?c = effective_name f env c" by (rule effective_name)
  show ?thesis
  proof (cases "effective_name f env c = []")
    case True
    then show ?thesis using result node parsed name by (auto simp: MakeTracer_def MakeTracer_body_def)
  next
    case False
    then have body: "MakeTracer_body True Y (Loaded node) ld pl now env f [] =
        bindE (Tracer_make_config ld pl now ?c) (\<lambda>tracer. Inr (Inr tracer, []))"
      using parsed name by (simp add: MakeTracer_body_def Let_def)
    show ?thesis
    proof (cases "Tracer_make_config ld pl now ?c")
      case (Inl e)
      then show ?thesis using result body node False
        by (auto simp: MakeTracer_def split: option.splits)
    next
      case (Inr tracer)
      then have "r = Inr tracer" "message = []" using result body node by (auto simp: MakeTracer_def)
      moreover have "t_serviceName t = effective_name f env c" if "tracer = JaegerTracer transport t" for transport t
        using tracer_make_service Inr that name unfolding Tracer_make_config_def by metis
      ultimately show ?thesis using False by simp
    qed
  qed
qed

text \<open>C26. What a loaded library answers to a configuration its parser accepts: the factory reads the
  environment; without a service name, in the environment or else in the document, it refuses with
  a message; a tracer it makes bears that name and leaves the error message empty; what goes wrong
  is an invalid configuration.\<close>

theorem factory_outcome:
  assumes "makeTracerFactory yaml abi allocated abi' = Inr f"
    and "load configuration = Loaded node" and "Config_parse Y node = Inr c"
    and "MakeTracer yaml Y load ld pl now env f configuration [] = Some (r, message)"
    and "name = (let n = getStringVariable env ''JAEGER_SERVICE_NAME'' in if n \<noteq> [] then n else cfg_serviceName c)"
  shows "abi' = abi \<and> (name = [] \<longrightarrow> r = Inl InvalidConfigurationError \<and> message = ''`service_name` not provided'') \<and>
    (\<forall>transport t. r = Inr (JaegerTracer transport t) \<longrightarrow> t_serviceName t = name \<and> name \<noteq> []) \<and>
    (\<forall>e. r = Inl e \<longrightarrow> e = InvalidConfigurationError) \<and> ((\<exists>tracer. r = Inr tracer) \<longrightarrow> message = [])"
proof -
  have f: "yaml" "abi' = abi" "f = TracerFactory True"
    using assms(1) by (auto simp: makeTracerFactory_def split: if_splits)
  then have "effective_name f env c = name" using assms(5) by (simp add: effective_name_def TracerFactory_def Let_def)
  then show ?thesis using make_tracer_outcome [of load configuration node Y c ld pl now env f r message] assms f
    by auto
qed

abbreviation empty_yaml :: "unit yaml" where
  "empty_yaml \<equiv> \<lparr>y_isDefined = (\<lambda>_. False), y_isMap = (\<lambda>_. False), y_at = (\<lambda>_ _. ()), y_string = (\<lambda>_. Inr []),
     y_bool = (\<lambda>_. Inr False), y_int = (\<lambda>_. Inr 0), y_double = (\<lambda>_. Inr 0), y_items = (\<lambda>_. [])\<rparr>"

abbreviation named_environment :: environment where
  "named_environment \<equiv> [''JAEGER_SERVICE_NAME'' \<mapsto> ''svc'', ''JAEGER_SAMPLER_TYPE'' \<mapsto> ''const'']"

lemma named_environment_tracer:
  "\<exists>transport t. MakeTracer True empty_yaml (\<lambda>_. Loaded ()) 64 example_platform 0 named_environment (TracerFactory True) [] [] =
     Some (Inr (JaegerTracer transport t), [])"
proof -
  let ?c = "Config_fromEnv named_environment Config0"
  have "map to_lower ''const'' = ''const''" by code_simp
  then have ty: "map to_lower (sc_type (cfg_sampler ?c)) = kSamplerTypeConst"
    by (simp add: Config_fromEnv_def SamplerConfig_fromEnv_def Let_def getStringVariable_def kSamplerTypeConst_def
        split: prod.splits)
  have n: "cfg_serviceName ?c = ''svc''" by (simp add: service_name_fromEnv getStringVariable_def)
  have d: "\<not> cfg_disabled ?c"
    by (simp add: Config_fromEnv_def Let_def getBoolVariable_def getStringVariable_def Config0_def Config_def split: prod.splits)
  have p: "Config_parse empty_yaml () = Inr Config0" by (simp add: Config_parse_def)
  obtain smp out where s: "makeSampler 64 0 (cfg_sampler ?c) = (Inr (Some smp), out)"
    using ty by (auto simp: makeSampler_def Let_def)
  obtain transport rep out' where r: "makeReporter (pl_connect example_platform) 0 (cfg_reporter ?c) metrics0 =
      (Inr (transport, rep), out')"
    by (rule make_reporter_connected [where connect = "pl_connect example_platform"]) (simp add: example_platform_def)
  have "\<exists>transport t. Tracer_make_config 64 example_platform 0 ?c = Inr (JaegerTracer transport t)"
    using s r n d by (auto simp: Tracer_make_config_def Tracer_make_def split: prod.splits)
  then show ?thesis using p n
    by (auto simp: MakeTracer_def MakeTracer_body_def TracerFactory_def Let_def)
qed

theorem factory_outcome_witness:
  "\<exists>transport t. MakeTracer True empty_yaml (\<lambda>_. Loaded ()) 64 example_platform 0 named_environment (TracerFactory True) [] [] =
     Some (Inr (JaegerTracer transport t), []) \<and> t_serviceName t = ''svc''"
proof -
  have "makeTracerFactory True ''3'' True ''3'' = Inr (TracerFactory True)" by (simp add: makeTracerFactory_def)
  moreover obtain transport t where t: "MakeTracer True empty_yaml (\<lambda>_. Loaded ()) 64 example_platform 0 named_environment
      (TracerFactory True) [] [] = Some (Inr (JaegerTracer transport t), [])"
    using named_environment_tracer by blast
  moreover have "Config_parse empty_yaml () = Inr Config0" by (simp add: Config_parse_def)
  moreover have "''svc'' = (let n = getStringVariable named_environment ''JAEGER_SERVICE_NAME''
      in if n \<noteq> [] then n else cfg_serviceName Config0)" by (simp add: getStringVariable_def)
  ultimately have "t_serviceName t = ''svc''"
    using factory_outcome [where load = "\<lambda>_. Loaded ()" and node = "()" and configuration = "[]" and name = "''svc''"] by blast
  with t show ?thesis by blast
qed

end
