(* ===== verification/ThriftCalls.thy ===== *)
theory ThriftCalls
  imports ThriftSampling Loggers
begin

text \<open>
  Remote calls: the clients and processors the library generates for its services
  (\<^verbatim>\<open>thrift-gen/SamplingManager.cpp\<close>, \<^verbatim>\<open>thrift-gen/BaggageRestrictionManager.cpp\<close>,
  \<^verbatim>\<open>thrift-gen/Collector.cpp\<close>, \<^verbatim>\<open>thrift-gen/AggregationValidator.cpp\<close>, \<^verbatim>\<open>thrift-gen/Dependency.cpp\<close>) and
  their structures. The code of a method differs from that of another in its names, its argument
  and its result only; what they share comes first, with these as arguments. Processors have no
  event handler. \<^verbatim>\<open>TApplicationException\<close> is of the Thrift library; how it is written and read is the
  parameter \<open>A\<close>.
\<close>

section \<open>Arguments and results\<close>

text \<open>
  A structure of one field, numbered \<open>i\<close>, with its \<^verbatim>\<open>__isset\<close> bit; a required one is missed at the end.
\<close>

definition arg_field ::
  "'w protocol \<Rightarrow> int \<Rightarrow> ttype \<Rightarrow> ('a \<Rightarrow> ('a, 'w) rd) \<Rightarrow> ttype \<Rightarrow> int \<Rightarrow> ('a \<times> bool) \<times> int set \<Rightarrow>
   (('a \<times> bool) \<times> int set, 'w) rd" where
  "arg_field P i t r ft fid s =
     (if fid = i then on_type P ft t (r (fst (fst s))) (required i (\<lambda>v _. (v, True))) s
      else skip_field P ft s)"

definition arg_read :: "'w protocol \<Rightarrow> int \<Rightarrow> ttype \<Rightarrow> ('a \<Rightarrow> ('a, 'w) rd) \<Rightarrow> 'a \<Rightarrow> ('a \<times> bool, 'w) rd" where
  "arg_read P i t r a0 = read_struct P (arg_field P i t r) {} (a0, False)"

definition required_arg_read :: "'w protocol \<Rightarrow> int \<Rightarrow> ttype \<Rightarrow> ('a \<Rightarrow> ('a, 'w) rd) \<Rightarrow> 'a \<Rightarrow> ('a \<times> bool, 'w) rd" where
  "required_arg_read P i t r a0 = read_struct P (arg_field P i t r) {i} (a0, False)"

definition arg_write :: "string \<Rightarrow> string \<Rightarrow> ttype \<Rightarrow> call list \<Rightarrow> call list" where
  "arg_write struct name t value = write_struct struct (write_field name t 1 value)"

definition result_write :: "string \<Rightarrow> ttype \<Rightarrow> ('r \<Rightarrow> call list) \<Rightarrow> 'r option \<Rightarrow> call list" where
  "result_write struct t wr success = write_struct struct (write_opt ''success'' t 0 wr success)"

section \<open>Clients\<close>

datatype app_error = UNKNOWN | UNKNOWN_METHOD | MISSING_RESULT

type_synonym app_exception = "app_error \<times> string"

record 'w app_format =
  app_write :: "app_exception \<Rightarrow> call list"
  app_read :: "(app_exception, 'w) rd"

definition send_call :: "string \<Rightarrow> call list \<Rightarrow> call list" where
  "send_call name pargs = CMessageBegin name T_CALL 0 # pargs @ [CMessageEnd]"

definition send_oneway :: "string \<Rightarrow> call list \<Rightarrow> call list" where
  "send_oneway name pargs = CMessageBegin name T_ONEWAY 0 # pargs @ [CMessageEnd]"

text \<open>A message that is no answer, or one to another method, is skipped, and the result is then read
  from what follows.\<close>

definition skip_unless :: "'w protocol \<Rightarrow> bool \<Rightarrow> (unit, 'w) rd" where
  "skip_unless P ok =
     (if ok then rret () else rbind (rd_skip P T_STRUCT) (\<lambda>_. rd_MessageEnd P))"

definition recv_call ::
  "'w protocol \<Rightarrow> 'w app_format \<Rightarrow> string \<Rightarrow> ('r \<times> bool, 'w) rd \<Rightarrow> (app_exception + 'r, 'w) rd" where
  "recv_call P A name presult_read =
     rbind (rd_MessageBegin P) (\<lambda>(fname, mtype, rseqid).
     if mtype = T_EXCEPTION then
       rbind (app_read A) (\<lambda>x. rbind (rd_MessageEnd P) (\<lambda>_. rret (Inl x)))
     else
       rbind (skip_unless P (mtype = T_REPLY)) (\<lambda>_.
       rbind (skip_unless P (fname = name)) (\<lambda>_.
       rbind presult_read (\<lambda>(success, isset).
       rbind (rd_MessageEnd P) (\<lambda>_.
       rret (if isset then Inr success else Inl (MISSING_RESULT, name @ '' failed: unknown result'')))))))"

section \<open>Processors\<close>

text \<open>
  What is written back. The handler's \<^verbatim>\<open>std::exception\<close> is the answer, another exception leaves the
  processor (\<open>Inl\<close>).
\<close>

definition answer ::
  "'w app_format \<Rightarrow> string \<Rightarrow> ('r option \<Rightarrow> call list) \<Rightarrow> 32 word \<Rightarrow> exception + 'r \<Rightarrow> exception + call list" where
  "answer A name write_result seqid outcome =
     (case outcome of
        Inr r \<Rightarrow> Inr (CMessageBegin name T_REPLY seqid # write_result (Some r) @ [CMessageEnd])
      | Inl e \<Rightarrow>
          (case exception_what e of
             Some what \<Rightarrow> Inr (CMessageBegin name T_EXCEPTION seqid # app_write A (UNKNOWN, what) @ [CMessageEnd])
           | None \<Rightarrow> Inl e))"

definition process_call ::
  "'w protocol \<Rightarrow> 'w app_format \<Rightarrow> string \<Rightarrow> ('a \<times> bool, 'w) rd \<Rightarrow> ('r option \<Rightarrow> call list) \<Rightarrow>
   ('a \<Rightarrow> exception + 'r) \<Rightarrow> 32 word \<Rightarrow> (exception + call list, 'w) rd" where
  "process_call P A name args_read write_result handler seqid =
     rbind args_read (\<lambda>(args, isset).
     rbind (rd_MessageEnd P) (\<lambda>_.
     rret (answer A name write_result seqid (handler args))))"

text \<open>A one-way method has no answer; \<open>Inr\<close> is the argument given to the handler, which may have
  thrown.\<close>

definition process_oneway :: "'w protocol \<Rightarrow> ('a \<times> bool, 'w) rd \<Rightarrow> ('a, 'w) rd" where
  "process_oneway P args_read =
     rbind args_read (\<lambda>(args, isset). rbind (rd_MessageEnd P) (\<lambda>_. rret args))"

definition answer_call ::
  "'w protocol \<Rightarrow> 'w app_format \<Rightarrow> (string \<Rightarrow> (32 word \<Rightarrow> (exception + call list, 'w) rd) option) \<Rightarrow>
   string \<Rightarrow> 32 word \<Rightarrow> (exception + call list, 'w) rd" where
  "answer_call P A processMap fname seqid =
     rbind (dispatchCall P (\<lambda>name. map_option (\<lambda>process. process seqid) (processMap name)) fname) (\<lambda>r.
     rret (case r of
       Inl message \<Rightarrow>
         Inr (CMessageBegin fname T_EXCEPTION seqid # app_write A (UNKNOWN_METHOD, message) @ [CMessageEnd])
     | Inr out \<Rightarrow> out))"

text \<open>A message is read up to its name by the library's \<^verbatim>\<open>TDispatchProcessor\<close>, then dispatched.\<close>

definition serve_message :: "'w protocol \<Rightarrow> (string \<Rightarrow> 32 word \<Rightarrow> ('b, 'w) rd) \<Rightarrow> ('b, 'w) rd" where
  "serve_message P dispatch = rbind (rd_MessageBegin P) (\<lambda>(fname, mtype, seqid). dispatch fname seqid)"

section \<open>What a call promises\<close>

lemma serves_message: "serves P cs (f n t i) v \<Longrightarrow>
  serves P (CMessageBegin n t i # cs) (rbind (rd_MessageBegin P) (\<lambda>(n, t, i). f n t i)) v"
  by (auto simp: serves_def bind_eq_Some_conv)

lemma arg_field_at: "arg_field P i t r ft i s = on_type P ft t (r (fst (fst s))) (required i (\<lambda>v _. (v, True))) s"
  by (simp add: arg_field_def)

lemma arg_serves:
  assumes "t \<noteq> T_STOP" and "serves P value (r a0) a"
  shows "serves P (write_struct struct (write_field name t i value)) (arg_read P i t r a0) (a, True)"
    and "serves P (write_struct struct (write_field name t i value)) (required_arg_read P i t r a0) (a, True)"
proof -
  have "steps P (arg_field P i t r) (write_field name t i value) ((a0, False), {}) ((a, True), {i})"
    using steps_on_type [where step = "arg_field P i t r" and P = P and s = "((a0, False), {})" and r = "r a0"
        and put = "required i (\<lambda>v _. (v, True))" and v = a] assms
    by (simp add: arg_field_at put_defs)
  then show "serves P (write_struct struct (write_field name t i value)) (arg_read P i t r a0) (a, True)"
    and "serves P (write_struct struct (write_field name t i value)) (required_arg_read P i t r a0) (a, True)"
    by (auto simp: arg_read_def required_arg_read_def intro: serves_struct [where seen = "{i}"])
qed

lemma arg_write_serves:
  "t \<noteq> T_STOP \<Longrightarrow> serves P value (r a0) a \<Longrightarrow> serves P (arg_write struct name t value) (arg_read P 1 t r a0) (a, True)"
  "t \<noteq> T_STOP \<Longrightarrow> serves P value (r a0) a \<Longrightarrow> serves P (arg_write struct name t value) (required_arg_read P 1 t r a0) (a, True)"
  by (simp_all add: arg_write_def arg_serves)

lemma result_write_serves:
  "t \<noteq> T_STOP \<Longrightarrow> serves P (wr a) (r a0) a \<Longrightarrow> serves P (result_write struct t wr (Some a)) (arg_read P 0 t r a0) (a, True)"
  by (simp add: result_write_def write_opt_def arg_serves)

text \<open>
  The contract of a method: its argument and its result are read as they were written. Then what
  the client gets is what the handler did, through whatever carries the two messages.
\<close>

definition app_back :: "'w protocol \<Rightarrow> 'w app_format \<Rightarrow> bool" where
  "app_back P A \<longleftrightarrow> (\<forall>x. serves P (app_write A x) (app_read A) x)"

definition outcome_seen :: "exception + 'r \<Rightarrow> app_exception + 'r" where
  "outcome_seen outcome =
     (case outcome of Inr r \<Rightarrow> Inr r | Inl e \<Rightarrow> Inl (UNKNOWN, case exception_what e of Some w \<Rightarrow> w | None \<Rightarrow> []))"

locale remote_method =
  fixes P :: "'w protocol" and name :: string
    and pargs :: "'a \<Rightarrow> call list" and args_read :: "('a \<times> bool, 'w) rd"
    and write_result :: "'r option \<Rightarrow> call list" and presult_read :: "('r \<times> bool, 'w) rd"
    and arg_ok :: "'a \<Rightarrow> bool" and result_ok :: "'r \<Rightarrow> bool"
  assumes args_back: "arg_ok a \<Longrightarrow> serves P (pargs a) args_read (a, True)"
    and result_back: "result_ok r \<Longrightarrow> serves P (write_result (Some r)) presult_read (r, True)"
begin

lemma processed:
  "arg_ok a \<Longrightarrow> serves P (pargs a @ [CMessageEnd]) (process_call P A name args_read write_result handler seqid)
     (answer A name write_result seqid (handler a))"
  unfolding process_call_def by (rule serves_bind [OF args_back]) (simp_all add: serves_end)

lemma received:
  "result_ok r \<Longrightarrow> serves P (CMessageBegin name T_REPLY seqid # write_result (Some r) @ [CMessageEnd])
     (recv_call P A name presult_read) (Inr r)"
  unfolding recv_call_def
  by (rule serves_message)
    (auto simp: skip_unless_def serves_end rbind_rret [abs_def] intro!: serves_bind [OF result_back])

lemma failed:
  "app_back P A \<Longrightarrow> serves P (CMessageBegin fname T_EXCEPTION seqid # app_write A x @ [CMessageEnd])
     (recv_call P A name presult_read) (Inl x)"
  unfolding recv_call_def
  by (rule serves_message) (simp, rule serves_bind [where v = x], simp_all add: app_back_def serves_end del: split_paired_All)

lemma call_returns:
  assumes "arg_ok a" and "app_back P A" and "\<And>r. handler a = Inr r \<Longrightarrow> result_ok r"
    and "\<And>e. handler a = Inl e \<Longrightarrow> exception_what e \<noteq> None"
    and "\<And>seqid. processMap name seqid = process_call P A name args_read write_result handler seqid"
  shows "\<exists>out. serves P (send_call name (pargs a)) (serve_message P processMap) (Inr out) \<and>
    serves P out (recv_call P A name presult_read) (outcome_seen (handler a))"
proof -
  obtain out where ans: "answer A name write_result 0 (handler a) = Inr out"
    and seen: "serves P out (recv_call P A name presult_read) (outcome_seen (handler a))"
  proof (cases "handler a")
    case (Inl e)
    then show ?thesis using assms(2,4) that by (auto simp: answer_def outcome_seen_def failed)
  next
    case (Inr r)
    then show ?thesis using assms(3) that by (auto simp: answer_def outcome_seen_def received)
  qed
  moreover have "serves P (send_call name (pargs a)) (serve_message P processMap) (Inr out)"
    unfolding send_call_def serve_message_def
    by (rule serves_message) (use processed [OF assms(1), of A handler 0] ans assms(5) in simp)
  ultimately show ?thesis by blast
qed

end

section \<open>The sampling manager\<close>

definition getSamplingStrategy_args_read :: "'w protocol \<Rightarrow> (string \<times> bool, 'w) rd" where
  "getSamplingStrategy_args_read P = arg_read P 1 T_STRING (\<lambda>_. rd_String P) []"

definition getSamplingStrategy_args_write :: "string \<Rightarrow> call list" where
  "getSamplingStrategy_args_write serviceName =
     arg_write ''SamplingManager_getSamplingStrategy_args'' ''serviceName'' T_STRING [CString serviceName]"

definition getSamplingStrategy_pargs_write :: "string \<Rightarrow> call list" where
  "getSamplingStrategy_pargs_write serviceName =
     arg_write ''SamplingManager_getSamplingStrategy_pargs'' ''serviceName'' T_STRING [CString serviceName]"

definition getSamplingStrategy_result_read :: "'w protocol \<Rightarrow> (strategy_response \<times> bool, 'w) rd" where
  "getSamplingStrategy_result_read P = arg_read P 0 T_STRUCT (StrategyResponse_read P) strategy_response0"

definition getSamplingStrategy_result_write :: "strategy_response option \<Rightarrow> call list" where
  "getSamplingStrategy_result_write =
     result_write ''SamplingManager_getSamplingStrategy_result'' T_STRUCT StrategyResponse_write"

definition getSamplingStrategy_presult_read ::
  "'w protocol \<Rightarrow> strategy_response \<Rightarrow> (strategy_response \<times> bool, 'w) rd" where
  "getSamplingStrategy_presult_read P = arg_read P 0 T_STRUCT (StrategyResponse_read P)"

definition send_getSamplingStrategy :: "string \<Rightarrow> call list" where
  "send_getSamplingStrategy serviceName =
     send_call ''getSamplingStrategy'' (getSamplingStrategy_pargs_write serviceName)"

definition recv_getSamplingStrategy ::
  "'w protocol \<Rightarrow> 'w app_format \<Rightarrow> strategy_response \<Rightarrow> (app_exception + strategy_response, 'w) rd" where
  "recv_getSamplingStrategy P A return =
     recv_call P A ''getSamplingStrategy'' (getSamplingStrategy_presult_read P return)"

definition process_getSamplingStrategy ::
  "'w protocol \<Rightarrow> 'w app_format \<Rightarrow> (string \<Rightarrow> exception + strategy_response) \<Rightarrow> 32 word \<Rightarrow>
   (exception + call list, 'w) rd" where
  "process_getSamplingStrategy P A =
     process_call P A ''getSamplingStrategy'' (getSamplingStrategy_args_read P) getSamplingStrategy_result_write"

definition SamplingManager_dispatchCall ::
  "'w protocol \<Rightarrow> 'w app_format \<Rightarrow> (string \<Rightarrow> exception + strategy_response) \<Rightarrow> string \<Rightarrow> 32 word \<Rightarrow>
   (exception + call list, 'w) rd" where
  "SamplingManager_dispatchCall P A iface =
     answer_call P A [''getSamplingStrategy'' \<mapsto> process_getSamplingStrategy P A iface]"

section \<open>The baggage restriction manager\<close>

text \<open>The list of a result is cleared before it is read.\<close>

definition getBaggageRestrictions_args_read :: "'w protocol \<Rightarrow> (string \<times> bool, 'w) rd" where
  "getBaggageRestrictions_args_read P = arg_read P 1 T_STRING (\<lambda>_. rd_String P) []"

definition getBaggageRestrictions_args_write :: "string \<Rightarrow> call list" where
  "getBaggageRestrictions_args_write serviceName =
     arg_write ''BaggageRestrictionManager_getBaggageRestrictions_args'' ''serviceName'' T_STRING ([CString serviceName])"

definition getBaggageRestrictions_pargs_write :: "string \<Rightarrow> call list" where
  "getBaggageRestrictions_pargs_write serviceName =
     arg_write ''BaggageRestrictionManager_getBaggageRestrictions_pargs'' ''serviceName'' T_STRING ([CString serviceName])"

definition getBaggageRestrictions_result_read :: "'w protocol \<Rightarrow> ((string \<times> int) list \<times> bool, 'w) rd" where
  "getBaggageRestrictions_result_read P = arg_read P 0 T_LIST (\<lambda>_. read_list P (BaggageRestriction_read P ([], 0))) []"

definition getBaggageRestrictions_result_write :: "(string \<times> int) list option \<Rightarrow> call list" where
  "getBaggageRestrictions_result_write = result_write ''BaggageRestrictionManager_getBaggageRestrictions_result'' T_LIST (write_list BaggageRestriction_write)"

definition getBaggageRestrictions_presult_read :: "'w protocol \<Rightarrow> (string \<times> int) list \<Rightarrow> ((string \<times> int) list \<times> bool, 'w) rd" where
  "getBaggageRestrictions_presult_read P = arg_read P 0 T_LIST (\<lambda>_. read_list P (BaggageRestriction_read P ([], 0)))"

definition send_getBaggageRestrictions :: "string \<Rightarrow> call list" where
  "send_getBaggageRestrictions serviceName = send_call ''getBaggageRestrictions'' (getBaggageRestrictions_pargs_write serviceName)"

definition recv_getBaggageRestrictions :: "'w protocol \<Rightarrow> 'w app_format \<Rightarrow> (string \<times> int) list \<Rightarrow> (app_exception + (string \<times> int) list, 'w) rd" where
  "recv_getBaggageRestrictions P A return = recv_call P A ''getBaggageRestrictions'' (getBaggageRestrictions_presult_read P return)"

definition process_getBaggageRestrictions ::
  "'w protocol \<Rightarrow> 'w app_format \<Rightarrow> (string \<Rightarrow> exception + (string \<times> int) list) \<Rightarrow> 32 word \<Rightarrow> (exception + call list, 'w) rd" where
  "process_getBaggageRestrictions P A = process_call P A ''getBaggageRestrictions'' (getBaggageRestrictions_args_read P) getBaggageRestrictions_result_write"

definition BaggageRestrictionManager_dispatchCall ::
  "'w protocol \<Rightarrow> 'w app_format \<Rightarrow> (string \<Rightarrow> exception + (string \<times> int) list) \<Rightarrow> string \<Rightarrow> 32 word \<Rightarrow>
   (exception + call list, 'w) rd" where
  "BaggageRestrictionManager_dispatchCall P A iface = answer_call P A [''getBaggageRestrictions'' \<mapsto> process_getBaggageRestrictions P A iface]"

section \<open>The collector\<close>

definition batch_submit_response0 :: batch_submit_response where
  "batch_submit_response0 = \<lparr>response_ok = False\<rparr>"

definition submitBatches_args_read :: "'w protocol \<Rightarrow> (thrift_batch list \<times> bool, 'w) rd" where
  "submitBatches_args_read P = arg_read P 1 T_LIST (\<lambda>_. read_list P (Batch_read P thrift_batch0)) []"

definition submitBatches_args_write :: "thrift_batch list \<Rightarrow> call list" where
  "submitBatches_args_write batches =
     arg_write ''Collector_submitBatches_args'' ''batches'' T_LIST (write_list Batch_write batches)"

definition submitBatches_pargs_write :: "thrift_batch list \<Rightarrow> call list" where
  "submitBatches_pargs_write batches =
     arg_write ''Collector_submitBatches_pargs'' ''batches'' T_LIST (write_list Batch_write batches)"

definition submitBatches_result_read :: "'w protocol \<Rightarrow> (batch_submit_response list \<times> bool, 'w) rd" where
  "submitBatches_result_read P = arg_read P 0 T_LIST (\<lambda>_. read_list P (BatchSubmitResponse_read P batch_submit_response0)) []"

definition submitBatches_result_write :: "batch_submit_response list option \<Rightarrow> call list" where
  "submitBatches_result_write = result_write ''Collector_submitBatches_result'' T_LIST (write_list BatchSubmitResponse_write)"

definition submitBatches_presult_read :: "'w protocol \<Rightarrow> batch_submit_response list \<Rightarrow> (batch_submit_response list \<times> bool, 'w) rd" where
  "submitBatches_presult_read P = arg_read P 0 T_LIST (\<lambda>_. read_list P (BatchSubmitResponse_read P batch_submit_response0))"

definition send_submitBatches :: "thrift_batch list \<Rightarrow> call list" where
  "send_submitBatches batches = send_call ''submitBatches'' (submitBatches_pargs_write batches)"

definition recv_submitBatches :: "'w protocol \<Rightarrow> 'w app_format \<Rightarrow> batch_submit_response list \<Rightarrow> (app_exception + batch_submit_response list, 'w) rd" where
  "recv_submitBatches P A return = recv_call P A ''submitBatches'' (submitBatches_presult_read P return)"

definition process_submitBatches ::
  "'w protocol \<Rightarrow> 'w app_format \<Rightarrow> (thrift_batch list \<Rightarrow> exception + batch_submit_response list) \<Rightarrow> 32 word \<Rightarrow> (exception + call list, 'w) rd" where
  "process_submitBatches P A = process_call P A ''submitBatches'' (submitBatches_args_read P) submitBatches_result_write"

definition Collector_dispatchCall ::
  "'w protocol \<Rightarrow> 'w app_format \<Rightarrow> (thrift_batch list \<Rightarrow> exception + batch_submit_response list) \<Rightarrow> string \<Rightarrow> 32 word \<Rightarrow>
   (exception + call list, 'w) rd" where
  "Collector_dispatchCall P A iface = answer_call P A [''submitBatches'' \<mapsto> process_submitBatches P A iface]"

section \<open>The aggregation validator\<close>

record validate_trace_response =
  vt_ok :: bool
  vt_traceCount :: i64

definition validate_trace_response0 :: validate_trace_response where
  "validate_trace_response0 = \<lparr>vt_ok = False, vt_traceCount = 0\<rparr>"

definition ValidateTraceResponse_field ::
  "'w protocol \<Rightarrow> ttype \<Rightarrow> int \<Rightarrow> validate_trace_response \<times> int set \<Rightarrow> (validate_trace_response \<times> int set, 'w) rd" where
  "ValidateTraceResponse_field P ft fid s =
     (if fid = 1 then on_type P ft T_BOOL (rd_Bool P) (required 1 (\<lambda>v. vt_ok_update (\<lambda>_. v))) s
      else if fid = 2 then on_type P ft T_I64 (rd_I64 P) (required 2 (\<lambda>v. vt_traceCount_update (\<lambda>_. v))) s
      else skip_field P ft s)"

definition ValidateTraceResponse_read ::
  "'w protocol \<Rightarrow> validate_trace_response \<Rightarrow> (validate_trace_response, 'w) rd" where
  "ValidateTraceResponse_read P = read_struct P (ValidateTraceResponse_field P) {1, 2}"

definition ValidateTraceResponse_write :: "validate_trace_response \<Rightarrow> call list" where
  "ValidateTraceResponse_write r = write_struct ''ValidateTraceResponse''
     (write_field ''ok'' T_BOOL 1 [CBool (vt_ok r)] @
      write_field ''traceCount'' T_I64 2 [CI64 (vt_traceCount r)])"

definition validateTrace_args_read :: "'w protocol \<Rightarrow> (string \<times> bool, 'w) rd" where
  "validateTrace_args_read P = required_arg_read P 1 T_STRING (\<lambda>_. rd_String P) []"

definition validateTrace_args_write :: "string \<Rightarrow> call list" where
  "validateTrace_args_write traceId =
     arg_write ''AggregationValidator_validateTrace_args'' ''traceId'' T_STRING ([CString traceId])"

definition validateTrace_pargs_write :: "string \<Rightarrow> call list" where
  "validateTrace_pargs_write traceId =
     arg_write ''AggregationValidator_validateTrace_pargs'' ''traceId'' T_STRING ([CString traceId])"

definition validateTrace_result_read :: "'w protocol \<Rightarrow> (validate_trace_response \<times> bool, 'w) rd" where
  "validateTrace_result_read P = arg_read P 0 T_STRUCT (ValidateTraceResponse_read P) validate_trace_response0"

definition validateTrace_result_write :: "validate_trace_response option \<Rightarrow> call list" where
  "validateTrace_result_write = result_write ''AggregationValidator_validateTrace_result'' T_STRUCT (ValidateTraceResponse_write)"

definition validateTrace_presult_read :: "'w protocol \<Rightarrow> validate_trace_response \<Rightarrow> (validate_trace_response \<times> bool, 'w) rd" where
  "validateTrace_presult_read P = arg_read P 0 T_STRUCT (ValidateTraceResponse_read P)"

definition send_validateTrace :: "string \<Rightarrow> call list" where
  "send_validateTrace traceId = send_call ''validateTrace'' (validateTrace_pargs_write traceId)"

definition recv_validateTrace :: "'w protocol \<Rightarrow> 'w app_format \<Rightarrow> validate_trace_response \<Rightarrow> (app_exception + validate_trace_response, 'w) rd" where
  "recv_validateTrace P A return = recv_call P A ''validateTrace'' (validateTrace_presult_read P return)"

definition process_validateTrace ::
  "'w protocol \<Rightarrow> 'w app_format \<Rightarrow> (string \<Rightarrow> exception + validate_trace_response) \<Rightarrow> 32 word \<Rightarrow> (exception + call list, 'w) rd" where
  "process_validateTrace P A = process_call P A ''validateTrace'' (validateTrace_args_read P) validateTrace_result_write"

definition AggregationValidator_dispatchCall ::
  "'w protocol \<Rightarrow> 'w app_format \<Rightarrow> (string \<Rightarrow> exception + validate_trace_response) \<Rightarrow> string \<Rightarrow> 32 word \<Rightarrow>
   (exception + call list, 'w) rd" where
  "AggregationValidator_dispatchCall P A iface = answer_call P A [''validateTrace'' \<mapsto> process_validateTrace P A iface]"

section \<open>Dependencies\<close>

record dependency_link =
  dl_parent :: string
  dl_child :: string
  dl_callCount :: i64

definition dependency_link0 :: dependency_link where
  "dependency_link0 = \<lparr>dl_parent = [], dl_child = [], dl_callCount = 0\<rparr>"

definition DependencyLink_field ::
  "'w protocol \<Rightarrow> ttype \<Rightarrow> int \<Rightarrow> dependency_link \<times> int set \<Rightarrow> (dependency_link \<times> int set, 'w) rd" where
  "DependencyLink_field P ft fid s =
     (if fid = 1 then on_type P ft T_STRING (rd_String P) (required 1 (\<lambda>v. dl_parent_update (\<lambda>_. v))) s
      else if fid = 2 then on_type P ft T_STRING (rd_String P) (required 2 (\<lambda>v. dl_child_update (\<lambda>_. v))) s
      else if fid = 4 then on_type P ft T_I64 (rd_I64 P) (required 4 (\<lambda>v. dl_callCount_update (\<lambda>_. v))) s
      else skip_field P ft s)"

definition DependencyLink_read :: "'w protocol \<Rightarrow> dependency_link \<Rightarrow> (dependency_link, 'w) rd" where
  "DependencyLink_read P = read_struct P (DependencyLink_field P) {1, 2, 4}"

definition DependencyLink_write :: "dependency_link \<Rightarrow> call list" where
  "DependencyLink_write l = write_struct ''DependencyLink''
     (write_field ''parent'' T_STRING 1 [CString (dl_parent l)] @
      write_field ''child'' T_STRING 2 [CString (dl_child l)] @
      write_field ''callCount'' T_I64 4 [CI64 (dl_callCount l)])"

text \<open>The structure \<^verbatim>\<open>Dependencies\<close> is its list of links.\<close>

definition Dependencies_field ::
  "'w protocol \<Rightarrow> ttype \<Rightarrow> int \<Rightarrow> dependency_link list \<times> int set \<Rightarrow> (dependency_link list \<times> int set, 'w) rd" where
  "Dependencies_field P ft fid s =
     (if fid = 1 then on_type P ft T_LIST (read_list P (DependencyLink_read P dependency_link0)) (required 1 (\<lambda>v _. v)) s
      else skip_field P ft s)"

definition Dependencies_read :: "'w protocol \<Rightarrow> dependency_link list \<Rightarrow> (dependency_link list, 'w) rd" where
  "Dependencies_read P = read_struct P (Dependencies_field P) {1}"

definition Dependencies_write :: "dependency_link list \<Rightarrow> call list" where
  "Dependencies_write ls = write_struct ''Dependencies''
     (write_field ''links'' T_LIST 1 (write_list DependencyLink_write ls))"

definition getDependenciesForTrace_args_read :: "'w protocol \<Rightarrow> (string \<times> bool, 'w) rd" where
  "getDependenciesForTrace_args_read P = required_arg_read P 1 T_STRING (\<lambda>_. rd_String P) []"

definition getDependenciesForTrace_args_write :: "string \<Rightarrow> call list" where
  "getDependenciesForTrace_args_write traceId =
     arg_write ''Dependency_getDependenciesForTrace_args'' ''traceId'' T_STRING ([CString traceId])"

definition getDependenciesForTrace_pargs_write :: "string \<Rightarrow> call list" where
  "getDependenciesForTrace_pargs_write traceId =
     arg_write ''Dependency_getDependenciesForTrace_pargs'' ''traceId'' T_STRING ([CString traceId])"

definition getDependenciesForTrace_result_read :: "'w protocol \<Rightarrow> (dependency_link list \<times> bool, 'w) rd" where
  "getDependenciesForTrace_result_read P = arg_read P 0 T_STRUCT (Dependencies_read P) []"

definition getDependenciesForTrace_result_write :: "dependency_link list option \<Rightarrow> call list" where
  "getDependenciesForTrace_result_write = result_write ''Dependency_getDependenciesForTrace_result'' T_STRUCT (Dependencies_write)"

definition getDependenciesForTrace_presult_read :: "'w protocol \<Rightarrow> dependency_link list \<Rightarrow> (dependency_link list \<times> bool, 'w) rd" where
  "getDependenciesForTrace_presult_read P = arg_read P 0 T_STRUCT (Dependencies_read P)"

definition send_getDependenciesForTrace :: "string \<Rightarrow> call list" where
  "send_getDependenciesForTrace traceId = send_call ''getDependenciesForTrace'' (getDependenciesForTrace_pargs_write traceId)"

definition recv_getDependenciesForTrace :: "'w protocol \<Rightarrow> 'w app_format \<Rightarrow> dependency_link list \<Rightarrow> (app_exception + dependency_link list, 'w) rd" where
  "recv_getDependenciesForTrace P A return = recv_call P A ''getDependenciesForTrace'' (getDependenciesForTrace_presult_read P return)"

definition process_getDependenciesForTrace ::
  "'w protocol \<Rightarrow> 'w app_format \<Rightarrow> (string \<Rightarrow> exception + dependency_link list) \<Rightarrow> 32 word \<Rightarrow> (exception + call list, 'w) rd" where
  "process_getDependenciesForTrace P A = process_call P A ''getDependenciesForTrace'' (getDependenciesForTrace_args_read P) getDependenciesForTrace_result_write"

text \<open>Saving has no answer. The processor's map has both methods; \<open>save\<close> is what is done with the
  argument, whose exceptions end in the processor.\<close>

definition saveDependencies_args_read :: "'w protocol \<Rightarrow> (dependency_link list \<times> bool, 'w) rd" where
  "saveDependencies_args_read P = arg_read P 1 T_STRUCT (Dependencies_read P) []"

definition saveDependencies_args_write :: "dependency_link list \<Rightarrow> call list" where
  "saveDependencies_args_write dependencies =
     arg_write ''Dependency_saveDependencies_args'' ''dependencies'' T_STRUCT (Dependencies_write dependencies)"

definition saveDependencies_pargs_write :: "dependency_link list \<Rightarrow> call list" where
  "saveDependencies_pargs_write dependencies =
     arg_write ''Dependency_saveDependencies_pargs'' ''dependencies'' T_STRUCT (Dependencies_write dependencies)"

definition send_saveDependencies :: "dependency_link list \<Rightarrow> call list" where
  "send_saveDependencies dependencies = send_oneway ''saveDependencies'' (saveDependencies_pargs_write dependencies)"

definition process_saveDependencies :: "'w protocol \<Rightarrow> (dependency_link list, 'w) rd" where
  "process_saveDependencies P = process_oneway P (saveDependencies_args_read P)"

datatype dependency_call = Answered "exception + call list" | Saved "dependency_link list"

definition Dependency_dispatchCall ::
  "'w protocol \<Rightarrow> 'w app_format \<Rightarrow> (string \<Rightarrow> exception + dependency_link list) \<Rightarrow> string \<Rightarrow> 32 word \<Rightarrow>
   (dependency_call, 'w) rd" where
  "Dependency_dispatchCall P A iface fname seqid =
     rbind (dispatchCall P
       [''getDependenciesForTrace'' \<mapsto> rbind (process_getDependenciesForTrace P A iface seqid) (\<lambda>r. rret (Answered r)),
        ''saveDependencies'' \<mapsto> rbind (process_saveDependencies P) (\<lambda>ds. rret (Saved ds))] fname) (\<lambda>r.
     rret (case r of
       Inl message \<Rightarrow>
         Answered (Inr (CMessageBegin fname T_EXCEPTION seqid # app_write A (UNKNOWN_METHOD, message) @ [CMessageEnd]))
     | Inr x \<Rightarrow> x))"

section \<open>The methods keep the contract\<close>

lemmas Answer_fields_at =
  BatchSubmitResponse_field_def [where fid = 1, simplified]
  ValidateTraceResponse_field_def [where fid = 1, simplified] ValidateTraceResponse_field_def [where fid = 2, simplified]
  DependencyLink_field_def [where fid = 1, simplified] DependencyLink_field_def [where fid = 2, simplified]
  DependencyLink_field_def [where fid = 4, simplified] Dependencies_field_def [where fid = 1, simplified]

lemma BatchSubmitResponse_serves: "serves P (BatchSubmitResponse_write r) (BatchSubmitResponse_read P old) r"
  unfolding BatchSubmitResponse_write_def BatchSubmitResponse_read_def
  by (rule serves_struct [where seen = "{1}"], simp, rule steps_eq,
      rule steps_on_type, simp, rule Answer_fields_at, rule wire_rules)
    (cases r; simp add: put_defs)

lemma ValidateTraceResponse_serves: "serves P (ValidateTraceResponse_write r) (ValidateTraceResponse_read P old) r"
  unfolding ValidateTraceResponse_write_def ValidateTraceResponse_read_def
  by (rule serves_struct [where seen = "{1, 2}"], simp, rule steps_eq,
      (rule steps_append | rule steps_on_type, simp, rule Answer_fields_at, rule wire_rules)+)
    (cases r; auto simp: put_defs)

lemma DependencyLink_serves: "serves P (DependencyLink_write l) (DependencyLink_read P old) l"
  unfolding DependencyLink_write_def DependencyLink_read_def
  by (rule serves_struct [where seen = "{1, 2, 4}"], simp, rule steps_eq,
      (rule steps_append | rule steps_on_type, simp, rule Answer_fields_at, rule wire_rules)+)
    (cases l; auto simp: put_defs)

lemma Dependencies_serves:
  assumes "fits ls" shows "serves P (Dependencies_write ls) (Dependencies_read P old) ls"
proof -
  have ls: "serves P (write_list DependencyLink_write ls) (read_list P (DependencyLink_read P dependency_link0)) ls"
    using assms by (intro serves_fitting DependencyLink_serves)
  show ?thesis
    unfolding Dependencies_write_def Dependencies_read_def
    by (rule serves_struct [where seen = "{1}"], simp, rule steps_eq,
        rule steps_on_type, simp, rule Answer_fields_at, rule ls)
      (simp add: put_defs)
qed

definition restrictions_fit :: "(string \<times> int) list \<Rightarrow> bool" where
  "restrictions_fit rs \<longleftrightarrow> fits rs \<and> (\<forall>r \<in> set rs. INT_MIN \<le> snd r \<and> snd r \<le> INT_MAX)"

definition batches_fit :: "thrift_batch list \<Rightarrow> bool" where
  "batches_fit bs \<longleftrightarrow> fits bs \<and> list_all Batch_fits bs"

lemmas getSamplingStrategy_defs = getSamplingStrategy_pargs_write_def getSamplingStrategy_args_read_def
  getSamplingStrategy_result_write_def getSamplingStrategy_presult_read_def

lemmas getBaggageRestrictions_defs = getBaggageRestrictions_pargs_write_def getBaggageRestrictions_args_read_def
  getBaggageRestrictions_result_write_def getBaggageRestrictions_presult_read_def

lemmas submitBatches_defs = submitBatches_pargs_write_def submitBatches_args_read_def
  submitBatches_result_write_def submitBatches_presult_read_def

lemmas validateTrace_defs = validateTrace_pargs_write_def validateTrace_args_read_def
  validateTrace_result_write_def validateTrace_presult_read_def

lemmas getDependenciesForTrace_defs = getDependenciesForTrace_pargs_write_def getDependenciesForTrace_args_read_def
  getDependenciesForTrace_result_write_def getDependenciesForTrace_presult_read_def

interpretation getSamplingStrategy: remote_method P "''getSamplingStrategy''" getSamplingStrategy_pargs_write
  "getSamplingStrategy_args_read P" getSamplingStrategy_result_write
  "getSamplingStrategy_presult_read P strategy_response0" "\<lambda>_. True" response_fits for P
  by unfold_locales
    (simp_all add: getSamplingStrategy_defs arg_write_serves result_write_serves StrategyResponse_serves)

interpretation getBaggageRestrictions: remote_method P "''getBaggageRestrictions''" getBaggageRestrictions_pargs_write
  "getBaggageRestrictions_args_read P" getBaggageRestrictions_result_write
  "getBaggageRestrictions_presult_read P old" "\<lambda>_. True" restrictions_fit for P old
  by unfold_locales
    (simp_all add: getBaggageRestrictions_defs arg_write_serves result_write_serves restrictions_fit_def
      serves_fitting BaggageRestriction_serves)

interpretation submitBatches: remote_method P "''submitBatches''" submitBatches_pargs_write
  "submitBatches_args_read P" submitBatches_result_write "submitBatches_presult_read P old" batches_fit fits for P old
  by unfold_locales
    (simp_all add: submitBatches_defs arg_write_serves result_write_serves batches_fit_def list_all_iff
      serves_fitting Batch_serves BatchSubmitResponse_serves)

interpretation validateTrace: remote_method P "''validateTrace''" validateTrace_pargs_write
  "validateTrace_args_read P" validateTrace_result_write "validateTrace_presult_read P old" "\<lambda>_. True" "\<lambda>_. True" for P old
  by unfold_locales
    (simp_all add: validateTrace_defs arg_write_serves result_write_serves ValidateTraceResponse_serves)

interpretation getDependenciesForTrace: remote_method P "''getDependenciesForTrace''" getDependenciesForTrace_pargs_write
  "getDependenciesForTrace_args_read P" getDependenciesForTrace_result_write
  "getDependenciesForTrace_presult_read P old" "\<lambda>_. True" fits for P old
  by unfold_locales
    (simp_all add: getDependenciesForTrace_defs arg_write_serves result_write_serves Dependencies_serves)

lemma answer_call_known:
  "processMap name = Some process \<Longrightarrow> answer_call P A processMap name seqid = process seqid"
  by (rule ext) (auto simp: answer_call_def dispatchCall_def rbind_def rret_def split: bind_split sum.splits)

section \<open>Properties\<close>

text \<open>C23. A remote call is the call: over any protocol that gives back what was written, the answer that
  the sampling manager's processor gives to a client's request is received by the client as exactly
  the strategy its handler returned, or as the text of the exception it threw, and each side reads
  its message to the end.\<close>

theorem sampling_call_answered:
  assumes "app_back P A" and "carry P (send_getSamplingStrategy service) w = Some u"
    and "\<And>r. iface service = Inr r \<Longrightarrow> response_fits r"
    and "\<And>e. iface service = Inl e \<Longrightarrow> exception_what e \<noteq> None"
  shows "\<exists>out. serve_message P (SamplingManager_dispatchCall P A iface) w = Some (Inr (Inr out, u)) \<and>
    (\<forall>w' u'. carry P out w' = Some u' \<longrightarrow>
      recv_getSamplingStrategy P A strategy_response0 w' = Some (Inr (outcome_seen (iface service), u')))"
proof -
  have "SamplingManager_dispatchCall P A iface ''getSamplingStrategy'' seqid =
      process_call P A ''getSamplingStrategy'' (getSamplingStrategy_args_read P) getSamplingStrategy_result_write iface seqid"
    for seqid by (simp add: SamplingManager_dispatchCall_def answer_call_known process_getSamplingStrategy_def)
  from getSamplingStrategy.call_returns [where handler = iface and a = service and P = P and
        processMap = "SamplingManager_dispatchCall P A iface", OF TrueI assms(1,3,4) this] assms(2) show ?thesis
    by (auto simp: send_getSamplingStrategy_def recv_getSamplingStrategy_def serves_def)
qed

text \<open>Batches submitted to a collector reach its handler as they are, and its responses the client.\<close>

lemma batches_submitted:
  assumes "app_back P A" and "carry P (send_submitBatches batches) w = Some u" and "batches_fit batches"
    and "\<And>rs. iface batches = Inr rs \<Longrightarrow> fits rs"
    and "\<And>e. iface batches = Inl e \<Longrightarrow> exception_what e \<noteq> None"
  shows "\<exists>out. serve_message P (Collector_dispatchCall P A iface) w = Some (Inr (Inr out, u)) \<and>
    (\<forall>w' u'. carry P out w' = Some u' \<longrightarrow>
      recv_submitBatches P A [] w' = Some (Inr (outcome_seen (iface batches), u')))"
proof -
  have "Collector_dispatchCall P A iface ''submitBatches'' seqid =
      process_call P A ''submitBatches'' (submitBatches_args_read P) submitBatches_result_write iface seqid"
    for seqid by (simp add: Collector_dispatchCall_def answer_call_known process_submitBatches_def)
  from submitBatches.call_returns [where handler = iface and a = batches and P = P and old = "[]" and
        processMap = "Collector_dispatchCall P A iface", OF assms(3,1,4,5) this] assms(2) show ?thesis
    by (auto simp: send_submitBatches_def recv_submitBatches_def serves_def)
qed

text \<open>A method the processor does not have is answered as such, whatever its argument was.\<close>

lemma unknown_method_answered:
  assumes "app_back P A" and "processMap name = None" and "serves P pargs (rd_skip P T_STRUCT) ()"
  shows "\<exists>out. serves P (send_call name pargs) (serve_message P (answer_call P A processMap)) (Inr out) \<and>
    serves P out (recv_call P A name' presult_read)
      (Inl (UNKNOWN_METHOD, ''Invalid method name: '' @ [CHR 0x27] @ name @ [CHR 0x27]))"
proof -
  let ?m = "''Invalid method name: '' @ [CHR 0x27] @ name @ [CHR 0x27]"
  let ?out = "CMessageBegin name T_EXCEPTION 0 # app_write A (UNKNOWN_METHOD, ?m) @ [CMessageEnd]"
  have "serves P (pargs @ [CMessageEnd]) (dispatchCall P (\<lambda>n. map_option (\<lambda>process. process 0) (processMap n)) name) (Inl ?m)"
    using assms(2) serves_bind [OF assms(3) serves_end(3)] by (simp add: dispatchCall_def)
  then have "serves P (pargs @ [CMessageEnd]) (answer_call P A processMap name 0) (Inr ?out)"
    using serves_map [where f = "\<lambda>r. case r of
        Inl message \<Rightarrow> Inr (CMessageBegin name T_EXCEPTION 0 # app_write A (UNKNOWN_METHOD, message) @ [CMessageEnd])
      | Inr out \<Rightarrow> out"] by (fastforce simp: answer_call_def)
  then have "serves P (send_call name pargs) (serve_message P (answer_call P A processMap)) (Inr ?out)"
    unfolding send_call_def serve_message_def by (rule serves_message)
  moreover have "serves P ?out (recv_call P A name' presult_read) (Inl (UNKNOWN_METHOD, ?m))"
    unfolding recv_call_def
    by (rule serves_message)
      (simp, rule serves_bind [where v = "(UNKNOWN_METHOD, ?m)"], insert assms(1), simp_all add: app_back_def serves_end)
  ultimately show ?thesis by blast
qed

section \<open>Examples\<close>

definition app_code :: "app_error \<Rightarrow> 32 word" where
  "app_code e = (case e of UNKNOWN \<Rightarrow> 0 | UNKNOWN_METHOD \<Rightarrow> 1 | MISSING_RESULT \<Rightarrow> 5)"

definition app_of :: "32 word \<Rightarrow> app_error option" where
  "app_of n = (if n = 0 then Some UNKNOWN else if n = 1 then Some UNKNOWN_METHOD else if n = 5 then Some MISSING_RESULT else None)"

definition token_app :: "call list app_format" where
  "token_app = \<lparr>app_write = (\<lambda>(e, s). [CI32 (app_code e)] @ [CString s]),
     app_read = rbind (read_enum tokens app_of) (\<lambda>e. rbind (rd_String tokens) (\<lambda>s. rret (e, s)))\<rparr>"

lemma app_of_code: "app_of (app_code e) = Some e"
  by (cases e) (simp_all add: app_of_def app_code_def)

lemma token_app_back: "app_back tokens token_app"
  unfolding app_back_def
proof
  fix x :: app_exception
  obtain e s where x: "x = (e, s)" by fastforce
  have "serves tokens ([CI32 (app_code e)] @ [CString s])
      (rbind (read_enum tokens app_of) (\<lambda>e. rbind (rd_String tokens) (\<lambda>s. rret (e, s)))) (e, s)"
    by (rule serves_bind [OF serves_enum [where decode = app_of, OF app_of_code]], rule serves_map) simp
  then show "serves tokens (app_write token_app x) (app_read token_app) x" by (simp add: x token_app_def)
qed

theorem sampling_call_answered_witness:
  "\<exists>out. serve_message tokens (SamplingManager_dispatchCall tokens token_app
       (\<lambda>s. if s = ''svc'' then Inr strategy_response0 else Inl (RuntimeError ''no such service''))) (send_getSamplingStrategy ''x'') =
     Some (Inr (Inr out, [])) \<and>
   recv_getSamplingStrategy tokens token_app strategy_response0 out = Some (Inr (Inl (UNKNOWN, ''no such service''), []))"
  using sampling_call_answered [OF token_app_back tokens_carry_all, of "\<lambda>s. if s = ''svc'' then Inr strategy_response0
      else Inl (RuntimeError ''no such service'')" "''x''"] tokens_carry_all
  by (simp add: exception_what_def outcome_seen_def) blast

lemma batches_submitted_witness:
  "\<exists>out. serve_message tokens (Collector_dispatchCall tokens token_app
       (\<lambda>bs. Inr (map (\<lambda>b. \<lparr>response_ok = True\<rparr>) bs))) (send_submitBatches [example_thrift_batch]) = Some (Inr (Inr out, [])) \<and>
   recv_submitBatches tokens token_app [] out = Some (Inr (Inr [\<lparr>response_ok = True\<rparr>], []))"
  using batches_submitted [OF token_app_back tokens_carry_all, of "[example_thrift_batch]"
      "\<lambda>bs. Inr (map (\<lambda>b. \<lparr>response_ok = True\<rparr>) bs)"] tokens_carry_all example_fits
  by (simp add: batches_fit_def fits_def outcome_seen_def) blast

end
