(* ===== verification/TracedThrift.thy ===== *)
theory TracedThrift
  imports Crossdock ThriftCalls
begin

text \<open>
  The structures of the interoperability servers over Thrift (\<^verbatim>\<open>thrift-gen/tracetest_types.cpp\<close>) and
  their service (\<^verbatim>\<open>thrift-gen/TracedService.cpp\<close>). A nested structure is behind a shared pointer; the
  option stands for the pointer and its \<^verbatim>\<open>__isset\<close> bit, \<^term>\<open>None\<close> for the null pointer. \<^verbatim>\<open>read\<close> reads
  through the pointer that is there.
\<close>

section \<open>Structures\<close>

definition Transport_of :: "32 word \<Rightarrow> transport_type option" where
  "Transport_of n = (if n = 0 then Some HTTP else if n = 1 then Some TCHANNEL else if n = 2 then Some DUMMY else None)"

primrec Transport_value :: "transport_type \<Rightarrow> 32 word" where
  "Transport_value HTTP = 0"
| "Transport_value TCHANNEL = 1"
| "Transport_value DUMMY = 2"

definition downstream0 :: downstream where
  "downstream0 = Downstream [] [] [] [] HTTP None"

definition Downstream_field ::
  "'w protocol \<Rightarrow> (downstream \<Rightarrow> (downstream, 'w) rd) \<Rightarrow> ttype \<Rightarrow> int \<Rightarrow> downstream \<times> int set \<Rightarrow>
   (downstream \<times> int set, 'w) rd" where
  "Downstream_field P nested ft fid s =
     (if fid = 1 then on_type P ft T_STRING (rd_String P) (required 1 (\<lambda>v d.
        Downstream v (ds_serverRole d) (ds_host d) (ds_port d) (ds_transport d) (ds_downstream d))) s
      else if fid = 2 then on_type P ft T_STRING (rd_String P) (required 2 (\<lambda>v d.
        Downstream (ds_serviceName d) v (ds_host d) (ds_port d) (ds_transport d) (ds_downstream d))) s
      else if fid = 3 then on_type P ft T_STRING (rd_String P) (required 3 (\<lambda>v d.
        Downstream (ds_serviceName d) (ds_serverRole d) v (ds_port d) (ds_transport d) (ds_downstream d))) s
      else if fid = 4 then on_type P ft T_STRING (rd_String P) (required 4 (\<lambda>v d.
        Downstream (ds_serviceName d) (ds_serverRole d) (ds_host d) v (ds_transport d) (ds_downstream d))) s
      else if fid = 5 then on_type P ft T_I32 (read_enum P Transport_of) (required 5 (\<lambda>v d.
        Downstream (ds_serviceName d) (ds_serverRole d) (ds_host d) (ds_port d) v (ds_downstream d))) s
      else if fid = 6 then on_type P ft T_STRUCT
        (case ds_downstream (fst s) of None \<Rightarrow> rfail NullPointer | Some d \<Rightarrow> nested d) (optional (\<lambda>v d.
        Downstream (ds_serviceName d) (ds_serverRole d) (ds_host d) (ds_port d) (ds_transport d) (Some v))) s
      else skip_field P ft s)"

text \<open>Reading makes no structure, so that it nests as deep as the one it starts with.\<close>

fun ds_depth :: "downstream \<Rightarrow> nat" where
  "ds_depth (Downstream service role hst prt transport ds) =
     (case ds of None \<Rightarrow> 0 | Some d \<Rightarrow> Suc (ds_depth d))"

primrec Downstream_read_nested :: "'w protocol \<Rightarrow> nat \<Rightarrow> downstream \<Rightarrow> (downstream, 'w) rd" where
  "Downstream_read_nested P 0 =
     read_struct P (Downstream_field P (\<lambda>_. rfail NullPointer)) {1, 2, 3, 4, 5}"
| "Downstream_read_nested P (Suc n) =
     read_struct P (Downstream_field P (Downstream_read_nested P n)) {1, 2, 3, 4, 5}"

definition Downstream_read :: "'w protocol \<Rightarrow> downstream \<Rightarrow> (downstream, 'w) rd" where
  "Downstream_read P d = Downstream_read_nested P (ds_depth d) d"

fun Downstream_write :: "downstream \<Rightarrow> call list" where
  "Downstream_write (Downstream service role hst prt transport ds) = write_struct ''Downstream''
     (write_field ''serviceName'' T_STRING 1 [CString service] @
      write_field ''serverRole'' T_STRING 2 [CString role] @
      write_field ''host'' T_STRING 3 [CString hst] @
      write_field ''port'' T_STRING 4 [CString prt] @
      write_field ''transport'' T_I32 5 [CI32 (Transport_value transport)] @
      (case ds of None \<Rightarrow> [] | Some d \<Rightarrow> write_field ''downstream'' T_STRUCT 6 (Downstream_write d)))"

definition start_trace_request0 :: start_trace_request where
  "start_trace_request0 = \<lparr>st_serverRole = [], st_sampled = False, st_baggage = [], st_downstream = downstream0\<rparr>"

definition StartTraceRequest_field ::
  "'w protocol \<Rightarrow> ttype \<Rightarrow> int \<Rightarrow> start_trace_request \<times> int set \<Rightarrow> (start_trace_request \<times> int set, 'w) rd" where
  "StartTraceRequest_field P ft fid s =
     (if fid = 1 then on_type P ft T_STRING (rd_String P) (required 1 (\<lambda>v. st_serverRole_update (\<lambda>_. v))) s
      else if fid = 2 then on_type P ft T_BOOL (rd_Bool P) (required 2 (\<lambda>v. st_sampled_update (\<lambda>_. v))) s
      else if fid = 3 then on_type P ft T_STRING (rd_String P) (required 3 (\<lambda>v. st_baggage_update (\<lambda>_. v))) s
      else if fid = 4 then on_type P ft T_STRUCT (Downstream_read P (st_downstream (fst s)))
        (required 4 (\<lambda>v. st_downstream_update (\<lambda>_. v))) s
      else skip_field P ft s)"

definition StartTraceRequest_read :: "'w protocol \<Rightarrow> start_trace_request \<Rightarrow> (start_trace_request, 'w) rd" where
  "StartTraceRequest_read P = read_struct P (StartTraceRequest_field P) {1, 2, 3, 4}"

definition StartTraceRequest_write :: "start_trace_request \<Rightarrow> call list" where
  "StartTraceRequest_write r = write_struct ''StartTraceRequest''
     (write_field ''serverRole'' T_STRING 1 [CString (st_serverRole r)] @
      write_field ''sampled'' T_BOOL 2 [CBool (st_sampled r)] @
      write_field ''baggage'' T_STRING 3 [CString (st_baggage r)] @
      write_field ''downstream'' T_STRUCT 4 (Downstream_write (st_downstream r)))"

text \<open>Here the nested structure is a member, there from the start.\<close>

definition join_trace_request0 :: join_trace_request where
  "join_trace_request0 = \<lparr>jt_serverRole = [], jt_downstream = None\<rparr>"

definition JoinTraceRequest_field ::
  "'w protocol \<Rightarrow> ttype \<Rightarrow> int \<Rightarrow> join_trace_request \<times> int set \<Rightarrow> (join_trace_request \<times> int set, 'w) rd" where
  "JoinTraceRequest_field P ft fid s =
     (if fid = 1 then on_type P ft T_STRING (rd_String P) (required 1 (\<lambda>v. jt_serverRole_update (\<lambda>_. v))) s
      else if fid = 2 then on_type P ft T_STRUCT
        (Downstream_read P (case jt_downstream (fst s) of None \<Rightarrow> downstream0 | Some d \<Rightarrow> d))
        (optional (\<lambda>v. jt_downstream_update (\<lambda>_. Some v))) s
      else skip_field P ft s)"

definition JoinTraceRequest_read :: "'w protocol \<Rightarrow> join_trace_request \<Rightarrow> (join_trace_request, 'w) rd" where
  "JoinTraceRequest_read P = read_struct P (JoinTraceRequest_field P) {1}"

definition JoinTraceRequest_write :: "join_trace_request \<Rightarrow> call list" where
  "JoinTraceRequest_write r = write_struct ''JoinTraceRequest''
     (write_field ''serverRole'' T_STRING 1 [CString (jt_serverRole r)] @
      write_opt ''downstream'' T_STRUCT 2 Downstream_write (jt_downstream r))"

definition observed_span0 :: observed_span where
  "observed_span0 = \<lparr>os_traceId = [], os_sampled = False, os_baggage = []\<rparr>"

definition ObservedSpan_field ::
  "'w protocol \<Rightarrow> ttype \<Rightarrow> int \<Rightarrow> observed_span \<times> int set \<Rightarrow> (observed_span \<times> int set, 'w) rd" where
  "ObservedSpan_field P ft fid s =
     (if fid = 1 then on_type P ft T_STRING (rd_String P) (required 1 (\<lambda>v. os_traceId_update (\<lambda>_. v))) s
      else if fid = 2 then on_type P ft T_BOOL (rd_Bool P) (required 2 (\<lambda>v. os_sampled_update (\<lambda>_. v))) s
      else if fid = 3 then on_type P ft T_STRING (rd_String P) (required 3 (\<lambda>v. os_baggage_update (\<lambda>_. v))) s
      else skip_field P ft s)"

definition ObservedSpan_read :: "'w protocol \<Rightarrow> observed_span \<Rightarrow> (observed_span, 'w) rd" where
  "ObservedSpan_read P = read_struct P (ObservedSpan_field P) {1, 2, 3}"

definition ObservedSpan_write :: "observed_span \<Rightarrow> call list" where
  "ObservedSpan_write s = write_struct ''ObservedSpan''
     (write_field ''traceId'' T_STRING 1 [CString (os_traceId s)] @
      write_field ''sampled'' T_BOOL 2 [CBool (os_sampled s)] @
      write_field ''baggage'' T_STRING 3 [CString (os_baggage s)])"

definition trace_response0 :: trace_response where
  "trace_response0 = TraceResponse None None []"

definition TraceResponse_field ::
  "'w protocol \<Rightarrow> (trace_response \<Rightarrow> (trace_response, 'w) rd) \<Rightarrow> ttype \<Rightarrow> int \<Rightarrow> trace_response \<times> int set \<Rightarrow>
   (trace_response \<times> int set, 'w) rd" where
  "TraceResponse_field P nested ft fid s =
     (if fid = 1 then on_type P ft T_STRUCT
        (ObservedSpan_read P (case tr_span (fst s) of None \<Rightarrow> observed_span0 | Some sp \<Rightarrow> sp)) (optional (\<lambda>v r.
        TraceResponse (Some v) (tr_downstream r) (tr_notImplementedError r))) s
      else if fid = 2 then on_type P ft T_STRUCT
        (case tr_downstream (fst s) of None \<Rightarrow> rfail NullPointer | Some r \<Rightarrow> nested r) (optional (\<lambda>v r.
        TraceResponse (tr_span r) (Some v) (tr_notImplementedError r))) s
      else if fid = 3 then on_type P ft T_STRING (rd_String P) (required 3 (\<lambda>v r.
        TraceResponse (tr_span r) (tr_downstream r) v)) s
      else skip_field P ft s)"

fun tr_depth :: "trace_response \<Rightarrow> nat" where
  "tr_depth (TraceResponse sp ds err) = (case ds of None \<Rightarrow> 0 | Some r \<Rightarrow> Suc (tr_depth r))"

primrec TraceResponse_read_nested :: "'w protocol \<Rightarrow> nat \<Rightarrow> trace_response \<Rightarrow> (trace_response, 'w) rd" where
  "TraceResponse_read_nested P 0 = read_struct P (TraceResponse_field P (\<lambda>_. rfail NullPointer)) {3}"
| "TraceResponse_read_nested P (Suc n) =
     read_struct P (TraceResponse_field P (TraceResponse_read_nested P n)) {3}"

definition TraceResponse_read :: "'w protocol \<Rightarrow> trace_response \<Rightarrow> (trace_response, 'w) rd" where
  "TraceResponse_read P r = TraceResponse_read_nested P (tr_depth r) r"

fun TraceResponse_write :: "trace_response \<Rightarrow> call list" where
  "TraceResponse_write (TraceResponse sp ds err) = write_struct ''TraceResponse''
     (write_opt ''span'' T_STRUCT 1 ObservedSpan_write sp @
      (case ds of None \<Rightarrow> [] | Some r \<Rightarrow> write_field ''downstream'' T_STRUCT 2 (TraceResponse_write r)) @
      write_field ''notImplementedError'' T_STRING 3 [CString err])"

section \<open>The service\<close>

definition startTrace_args_read :: "'w protocol \<Rightarrow> (start_trace_request \<times> bool, 'w) rd" where
  "startTrace_args_read P = arg_read P 1 T_STRUCT (StartTraceRequest_read P) start_trace_request0"

definition startTrace_args_write :: "start_trace_request \<Rightarrow> call list" where
  "startTrace_args_write request =
     arg_write ''TracedService_startTrace_args'' ''request'' T_STRUCT (StartTraceRequest_write request)"

definition startTrace_pargs_write :: "start_trace_request \<Rightarrow> call list" where
  "startTrace_pargs_write request =
     arg_write ''TracedService_startTrace_pargs'' ''request'' T_STRUCT (StartTraceRequest_write request)"

definition startTrace_result_read :: "'w protocol \<Rightarrow> (trace_response \<times> bool, 'w) rd" where
  "startTrace_result_read P = arg_read P 0 T_STRUCT (TraceResponse_read P) trace_response0"

definition startTrace_result_write :: "trace_response option \<Rightarrow> call list" where
  "startTrace_result_write = result_write ''TracedService_startTrace_result'' T_STRUCT (TraceResponse_write)"

definition startTrace_presult_read :: "'w protocol \<Rightarrow> trace_response \<Rightarrow> (trace_response \<times> bool, 'w) rd" where
  "startTrace_presult_read P = arg_read P 0 T_STRUCT (TraceResponse_read P)"

definition send_startTrace :: "start_trace_request \<Rightarrow> call list" where
  "send_startTrace request = send_call ''startTrace'' (startTrace_pargs_write request)"

definition recv_startTrace :: "'w protocol \<Rightarrow> 'w app_format \<Rightarrow> trace_response \<Rightarrow> (app_exception + trace_response, 'w) rd" where
  "recv_startTrace P A return = recv_call P A ''startTrace'' (startTrace_presult_read P return)"

definition process_startTrace ::
  "'w protocol \<Rightarrow> 'w app_format \<Rightarrow> (start_trace_request \<Rightarrow> exception + trace_response) \<Rightarrow> 32 word \<Rightarrow> (exception + call list, 'w) rd" where
  "process_startTrace P A = process_call P A ''startTrace'' (startTrace_args_read P) startTrace_result_write"

definition joinTrace_args_read :: "'w protocol \<Rightarrow> (join_trace_request \<times> bool, 'w) rd" where
  "joinTrace_args_read P = arg_read P 1 T_STRUCT (JoinTraceRequest_read P) join_trace_request0"

definition joinTrace_args_write :: "join_trace_request \<Rightarrow> call list" where
  "joinTrace_args_write request =
     arg_write ''TracedService_joinTrace_args'' ''request'' T_STRUCT (JoinTraceRequest_write request)"

definition joinTrace_pargs_write :: "join_trace_request \<Rightarrow> call list" where
  "joinTrace_pargs_write request =
     arg_write ''TracedService_joinTrace_pargs'' ''request'' T_STRUCT (JoinTraceRequest_write request)"

definition joinTrace_result_read :: "'w protocol \<Rightarrow> (trace_response \<times> bool, 'w) rd" where
  "joinTrace_result_read P = arg_read P 0 T_STRUCT (TraceResponse_read P) trace_response0"

definition joinTrace_result_write :: "trace_response option \<Rightarrow> call list" where
  "joinTrace_result_write = result_write ''TracedService_joinTrace_result'' T_STRUCT (TraceResponse_write)"

definition joinTrace_presult_read :: "'w protocol \<Rightarrow> trace_response \<Rightarrow> (trace_response \<times> bool, 'w) rd" where
  "joinTrace_presult_read P = arg_read P 0 T_STRUCT (TraceResponse_read P)"

definition send_joinTrace :: "join_trace_request \<Rightarrow> call list" where
  "send_joinTrace request = send_call ''joinTrace'' (joinTrace_pargs_write request)"

definition recv_joinTrace :: "'w protocol \<Rightarrow> 'w app_format \<Rightarrow> trace_response \<Rightarrow> (app_exception + trace_response, 'w) rd" where
  "recv_joinTrace P A return = recv_call P A ''joinTrace'' (joinTrace_presult_read P return)"

definition process_joinTrace ::
  "'w protocol \<Rightarrow> 'w app_format \<Rightarrow> (join_trace_request \<Rightarrow> exception + trace_response) \<Rightarrow> 32 word \<Rightarrow> (exception + call list, 'w) rd" where
  "process_joinTrace P A = process_call P A ''joinTrace'' (joinTrace_args_read P) joinTrace_result_write"
definition TracedService_dispatchCall ::
  "'w protocol \<Rightarrow> 'w app_format \<Rightarrow> (start_trace_request \<Rightarrow> exception + trace_response) \<Rightarrow> (join_trace_request \<Rightarrow> exception + trace_response) \<Rightarrow> string \<Rightarrow> 32 word \<Rightarrow>
   (exception + call list, 'w) rd" where
  "TracedService_dispatchCall P A start join = answer_call P A [''startTrace'' \<mapsto> process_startTrace P A start, ''joinTrace'' \<mapsto> process_joinTrace P A join]"

section \<open>Single hops and chains\<close>

lemma Transport_inverse [simp]: "Transport_of (Transport_value t) = Some t"
  by (cases t) (simp_all add: Transport_of_def)

lemmas Traced_fields_at =
  Downstream_field_def [where fid = 1, simplified] Downstream_field_def [where fid = 2, simplified]
  Downstream_field_def [where fid = 3, simplified] Downstream_field_def [where fid = 4, simplified]
  Downstream_field_def [where fid = 5, simplified]
  StartTraceRequest_field_def [where fid = 1, simplified] StartTraceRequest_field_def [where fid = 2, simplified]
  StartTraceRequest_field_def [where fid = 3, simplified] StartTraceRequest_field_def [where fid = 4, simplified]
  JoinTraceRequest_field_def [where fid = 1, simplified] JoinTraceRequest_field_def [where fid = 2, simplified]
  ObservedSpan_field_def [where fid = 1, simplified] ObservedSpan_field_def [where fid = 2, simplified]
  ObservedSpan_field_def [where fid = 3, simplified]
  TraceResponse_field_def [where fid = 1, simplified] TraceResponse_field_def [where fid = 3, simplified]

lemmas traced_rules = serves_base serves_enum [where decode = Transport_of, OF Transport_inverse]

text \<open>The fields before the nested structure.\<close>

definition Downstream_flat :: "downstream \<Rightarrow> call list" where
  "Downstream_flat d =
     write_field ''serviceName'' T_STRING 1 [CString (ds_serviceName d)] @
     write_field ''serverRole'' T_STRING 2 [CString (ds_serverRole d)] @
     write_field ''host'' T_STRING 3 [CString (ds_host d)] @
     write_field ''port'' T_STRING 4 [CString (ds_port d)] @
     write_field ''transport'' T_I32 5 [CI32 (Transport_value (ds_transport d))]"

lemma Downstream_write_flat:
  "Downstream_write d = write_struct ''Downstream''
     (Downstream_flat d @ (case ds_downstream d of None \<Rightarrow> [] | Some d' \<Rightarrow> write_field ''downstream'' T_STRUCT 6 (Downstream_write d')))"
  by (cases d) (simp add: Downstream_flat_def)

lemma Downstream_flat_steps:
  "steps P (Downstream_field P nested) (Downstream_flat d) (downstream0, {})
     (Downstream (ds_serviceName d) (ds_serverRole d) (ds_host d) (ds_port d) (ds_transport d) None, {1, 2, 3, 4, 5})"
  unfolding Downstream_flat_def
  by (rule steps_eq, (rule steps_append | rule steps_on_type, simp, rule Traced_fields_at, rule traced_rules)+)
    (auto simp: put_defs downstream0_def)

text \<open>A field whose reader throws ends the loop, and with it every structure around it.\<close>

definition throws :: "'w protocol \<Rightarrow> call list \<Rightarrow> ('a, 'w) rd \<Rightarrow> read_error \<Rightarrow> bool" where
  "throws P cs r e \<longleftrightarrow> (\<forall>w u. carry P cs w = Some u \<longrightarrow> r w = Some (Inl e))"

lemma throws_struct:
  assumes "steps P step cs (a, {}) s" and "t \<noteq> T_STOP" and "throws P body (step t i s) e"
  shows "throws P (write_struct name (cs @ write_field f t i body @ ds)) (read_struct P step needed a) e"
  unfolding throws_def
proof (intro allI impI)
  fix w u
  assume "carry P (write_struct name (cs @ write_field f t i body @ ds)) w = Some u"
  then obtain nm w1 w2 w3 w4 where rd: "rd_StructBegin P w = Some (Inr (nm, w1))" "carry P cs w1 = Some w2"
      "rd_FieldBegin P w2 = Some (Inr ((t, i), w3))" "carry P body w3 = Some w4"
    by (auto simp: write_struct_def write_field_def bind_eq_Some_conv)
  have "read_fields P step (a, {}) w1 = read_fields P step s w2"
    using assms(1) rd(2) by (simp add: steps_def)
  also have "\<dots> = Some (Inl e)"
    using rd(3,4) assms(2,3) by (simp add: throws_def read_fields.simps [of P step s])
  finally show "read_struct P step needed a w = Some (Inl e)" using rd(1) by (simp add: read_struct_def rbind_def)
qed

lemma throws_bind: "throws P cs r e \<Longrightarrow> throws P (cs @ ds) (rbind r k) e"
  by (auto simp: throws_def rbind_def bind_eq_Some_conv)

lemma throws_on_type: "throws P cs r e \<Longrightarrow> throws P cs (on_type P t t r put s) e"
  using throws_bind [where ds = "[]"] by (fastforce simp: on_type_def)

lemma throws_null: "throws P cs (rfail e) e"
  by (simp add: throws_def rfail_def)

lemma throws_message: "throws P cs (f n t i) e \<Longrightarrow>
  throws P (CMessageBegin n t i # cs) (rbind (rd_MessageBegin P) (\<lambda>(n, t, i). f n t i)) e"
  by (auto simp: throws_def bind_eq_Some_conv)

lemma Downstream_read_flat:
  "Downstream_read P downstream0 =
     read_struct P (Downstream_field P (\<lambda>_. rfail NullPointer)) {1, 2, 3, 4, 5} downstream0"
  by (simp add: Downstream_read_def downstream0_def)

lemma Downstream_serves:
  assumes "ds_downstream d = None"
  shows "serves P (Downstream_write d) (Downstream_read P downstream0) d"
proof -
  have "steps P (Downstream_field P (\<lambda>_. rfail NullPointer)) (Downstream_flat d) (downstream0, {}) (d, {1, 2, 3, 4, 5})"
    using Downstream_flat_steps [of P "\<lambda>_. rfail NullPointer" d] assms by (cases d) simp
  from serves_struct [OF subset_refl this, of "''Downstream''"] show ?thesis
    by (simp add: Downstream_read_flat Downstream_write_flat [of d] assms)
qed

lemma Downstream_throws:
  assumes "ds_downstream d = Some d'"
  shows "throws P (Downstream_write d) (Downstream_read P downstream0) NullPointer"
  using throws_struct [OF Downstream_flat_steps, of T_STRUCT P _ "\<lambda>_. rfail NullPointer" 6 d NullPointer "''Downstream''" "''downstream''" "[]"]
  by (simp add: Downstream_read_flat Downstream_write_flat [of d] assms Downstream_field_def throws_on_type throws_null)

lemma ObservedSpan_serves: "serves P (ObservedSpan_write s) (ObservedSpan_read P old) s"
  unfolding ObservedSpan_write_def ObservedSpan_read_def
  by (rule serves_struct [where seen = "{1, 2, 3}"], simp, rule steps_eq,
      (rule steps_append | rule steps_on_type, simp, rule Traced_fields_at, rule traced_rules)+)
    (cases s; auto simp: put_defs)

lemma StartTraceRequest_serves:
  assumes "ds_downstream (st_downstream r) = None"
  shows "serves P (StartTraceRequest_write r) (StartTraceRequest_read P start_trace_request0) r"
proof -
  have ds: "steps P (StartTraceRequest_field P) (write_field ''downstream'' T_STRUCT 4 (Downstream_write (st_downstream r)))
      s (required 4 (\<lambda>v. st_downstream_update (\<lambda>_. v)) (st_downstream r) s)"
    if "st_downstream (fst s) = downstream0" for s
    by (rule steps_on_type [where put = "required 4 (\<lambda>v. st_downstream_update (\<lambda>_. v))"])
      (simp, simp only: that Traced_fields_at, rule Downstream_serves [OF assms])
  show ?thesis
    unfolding StartTraceRequest_write_def StartTraceRequest_read_def
    by (rule serves_struct [where seen = "{1, 2, 3, 4}"], simp, rule steps_eq,
        (rule steps_append | rule ds | rule steps_on_type, simp, rule Traced_fields_at, rule traced_rules)+)
      (cases r; auto simp: put_defs start_trace_request0_def)+
qed

lemma JoinTraceRequest_serves:
  assumes "\<And>d. jt_downstream r = Some d \<Longrightarrow> ds_downstream d = None"
  shows "serves P (JoinTraceRequest_write r) (JoinTraceRequest_read P join_trace_request0) r"
proof -
  have ds: "steps P (JoinTraceRequest_field P) (write_opt ''downstream'' T_STRUCT 2 Downstream_write (jt_downstream r)) s
      (case jt_downstream r of None \<Rightarrow> s | Some d \<Rightarrow> optional (\<lambda>v. jt_downstream_update (\<lambda>_. Some v)) d s)"
    if "jt_downstream (fst s) = None" for s
    by (rule steps_opt_type [where put = "optional (\<lambda>v. jt_downstream_update (\<lambda>_. Some v))"])
      (simp, simp only: that Traced_fields_at option.case, rule Downstream_serves, rule assms)
  show ?thesis
    unfolding JoinTraceRequest_write_def JoinTraceRequest_read_def
    by (rule serves_struct [where seen = "{1}"], simp, rule steps_eq,
        (rule steps_append | rule ds | rule steps_on_type, simp, rule Traced_fields_at, rule traced_rules)+)
      (cases r; auto simp: put_defs join_trace_request0_def split: option.splits)+
qed

text \<open>A response with a nested one cannot be read either.\<close>

lemma TraceResponse_write_span:
  "TraceResponse_write r = write_struct ''TraceResponse''
     (write_opt ''span'' T_STRUCT 1 ObservedSpan_write (tr_span r) @
      (case tr_downstream r of None \<Rightarrow> [] | Some r' \<Rightarrow> write_field ''downstream'' T_STRUCT 2 (TraceResponse_write r')) @
      write_field ''notImplementedError'' T_STRING 3 [CString (tr_notImplementedError r)])"
  by (cases r) simp

lemma TraceResponse_read_flat:
  "TraceResponse_read P trace_response0 =
     read_struct P (TraceResponse_field P (\<lambda>_. rfail NullPointer)) {3} trace_response0"
  by (simp add: TraceResponse_read_def trace_response0_def)

lemma TraceResponse_span_steps:
  "steps P (TraceResponse_field P nested) (write_opt ''span'' T_STRUCT 1 ObservedSpan_write (tr_span r)) (trace_response0, {})
     (TraceResponse (tr_span r) None [], {})"
  by (rule steps_eq, rule steps_opt_type, simp, rule Traced_fields_at, rule ObservedSpan_serves)
    (simp add: put_defs trace_response0_def split: option.split)

lemma TraceResponse_serves:
  assumes "tr_downstream r = None"
  shows "serves P (TraceResponse_write r) (TraceResponse_read P trace_response0) r"
proof -
  have "steps P (TraceResponse_field P (\<lambda>_. rfail NullPointer))
      (write_field ''notImplementedError'' T_STRING 3 [CString (tr_notImplementedError r)])
      (TraceResponse (tr_span r) None [], {}) (r, {3})"
    by (rule steps_eq, rule steps_on_type, simp, rule Traced_fields_at, rule traced_rules)
      (use assms in \<open>cases r; simp add: put_defs\<close>)
  from serves_struct [OF subset_refl steps_append [OF TraceResponse_span_steps this], of "''TraceResponse''"] show ?thesis
    by (simp add: TraceResponse_read_flat TraceResponse_write_span [of r] assms)
qed

lemma TraceResponse_throws:
  assumes "tr_downstream r = Some r'"
  shows "throws P (TraceResponse_write r) (TraceResponse_read P trace_response0) NullPointer"
  using throws_struct [OF TraceResponse_span_steps, of T_STRUCT P _ "\<lambda>_. rfail NullPointer" 2 r NullPointer "''TraceResponse''" "''downstream''"]
  by (simp add: TraceResponse_read_flat TraceResponse_write_span [of r] assms TraceResponse_field_def throws_on_type throws_null)

lemma StartTraceRequest_throws:
  assumes "ds_downstream (st_downstream r) = Some d"
  shows "throws P (StartTraceRequest_write r) (StartTraceRequest_read P start_trace_request0) NullPointer"
proof -
  let ?cs = "write_field ''serverRole'' T_STRING 1 [CString (st_serverRole r)] @
      write_field ''sampled'' T_BOOL 2 [CBool (st_sampled r)] @
      write_field ''baggage'' T_STRING 3 [CString (st_baggage r)]"
  have "steps P (StartTraceRequest_field P) ?cs (start_trace_request0, {})
      (start_trace_request0\<lparr>st_serverRole := st_serverRole r, st_sampled := st_sampled r, st_baggage := st_baggage r\<rparr>, {1, 2, 3})"
    by (rule steps_eq, (rule steps_append | rule steps_on_type, simp, rule Traced_fields_at, rule traced_rules)+)
      (auto simp: put_defs)
  from throws_struct [OF this, of T_STRUCT "Downstream_write (st_downstream r)" 4 NullPointer "''StartTraceRequest''" "''downstream''" "[]"]
  show ?thesis
    by (simp add: StartTraceRequest_read_def StartTraceRequest_write_def StartTraceRequest_field_def throws_on_type
        Downstream_throws [OF assms] start_trace_request0_def)
qed

lemma JoinTraceRequest_throws:
  assumes "jt_downstream r = Some d" and "ds_downstream d = Some d'"
  shows "throws P (JoinTraceRequest_write r) (JoinTraceRequest_read P join_trace_request0) NullPointer"
proof -
  have "steps P (JoinTraceRequest_field P) (write_field ''serverRole'' T_STRING 1 [CString (jt_serverRole r)])
      (join_trace_request0, {}) (join_trace_request0\<lparr>jt_serverRole := jt_serverRole r\<rparr>, {1})"
    by (rule steps_eq, rule steps_on_type, simp, rule Traced_fields_at, rule traced_rules) (simp add: put_defs)
  from throws_struct [OF this, of T_STRUCT "Downstream_write d" 2 NullPointer "''JoinTraceRequest''" "''downstream''" "[]"]
  show ?thesis
    by (simp add: JoinTraceRequest_read_def JoinTraceRequest_write_def JoinTraceRequest_field_def throws_on_type
        Downstream_throws [OF assms(2)] join_trace_request0_def write_opt_def assms(1))
qed

text \<open>A call whose argument cannot be read is not answered.\<close>

lemma call_throws:
  assumes "t \<noteq> T_STOP" and "throws P value (r a0) e"
    and "\<And>seqid. processMap name seqid = process_call P A name (arg_read P 1 t r a0) write_result handler seqid"
  shows "throws P (send_call name (arg_write struct f t value)) (serve_message P processMap) e"
proof -
  have "throws P (arg_write struct f t value) (arg_read P 1 t r a0) e"
    using throws_struct [OF steps_Nil assms(1), of P "value" "arg_field P 1 t r" 1 "(a0, False)" e struct f "[]"] assms(2)
    by (simp add: arg_write_def arg_read_def arg_field_def throws_on_type)
  then show ?thesis
    unfolding send_call_def serve_message_def
    by (intro throws_message) (simp add: assms(3) process_call_def throws_bind)
qed

lemmas startTrace_defs = startTrace_pargs_write_def startTrace_args_read_def
  startTrace_result_write_def startTrace_presult_read_def

lemmas joinTrace_defs = joinTrace_pargs_write_def joinTrace_args_read_def
  joinTrace_result_write_def joinTrace_presult_read_def

interpretation startTrace_call: remote_method P "''startTrace''" startTrace_pargs_write "startTrace_args_read P"
  startTrace_result_write "startTrace_presult_read P trace_response0"
  "\<lambda>r. ds_downstream (st_downstream r) = None" "\<lambda>r. tr_downstream r = None" for P
  by unfold_locales
    (simp_all add: startTrace_defs arg_write_serves result_write_serves StartTraceRequest_serves TraceResponse_serves)

interpretation joinTrace_call: remote_method P "''joinTrace''" joinTrace_pargs_write "joinTrace_args_read P"
  joinTrace_result_write "joinTrace_presult_read P trace_response0"
  "\<lambda>r. \<forall>d. jt_downstream r = Some d \<longrightarrow> ds_downstream d = None" "\<lambda>r. tr_downstream r = None" for P
  by unfold_locales
    (simp_all add: joinTrace_defs arg_write_serves result_write_serves JoinTraceRequest_serves TraceResponse_serves)

lemma startTrace_dispatched:
  "TracedService_dispatchCall P A start join ''startTrace'' seqid =
   process_call P A ''startTrace'' (startTrace_args_read P) startTrace_result_write start seqid"
  by (simp add: TracedService_dispatchCall_def answer_call_known process_startTrace_def)

text \<open>An answer with a nested response cannot be read.\<close>

lemma answer_throws:
  assumes "tr_downstream r = Some r'"
  shows "throws P (CMessageBegin ''startTrace'' T_REPLY seqid # startTrace_result_write (Some r) @ [CMessageEnd])
    (recv_startTrace (P :: 'w protocol) A trace_response0) NullPointer"
proof -
  have "throws P (startTrace_result_write (Some r)) (startTrace_presult_read P trace_response0) NullPointer"
    using throws_struct [OF steps_Nil, of T_STRUCT P "TraceResponse_write r" "arg_field P 0 T_STRUCT (TraceResponse_read P)" 0
        "(trace_response0, False)" NullPointer _ "''success''" "[]"]
    by (simp add: startTrace_defs result_write_def write_opt_def arg_read_def arg_field_def
        throws_on_type [OF TraceResponse_throws [OF assms]])
  moreover have bind_ret: "rbind (rret v) k = k v" for v and k :: "unit \<Rightarrow> ('b, 'w) rd" by (rule ext) simp
  ultimately show ?thesis
    unfolding recv_startTrace_def recv_call_def
    by (intro throws_message) (simp add: skip_unless_def bind_ret throws_bind)
qed

section \<open>Properties\<close>

text \<open>C25. What nesting does to a trace started over Thrift, whatever the protocol, as long as it gives
  back what was written. If the downstream of
  the request has a downstream of its own, the processor reads that one through a null pointer and
  nothing is answered. Otherwise the request reaches the handler and is answered; but if the answer
  has a nested response, as that of a server that has handed the trace on always has, it is the client
  that reads through a null pointer. Only an answer without one, or an exception with a text,
  reaches the caller as what the handler did.\<close>

theorem traced_call_over_thrift:
  assumes "app_back P A" and "carry P (send_startTrace request) w = Some u"
    and "\<And>e. start request = Inl e \<Longrightarrow> exception_what e \<noteq> None"
  shows "if ds_downstream (st_downstream request) = None
    then \<exists>out. serve_message P (TracedService_dispatchCall P A start join) w = Some (Inr (Inr out, u)) \<and>
      (\<forall>w' u'. carry P out w' = Some u' \<longrightarrow>
        recv_startTrace P A trace_response0 w' =
          (if \<exists>r. start request = Inr r \<and> tr_downstream r \<noteq> None then Some (Inl NullPointer)
           else Some (Inr (outcome_seen (start request), u'))))
    else serve_message P (TracedService_dispatchCall P A start join) w = Some (Inl NullPointer)"
proof (cases "ds_downstream (st_downstream request)")
  case None
  show ?thesis
  proof (cases "\<exists>r. start request = Inr r \<and> tr_downstream r \<noteq> None")
    case True
    then obtain r r' where r: "start request = Inr r" "tr_downstream r = Some r'" by blast
    let ?out = "CMessageBegin ''startTrace'' T_REPLY 0 # startTrace_result_write (Some r) @ [CMessageEnd]"
    have "serves P (send_startTrace request) (serve_message P (TracedService_dispatchCall P A start join)) (Inr ?out)"
      unfolding send_startTrace_def send_call_def serve_message_def
      by (rule serves_message)
        (use startTrace_call.processed [OF None, of P A start 0] r(1) in \<open>simp add: startTrace_dispatched answer_def\<close>)
    then show ?thesis
      using assms(2) None r answer_throws [OF r(2), of P 0 A] by (auto simp: serves_def throws_def)
  next
    case False
    from startTrace_call.call_returns [where handler = start and a = request and P = P and
          processMap = "TracedService_dispatchCall P A start join", OF None assms(1) _ assms(3) startTrace_dispatched] False
    show ?thesis
      using assms(2) None by (auto simp: send_startTrace_def recv_startTrace_def serves_def)
  qed
next
  case (Some d)
  have "throws P (send_startTrace request) (serve_message P (TracedService_dispatchCall P A start join)) NullPointer"
    unfolding send_startTrace_def startTrace_pargs_write_def
    by (rule call_throws [where r = "StartTraceRequest_read P", OF _ StartTraceRequest_throws [OF Some]])
      (simp, simp add: startTrace_dispatched startTrace_args_read_def)
  then show ?thesis
    using assms(2) Some by (simp add: throws_def)
qed

definition one_hop :: start_trace_request where
  "one_hop = \<lparr>st_serverRole = ''S1'', st_sampled = True, st_baggage = ''b'',
     st_downstream = Downstream ''s'' ''S2'' ''h'' ''80'' TCHANNEL None\<rparr>"

theorem traced_call_over_thrift_witness:
  "(\<exists>out. serve_message tokens (TracedService_dispatchCall tokens token_app (\<lambda>_. Inr trace_response0) (\<lambda>_. Inr trace_response0)) (send_startTrace one_hop) =
       Some (Inr (Inr out, [])) \<and>
     recv_startTrace tokens token_app trace_response0 out = Some (Inr (Inr trace_response0, []))) \<and>
   serve_message tokens (TracedService_dispatchCall tokens token_app (\<lambda>_. Inr trace_response0) (\<lambda>_. Inr trace_response0))
     (send_startTrace (one_hop\<lparr>st_downstream := Downstream ''s'' ''S2'' ''h'' ''80'' HTTP (Some downstream0)\<rparr>)) =
     Some (Inl NullPointer)"
  using traced_call_over_thrift [OF token_app_back tokens_carry_all, of "\<lambda>_. Inr trace_response0" one_hop "\<lambda>_. Inr trace_response0"] tokens_carry_all
    traced_call_over_thrift [OF token_app_back tokens_carry_all, of "\<lambda>_. Inr trace_response0"
      "one_hop\<lparr>st_downstream := Downstream ''s'' ''S2'' ''h'' ''80'' HTTP (Some downstream0)\<rparr>" "\<lambda>_. Inr trace_response0"]
  by (simp add: one_hop_def outcome_seen_def trace_response0_def) blast

end
