(* ===== verification/Zipkin.thy ===== *)
theory Zipkin
  imports ThriftCalls
begin

text \<open>
  The structures of \<^verbatim>\<open>zipkincore.thrift\<close> (\<^verbatim>\<open>thrift-gen/zipkincore_types.cpp\<close>), the collector
  for them (\<^verbatim>\<open>thrift-gen/ZipkinCollector.cpp\<close>), and the agent's call \<^verbatim>\<open>emitZipkinBatch\<close>
  (\<^verbatim>\<open>thrift-gen/Agent.cpp\<close>). The bits \<^verbatim>\<open>__isset\<close> of the fields that are written in any case are
  never asked for (they are the numbers in the set beside the structure); those of the others are
  options. A new span has its bit \<^verbatim>\<open>debug\<close> set, and the flag is false.
\<close>

section \<open>Structures\<close>

datatype annotation_type = Z_BOOL | Z_BYTES | Z_I16 | Z_I32 | Z_I64 | Z_DOUBLE | Z_STRING

definition AnnotationType_of :: "32 word \<Rightarrow> annotation_type option" where
  "AnnotationType_of n =
     (if n = 0 then Some Z_BOOL else if n = 1 then Some Z_BYTES else if n = 2 then Some Z_I16
      else if n = 3 then Some Z_I32 else if n = 4 then Some Z_I64 else if n = 5 then Some Z_DOUBLE
      else if n = 6 then Some Z_STRING else None)"

primrec AnnotationType_value :: "annotation_type \<Rightarrow> 32 word" where
  "AnnotationType_value Z_BOOL = 0"
| "AnnotationType_value Z_BYTES = 1"
| "AnnotationType_value Z_I16 = 2"
| "AnnotationType_value Z_I32 = 3"
| "AnnotationType_value Z_I64 = 4"
| "AnnotationType_value Z_DOUBLE = 5"
| "AnnotationType_value Z_STRING = 6"

record endpoint =
  ze_ipv4 :: "32 word"
  ze_port :: "16 word"
  ze_service_name :: string
  ze_ipv6 :: "string option"

record annotation =
  za_timestamp :: i64
  za_value :: string
  za_host :: "endpoint option"

record binary_annotation =
  zb_key :: string
  zb_value :: string
  zb_annotation_type :: annotation_type
  zb_host :: "endpoint option"

record zipkin_span =
  zs_trace_id :: i64
  zs_name :: string
  zs_id :: i64
  zs_parent_id :: "i64 option"
  zs_annotations :: "annotation list"
  zs_binary_annotations :: "binary_annotation list"
  zs_debug :: "bool option"
  zs_timestamp :: "i64 option"
  zs_duration :: "i64 option"
  zs_trace_id_high :: "i64 option"

record zipkin_response =
  zr_ok :: bool

definition endpoint0 :: endpoint where
  "endpoint0 = \<lparr>ze_ipv4 = 0, ze_port = 0, ze_service_name = [], ze_ipv6 = None\<rparr>"

definition Endpoint_field ::
  "'w protocol \<Rightarrow> ttype \<Rightarrow> int \<Rightarrow> endpoint \<times> int set \<Rightarrow> (endpoint \<times> int set, 'w) rd" where
  "Endpoint_field P ft fid s =
     (if fid = 1 then on_type P ft T_I32 (rd_I32 P)
        (required 1 (\<lambda>v. ze_ipv4_update (\<lambda>_. v))) s
      else if fid = 2 then on_type P ft T_I16 (rd_I16 P)
        (required 2 (\<lambda>v. ze_port_update (\<lambda>_. v))) s
      else if fid = 3 then on_type P ft T_STRING (rd_String P)
        (required 3 (\<lambda>v. ze_service_name_update (\<lambda>_. v))) s
      else if fid = 4 then on_type P ft T_STRING (rd_Binary P)
        (optional (\<lambda>v. ze_ipv6_update (\<lambda>_. Some v))) s
      else skip_field P ft s)"

definition Endpoint_read :: "'w protocol \<Rightarrow> endpoint \<Rightarrow> (endpoint, 'w) rd" where
  "Endpoint_read P = read_struct P (Endpoint_field P) {}"

definition Endpoint_write :: "endpoint \<Rightarrow> call list" where
  "Endpoint_write e = write_struct ''Endpoint''
     (write_field ''ipv4'' T_I32 1 [CI32 (ze_ipv4 e)] @
      write_field ''port'' T_I16 2 [CI16 (ze_port e)] @
      write_field ''service_name'' T_STRING 3 [CString (ze_service_name e)] @
      write_opt ''ipv6'' T_STRING 4 (\<lambda>v. [CBinary v]) (ze_ipv6 e))"

definition annotation0 :: annotation where
  "annotation0 = \<lparr>za_timestamp = 0, za_value = [], za_host = None\<rparr>"

definition Annotation_field ::
  "'w protocol \<Rightarrow> ttype \<Rightarrow> int \<Rightarrow> annotation \<times> int set \<Rightarrow> (annotation \<times> int set, 'w) rd" where
  "Annotation_field P ft fid s =
     (if fid = 1 then on_type P ft T_I64 (rd_I64 P)
        (required 1 (\<lambda>v. za_timestamp_update (\<lambda>_. v))) s
      else if fid = 2 then on_type P ft T_STRING (rd_String P)
        (required 2 (\<lambda>v. za_value_update (\<lambda>_. v))) s
      else if fid = 3 then on_type P ft T_STRUCT (Endpoint_read P (case za_host (fst s) of None \<Rightarrow> endpoint0 | Some h \<Rightarrow> h))
        (optional (\<lambda>v. za_host_update (\<lambda>_. Some v))) s
      else skip_field P ft s)"

definition Annotation_read :: "'w protocol \<Rightarrow> annotation \<Rightarrow> (annotation, 'w) rd" where
  "Annotation_read P = read_struct P (Annotation_field P) {}"

definition Annotation_write :: "annotation \<Rightarrow> call list" where
  "Annotation_write a = write_struct ''Annotation''
     (write_field ''timestamp'' T_I64 1 [CI64 (za_timestamp a)] @
      write_field ''value'' T_STRING 2 [CString (za_value a)] @
      write_opt ''host'' T_STRUCT 3 Endpoint_write (za_host a))"

definition binary_annotation0 :: binary_annotation where
  "binary_annotation0 = \<lparr>zb_key = [], zb_value = [], zb_annotation_type = Z_BOOL, zb_host = None\<rparr>"

definition BinaryAnnotation_field ::
  "'w protocol \<Rightarrow> ttype \<Rightarrow> int \<Rightarrow> binary_annotation \<times> int set \<Rightarrow> (binary_annotation \<times> int set, 'w) rd" where
  "BinaryAnnotation_field P ft fid s =
     (if fid = 1 then on_type P ft T_STRING (rd_String P)
        (required 1 (\<lambda>v. zb_key_update (\<lambda>_. v))) s
      else if fid = 2 then on_type P ft T_STRING (rd_Binary P)
        (required 2 (\<lambda>v. zb_value_update (\<lambda>_. v))) s
      else if fid = 3 then on_type P ft T_I32 (read_enum P AnnotationType_of)
        (required 3 (\<lambda>v. zb_annotation_type_update (\<lambda>_. v))) s
      else if fid = 4 then on_type P ft T_STRUCT (Endpoint_read P (case zb_host (fst s) of None \<Rightarrow> endpoint0 | Some h \<Rightarrow> h))
        (optional (\<lambda>v. zb_host_update (\<lambda>_. Some v))) s
      else skip_field P ft s)"

definition BinaryAnnotation_read :: "'w protocol \<Rightarrow> binary_annotation \<Rightarrow> (binary_annotation, 'w) rd" where
  "BinaryAnnotation_read P = read_struct P (BinaryAnnotation_field P) {}"

definition BinaryAnnotation_write :: "binary_annotation \<Rightarrow> call list" where
  "BinaryAnnotation_write b = write_struct ''BinaryAnnotation''
     (write_field ''key'' T_STRING 1 [CString (zb_key b)] @
      write_field ''value'' T_STRING 2 [CBinary (zb_value b)] @
      write_field ''annotation_type'' T_I32 3 [CI32 (AnnotationType_value (zb_annotation_type b))] @
      write_opt ''host'' T_STRUCT 4 Endpoint_write (zb_host b))"

definition zipkin_span0 :: zipkin_span where
  "zipkin_span0 = \<lparr>zs_trace_id = 0, zs_name = [], zs_id = 0, zs_parent_id = None, zs_annotations = [],
     zs_binary_annotations = [], zs_debug = Some False, zs_timestamp = None, zs_duration = None,
     zs_trace_id_high = None\<rparr>"

definition ZipkinSpan_field ::
  "'w protocol \<Rightarrow> ttype \<Rightarrow> int \<Rightarrow> zipkin_span \<times> int set \<Rightarrow> (zipkin_span \<times> int set, 'w) rd" where
  "ZipkinSpan_field P ft fid s =
     (if fid = 1 then on_type P ft T_I64 (rd_I64 P)
        (required 1 (\<lambda>v. zs_trace_id_update (\<lambda>_. v))) s
      else if fid = 3 then on_type P ft T_STRING (rd_String P)
        (required 3 (\<lambda>v. zs_name_update (\<lambda>_. v))) s
      else if fid = 4 then on_type P ft T_I64 (rd_I64 P)
        (required 4 (\<lambda>v. zs_id_update (\<lambda>_. v))) s
      else if fid = 5 then on_type P ft T_I64 (rd_I64 P)
        (optional (\<lambda>v. zs_parent_id_update (\<lambda>_. Some v))) s
      else if fid = 6 then on_type P ft T_LIST (read_list P (Annotation_read P annotation0))
        (required 6 (\<lambda>v. zs_annotations_update (\<lambda>_. v))) s
      else if fid = 8 then on_type P ft T_LIST (read_list P (BinaryAnnotation_read P binary_annotation0))
        (required 8 (\<lambda>v. zs_binary_annotations_update (\<lambda>_. v))) s
      else if fid = 9 then on_type P ft T_BOOL (rd_Bool P)
        (optional (\<lambda>v. zs_debug_update (\<lambda>_. Some v))) s
      else if fid = 10 then on_type P ft T_I64 (rd_I64 P)
        (optional (\<lambda>v. zs_timestamp_update (\<lambda>_. Some v))) s
      else if fid = 11 then on_type P ft T_I64 (rd_I64 P)
        (optional (\<lambda>v. zs_duration_update (\<lambda>_. Some v))) s
      else if fid = 12 then on_type P ft T_I64 (rd_I64 P)
        (optional (\<lambda>v. zs_trace_id_high_update (\<lambda>_. Some v))) s
      else skip_field P ft s)"

definition ZipkinSpan_read :: "'w protocol \<Rightarrow> zipkin_span \<Rightarrow> (zipkin_span, 'w) rd" where
  "ZipkinSpan_read P = read_struct P (ZipkinSpan_field P) {}"

definition ZipkinSpan_write :: "zipkin_span \<Rightarrow> call list" where
  "ZipkinSpan_write s = write_struct ''Span''
     (write_field ''trace_id'' T_I64 1 [CI64 (zs_trace_id s)] @
      write_field ''name'' T_STRING 3 [CString (zs_name s)] @
      write_field ''id'' T_I64 4 [CI64 (zs_id s)] @
      write_opt ''parent_id'' T_I64 5 (\<lambda>v. [CI64 v]) (zs_parent_id s) @
      write_field ''annotations'' T_LIST 6 (write_list Annotation_write (zs_annotations s)) @
      write_field ''binary_annotations'' T_LIST 8 (write_list BinaryAnnotation_write (zs_binary_annotations s)) @
      write_opt ''debug'' T_BOOL 9 (\<lambda>v. [CBool v]) (zs_debug s) @
      write_opt ''timestamp'' T_I64 10 (\<lambda>v. [CI64 v]) (zs_timestamp s) @
      write_opt ''duration'' T_I64 11 (\<lambda>v. [CI64 v]) (zs_duration s) @
      write_opt ''trace_id_high'' T_I64 12 (\<lambda>v. [CI64 v]) (zs_trace_id_high s))"

definition zipkin_response0 :: zipkin_response where
  "zipkin_response0 = \<lparr>zr_ok = False\<rparr>"

definition ZipkinResponse_field ::
  "'w protocol \<Rightarrow> ttype \<Rightarrow> int \<Rightarrow> zipkin_response \<times> int set \<Rightarrow> (zipkin_response \<times> int set, 'w) rd" where
  "ZipkinResponse_field P ft fid s =
     (if fid = 1 then on_type P ft T_BOOL (rd_Bool P)
        (required 1 (\<lambda>v. zr_ok_update (\<lambda>_. v))) s
      else skip_field P ft s)"

definition ZipkinResponse_read :: "'w protocol \<Rightarrow> zipkin_response \<Rightarrow> (zipkin_response, 'w) rd" where
  "ZipkinResponse_read P = read_struct P (ZipkinResponse_field P) {1}"

definition ZipkinResponse_write :: "zipkin_response \<Rightarrow> call list" where
  "ZipkinResponse_write r = write_struct ''Response''
     (write_field ''ok'' T_BOOL 1 [CBool (zr_ok r)])"

section \<open>The collector\<close>

definition submitZipkinBatch_args_read :: "'w protocol \<Rightarrow> (zipkin_span list \<times> bool, 'w) rd" where
  "submitZipkinBatch_args_read P = arg_read P 1 T_LIST (\<lambda>_. read_list P (ZipkinSpan_read P zipkin_span0)) []"

definition submitZipkinBatch_args_write :: "zipkin_span list \<Rightarrow> call list" where
  "submitZipkinBatch_args_write spans =
     arg_write ''ZipkinCollector_submitZipkinBatch_args'' ''spans'' T_LIST (write_list ZipkinSpan_write spans)"

definition submitZipkinBatch_pargs_write :: "zipkin_span list \<Rightarrow> call list" where
  "submitZipkinBatch_pargs_write spans =
     arg_write ''ZipkinCollector_submitZipkinBatch_pargs'' ''spans'' T_LIST (write_list ZipkinSpan_write spans)"

definition submitZipkinBatch_result_read :: "'w protocol \<Rightarrow> (zipkin_response list \<times> bool, 'w) rd" where
  "submitZipkinBatch_result_read P = arg_read P 0 T_LIST (\<lambda>_. read_list P (ZipkinResponse_read P zipkin_response0)) []"

definition submitZipkinBatch_result_write :: "zipkin_response list option \<Rightarrow> call list" where
  "submitZipkinBatch_result_write = result_write ''ZipkinCollector_submitZipkinBatch_result'' T_LIST (write_list ZipkinResponse_write)"

definition submitZipkinBatch_presult_read :: "'w protocol \<Rightarrow> zipkin_response list \<Rightarrow> (zipkin_response list \<times> bool, 'w) rd" where
  "submitZipkinBatch_presult_read P = arg_read P 0 T_LIST (\<lambda>_. read_list P (ZipkinResponse_read P zipkin_response0))"

definition send_submitZipkinBatch :: "zipkin_span list \<Rightarrow> call list" where
  "send_submitZipkinBatch spans = send_call ''submitZipkinBatch'' (submitZipkinBatch_pargs_write spans)"

definition recv_submitZipkinBatch :: "'w protocol \<Rightarrow> 'w app_format \<Rightarrow> zipkin_response list \<Rightarrow> (app_exception + zipkin_response list, 'w) rd" where
  "recv_submitZipkinBatch P A return = recv_call P A ''submitZipkinBatch'' (submitZipkinBatch_presult_read P return)"

definition process_submitZipkinBatch ::
  "'w protocol \<Rightarrow> 'w app_format \<Rightarrow> (zipkin_span list \<Rightarrow> exception + zipkin_response list) \<Rightarrow> 32 word \<Rightarrow> (exception + call list, 'w) rd" where
  "process_submitZipkinBatch P A = process_call P A ''submitZipkinBatch'' (submitZipkinBatch_args_read P) submitZipkinBatch_result_write"

definition ZipkinCollector_dispatchCall ::
  "'w protocol \<Rightarrow> 'w app_format \<Rightarrow> (zipkin_span list \<Rightarrow> exception + zipkin_response list) \<Rightarrow> string \<Rightarrow> 32 word \<Rightarrow>
   (exception + call list, 'w) rd" where
  "ZipkinCollector_dispatchCall P A iface = answer_call P A [''submitZipkinBatch'' \<mapsto> process_submitZipkinBatch P A iface]"

section \<open>The agent\<close>

definition emitZipkinBatch_args_read :: "'w protocol \<Rightarrow> (zipkin_span list \<times> bool, 'w) rd" where
  "emitZipkinBatch_args_read P = arg_read P 1 T_LIST (\<lambda>_. read_list P (ZipkinSpan_read P zipkin_span0)) []"

definition emitZipkinBatch_args_write :: "zipkin_span list \<Rightarrow> call list" where
  "emitZipkinBatch_args_write spans =
     arg_write ''Agent_emitZipkinBatch_args'' ''spans'' T_LIST (write_list ZipkinSpan_write spans)"

definition emitZipkinBatch_pargs_write :: "zipkin_span list \<Rightarrow> call list" where
  "emitZipkinBatch_pargs_write spans =
     arg_write ''Agent_emitZipkinBatch_pargs'' ''spans'' T_LIST (write_list ZipkinSpan_write spans)"

definition send_emitZipkinBatch :: "zipkin_span list \<Rightarrow> call list" where
  "send_emitZipkinBatch spans = send_oneway ''emitZipkinBatch'' (emitZipkinBatch_pargs_write spans)"

definition process_emitZipkinBatch :: "'w protocol \<Rightarrow> (zipkin_span list, 'w) rd" where
  "process_emitZipkinBatch P = process_oneway P (emitZipkinBatch_args_read P)"

text \<open>The agent has both methods. What each gives to its handler is one of:\<close>

datatype agent_call = Emitted thrift_batch | ZipkinEmitted "zipkin_span list"

definition Agent_dispatchCall :: "'w protocol \<Rightarrow> string \<Rightarrow> (string + agent_call, 'w) rd" where
  "Agent_dispatchCall P = dispatchCall P
     [''emitBatch'' \<mapsto> rbind (process_emitBatch P) (\<lambda>b. rret (Emitted b)),
      ''emitZipkinBatch'' \<mapsto> rbind (process_emitZipkinBatch P) (\<lambda>spans. rret (ZipkinEmitted spans))]"

section \<open>What is read\<close>

lemma AnnotationType_inverse [simp]: "AnnotationType_of (AnnotationType_value t) = Some t"
  by (cases t) (simp_all add: AnnotationType_of_def)

lemmas Zipkin_fields_at =
  Endpoint_field_def [where fid = 1, simplified] Endpoint_field_def [where fid = 2, simplified]
  Endpoint_field_def [where fid = 3, simplified] Endpoint_field_def [where fid = 4, simplified]
  Annotation_field_def [where fid = 1, simplified] Annotation_field_def [where fid = 2, simplified]
  BinaryAnnotation_field_def [where fid = 1, simplified] BinaryAnnotation_field_def [where fid = 2, simplified]
  BinaryAnnotation_field_def [where fid = 3, simplified]
  ZipkinSpan_field_def [where fid = 1, simplified] ZipkinSpan_field_def [where fid = 3, simplified]
  ZipkinSpan_field_def [where fid = 4, simplified] ZipkinSpan_field_def [where fid = 5, simplified]
  ZipkinSpan_field_def [where fid = 6, simplified] ZipkinSpan_field_def [where fid = 8, simplified]
  ZipkinSpan_field_def [where fid = 9, simplified] ZipkinSpan_field_def [where fid = 10, simplified]
  ZipkinSpan_field_def [where fid = 11, simplified] ZipkinSpan_field_def [where fid = 12, simplified]
  ZipkinResponse_field_def [where fid = 1, simplified]

lemmas zipkin_rules = serves_base serves_enum [where decode = AnnotationType_of, OF AnnotationType_inverse]

lemma Endpoint_serves: "serves P (Endpoint_write e) (Endpoint_read P endpoint0) e"
  unfolding Endpoint_write_def Endpoint_read_def
  by (rule serves_struct [where seen = "{1, 2, 3}"], simp, rule steps_eq,
      (rule steps_append | rule steps_on_type steps_opt_type, simp, rule Zipkin_fields_at, rule zipkin_rules)+)
    (cases e; auto simp: put_defs endpoint0_def split: option.splits)

lemma ZipkinResponse_serves: "serves P (ZipkinResponse_write r) (ZipkinResponse_read P old) r"
  unfolding ZipkinResponse_write_def ZipkinResponse_read_def
  by (rule serves_struct [where seen = "{1}"], simp, rule steps_eq,
      rule steps_on_type, simp, rule Zipkin_fields_at, rule zipkin_rules)
    (cases r; simp add: put_defs)

text \<open>The host of an annotation, read into one that has none yet.\<close>

lemma Annotation_serves: "serves P (Annotation_write a) (Annotation_read P annotation0) a"
proof -
  have host: "steps P (Annotation_field P) (write_opt ''host'' T_STRUCT 3 Endpoint_write (za_host a)) s
      (case za_host a of None \<Rightarrow> s | Some h \<Rightarrow> optional (\<lambda>v. za_host_update (\<lambda>_. Some v)) h s)"
    if "za_host (fst s) = None" for s
    by (rule steps_opt_type [where put = "optional (\<lambda>v. za_host_update (\<lambda>_. Some v))"])
      (simp, simp only: that Annotation_field_def [where fid = 3, simplified] option.case, rule Endpoint_serves)
  show ?thesis
    unfolding Annotation_write_def Annotation_read_def
    by (rule serves_struct [where seen = "{1, 2}"], simp, rule steps_eq,
        (rule steps_append | rule host | rule steps_on_type, simp, rule Zipkin_fields_at, rule zipkin_rules)+)
      (cases a; auto simp: put_defs annotation0_def split: option.splits)+
qed

lemma BinaryAnnotation_serves: "serves P (BinaryAnnotation_write b) (BinaryAnnotation_read P binary_annotation0) b"
proof -
  have host: "steps P (BinaryAnnotation_field P) (write_opt ''host'' T_STRUCT 4 Endpoint_write (zb_host b)) s
      (case zb_host b of None \<Rightarrow> s | Some h \<Rightarrow> optional (\<lambda>v. zb_host_update (\<lambda>_. Some v)) h s)"
    if "zb_host (fst s) = None" for s
    by (rule steps_opt_type [where put = "optional (\<lambda>v. zb_host_update (\<lambda>_. Some v))"])
      (simp, simp only: that BinaryAnnotation_field_def [where fid = 4, simplified] option.case, rule Endpoint_serves)
  show ?thesis
    unfolding BinaryAnnotation_write_def BinaryAnnotation_read_def
    by (rule serves_struct [where seen = "{1, 2, 3}"], simp, rule steps_eq,
        (rule steps_append | rule host | rule steps_on_type, simp, rule Zipkin_fields_at, rule zipkin_rules)+)
      (cases b; auto simp: put_defs binary_annotation0_def split: option.splits)+
qed

text \<open>A span sent with its debug bit clear is read with it set.\<close>

definition debug_set :: "zipkin_span \<Rightarrow> zipkin_span" where
  "debug_set s = s\<lparr>zs_debug := Some (case zs_debug s of None \<Rightarrow> False | Some b \<Rightarrow> b)\<rparr>"

definition Zipkin_fits :: "zipkin_span \<Rightarrow> bool" where
  "Zipkin_fits s \<longleftrightarrow> fits (zs_annotations s) \<and> fits (zs_binary_annotations s)"

lemma ZipkinSpan_serves:
  assumes "Zipkin_fits s"
  shows "serves P (ZipkinSpan_write s) (ZipkinSpan_read P zipkin_span0) (debug_set s)"
proof -
  have lists: "serves P (write_list Annotation_write (zs_annotations s)) (read_list P (Annotation_read P annotation0)) (zs_annotations s)"
      "serves P (write_list BinaryAnnotation_write (zs_binary_annotations s))
        (read_list P (BinaryAnnotation_read P binary_annotation0)) (zs_binary_annotations s)"
    using assms by (auto simp: Zipkin_fits_def intro: serves_fitting Annotation_serves BinaryAnnotation_serves)
  show ?thesis
    unfolding ZipkinSpan_write_def ZipkinSpan_read_def
    by (rule serves_struct [where seen = "{1, 3, 4, 6, 8}"], simp, rule steps_eq,
        (rule steps_append | rule steps_on_type steps_opt_type, simp, rule Zipkin_fields_at, rule zipkin_rules lists)+)
      (cases s; auto simp: put_defs zipkin_span0_def debug_set_def split: option.splits)
qed

lemma zipkin_spans_serve:
  assumes "fits spans" and "list_all Zipkin_fits spans"
  shows "serves P (write_list ZipkinSpan_write spans) (read_list P (ZipkinSpan_read P zipkin_span0)) (map debug_set spans)"
  using assms by (intro serves_list_map ZipkinSpan_serves) (auto simp: fits_def list_all_iff)

lemma debug_set_same: "zs_debug s \<noteq> None \<Longrightarrow> debug_set s = s"
  by (cases s) (auto simp: debug_set_def)

definition zipkin_batch_ok :: "zipkin_span list \<Rightarrow> bool" where
  "zipkin_batch_ok spans \<longleftrightarrow> fits spans \<and> list_all Zipkin_fits spans \<and> list_all (\<lambda>s. zs_debug s \<noteq> None) spans"

lemmas submitZipkinBatch_defs = submitZipkinBatch_pargs_write_def submitZipkinBatch_args_read_def
  submitZipkinBatch_result_write_def submitZipkinBatch_presult_read_def

lemma zipkin_batch_serves:
  assumes "zipkin_batch_ok spans"
  shows "serves P (write_list ZipkinSpan_write spans) (read_list P (ZipkinSpan_read P zipkin_span0)) spans"
proof -
  have "map debug_set spans = spans"
    using assms by (intro map_idI debug_set_same) (simp add: zipkin_batch_ok_def list_all_iff)
  with zipkin_spans_serve [of spans P] assms show ?thesis by (simp add: zipkin_batch_ok_def)
qed

interpretation submitZipkinBatch: remote_method P "''submitZipkinBatch''" submitZipkinBatch_pargs_write
  "submitZipkinBatch_args_read P" submitZipkinBatch_result_write "submitZipkinBatch_presult_read P old"
  zipkin_batch_ok fits for P old
  by unfold_locales
    (simp_all add: submitZipkinBatch_defs arg_write_serves result_write_serves zipkin_batch_serves
      serves_fitting ZipkinResponse_serves)

section \<open>Properties\<close>

lemma process_emitZipkinBatch_serves:
  assumes "fits spans" and "list_all Zipkin_fits spans"
  shows "serves P (emitZipkinBatch_pargs_write spans @ [CMessageEnd]) (process_emitZipkinBatch P) (map debug_set spans)"
  unfolding process_emitZipkinBatch_def process_oneway_def emitZipkinBatch_pargs_write_def emitZipkinBatch_args_read_def
  by (rule serves_bind [OF arg_write_serves(1) [OF _ zipkin_spans_serve [OF assms]]]) (simp_all add: serves_end)

text \<open>The agent receives the Zipkin spans a client emits, in their order and with all their
  annotations, except that a span whose debug bit was clear arrives with it set, to false.\<close>

lemma zipkin_batch_delivered:
  assumes "fits spans" and "list_all Zipkin_fits spans" and "carry P (send_emitZipkinBatch spans) w = Some u"
  shows "\<exists>w1. rd_MessageBegin P w = Some (Inr ((''emitZipkinBatch'', T_ONEWAY, 0), w1)) \<and>
    Agent_dispatchCall P ''emitZipkinBatch'' w1 = Some (Inr (Inr (ZipkinEmitted (map debug_set spans)), u))"
proof -
  obtain w1 where w1: "rd_MessageBegin P w = Some (Inr ((''emitZipkinBatch'', T_ONEWAY, 0), w1))"
    and rest: "carry P (emitZipkinBatch_pargs_write spans @ [CMessageEnd]) w1 = Some u"
    using assms(3) by (auto simp: send_emitZipkinBatch_def send_oneway_def bind_eq_Some_conv)
  from servesD [OF process_emitZipkinBatch_serves [OF assms(1,2)] rest] w1 show ?thesis
    by (simp add: Agent_dispatchCall_def dispatchCall_def rret_def)
qed

definition example_zipkin_span :: zipkin_span where
  "example_zipkin_span = zipkin_span0\<lparr>zs_trace_id := 7, zs_annotations := [\<lparr>za_timestamp = 1, za_value = ''cs'', za_host = Some endpoint0\<rparr>],
     zs_binary_annotations := [binary_annotation0\<lparr>zb_annotation_type := Z_I64\<rparr>], zs_debug := None, zs_duration := Some 5\<rparr>"

lemma zipkin_batch_delivered_witness:
  "\<exists>w1. rd_MessageBegin tokens (send_emitZipkinBatch [example_zipkin_span]) =
      Some (Inr ((''emitZipkinBatch'', T_ONEWAY, 0), w1)) \<and>
    Agent_dispatchCall tokens ''emitZipkinBatch'' w1 =
      Some (Inr (Inr (ZipkinEmitted [example_zipkin_span\<lparr>zs_debug := Some False\<rparr>]), []))"
  using zipkin_batch_delivered [of "[example_zipkin_span]", OF _ _ tokens_carry_all]
  by (simp add: fits_def Zipkin_fits_def example_zipkin_span_def debug_set_def zipkin_span0_def)

end
