(* ===== verification/ThriftConcurrent.thy ===== *)
theory ThriftConcurrent
  imports TracedThrift Zipkin
begin

text \<open>
  The clients of the generated services that several threads share (the classes
  \<^verbatim>\<open>...ConcurrentClient\<close> of \<^verbatim>\<open>thrift-gen/*.cpp\<close>). What \<^verbatim>\<open>sync_\<close> does is of the Thrift library: it hands
  out sequence numbers, lets one thread read at a time, keeps a header that was read for another
  call, wakes the threads that wait, and fails every later call once a thread leaves without
  \<^verbatim>\<open>commit\<close>. A turn is what a thread does between getting the reading lock and letting it go.
\<close>

section \<open>A turn of a receiving thread\<close>

type_synonym message_header = "string \<times> message_type \<times> 32 word"

datatype concurrent_error = AppFailure app_exception | InvalidData

datatype 'r recv_turn =
    HandOver message_header
  | Commit "app_exception + 'r"
  | NoCommit concurrent_error

definition concurrent_send :: "string \<Rightarrow> 32 word \<Rightarrow> call list \<Rightarrow> call list" where
  "concurrent_send name cseqid pargs = CMessageBegin name T_CALL cseqid # pargs @ [CMessageEnd]"

definition concurrent_send_oneway :: "string \<Rightarrow> call list \<Rightarrow> call list" where
  "concurrent_send_oneway name pargs = CMessageBegin name T_ONEWAY 0 # pargs @ [CMessageEnd]"

definition concurrent_recv ::
  "'w protocol \<Rightarrow> 'w app_format \<Rightarrow> string \<Rightarrow> ('r \<times> bool, 'w) rd \<Rightarrow> 32 word \<Rightarrow> message_header option \<Rightarrow>
   ('r recv_turn, 'w) rd" where
  "concurrent_recv P A name presult_read seqid pending =
     rbind (case pending of Some h \<Rightarrow> rret h | None \<Rightarrow> rd_MessageBegin P) (\<lambda>(fname, mtype, rseqid).
     if seqid = rseqid then
       if mtype = T_EXCEPTION then
         rbind (app_read A) (\<lambda>x. rbind (rd_MessageEnd P) (\<lambda>_. rret (Commit (Inl x))))
       else
         rbind (skip_unless P (mtype = T_REPLY)) (\<lambda>_.
         if fname \<noteq> name then
           rbind (skip_unless P False) (\<lambda>_. rret (NoCommit InvalidData))
         else
           rbind presult_read (\<lambda>(success, isset).
           rbind (rd_MessageEnd P) (\<lambda>_.
           rret (if isset then Commit (Inr success)
                 else NoCommit (AppFailure (MISSING_RESULT, name @ '' failed: unknown result''))))))
     else rret (HandOver (fname, mtype, rseqid)))"

section \<open>The services\<close>

definition concurrent_send_getSamplingStrategy :: "32 word \<Rightarrow> string \<Rightarrow> call list" where
  "concurrent_send_getSamplingStrategy cseqid service = concurrent_send ''getSamplingStrategy'' cseqid (getSamplingStrategy_pargs_write service)"

definition concurrent_recv_getSamplingStrategy ::
  "'w protocol \<Rightarrow> 'w app_format \<Rightarrow> strategy_response \<Rightarrow> 32 word \<Rightarrow> message_header option \<Rightarrow>
   ((strategy_response) recv_turn, 'w) rd" where
  "concurrent_recv_getSamplingStrategy P A return =
     concurrent_recv P A ''getSamplingStrategy'' (getSamplingStrategy_presult_read P return)"

definition concurrent_send_getBaggageRestrictions :: "32 word \<Rightarrow> string \<Rightarrow> call list" where
  "concurrent_send_getBaggageRestrictions cseqid service = concurrent_send ''getBaggageRestrictions'' cseqid (getBaggageRestrictions_pargs_write service)"

definition concurrent_recv_getBaggageRestrictions ::
  "'w protocol \<Rightarrow> 'w app_format \<Rightarrow> (string \<times> int) list \<Rightarrow> 32 word \<Rightarrow> message_header option \<Rightarrow>
   (((string \<times> int) list) recv_turn, 'w) rd" where
  "concurrent_recv_getBaggageRestrictions P A return =
     concurrent_recv P A ''getBaggageRestrictions'' (getBaggageRestrictions_presult_read P return)"

definition concurrent_send_submitBatches :: "32 word \<Rightarrow> thrift_batch list \<Rightarrow> call list" where
  "concurrent_send_submitBatches cseqid batches = concurrent_send ''submitBatches'' cseqid (submitBatches_pargs_write batches)"

definition concurrent_recv_submitBatches ::
  "'w protocol \<Rightarrow> 'w app_format \<Rightarrow> batch_submit_response list \<Rightarrow> 32 word \<Rightarrow> message_header option \<Rightarrow>
   ((batch_submit_response list) recv_turn, 'w) rd" where
  "concurrent_recv_submitBatches P A return =
     concurrent_recv P A ''submitBatches'' (submitBatches_presult_read P return)"

definition concurrent_send_validateTrace :: "32 word \<Rightarrow> string \<Rightarrow> call list" where
  "concurrent_send_validateTrace cseqid traceId = concurrent_send ''validateTrace'' cseqid (validateTrace_pargs_write traceId)"

definition concurrent_recv_validateTrace ::
  "'w protocol \<Rightarrow> 'w app_format \<Rightarrow> validate_trace_response \<Rightarrow> 32 word \<Rightarrow> message_header option \<Rightarrow>
   ((validate_trace_response) recv_turn, 'w) rd" where
  "concurrent_recv_validateTrace P A return =
     concurrent_recv P A ''validateTrace'' (validateTrace_presult_read P return)"

definition concurrent_send_getDependenciesForTrace :: "32 word \<Rightarrow> string \<Rightarrow> call list" where
  "concurrent_send_getDependenciesForTrace cseqid traceId = concurrent_send ''getDependenciesForTrace'' cseqid (getDependenciesForTrace_pargs_write traceId)"

definition concurrent_recv_getDependenciesForTrace ::
  "'w protocol \<Rightarrow> 'w app_format \<Rightarrow> dependency_link list \<Rightarrow> 32 word \<Rightarrow> message_header option \<Rightarrow>
   ((dependency_link list) recv_turn, 'w) rd" where
  "concurrent_recv_getDependenciesForTrace P A return =
     concurrent_recv P A ''getDependenciesForTrace'' (getDependenciesForTrace_presult_read P return)"

definition concurrent_send_submitZipkinBatch :: "32 word \<Rightarrow> zipkin_span list \<Rightarrow> call list" where
  "concurrent_send_submitZipkinBatch cseqid spans = concurrent_send ''submitZipkinBatch'' cseqid (submitZipkinBatch_pargs_write spans)"

definition concurrent_recv_submitZipkinBatch ::
  "'w protocol \<Rightarrow> 'w app_format \<Rightarrow> zipkin_response list \<Rightarrow> 32 word \<Rightarrow> message_header option \<Rightarrow>
   ((zipkin_response list) recv_turn, 'w) rd" where
  "concurrent_recv_submitZipkinBatch P A return =
     concurrent_recv P A ''submitZipkinBatch'' (submitZipkinBatch_presult_read P return)"

definition concurrent_send_startTrace :: "32 word \<Rightarrow> start_trace_request \<Rightarrow> call list" where
  "concurrent_send_startTrace cseqid request = concurrent_send ''startTrace'' cseqid (startTrace_pargs_write request)"

definition concurrent_recv_startTrace ::
  "'w protocol \<Rightarrow> 'w app_format \<Rightarrow> trace_response \<Rightarrow> 32 word \<Rightarrow> message_header option \<Rightarrow>
   ((trace_response) recv_turn, 'w) rd" where
  "concurrent_recv_startTrace P A return =
     concurrent_recv P A ''startTrace'' (startTrace_presult_read P return)"

definition concurrent_send_joinTrace :: "32 word \<Rightarrow> join_trace_request \<Rightarrow> call list" where
  "concurrent_send_joinTrace cseqid request = concurrent_send ''joinTrace'' cseqid (joinTrace_pargs_write request)"

definition concurrent_recv_joinTrace ::
  "'w protocol \<Rightarrow> 'w app_format \<Rightarrow> trace_response \<Rightarrow> 32 word \<Rightarrow> message_header option \<Rightarrow>
   ((trace_response) recv_turn, 'w) rd" where
  "concurrent_recv_joinTrace P A return =
     concurrent_recv P A ''joinTrace'' (joinTrace_presult_read P return)"

definition concurrent_send_saveDependencies :: "dependency_link list \<Rightarrow> call list" where
  "concurrent_send_saveDependencies dependencies = concurrent_send_oneway ''saveDependencies'' (saveDependencies_pargs_write dependencies)"

definition concurrent_send_emitZipkinBatch :: "zipkin_span list \<Rightarrow> call list" where
  "concurrent_send_emitZipkinBatch spans = concurrent_send_oneway ''emitZipkinBatch'' (emitZipkinBatch_pargs_write spans)"

definition concurrent_send_emitBatch :: "thrift_batch \<Rightarrow> call list" where
  "concurrent_send_emitBatch batch = concurrent_send_oneway ''emitBatch'' (emitBatch_pargs_write batch)"

section \<open>A connection that threads share\<close>

text \<open>
  What is left to read, the header that was read for another call, the calls that wait and the names
  of their methods, and what calls have returned, in order. A connection that failed stays so.
\<close>

record ('r, 'w) connection =
  cn_wire :: 'w
  cn_pending :: "message_header option"
  cn_waiting :: "32 word \<Rightarrow> string option"
  cn_returned :: "(32 word \<times> (app_exception + 'r)) list"
  cn_failed :: bool

text \<open>Any thread whose call waits may get the lock; \<^verbatim>\<open>updatePending\<close> fails for a number that no call has.\<close>

definition take_turn ::
  "(string \<Rightarrow> 32 word \<Rightarrow> message_header option \<Rightarrow> ('r recv_turn, 'w) rd) \<Rightarrow> 32 word \<Rightarrow> string \<Rightarrow>
   ('r, 'w) connection \<Rightarrow> ('r, 'w) connection option" where
  "take_turn recv s name c =
     Option.bind (recv name s (cn_pending c) (cn_wire c)) (\<lambda>r. Some (case r of
       Inl e \<Rightarrow> c\<lparr>cn_failed := True\<rparr>
     | Inr (HandOver h, w) \<Rightarrow>
         c\<lparr>cn_wire := w, cn_pending := Some h, cn_failed := (cn_waiting c (snd (snd h)) = None)\<rparr>
     | Inr (Commit res, w) \<Rightarrow>
         c\<lparr>cn_wire := w, cn_pending := None, cn_waiting := (cn_waiting c)(s := None),
           cn_returned := cn_returned c @ [(s, res)]\<rparr>
     | Inr (NoCommit e, w) \<Rightarrow> c\<lparr>cn_failed := True\<rparr>))"

inductive connection_step ::
  "(string \<Rightarrow> 32 word \<Rightarrow> message_header option \<Rightarrow> ('r recv_turn, 'w) rd) \<Rightarrow>
   ('r, 'w) connection \<Rightarrow> ('r, 'w) connection \<Rightarrow> bool" for recv where
  "\<not> cn_failed c \<Longrightarrow> cn_waiting c s = Some name \<Longrightarrow> take_turn recv s name c = Some c' \<Longrightarrow> connection_step recv c c'"

section \<open>Answers reach their callers\<close>

text \<open>The answer to call \<open>s\<close> as a processor writes it.\<close>

definition answer_to ::
  "'w app_format \<Rightarrow> (string \<Rightarrow> 'r option \<Rightarrow> call list) \<Rightarrow> 32 word \<times> string \<times> (exception + 'r) \<Rightarrow> call list" where
  "answer_to A wr a =
     (case a of (s, name, outcome) \<Rightarrow> (case answer A name (wr name) s outcome of Inr out \<Rightarrow> out | Inl _ \<Rightarrow> []))"

definition answer_header :: "32 word \<times> string \<times> (exception + 'r) \<Rightarrow> message_header" where
  "answer_header a = (case a of (s, name, outcome) \<Rightarrow> (name, (if isl outcome then T_EXCEPTION else T_REPLY), s))"

definition answer_body ::
  "'w app_format \<Rightarrow> (string \<Rightarrow> 'r option \<Rightarrow> call list) \<Rightarrow> 32 word \<times> string \<times> (exception + 'r) \<Rightarrow> call list" where
  "answer_body A wr a = tl (answer_to A wr a)"

definition seen_by :: "32 word \<times> string \<times> (exception + 'r) \<Rightarrow> 32 word \<times> (app_exception + 'r)" where
  "seen_by a = (fst a, outcome_seen (snd (snd a)))"

definition answerable :: "('r \<Rightarrow> bool) \<Rightarrow> string set \<Rightarrow> 32 word \<times> string \<times> (exception + 'r) \<Rightarrow> bool" where
  "answerable result_ok methods a \<longleftrightarrow>
     fst (snd a) \<in> methods \<and>
     (case snd (snd a) of Inr r \<Rightarrow> result_ok r | Inl e \<Rightarrow> exception_what e \<noteq> None)"

text \<open>What is on the wire and was read ahead, when the answers \<open>due\<close> are still to be received.\<close>

definition still_to_come ::
  "'w protocol \<Rightarrow> 'w app_format \<Rightarrow> (string \<Rightarrow> 'r option \<Rightarrow> call list) \<Rightarrow>
   (32 word \<times> string \<times> (exception + 'r)) list \<Rightarrow> ('r, 'w) connection \<Rightarrow> bool" where
  "still_to_come P A wr due c \<longleftrightarrow>
     (case cn_pending c of
        None \<Rightarrow> carry P (concat (map (answer_to A wr) due)) (cn_wire c) \<noteq> None
      | Some h \<Rightarrow> due \<noteq> [] \<and> h = answer_header (hd due) \<and>
          carry P (answer_body A wr (hd due) @ concat (map (answer_to A wr) (tl due))) (cn_wire c) \<noteq> None)"

definition connection_inv ::
  "'w protocol \<Rightarrow> 'w app_format \<Rightarrow> (string \<Rightarrow> 'r option \<Rightarrow> call list) \<Rightarrow>
   (32 word \<times> string \<times> (exception + 'r)) list \<Rightarrow> (32 word \<times> string \<times> (exception + 'r)) list \<Rightarrow>
   ('r, 'w) connection \<Rightarrow> bool" where
  "connection_inv P A wr got due c \<longleftrightarrow>
     \<not> cn_failed c \<and> cn_returned c = map seen_by got \<and>
     cn_waiting c = map_of (map (\<lambda>(s, name, outcome). (s, name)) due) \<and> still_to_come P A wr due c"

definition asked :: "(32 word \<times> string \<times> (exception + 'r)) list \<Rightarrow> 'w \<Rightarrow> ('r, 'w) connection" where
  "asked ans w =
     \<lparr>cn_wire = w, cn_pending = None, cn_waiting = map_of (map (\<lambda>(s, name, outcome). (s, name)) ans),
      cn_returned = [], cn_failed = False\<rparr>"

text \<open>What the methods of a service promise: a result is read as it was written, by the method's own name.\<close>

locale concurrent_service =
  fixes P :: "'w protocol" and A :: "'w app_format"
    and recv :: "string \<Rightarrow> 32 word \<Rightarrow> message_header option \<Rightarrow> ('r recv_turn, 'w) rd"
    and presult_read :: "string \<Rightarrow> ('r \<times> bool, 'w) rd" and wr :: "string \<Rightarrow> 'r option \<Rightarrow> call list"
    and methods :: "string set" and result_ok :: "'r \<Rightarrow> bool"
  assumes receives: "name \<in> methods \<Longrightarrow> recv name = concurrent_recv P A name (presult_read name)"
    and result_read: "name \<in> methods \<Longrightarrow> result_ok r \<Longrightarrow> serves P (wr name (Some r)) (presult_read name) (r, True)"
begin

lemma answer_split:
  assumes "answerable result_ok methods a"
  shows "answer_to A wr a = (case answer_header a of (n, t, i) \<Rightarrow> CMessageBegin n t i # answer_body A wr a)"
  using assms
  by (cases a)
    (auto simp: answer_to_def answer_body_def answer_header_def answerable_def answer_def split: sum.splits option.splits)

lemma own_turn:
  assumes "answerable result_ok methods a" and "app_back P A"
  shows "serves P (answer_body A wr a) (recv (fst (snd a)) (fst a) (Some (answer_header a))) (Commit (snd (seen_by a)))"
proof -
  obtain s name outcome where a: "a = (s, name, outcome)" by (metis prod_cases3)
  have m: "name \<in> methods" using assms(1) by (simp add: answerable_def a)
  show ?thesis
  proof (cases outcome)
    case (Inl e)
    then obtain what where w: "exception_what e = Some what" using assms(1) by (auto simp: answerable_def a)
    have "serves P (app_write A (UNKNOWN, what) @ [CMessageEnd])
        (rbind (app_read A) (\<lambda>x. rbind (rd_MessageEnd P) (\<lambda>_. rret (Commit (Inl x))))) (Commit (Inl (UNKNOWN, what)) :: 'r recv_turn)"
      using assms(2) by (intro serves_bind [where v = "(UNKNOWN, what)"]) (simp_all add: app_back_def serves_end del: split_paired_All)
    then show ?thesis
      by (simp add: a Inl w receives [OF m] concurrent_recv_def answer_body_def answer_to_def answer_def answer_header_def
          seen_by_def outcome_seen_def rbind_rret [abs_def])
  next
    case (Inr r)
    then have "result_ok r" using assms(1) by (simp add: answerable_def a)
    from result_read [OF m this] have "serves P (wr name (Some r) @ [CMessageEnd])
        (rbind (presult_read name) (\<lambda>(success, isset). rbind (rd_MessageEnd P) (\<lambda>_.
           rret (if isset then Commit (Inr success)
                 else NoCommit (AppFailure (MISSING_RESULT, name @ '' failed: unknown result'')))))) (Commit (Inr r))"
      by (rule serves_bind) (simp add: serves_end)
    then show ?thesis
      by (simp add: a Inr receives [OF m] concurrent_recv_def answer_body_def answer_to_def answer_def answer_header_def
          seen_by_def outcome_seen_def skip_unless_def rbind_rret [abs_def])
  qed
qed

lemma read_ahead:
  "name \<in> methods \<Longrightarrow> rd_MessageBegin P w = Some (Inr (h, w1)) \<Longrightarrow> recv name s None w = recv name s (Some h) w1"
  by (simp add: receives concurrent_recv_def)

lemma other_turn:
  "name \<in> methods \<Longrightarrow> s \<noteq> snd (snd h) \<Longrightarrow> recv name s (Some h) w = Some (Inr (HandOver h, w))"
  by (cases h) (simp add: receives concurrent_recv_def rret_def)

text \<open>The header comes from the wire or was read ahead; then the body is there to be read.\<close>

lemma header_read:
  assumes "still_to_come P A wr (a # due) c" and "answerable result_ok methods a" and "name \<in> methods"
  obtains w where "recv name s (cn_pending c) (cn_wire c) = recv name s (Some (answer_header a)) w"
    "carry P (answer_body A wr a @ concat (map (answer_to A wr) due)) w \<noteq> None"
proof (cases "cn_pending c")
  case None
  obtain n t i where h: "answer_header a = (n, t, i)" by (metis prod_cases3)
  from None assms(1) have "carry P (answer_to A wr a @ concat (map (answer_to A wr) due)) (cn_wire c) \<noteq> None"
    by (simp add: still_to_come_def)
  then obtain w where "rd_MessageBegin P (cn_wire c) = Some (Inr ((n, t, i), w))"
      "carry P (answer_body A wr a @ concat (map (answer_to A wr) due)) w \<noteq> None"
    by (auto simp: answer_split [OF assms(2)] h bind_eq_Some_conv simp del: not_None_eq simp flip: not_None_eq)
  then show ?thesis using that read_ahead [OF assms(3)] by (simp add: None h)
next
  case (Some h)
  then show ?thesis using assms(1) that by (simp add: still_to_come_def)
qed

lemma waiting_answer:
  "cn_waiting c s = Some name \<Longrightarrow> connection_inv P A wr got due c \<Longrightarrow> \<exists>outcome. (s, name, outcome) \<in> set due"
  by (auto simp: connection_inv_def dest!: map_of_SomeD)

lemma connection_turn:
  assumes "connection_inv P A wr got (a # due) c" and "distinct (map fst (a # due))" and "app_back P A"
    and "\<forall>x \<in> set (a # due). answerable result_ok methods x" and "cn_waiting c s = Some name"
  obtains c' where "take_turn recv s name c = Some c'"
    "if s = fst a then connection_inv P A wr (got @ [a]) due c' else connection_inv P A wr got (a # due) c'"
proof -
  obtain i n outcome where a: "a = (i, n, outcome)" by (metis prod_cases3)
  have inv: "\<not> cn_failed c" "cn_returned c = map seen_by got" "still_to_come P A wr (a # due) c"
      "cn_waiting c = (map_of (map (\<lambda>(s, name, outcome). (s, name)) due))(i \<mapsto> n)"
    using assms(1) by (simp_all add: connection_inv_def a)
  have ok: "answerable result_ok methods a" "name \<in> methods"
    using assms(4) waiting_answer [OF assms(5,1)] by (auto simp: answerable_def)
  obtain w where w: "recv name s (cn_pending c) (cn_wire c) = recv name s (Some (answer_header a)) w"
      "carry P (answer_body A wr a @ concat (map (answer_to A wr) due)) w \<noteq> None"
    by (rule header_read [OF inv(3) ok])
  have h: "snd (snd (answer_header a)) = i" by (simp add: answer_header_def a)
  show ?thesis
  proof (cases "s = i")
    case True
    then have n: "name = n" using assms(5) inv(4) by simp
    obtain u where u: "carry P (answer_body A wr a) w = Some u" "carry P (concat (map (answer_to A wr) due)) u \<noteq> None"
      using w(2) by (auto simp: bind_eq_Some_conv)
    have "recv n i (Some (answer_header a)) w = Some (Inr (Commit (snd (seen_by a)), u))"
      using own_turn [OF ok(1) assms(3)] u(1) by (simp add: serves_def a)
    then have turn: "take_turn recv s name c = Some (c\<lparr>cn_wire := u, cn_pending := None, cn_waiting := (cn_waiting c)(s := None),
        cn_returned := cn_returned c @ [(s, snd (seen_by a))]\<rparr>)"
      by (simp add: take_turn_def w(1) [unfolded True n] True n)
    have "map_of (map (\<lambda>(s, name, outcome). (s, name)) due) i = None"
      using assms(2) by (force simp: a map_of_eq_None_iff)
    then show ?thesis
      using inv u(2) by (intro that [OF turn]) (auto simp: connection_inv_def still_to_come_def a True seen_by_def fun_upd_idem)
  next
    case False
    then have turn: "take_turn recv s name c = Some (c\<lparr>cn_wire := w, cn_pending := Some (answer_header a), cn_failed := False\<rparr>)"
      using other_turn [OF ok(2), of s "answer_header a" w] by (simp add: take_turn_def w(1) h inv(4))
    then show ?thesis
      using inv w(2) False by (intro that [OF turn]) (auto simp: connection_inv_def still_to_come_def a)
  qed
qed

lemma owner_returns:
  assumes "connection_inv P A wr got (a # due) c" and "distinct (map fst (a # due))" and "app_back P A"
    and "\<forall>x \<in> set (a # due). answerable result_ok methods x"
  obtains c' where "connection_step recv c c'" "connection_inv P A wr (got @ [a]) due c'"
proof -
  have w: "cn_waiting c (fst a) = Some (fst (snd a))" and n: "\<not> cn_failed c"
    using assms(1) by (auto simp: connection_inv_def split: prod.splits)
  obtain c' where "take_turn recv (fst a) (fst (snd a)) c = Some c'" "connection_inv P A wr (got @ [a]) due c'"
    using connection_turn [OF assms w] by auto
  then show ?thesis using that connection_step.intros [OF n w] by blast
qed

lemma connection_run:
  assumes "(connection_step recv)\<^sup>*\<^sup>* (asked ans w) c" and "distinct (map fst ans)" and "app_back P A"
    and "\<forall>x \<in> set ans. answerable result_ok methods x"
    and "carry P (concat (map (answer_to A wr) ans)) w \<noteq> None"
  shows "\<exists>got due. ans = got @ due \<and> connection_inv P A wr got due c"
  using assms(1)
proof (induction rule: rtranclp_induct)
  case base
  then show ?case using assms(5) by (intro exI [of _ "[]"] exI [of _ ans]) (auto simp: connection_inv_def asked_def still_to_come_def)
next
  case (step c c')
  from step.IH obtain got due where inv: "ans = got @ due" "connection_inv P A wr got due c" by blast
  from step(2) obtain s name where turn: "cn_waiting c s = Some name" "take_turn recv s name c = Some c'"
    by (auto elim: connection_step.cases)
  then obtain a due' where due: "due = a # due'" using inv(2) by (cases due) (auto simp: connection_inv_def)
  have d: "distinct (map fst (a # due'))" "\<forall>x \<in> set (a # due'). answerable result_ok methods x"
    using assms(2,4) inv(1) due by auto
  obtain c'' where "take_turn recv s name c = Some c''"
      "if s = fst a then connection_inv P A wr (got @ [a]) due' c'' else connection_inv P A wr got (a # due') c''"
    by (rule connection_turn [OF inv(2) [unfolded due] d(1) assms(3) d(2) turn(1)])
  then have turned: "if s = fst a then connection_inv P A wr (got @ [a]) due' c' else connection_inv P A wr got (a # due') c'"
    using turn(2) by simp
  show ?case
  proof (cases "s = fst a")
    case True
    with turned have "connection_inv P A wr (got @ [a]) due' c'" by simp
    moreover have "ans = (got @ [a]) @ due'" using inv(1) due by simp
    ultimately show ?thesis by blast
  next
    case False
    with turned have "connection_inv P A wr got (a # due') c'" by simp
    moreover have "ans = got @ a # due'" using inv(1) due by simp
    ultimately show ?thesis by blast
  qed
qed

lemma calls_answered:
  assumes "(connection_step recv)\<^sup>*\<^sup>* (asked ans w) c" and "distinct (map fst ans)" and "app_back P A"
    and "\<forall>x \<in> set ans. answerable result_ok methods x"
    and "carry P (concat (map (answer_to A wr) ans)) w \<noteq> None"
  shows "\<not> cn_failed c \<and> (\<exists>k. cn_returned c = map seen_by (take k ans) \<and>
    (k < length ans \<longrightarrow> (\<exists>c'. connection_step recv c c' \<and> cn_returned c' = map seen_by (take (Suc k) ans))))"
proof -
  from connection_run [OF assms] obtain got due where inv: "ans = got @ due" "connection_inv P A wr got due c" by blast
  have "\<exists>c'. connection_step recv c c' \<and> cn_returned c' = map seen_by (take (Suc (length got)) ans)"
    if less: "length got < length ans"
  proof -
    obtain a due' where due: "due = a # due'" using less inv(1) by (cases due) auto
    have "distinct (map fst (a # due'))" "\<forall>x \<in> set (a # due'). answerable result_ok methods x"
      using assms(2,4) inv(1) due by auto
    from owner_returns [OF inv(2) [unfolded due] this(1) assms(3) this(2)]
    obtain c' where "connection_step recv c c'" "connection_inv P A wr (got @ [a]) due' c'" .
    then show ?thesis by (auto simp: connection_inv_def inv(1) due)
  qed
  moreover have "cn_returned c = map seen_by (take (length got) ans)" "\<not> cn_failed c"
    using inv by (simp_all add: connection_inv_def)
  ultimately show ?thesis by blast
qed

end

section \<open>The services keep the promise\<close>

interpretation concurrent_sampling: concurrent_service P A "\<lambda>name. concurrent_recv_getSamplingStrategy P A strategy_response0"
  "\<lambda>name. getSamplingStrategy_presult_read P strategy_response0" "\<lambda>name. getSamplingStrategy_result_write"
  "{''getSamplingStrategy''}" response_fits for P A
  by unfold_locales (auto simp: concurrent_recv_getSamplingStrategy_def getSamplingStrategy.result_back)

interpretation concurrent_restrictions: concurrent_service P A "\<lambda>name. concurrent_recv_getBaggageRestrictions P A old"
  "\<lambda>name. getBaggageRestrictions_presult_read P old" "\<lambda>name. getBaggageRestrictions_result_write"
  "{''getBaggageRestrictions''}" restrictions_fit for P A old
  by unfold_locales (auto simp: concurrent_recv_getBaggageRestrictions_def getBaggageRestrictions.result_back)

interpretation concurrent_collector: concurrent_service P A "\<lambda>name. concurrent_recv_submitBatches P A old"
  "\<lambda>name. submitBatches_presult_read P old" "\<lambda>name. submitBatches_result_write" "{''submitBatches''}" fits for P A old
  by unfold_locales (auto simp: concurrent_recv_submitBatches_def submitBatches.result_back)

interpretation concurrent_validator: concurrent_service P A "\<lambda>name. concurrent_recv_validateTrace P A old"
  "\<lambda>name. validateTrace_presult_read P old" "\<lambda>name. validateTrace_result_write" "{''validateTrace''}" "\<lambda>_. True" for P A old
  by unfold_locales (auto simp: concurrent_recv_validateTrace_def validateTrace.result_back)

interpretation concurrent_dependency: concurrent_service P A "\<lambda>name. concurrent_recv_getDependenciesForTrace P A old"
  "\<lambda>name. getDependenciesForTrace_presult_read P old" "\<lambda>name. getDependenciesForTrace_result_write"
  "{''getDependenciesForTrace''}" fits for P A old
  by unfold_locales (auto simp: concurrent_recv_getDependenciesForTrace_def getDependenciesForTrace.result_back)

interpretation concurrent_zipkin: concurrent_service P A "\<lambda>name. concurrent_recv_submitZipkinBatch P A old"
  "\<lambda>name. submitZipkinBatch_presult_read P old" "\<lambda>name. submitZipkinBatch_result_write" "{''submitZipkinBatch''}" fits for P A old
  by unfold_locales (auto simp: concurrent_recv_submitZipkinBatch_def submitZipkinBatch.result_back)

text \<open>The traced service has two methods, whose calls can be under way at the same time.\<close>

definition traced_recv ::
  "'w protocol \<Rightarrow> 'w app_format \<Rightarrow> string \<Rightarrow> 32 word \<Rightarrow> message_header option \<Rightarrow> (trace_response recv_turn, 'w) rd" where
  "traced_recv P A name =
     (if name = ''startTrace'' then concurrent_recv_startTrace P A trace_response0
      else concurrent_recv_joinTrace P A trace_response0)"

definition traced_result_write :: "string \<Rightarrow> trace_response option \<Rightarrow> call list" where
  "traced_result_write name = (if name = ''startTrace'' then startTrace_result_write else joinTrace_result_write)"

interpretation concurrent_traced: concurrent_service P A "traced_recv P A"
  "\<lambda>name. if name = ''startTrace'' then startTrace_presult_read P trace_response0 else joinTrace_presult_read P trace_response0"
  traced_result_write "{''startTrace'', ''joinTrace''}" "\<lambda>r. tr_downstream r = None" for P A
  by unfold_locales
    (auto simp: traced_recv_def traced_result_write_def concurrent_recv_startTrace_def concurrent_recv_joinTrace_def
      startTrace_call.result_back joinTrace_call.result_back)

section \<open>Properties\<close>

text \<open>C24. Threads that call \<^verbatim>\<open>startTrace\<close> and \<^verbatim>\<open>joinTrace\<close> over one connection each get their own answer, found by
  the number of its call, however the server orders the answers and whichever thread reads. Every response is without a nested one,
  which the client would read through a null pointer (a server that has handed its trace on always
  answers with one), and every exception has a text. Then the connection never fails, every call
  that has returned returned what the handler did for that call, and as long as an answer is
  outstanding the thread it is for can take it, even if another has read its header.\<close>

theorem concurrent_calls_answered:
  assumes "app_back P A" and "distinct (map fst ans)"
    and "\<forall>x \<in> set ans. answerable (\<lambda>r. tr_downstream r = None) {''startTrace'', ''joinTrace''} x"
    and "carry P (concat (map (answer_to A traced_result_write) ans)) w \<noteq> None"
    and "(connection_step (traced_recv P A))\<^sup>*\<^sup>* (asked ans w) c"
  shows "\<not> cn_failed c \<and> (\<exists>k. cn_returned c = map seen_by (take k ans) \<and>
    (k < length ans \<longrightarrow>
      (\<exists>c'. connection_step (traced_recv P A) c c' \<and> cn_returned c' = map seen_by (take (Suc k) ans))))"
  using concurrent_traced.calls_answered [OF assms(5,2,1,3,4)] .

definition two_answers :: "(32 word \<times> string \<times> (exception + trace_response)) list" where
  "two_answers = [(8, ''joinTrace'', Inl (RuntimeError ''no such trace'')), (7, ''startTrace'', Inr trace_response0)]"

theorem concurrent_calls_answered_witness:
  "\<exists>c'. connection_step (traced_recv tokens token_app)
      (asked two_answers (concat (map (answer_to token_app traced_result_write) two_answers))) c' \<and>
     cn_returned c' = [(8, Inl (UNKNOWN, ''no such trace''))]"
proof -
  have "distinct (map fst two_answers)"
    and "\<forall>x \<in> set two_answers. answerable (\<lambda>r. tr_downstream r = None) {''startTrace'', ''joinTrace''} x"
    by (simp_all add: two_answers_def answerable_def exception_what_def trace_response0_def)
  note this = concurrent_calls_answered [OF token_app_back this _ rtranclp.rtrancl_refl,
      of "concat (map (answer_to token_app traced_result_write) two_answers)"]
  from this obtain k where "[] = map seen_by (take k two_answers)" and more: "k < length two_answers \<longrightarrow>
      (\<exists>c'. connection_step (traced_recv tokens token_app)
        (asked two_answers (concat (map (answer_to token_app traced_result_write) two_answers))) c' \<and>
        cn_returned c' = map seen_by (take (Suc k) two_answers))"
    by (auto simp: tokens_carry_all asked_def)
  then have "k = 0" by (simp add: two_answers_def)
  with more show ?thesis by (simp add: two_answers_def seen_by_def outcome_seen_def exception_what_def)
qed

end
