(* ===== verification/Polling.thy ===== *)
theory Polling
  imports RemoteJSON
begin

text \<open>
  The threads that poll an agent: \<^verbatim>\<open>RemotelyControlledSampler::pollController\<close>
  (\<^verbatim>\<open>samplers/RemotelyControlledSampler.cpp\<close>) and \<^verbatim>\<open>RemoteRestrictionManager::poll\<close>
  (\<^verbatim>\<open>baggage/RemoteRestrictionManager.cpp\<close>), with \<^verbatim>\<open>close\<close> and the constructor that starts them. What
  is done while the mutex is held is one step; so is the wait of the condition variable, which tests
  its predicate and blocks without letting the mutex go in between. A blocked thread goes on when
  its time is over, when it is notified, or for no reason. A thread that has sent a request goes on
  when the agent has answered: \<^verbatim>\<open>net::http::get\<close> connects and reads without a time limit, and
  \<^verbatim>\<open>close\<close> does not interrupt it, so the answer is a step of the agent's and not of the thread's.
\<close>

section \<open>Threads that end\<close>

text \<open>
  A thread is asked to end by another, which then waits for it. It ends if it is never blocked but
  for an answer, and if only so many steps are left to it, whatever the others and the agent do.
\<close>

inductive interleaved :: "('s \<Rightarrow> 's \<Rightarrow> bool) \<Rightarrow> ('s \<Rightarrow> 's \<Rightarrow> bool) \<Rightarrow> nat \<Rightarrow> 's \<Rightarrow> 's \<Rightarrow> bool"
  for thread others where
  stop: "interleaved thread others 0 s s"
| own: "interleaved thread others k s s' \<Longrightarrow> thread s' s'' \<Longrightarrow> interleaved thread others (Suc k) s s''"
| other: "interleaved thread others k s s' \<Longrightarrow> others s' s'' \<Longrightarrow> interleaved thread others k s s''"

definition either :: "('s \<Rightarrow> 's \<Rightarrow> bool) \<Rightarrow> ('s \<Rightarrow> 's \<Rightarrow> bool) \<Rightarrow> 's \<Rightarrow> 's \<Rightarrow> bool" where
  "either r q s s' \<longleftrightarrow> r s s' \<or> q s s'"

locale ending_thread =
  fixes thread others answers :: "'s \<Rightarrow> 's \<Rightarrow> bool"
    and joining ended waiting :: "'s \<Rightarrow> bool" and left :: "'s \<Rightarrow> nat" and most :: nat
  assumes goes_on: "joining s \<Longrightarrow> \<not> ended s \<Longrightarrow> \<not> waiting s \<Longrightarrow> \<exists>s'. thread s s'"
    and fewer: "joining s \<Longrightarrow> thread s s' \<Longrightarrow> joining s' \<and> left s' < left s"
    and kept: "joining s \<Longrightarrow> others s s' \<Longrightarrow> ended s' \<or> joining s' \<and> left s' \<le> left s"
    and answered: "joining s \<Longrightarrow> answers s s' \<Longrightarrow> joining s' \<and> left s' \<le> left s"
    and rest: "ended s \<Longrightarrow> \<not> thread s s'" "ended s \<Longrightarrow> others s s' \<Longrightarrow> ended s'"
      "ended s \<Longrightarrow> \<not> answers s s'" "ended s \<Longrightarrow> \<not> waiting s"
    and stuck: "waiting s \<Longrightarrow> \<not> thread s s'" "waiting s \<Longrightarrow> others s s' \<Longrightarrow> waiting s'"
    and bounded: "left s \<le> most"
begin

lemma steps_left:
  "interleaved thread (either others answers) k s s' \<Longrightarrow> joining s \<Longrightarrow>
   k \<le> most \<and> (ended s' \<or> joining s' \<and> k + left s' \<le> left s)"
proof (induction rule: interleaved.induct)
  case (own k s s' s'')
  then show ?case using rest(1) fewer [of s' s''] bounded [of s] by fastforce
next
  case (other k s s' s'')
  then show ?case using rest(2,3) kept [of s' s''] answered [of s' s''] by (fastforce simp: either_def)
qed simp

lemma ends:
  assumes "interleaved thread (either others answers) k s s'" and "joining s"
  shows "k \<le> most \<and> (ended s' \<or> waiting s' \<or> (\<exists>s''. thread s' s''))"
  using steps_left [OF assms] goes_on by blast

lemma waits:
  "interleaved thread others k s s' \<Longrightarrow> waiting s \<Longrightarrow> k = 0 \<and> waiting s' \<and> \<not> ended s'"
  by (induction rule: interleaved.induct) (use stuck rest(4) in blast)+

end

section \<open>The remotely controlled sampler\<close>

text \<open>
  \<open>Awaiting\<close> is a thread in \<^verbatim>\<open>net::http::get\<close>. It sends no request when the server could not be
  connected to as the manager was made (\<open>pl_reachable\<close>): the response is the empty one then.
\<close>

datatype sampler_thread =
    CheckRunning
  | GetStrategy
  | Awaiting
  | Install "strategy_response option"
  | WaitFor
  | Blocked
  | Notified
  | ThreadEnded

text \<open>How far the caller of \<^verbatim>\<open>close\<close> is; a later call returns at once and has no state.\<close>

datatype closer = NotClosed | Notifying | Joining | Joined

record sampler_poller =
  pl_sampler :: sampler
  pl_metrics :: metrics
  pl_reachable :: bool
  pl_thread :: sampler_thread
  pl_closer :: closer


definition pl_running :: "sampler_poller \<Rightarrow> bool" where
  "pl_running p = remote_running (pl_sampler p)"

text \<open>The wait for \<^verbatim>\<open>!_running\<close>: the predicate is tested with the mutex held.\<close>

definition wait_unless_closed :: "sampler_poller \<Rightarrow> sampler_poller" where
  "wait_unless_closed p = p\<lparr>pl_thread := if pl_running p then Blocked else CheckRunning\<rparr>"

definition install :: "nat \<Rightarrow> strategy_response option \<Rightarrow> time \<Rightarrow> sampler_poller \<Rightarrow> sampler_poller" where
  "install ld fetched now p =
     (case updateSampler ld fetched now (pl_sampler p) (pl_metrics p) of
        (s, ms) \<Rightarrow> p\<lparr>pl_sampler := s, pl_metrics := ms, pl_thread := WaitFor\<rparr>)"

inductive pollController :: "nat \<Rightarrow> sampler_poller \<Rightarrow> sampler_poller \<Rightarrow> bool" for ld where
  check: "pl_thread p = CheckRunning \<Longrightarrow>
    pollController ld p (p\<lparr>pl_thread := if pl_running p then GetStrategy else ThreadEnded\<rparr>)"
| request: "pl_thread p = GetStrategy \<Longrightarrow>
    pollController ld p (p\<lparr>pl_thread := if pl_reachable p then Awaiting else Install (Some strategy_response0)\<rparr>)"
| update: "pl_thread p = Install fetched \<Longrightarrow> pollController ld p (install ld fetched now p)"
| wait: "pl_thread p = WaitFor \<Longrightarrow> pollController ld p (wait_unless_closed p)"
| timeout: "pl_thread p = Blocked \<Longrightarrow> pollController ld p (p\<lparr>pl_thread := CheckRunning\<rparr>)"
| spurious: "pl_thread p = Blocked \<Longrightarrow> pollController ld p (p\<lparr>pl_thread := Notified\<rparr>)"
| notified: "pl_thread p = Notified \<Longrightarrow> pollController ld p (wait_unless_closed p)"

text \<open>The agent answers, or the request fails: what is thrown then is no response, \<open>None\<close>.\<close>

inductive sampler_answered :: "sampler_poller \<Rightarrow> sampler_poller \<Rightarrow> bool" where
  answer: "pl_thread p = Awaiting \<Longrightarrow> sampler_answered p (p\<lparr>pl_thread := Install fetched\<rparr>)"

definition sampler_close_begin :: "sampler_poller \<Rightarrow> sampler_poller" where
  "sampler_close_begin p =
     (if pl_running p then p\<lparr>pl_sampler := Sampler_close (pl_sampler p), pl_closer := Notifying\<rparr> else p)"

definition sampler_notify :: "sampler_poller \<Rightarrow> sampler_poller" where
  "sampler_notify p =
     p\<lparr>pl_thread := if pl_thread p = Blocked then Notified else pl_thread p, pl_closer := Joining\<rparr>"

text \<open>The threads of the application: they ask for decisions, and close the sampler.\<close>

inductive sampler_user :: "nat \<Rightarrow> sampler_poller \<Rightarrow> sampler_poller \<Rightarrow> bool" for ld where
  decide: "Sampler_isSampled ld t0 now tid operation (pl_sampler p) = (status, s) \<Longrightarrow>
    sampler_user ld p (p\<lparr>pl_sampler := s\<rparr>)"
| close: "sampler_user ld p (sampler_close_begin p)"
| notify: "pl_closer p = Notifying \<Longrightarrow> sampler_user ld p (sampler_notify p)"
| join: "pl_closer p = Joining \<Longrightarrow> pl_thread p = ThreadEnded \<Longrightarrow> sampler_user ld p (p\<lparr>pl_closer := Joined\<rparr>)"


inductive_cases pollController_cases: "pollController ld p p'"
inductive_cases sampler_user_cases: "sampler_user ld p p'"
inductive_cases sampler_answered_cases: "sampler_answered p p'"

lemmas sampler_poll_defs = wait_unless_closed_def install_def sampler_close_begin_def sampler_notify_def pl_running_def

text \<open>Only \<^verbatim>\<open>close\<close> clears the flag.\<close>

lemma updateSampler_running:
  "updateSampler ld fetched now s ms = (s', ms') \<Longrightarrow> Sampler_type s = kRemotelyControlledSampler \<Longrightarrow>
   Sampler_type s' = kRemotelyControlledSampler \<and> remote_running s' = remote_running s"
  by (cases s) (auto simp: updateSampler_def Let_def split: option.splits)

lemma isSampled_running:
  "Sampler_isSampled ld t0 now tid operation s = (status, s') \<Longrightarrow> Sampler_type s = kRemotelyControlledSampler \<Longrightarrow>
   Sampler_type s' = kRemotelyControlledSampler \<and> remote_running s' = remote_running s"
  by (cases s) (auto split: prod.splits)

definition sampler_poll_inv :: "sampler_poller \<Rightarrow> bool" where
  "sampler_poll_inv p \<longleftrightarrow>
     Sampler_type (pl_sampler p) = kRemotelyControlledSampler \<and>
     (pl_running p \<longleftrightarrow> pl_closer p = NotClosed) \<and>
     (pl_thread p = Blocked \<longrightarrow> pl_closer p \<in> {NotClosed, Notifying}) \<and>
     (pl_thread p = ThreadEnded \<longrightarrow> \<not> pl_running p) \<and>
     (pl_thread p = Awaiting \<longrightarrow> pl_reachable p) \<and>
     (pl_closer p = Joined \<longrightarrow> pl_thread p = ThreadEnded)"

lemma sampler_poll_inv_thread:
  "pollController ld p p' \<Longrightarrow> sampler_poll_inv p \<Longrightarrow> sampler_poll_inv p'"
  by (erule pollController_cases)
    (auto simp: sampler_poll_inv_def sampler_poll_defs split: prod.splits dest!: updateSampler_running)

lemma sampler_poll_inv_user:
  "sampler_user ld p p' \<Longrightarrow> sampler_poll_inv p \<Longrightarrow> sampler_poll_inv p'"
  by (erule sampler_user_cases)
    (auto simp: sampler_poll_inv_def sampler_poll_defs dest!: isSampled_running,
      (cases "pl_sampler p"; simp)+)

lemma sampler_poll_inv_answered:
  "sampler_answered p p' \<Longrightarrow> sampler_poll_inv p \<Longrightarrow> sampler_poll_inv p'"
  by (erule sampler_answered_cases) (auto simp: sampler_poll_inv_def pl_running_def)

primrec sampler_left :: "sampler_thread \<Rightarrow> nat" where
  "sampler_left GetStrategy = 4"
| "sampler_left Awaiting = 3"
| "sampler_left (Install fetched) = 3"
| "sampler_left WaitFor = 2"
| "sampler_left Notified = 2"
| "sampler_left Blocked = 2"
| "sampler_left CheckRunning = 1"
| "sampler_left ThreadEnded = 0"

definition sampler_joining :: "sampler_poller \<Rightarrow> bool" where
  "sampler_joining p \<longleftrightarrow> sampler_poll_inv p \<and> pl_closer p = Joining"

definition sampler_ended :: "sampler_poller \<Rightarrow> bool" where
  "sampler_ended p \<longleftrightarrow> sampler_poll_inv p \<and> pl_thread p = ThreadEnded"

definition sampler_waiting :: "sampler_poller \<Rightarrow> bool" where
  "sampler_waiting p \<longleftrightarrow> pl_thread p = Awaiting"

lemma sampler_goes_on:
  "sampler_joining p \<Longrightarrow> \<not> sampler_ended p \<Longrightarrow> \<not> sampler_waiting p \<Longrightarrow> \<exists>p'. pollController ld p p'"
  by (cases "pl_thread p")
    (auto simp: sampler_joining_def sampler_ended_def sampler_waiting_def intro: pollController.intros)

lemma sampler_fewer:
  assumes "sampler_joining p" and "pollController ld p p'"
  shows "sampler_joining p' \<and> sampler_left (pl_thread p') < sampler_left (pl_thread p)"
proof -
  have inv: "sampler_poll_inv p'" and n: "\<not> pl_running p" "pl_thread p \<noteq> Blocked"
    using assms sampler_poll_inv_thread by (auto simp: sampler_joining_def sampler_poll_inv_def)
  from assms(2) show ?thesis
    by cases (use assms(1) inv n in \<open>auto simp: sampler_joining_def sampler_poll_defs split: prod.splits\<close>)
qed

lemma sampler_kept:
  assumes "sampler_joining p" and "sampler_user ld p p'"
  shows "sampler_ended p' \<or> sampler_joining p' \<and> sampler_left (pl_thread p') \<le> sampler_left (pl_thread p)"
proof -
  have inv: "sampler_poll_inv p'" and n: "\<not> pl_running p"
    using assms sampler_poll_inv_user by (auto simp: sampler_joining_def sampler_poll_inv_def)
  from assms(2) show ?thesis
    by cases (use assms(1) inv n in \<open>auto simp: sampler_joining_def sampler_ended_def sampler_poll_defs\<close>)
qed

lemma sampler_answer_kept:
  assumes "sampler_joining p" and "sampler_answered p p'"
  shows "sampler_joining p' \<and> sampler_left (pl_thread p') \<le> sampler_left (pl_thread p)"
  using assms(2)
  by cases (use assms sampler_poll_inv_answered in \<open>auto simp: sampler_joining_def\<close>)

lemma sampler_rest:
  assumes "sampler_ended p"
  shows "\<not> pollController ld p p'" and "sampler_user ld p p' \<Longrightarrow> sampler_ended p'"
proof -
  show "\<not> pollController ld p p'"
    using assms by (auto simp: sampler_ended_def elim: pollController_cases)
  assume u: "sampler_user ld p p'"
  then have "sampler_poll_inv p'" using assms sampler_poll_inv_user by (auto simp: sampler_ended_def)
  moreover from u have "pl_thread p' = ThreadEnded"
    by cases (use assms in \<open>auto simp: sampler_ended_def sampler_poll_defs\<close>)
  ultimately show "sampler_ended p'" by (simp add: sampler_ended_def)
qed

lemma sampler_ended_rest:
  assumes "sampler_ended p"
  shows "\<not> sampler_answered p p'" and "\<not> sampler_waiting p"
  using assms by (auto simp: sampler_ended_def sampler_waiting_def elim: sampler_answered_cases)

lemma sampler_stuck:
  assumes "sampler_waiting p"
  shows "\<not> pollController ld p p'" and "sampler_user ld p p' \<Longrightarrow> sampler_waiting p'"
  using assms
  by (auto simp: sampler_waiting_def sampler_poll_defs elim!: pollController_cases sampler_user_cases)

interpretation sampler_thread: ending_thread "pollController ld" "sampler_user ld" sampler_answered
  sampler_joining sampler_ended sampler_waiting "\<lambda>p. sampler_left (pl_thread p)" 4 for ld
proof unfold_locales
  show "sampler_left (pl_thread p) \<le> 4" for p by (cases "pl_thread p") simp_all
qed (auto intro: sampler_goes_on sampler_rest(2) sampler_stuck(2)
    dest: sampler_fewer sampler_kept sampler_answer_kept sampler_rest(1) sampler_ended_rest sampler_stuck(1))



section \<open>The remote restriction manager\<close>

text \<open>
  The members are made in the order of their declarations: the thread runs from its own
  initializer on, before the condition variable and the mutex exist (\<open>Started\<close>, \<open>HasCV\<close>,
  \<open>Constructed\<close>). Locking a mutex that does not exist is undefined, \<open>Faulted\<close>.
\<close>

datatype construction = Started | HasCV | Constructed

datatype restriction_thread =
    MakeURI
  | GetRestrictions
  | AwaitRestrictions
  | InstallRestrictions "get_error + response"
  | SetUpdateTime
  | WaitUntil
  | BlockedUntil
  | TimedOut
  | NotifiedUntil
  | CompareTimes
  | PollEnded
  | Faulted

text \<open>\<open>rp_polls\<close> are the times at which queries began, the latest first.\<close>

record restriction_poller =
  rp_manager :: remote_manager
  rp_refreshInterval :: time
  rp_metrics :: metrics
  rp_errors :: "string list"
  rp_made :: construction
  rp_thread :: restriction_thread
  rp_closer :: closer
  rp_now :: time
  rp_lastUpdateTime :: time
  rp_polls :: "time list"

definition defaultRefreshInterval :: time where
  "defaultRefreshInterval = 60 * 1000000000"

definition restriction_poller0 :: "string \<Rightarrow> bool \<Rightarrow> time \<Rightarrow> metrics \<Rightarrow> time \<Rightarrow> restriction_poller" where
  "restriction_poller0 service deny refreshInterval ms now =
     \<lparr>rp_manager = \<lparr>rm_serviceName = service, rm_denyBaggageOnInitializationFailure = deny,
        rm_restrictions = [], rm_running = True, rm_initialized = False\<rparr>,
      rp_refreshInterval = (if refreshInterval = 0 then defaultRefreshInterval else refreshInterval),
      rp_metrics = ms, rp_errors = [], rp_made = Started, rp_thread = MakeURI, rp_closer = NotClosed,
      rp_now = now, rp_lastUpdateTime = 0, rp_polls = []\<rparr>"

text \<open>What is done with the mutex held.\<close>

definition locked :: "(restriction_poller \<Rightarrow> restriction_poller) \<Rightarrow> restriction_poller \<Rightarrow> restriction_poller" where
  "locked f p = (if rp_made p = Constructed then f p else p\<lparr>rp_thread := Faulted\<rparr>)"

definition await :: "restriction_poller \<Rightarrow> restriction_poller" where
  "await p = p\<lparr>rp_thread := if rm_running (rp_manager p) then BlockedUntil else PollEnded\<rparr>"

text \<open>An answer that holds restrictions is installed with the mutex held; another is only counted and logged.\<close>

definition answer_installs :: "(string \<Rightarrow> (string \<times> int) list option) \<Rightarrow> get_error + response \<Rightarrow> bool" where
  "answer_installs restrictions_of got =
     (case got of Inl _ \<Rightarrow> False
      | Inr resp \<Rightarrow> resp_statusCode resp = 200 \<and> restrictions_of (resp_body resp) \<noteq> None)"

definition poll_update ::
  "(string \<Rightarrow> (string \<times> int) list option) \<Rightarrow> uri \<Rightarrow> get_error + response \<Rightarrow> restriction_poller \<Rightarrow> restriction_poller" where
  "poll_update restrictions_of remoteURI got p =
     (case updateRestrictions restrictions_of remoteURI got (rp_manager p) (rp_metrics p) (rp_errors p) of
        (rm, ms, out) \<Rightarrow>
          let p' = p\<lparr>rp_manager := rm, rp_metrics := ms, rp_errors := out, rp_thread := SetUpdateTime\<rparr>
          in if answer_installs restrictions_of got then locked (\<lambda>_. p') p else p')"

text \<open>
  The thread. Whatever \<^verbatim>\<open>authority\<close>, \<^verbatim>\<open>queryEscape\<close> and \<^verbatim>\<open>parse\<close> throw ends it.
\<close>

inductive restriction_poll ::
  "(string \<Rightarrow> (string \<times> int) list option) \<Rightarrow> uri \<Rightarrow> restriction_poller \<Rightarrow> restriction_poller \<Rightarrow> bool"
  for restrictions_of remoteURI where
  made_uri: "rp_thread p = MakeURI \<Longrightarrow>
    restriction_poll restrictions_of remoteURI p (p\<lparr>rp_thread := GetRestrictions\<rparr>)"
| no_uri: "rp_thread p = MakeURI \<Longrightarrow>
    restriction_poll restrictions_of remoteURI p (p\<lparr>rp_thread := PollEnded\<rparr>)"
| get: "rp_thread p = GetRestrictions \<Longrightarrow>
    restriction_poll restrictions_of remoteURI p
      (p\<lparr>rp_thread := AwaitRestrictions, rp_polls := rp_now p # rp_polls p\<rparr>)"
| update: "rp_thread p = InstallRestrictions got \<Longrightarrow>
    restriction_poll restrictions_of remoteURI p (poll_update restrictions_of remoteURI got p)"
| set_time: "rp_thread p = SetUpdateTime \<Longrightarrow>
    restriction_poll restrictions_of remoteURI p (p\<lparr>rp_lastUpdateTime := rp_now p, rp_thread := WaitUntil\<rparr>)"
| wait: "rp_thread p = WaitUntil \<Longrightarrow> restriction_poll restrictions_of remoteURI p (locked await p)"
| timeout: "rp_thread p = BlockedUntil \<Longrightarrow> rp_lastUpdateTime p + rp_refreshInterval p \<le> rp_now p \<Longrightarrow>
    restriction_poll restrictions_of remoteURI p (p\<lparr>rp_thread := TimedOut\<rparr>)"
| spurious: "rp_thread p = BlockedUntil \<Longrightarrow>
    restriction_poll restrictions_of remoteURI p (p\<lparr>rp_thread := NotifiedUntil\<rparr>)"
| notified: "rp_thread p = NotifiedUntil \<Longrightarrow> restriction_poll restrictions_of remoteURI p (await p)"
| test_running: "rp_thread p = TimedOut \<Longrightarrow>
    restriction_poll restrictions_of remoteURI p
      (p\<lparr>rp_thread := if rm_running (rp_manager p) then CompareTimes else PollEnded\<rparr>)"
| compare: "rp_thread p = CompareTimes \<Longrightarrow>
    restriction_poll restrictions_of remoteURI p
      (p\<lparr>rp_thread := if rp_refreshInterval p \<le> rp_now p - rp_lastUpdateTime p then GetRestrictions else WaitUntil\<rparr>)"

text \<open>The agent answers, or \<^verbatim>\<open>net::http::get\<close> throws.\<close>

inductive restrictions_answered :: "restriction_poller \<Rightarrow> restriction_poller \<Rightarrow> bool" where
  answer: "rp_thread p = AwaitRestrictions \<Longrightarrow>
    restrictions_answered p (p\<lparr>rp_thread := InstallRestrictions got\<rparr>)"

definition restriction_close_begin :: "restriction_poller \<Rightarrow> restriction_poller" where
  "restriction_close_begin p =
     (if rm_running (rp_manager p)
      then p\<lparr>rp_manager := rp_manager p\<lparr>rm_running := False\<rparr>, rp_closer := Notifying\<rparr> else p)"

definition restriction_notify :: "restriction_poller \<Rightarrow> restriction_poller" where
  "restriction_notify p =
     p\<lparr>rp_thread := if rp_thread p = BlockedUntil then NotifiedUntil else rp_thread p, rp_closer := Joining\<rparr>"

text \<open>Time passes, the constructor goes on, and the application closes the manager it was given.\<close>

inductive restriction_others :: "restriction_poller \<Rightarrow> restriction_poller \<Rightarrow> bool" where
  tick: "0 \<le> d \<Longrightarrow> restriction_others p (p\<lparr>rp_now := rp_now p + d\<rparr>)"
| make_cv: "rp_made p = Started \<Longrightarrow> restriction_others p (p\<lparr>rp_made := HasCV\<rparr>)"
| make_mutex: "rp_made p = HasCV \<Longrightarrow> restriction_others p (p\<lparr>rp_made := Constructed\<rparr>)"
| close: "rp_made p = Constructed \<Longrightarrow> restriction_others p (restriction_close_begin p)"
| notify: "rp_closer p = Notifying \<Longrightarrow> restriction_others p (restriction_notify p)"
| join: "rp_closer p = Joining \<Longrightarrow> rp_thread p = PollEnded \<Longrightarrow> restriction_others p (p\<lparr>rp_closer := Joined\<rparr>)"

inductive restriction_reach ::
  "(string \<Rightarrow> (string \<times> int) list option) \<Rightarrow> uri \<Rightarrow> restriction_poller \<Rightarrow> restriction_poller \<Rightarrow> bool"
  for restrictions_of remoteURI p0 where
  start: "restriction_reach restrictions_of remoteURI p0 p0"
| poll: "restriction_reach restrictions_of remoteURI p0 p \<Longrightarrow> restriction_poll restrictions_of remoteURI p p' \<Longrightarrow>
    restriction_reach restrictions_of remoteURI p0 p'"
| other: "restriction_reach restrictions_of remoteURI p0 p \<Longrightarrow> restriction_others p p' \<Longrightarrow>
    restriction_reach restrictions_of remoteURI p0 p'"
| answer: "restriction_reach restrictions_of remoteURI p0 p \<Longrightarrow> restrictions_answered p p' \<Longrightarrow>
    restriction_reach restrictions_of remoteURI p0 p'"

inductive_cases restriction_poll_cases: "restriction_poll restrictions_of remoteURI p p'"
inductive_cases restriction_others_cases: "restriction_others p p'"
inductive_cases restrictions_answered_cases: "restrictions_answered p p'"

lemmas restriction_poll_defs = locked_def await_def poll_update_def restriction_close_begin_def restriction_notify_def

lemma updateRestrictions_running:
  "updateRestrictions restrictions_of remoteURI got rm ms out = (rm', ms', out') \<Longrightarrow> rm_running rm' = rm_running rm"
  by (auto simp: updateRestrictions_def split: sum.splits option.splits if_splits)

text \<open>The queries are apart by the interval at least, and the last one is before the time kept.\<close>

definition spaced :: "time \<Rightarrow> time list \<Rightarrow> bool" where
  "spaced d ts \<longleftrightarrow> sorted_wrt (\<lambda>later earlier. earlier + d \<le> later) ts"

definition poll_times_ok :: "restriction_poller \<Rightarrow> bool" where
  "poll_times_ok p \<longleftrightarrow>
     0 \<le> rp_refreshInterval p \<and> spaced (rp_refreshInterval p) (rp_polls p) \<and>
     (\<forall>t \<in> set (rp_polls p). t \<le> rp_now p) \<and>
     (case rp_thread p of
        MakeURI \<Rightarrow> rp_polls p = []
      | GetRestrictions \<Rightarrow> (\<forall>t \<in> set (rp_polls p). t + rp_refreshInterval p \<le> rp_now p)
      | AwaitRestrictions \<Rightarrow> True | InstallRestrictions got \<Rightarrow> True | SetUpdateTime \<Rightarrow> True | PollEnded \<Rightarrow> True | Faulted \<Rightarrow> True
      | _ \<Rightarrow> (\<forall>t \<in> set (rp_polls p). t \<le> rp_lastUpdateTime p))"

definition restriction_poll_inv :: "restriction_poller \<Rightarrow> bool" where
  "restriction_poll_inv p \<longleftrightarrow>
     (rm_running (rp_manager p) \<longleftrightarrow> rp_closer p = NotClosed) \<and>
     (rp_thread p = BlockedUntil \<longrightarrow> rp_closer p \<in> {NotClosed, Notifying}) \<and>
     (rp_thread p \<in> {BlockedUntil, NotifiedUntil, TimedOut, CompareTimes} \<longrightarrow> rp_made p = Constructed) \<and>
     (rp_closer p \<noteq> NotClosed \<longrightarrow> rp_made p = Constructed) \<and>
     (rp_closer p = Joined \<longrightarrow> rp_thread p = PollEnded)"

lemma restriction_inv_poll:
  "restriction_poll restrictions_of remoteURI p p' \<Longrightarrow> restriction_poll_inv p \<Longrightarrow> restriction_poll_inv p'"
  by (erule restriction_poll_cases)
    (auto simp: restriction_poll_inv_def restriction_poll_defs Let_def split: prod.splits
      dest!: updateRestrictions_running)

lemma restriction_inv_others:
  "restriction_others p p' \<Longrightarrow> restriction_poll_inv p \<Longrightarrow> restriction_poll_inv p'"
  by (erule restriction_others_cases) (auto simp: restriction_poll_inv_def restriction_poll_defs)

lemma poll_times_poll:
  "restriction_poll restrictions_of remoteURI p p' \<Longrightarrow> poll_times_ok p \<Longrightarrow> poll_times_ok p'"
  by (erule restriction_poll_cases)
    (force simp: poll_times_ok_def spaced_def restriction_poll_defs Let_def split: prod.splits)+

lemma poll_times_others:
  "restriction_others p p' \<Longrightarrow> poll_times_ok p \<Longrightarrow> poll_times_ok p'"
  by (erule restriction_others_cases)
    (force simp: poll_times_ok_def spaced_def restriction_poll_defs split: restriction_thread.splits)+

lemma restrictions_answered_inv:
  assumes "restrictions_answered p p'"
  shows "restriction_poll_inv p \<Longrightarrow> restriction_poll_inv p'" and "poll_times_ok p \<Longrightarrow> poll_times_ok p'"
  by (use assms in cases, simp add: restriction_poll_inv_def; fail)
    (use assms in cases, simp add: poll_times_ok_def)

lemma restriction_poller_new:
  "restriction_poll_inv (restriction_poller0 service deny refreshInterval ms now)"
  "0 \<le> refreshInterval \<Longrightarrow> poll_times_ok (restriction_poller0 service deny refreshInterval ms now)"
  by (auto simp: restriction_poll_inv_def poll_times_ok_def restriction_poller0_def spaced_def defaultRefreshInterval_def)

lemma restriction_reach_inv:
  assumes "restriction_reach restrictions_of remoteURI (restriction_poller0 service deny refreshInterval ms now) p"
  shows "restriction_poll_inv p" and "0 \<le> refreshInterval \<Longrightarrow> poll_times_ok p"
  using assms
  by (induction rule: restriction_reach.induct)
    (auto intro: restriction_poller_new restriction_inv_poll restriction_inv_others poll_times_poll poll_times_others
      restrictions_answered_inv)

primrec restriction_left :: "restriction_thread \<Rightarrow> nat" where
  "restriction_left MakeURI = 6"
| "restriction_left CompareTimes = 6"
| "restriction_left GetRestrictions = 5"
| "restriction_left AwaitRestrictions = 4"
| "restriction_left (InstallRestrictions got) = 4"
| "restriction_left SetUpdateTime = 3"
| "restriction_left WaitUntil = 2"
| "restriction_left NotifiedUntil = 1"
| "restriction_left TimedOut = 1"
| "restriction_left BlockedUntil = 1"
| "restriction_left PollEnded = 0"
| "restriction_left Faulted = 0"

definition restriction_joining :: "restriction_poller \<Rightarrow> bool" where
  "restriction_joining p \<longleftrightarrow> restriction_poll_inv p \<and> rp_closer p = Joining \<and> rp_thread p \<noteq> Faulted"

definition restriction_ended :: "restriction_poller \<Rightarrow> bool" where
  "restriction_ended p \<longleftrightarrow> restriction_poll_inv p \<and> rp_thread p = PollEnded \<and> rp_closer p \<noteq> NotClosed"

definition restriction_waiting :: "restriction_poller \<Rightarrow> bool" where
  "restriction_waiting p \<longleftrightarrow> rp_thread p = AwaitRestrictions"

lemma restriction_goes_on:
  "restriction_joining p \<Longrightarrow> \<not> restriction_ended p \<Longrightarrow> \<not> restriction_waiting p \<Longrightarrow>
   \<exists>p'. restriction_poll restrictions_of remoteURI p p'"
  by (cases "rp_thread p")
    (auto simp: restriction_joining_def restriction_ended_def restriction_waiting_def restriction_poll_inv_def
      intro: restriction_poll.intros)

lemma restriction_fewer:
  assumes "restriction_joining p" and "restriction_poll restrictions_of remoteURI p p'"
  shows "restriction_joining p' \<and> restriction_left (rp_thread p') < restriction_left (rp_thread p)"
proof -
  have i: "restriction_poll_inv p" using assms(1) by (simp add: restriction_joining_def)
  note inv = restriction_inv_poll [OF assms(2) i]
  have n: "\<not> rm_running (rp_manager p)" "rp_thread p \<noteq> BlockedUntil" "rp_made p = Constructed"
    using i assms(1) by (auto simp: restriction_joining_def restriction_poll_inv_def)
  from assms(2) show ?thesis
    by cases (use assms(1) inv n in \<open>auto simp: restriction_joining_def restriction_poll_defs Let_def split: prod.splits\<close>)
qed

lemma restriction_kept:
  assumes "restriction_joining p" and "restriction_others p p'"
  shows "restriction_ended p' \<or> restriction_joining p' \<and> restriction_left (rp_thread p') \<le> restriction_left (rp_thread p)"
proof -
  have i: "restriction_poll_inv p" using assms(1) by (simp add: restriction_joining_def)
  note inv = restriction_inv_others [OF assms(2) i]
  have n: "\<not> rm_running (rp_manager p)"
    using i assms(1) by (auto simp: restriction_joining_def restriction_poll_inv_def)
  from assms(2) show ?thesis
    by cases (use assms(1) inv n in \<open>auto simp: restriction_joining_def restriction_ended_def restriction_poll_defs\<close>)
qed

lemma restriction_answer_kept:
  assumes "restriction_joining p" and "restrictions_answered p p'"
  shows "restriction_joining p' \<and> restriction_left (rp_thread p') \<le> restriction_left (rp_thread p)"
  using assms(2)
  by cases (use assms restrictions_answered_inv(1) in \<open>auto simp: restriction_joining_def\<close>)

lemma restriction_rest:
  assumes "restriction_ended p"
  shows "\<not> restriction_poll restrictions_of remoteURI p p'" and "restriction_others p p' \<Longrightarrow> restriction_ended p'"
proof -
  show "\<not> restriction_poll restrictions_of remoteURI p p'"
    using assms by (auto simp: restriction_ended_def elim: restriction_poll_cases)
  assume u: "restriction_others p p'"
  then have "restriction_poll_inv p'" using assms restriction_inv_others by (auto simp: restriction_ended_def)
  moreover from u have "rp_thread p' = PollEnded \<and> rp_closer p' \<noteq> NotClosed"
    by cases (use assms in \<open>auto simp: restriction_ended_def restriction_poll_defs\<close>)
  ultimately show "restriction_ended p'" by (simp add: restriction_ended_def)
qed

lemma restriction_ended_rest:
  assumes "restriction_ended p"
  shows "\<not> restrictions_answered p p'" and "\<not> restriction_waiting p"
  using assms by (auto simp: restriction_ended_def restriction_waiting_def elim: restrictions_answered_cases)

lemma restriction_stuck:
  assumes "restriction_waiting p"
  shows "\<not> restriction_poll restrictions_of remoteURI p p'" and "restriction_others p p' \<Longrightarrow> restriction_waiting p'"
  using assms
  by (auto simp: restriction_waiting_def restriction_poll_defs elim!: restriction_poll_cases restriction_others_cases)

interpretation restriction_thread: ending_thread "restriction_poll restrictions_of remoteURI" restriction_others
  restrictions_answered restriction_joining restriction_ended restriction_waiting
  "\<lambda>p. restriction_left (rp_thread p)" 6 for restrictions_of remoteURI
proof unfold_locales
  show "restriction_left (rp_thread p) \<le> 6" for p by (cases "rp_thread p") simp_all
qed (auto intro: restriction_goes_on restriction_rest(2) restriction_stuck(2)
    dest: restriction_fewer restriction_kept restriction_answer_kept restriction_rest(1) restriction_ended_rest
      restriction_stuck(1))



section \<open>Properties\<close>


text \<open>C18. A restriction manager never asks the agent more often than its refresh interval allows,
  however its thread is woken and time passes.\<close>

theorem restriction_polls_spaced:
  assumes "restriction_reach restrictions_of remoteURI (restriction_poller0 service deny refreshInterval ms now) p"
    and "0 \<le> refreshInterval"
  shows "sorted_wrt (\<lambda>later earlier. earlier + rp_refreshInterval p \<le> later) (rp_polls p)"
  using restriction_reach_inv(2) [OF assms] by (simp add: poll_times_ok_def spaced_def)


text \<open>The thread of a restriction manager is started by the initializer of a member that comes before
  the condition variable and the mutex: it can lock the mutex before there is one.\<close>

lemma restriction_thread_too_early:
  "\<exists>p. restriction_reach restrictions_of remoteURI (restriction_poller0 service deny refreshInterval ms now) p \<and>
     rp_thread p = Faulted"
proof -
  let ?r = "restriction_reach restrictions_of remoteURI (restriction_poller0 service deny refreshInterval ms now)"
  let ?p = "restriction_poller0 service deny refreshInterval ms now"
  let ?got = "Inr \<lparr>resp_version = [], resp_statusCode = 404, resp_reason = [], resp_headers = [], resp_body = []\<rparr>"
  let ?p1 = "?p\<lparr>rp_thread := GetRestrictions\<rparr>"
  let ?p1a = "?p1\<lparr>rp_thread := AwaitRestrictions, rp_polls := rp_now ?p1 # rp_polls ?p1\<rparr>"
  let ?p2 = "?p1a\<lparr>rp_thread := InstallRestrictions ?got\<rparr>"
  let ?p3 = "poll_update restrictions_of remoteURI ?got ?p2"
  let ?p4 = "?p3\<lparr>rp_lastUpdateTime := rp_now ?p3, rp_thread := WaitUntil\<rparr>"
  have p3: "rp_thread ?p3 = SetUpdateTime" "rp_made ?p3 = Started"
    by (simp_all add: poll_update_def updateRestrictions_def answer_installs_def restriction_poller0_def Let_def)
  have "?r ?p1" by (rule restriction_reach.poll [OF restriction_reach.start restriction_poll.made_uri])
      (simp add: restriction_poller0_def)
  then have "?r ?p1a" by (rule restriction_reach.poll) (rule restriction_poll.get, simp)
  then have "?r ?p2" by (rule restriction_reach.answer) (rule restrictions_answered.answer, simp)
  then have "?r ?p3" by (rule restriction_reach.poll) (rule restriction_poll.update, simp)
  then have "?r ?p4" by (rule restriction_reach.poll) (rule restriction_poll.set_time, rule p3(1))
  then have "?r (locked await ?p4)" by (rule restriction_reach.poll) (rule restriction_poll.wait, simp)
  moreover have "rp_thread (locked await ?p4) = Faulted" using p3(2) by (simp add: locked_def)
  ultimately show ?thesis by blast
qed

section \<open>Examples\<close>







text \<open>An open manager asks again when its interval is over, even if the agent could not be reached.\<close>

lemma asks_again:
  assumes "restriction_reach f uri p0 p" and "rp_thread p = GetRestrictions" and "rp_made p = Constructed"
    and "rm_running (rp_manager p)" and "0 \<le> rp_refreshInterval p"
  shows "\<exists>q. restriction_reach f uri p0 q \<and> rp_thread q = GetRestrictions \<and> rp_made q = Constructed \<and>
    rm_running (rp_manager q) \<and> rp_refreshInterval q = rp_refreshInterval p \<and>
    rp_polls q = rp_now p # rp_polls p \<and> rp_now q = rp_now p + rp_refreshInterval p"
proof -
  let ?r = "restriction_reach f uri p0" and ?got = "Inl (SystemError ''refused'')"
  let ?p0 = "p\<lparr>rp_thread := AwaitRestrictions, rp_polls := rp_now p # rp_polls p\<rparr>"
  let ?p1 = "?p0\<lparr>rp_thread := InstallRestrictions ?got\<rparr>"
  define p2 where "p2 = poll_update f uri ?got ?p1"
  let ?p3 = "p2\<lparr>rp_lastUpdateTime := rp_now p2, rp_thread := WaitUntil\<rparr>"
  define p4 where "p4 = locked await ?p3"
  define p5 where "p5 = p4\<lparr>rp_now := rp_now p4 + rp_refreshInterval p4\<rparr>"
  let ?p6 = "p5\<lparr>rp_thread := TimedOut\<rparr>"
  define p7 where "p7 = ?p6\<lparr>rp_thread := if rm_running (rp_manager ?p6) then CompareTimes else PollEnded\<rparr>"
  define p8 where "p8 = p7\<lparr>rp_thread := if rp_refreshInterval p7 \<le> rp_now p7 - rp_lastUpdateTime p7 then GetRestrictions else WaitUntil\<rparr>"
  have 2: "rp_thread p2 = SetUpdateTime" "rp_made p2 = Constructed" "rp_manager p2 = rp_manager p" "rp_now p2 = rp_now p"
      "rp_polls p2 = rp_now p # rp_polls p" "rp_refreshInterval p2 = rp_refreshInterval p"
    by (simp_all add: p2_def poll_update_def updateRestrictions_def answer_installs_def assms(3))
  have 4: "p4 = ?p3\<lparr>rp_thread := BlockedUntil\<rparr>" by (simp add: p4_def locked_def await_def 2 assms(4))
  have 5: "rp_thread p5 = BlockedUntil" "rp_lastUpdateTime p5 + rp_refreshInterval p5 \<le> rp_now p5"
    by (simp_all add: p5_def 4 2)
  have 7: "rp_thread p7 = CompareTimes" by (simp add: p7_def p5_def 4 2 assms(4))
  have "?r ?p0" by (rule restriction_reach.poll [OF assms(1) restriction_poll.get [OF assms(2)]])
  then have "?r ?p1" by (rule restriction_reach.answer) (rule restrictions_answered.answer, simp)
  then have "?r p2" unfolding p2_def by (rule restriction_reach.poll) (rule restriction_poll.update, simp)
  then have "?r ?p3" by (rule restriction_reach.poll) (rule restriction_poll.set_time [OF 2(1)])
  then have "?r p4" unfolding p4_def by (rule restriction_reach.poll) (rule restriction_poll.wait, simp)
  then have "?r p5" unfolding p5_def
    by (rule restriction_reach.other) (rule restriction_others.tick, simp add: 4 2 assms(5))
  then have "?r ?p6" by (rule restriction_reach.poll) (rule restriction_poll.timeout [OF 5])
  then have "?r p7" unfolding p7_def by (rule restriction_reach.poll) (rule restriction_poll.test_running, simp)
  then have "?r p8" unfolding p8_def by (rule restriction_reach.poll) (rule restriction_poll.compare [OF 7])
  then show ?thesis by (intro exI [of _ p8]) (simp add: p8_def p7_def p5_def 4 2 assms(3,4))
qed

definition polling_manager :: restriction_poller where
  "polling_manager = (restriction_poller0 ''svc'' True 5 metrics0 100)\<lparr>rp_made := Constructed, rp_thread := GetRestrictions\<rparr>"

lemma polling_manager_reached:
  "restriction_reach f uri (restriction_poller0 ''svc'' True 5 metrics0 100) polling_manager"
proof -
  let ?p = "restriction_poller0 ''svc'' True 5 metrics0 100" and ?r = "restriction_reach f uri (restriction_poller0 ''svc'' True 5 metrics0 100)"
  have "?r (?p\<lparr>rp_made := HasCV\<rparr>)"
    by (rule restriction_reach.other [OF restriction_reach.start restriction_others.make_cv]) (simp add: restriction_poller0_def)
  then have "?r (?p\<lparr>rp_made := HasCV, rp_made := Constructed\<rparr>)"
    by (rule restriction_reach.other) (rule restriction_others.make_mutex, simp)
  from restriction_reach.poll [OF this restriction_poll.made_uri] show ?thesis
    by (simp add: polling_manager_def restriction_poller0_def)
qed

theorem restriction_polls_spaced_witness:
  "\<exists>p. restriction_reach (\<lambda>_. None) URI0 (restriction_poller0 ''svc'' True 5 metrics0 100) p \<and> rp_polls p = [105, 100] \<and>
     sorted_wrt (\<lambda>later earlier. earlier + 5 \<le> later) (rp_polls p)"
proof -
  obtain p where p: "restriction_reach (\<lambda>_. None) URI0 (restriction_poller0 ''svc'' True 5 metrics0 100) p"
      "rp_thread p = GetRestrictions" "rp_made p = Constructed" "rm_running (rp_manager p)"
      "rp_refreshInterval p = 5" "rp_polls p = [100]" "rp_now p = 105"
    using asks_again [OF polling_manager_reached] by (auto simp: polling_manager_def restriction_poller0_def)
  obtain q where q: "restriction_reach (\<lambda>_. None) URI0 (restriction_poller0 ''svc'' True 5 metrics0 100) q"
      "rp_refreshInterval q = 5" "rp_polls q = [105, 100]"
    using asks_again [OF p(1-4)] p(5-7) by auto
  from restriction_polls_spaced [OF q(1)] q show ?thesis by (intro exI [of _ q]) simp
qed





end
