(* ===== verification/SpanObjects.thy ===== *)
theory SpanObjects
  imports Spans
begin

text \<open>
  Span objects that are copied, assigned and destroyed (\<^verbatim>\<open>Span.h\<close>). A reporter keeps copies, so does
  whoever puts spans into a container; the destructor finishes a span, and so may report it.
\<close>

section \<open>Copying, assigning, destroying\<close>

definition Span_copy :: "span \<Rightarrow> span" where
  "Span_copy s =
     \<lparr>sp_tracer = sp_tracer s, sp_context = sp_context s, sp_operationName = sp_operationName s,
      sp_startTimeSystem = sp_startTimeSystem s, sp_startTimeSteady = sp_startTimeSteady s,
      sp_duration = sp_duration s, sp_tags = sp_tags s, sp_logs = sp_logs s, sp_references = sp_references s\<rparr>"

definition Span_swap :: "span \<Rightarrow> span \<Rightarrow> span \<times> span" where
  "Span_swap s r =
     (s\<lparr>sp_tracer := sp_tracer r, sp_context := sp_context r, sp_operationName := sp_operationName r,
        sp_startTimeSystem := sp_startTimeSystem r, sp_startTimeSteady := sp_startTimeSteady r,
        sp_duration := sp_duration r, sp_tags := sp_tags r, sp_logs := sp_logs r, sp_references := sp_references r\<rparr>,
      r\<lparr>sp_tracer := sp_tracer s, sp_context := sp_context s, sp_operationName := sp_operationName s,
        sp_startTimeSystem := sp_startTimeSystem s, sp_startTimeSteady := sp_startTimeSteady s,
        sp_duration := sp_duration s, sp_tags := sp_tags s, sp_logs := sp_logs s, sp_references := sp_references s\<rparr>)"

text \<open>
  \<^verbatim>\<open>Finish\<close> of OpenTracing reads the steady clock and calls \<^verbatim>\<open>FinishWithOptions\<close>. The operand of an
  assignment is passed by value, and destroyed with what the span was before.
\<close>

definition Span_destroy :: "time \<Rightarrow> span \<Rightarrow> span \<times> bool" where
  "Span_destroy now s = FinishWithOptions now now [] s"

definition Span_assign :: "time \<Rightarrow> span \<Rightarrow> span \<Rightarrow> span \<times> span \<times> bool" where
  "Span_assign now s rhs = (case Span_swap s (Span_copy rhs) of (s', r) \<Rightarrow> (s', Span_destroy now r))"

lemma Span_copy_eq [simp]: "Span_copy s = s"
  by (simp add: Span_copy_def)

lemma Span_swap_eq [simp]: "Span_swap s r = (r, s)"
  by (simp add: Span_swap_def)

lemma Span_assign_eq [simp]: "Span_assign now s rhs = (rhs, Span_destroy now s)"
  by (simp add: Span_assign_def)

section \<open>Programs of span objects\<close>

text \<open>
  The objects ever made, \<^term>\<open>None\<close> for one that is destroyed; what went to \<^verbatim>\<open>reportSpan\<close>; and the
  number of objects that came into being unfinished and with a tracer.
\<close>

datatype object_op =
    Construct "string option" span_context string time time "tag list" "reference list"
  | Copy nat
  | Assign nat nat time
  | Destroy nat time
  | Work nat span_op

record objects =
  ob_spans :: "span option list"
  ob_metrics :: metrics
  ob_reports :: "span list"
  ob_born :: nat

definition unreported :: "span \<Rightarrow> bool" where
  "unreported s \<longleftrightarrow> \<not> isFinished s \<and> sp_tracer s \<noteq> None"

definition object_at :: "nat \<Rightarrow> objects \<Rightarrow> span option" where
  "object_at i st = (if i < length (ob_spans st) then ob_spans st ! i else None)"

definition reported :: "span \<times> bool \<Rightarrow> objects \<Rightarrow> objects" where
  "reported r st = (case r of (s, rep) \<Rightarrow> if rep then st\<lparr>ob_reports := ob_reports st @ [s]\<rparr> else st)"

definition add_object :: "span \<Rightarrow> objects \<Rightarrow> objects" where
  "add_object s st = st\<lparr>ob_spans := ob_spans st @ [Some s], ob_born := ob_born st + of_bool (unreported s)\<rparr>"

fun object_step :: "object_op \<Rightarrow> objects \<Rightarrow> objects" where
  "object_step (Construct tracer ctx name sys steady tags refs) st =
     add_object (Span tracer ctx name sys steady tags refs) st"
| "object_step (Copy i) st = (case object_at i st of None \<Rightarrow> st | Some s \<Rightarrow> add_object (Span_copy s) st)"
| "object_step (Assign i j now) st =
     (case (object_at i st, object_at j st) of
        (Some s, Some rhs) \<Rightarrow>
          (case Span_assign now s rhs of (s', r) \<Rightarrow>
             reported r (st\<lparr>ob_spans := (ob_spans st)[i := Some s'], ob_born := ob_born st + of_bool (unreported rhs)\<rparr>))
      | _ \<Rightarrow> st)"
| "object_step (Destroy i now) st =
     (case object_at i st of None \<Rightarrow> st
      | Some s \<Rightarrow> reported (Span_destroy now s) (st\<lparr>ob_spans := (ob_spans st)[i := None]\<rparr>))"
| "object_step (Work i op) st =
     (case object_at i st of None \<Rightarrow> st
      | Some s \<Rightarrow>
          (case span_step op (s, ob_metrics st) of (s', ms, rep) \<Rightarrow>
             reported (s', rep) (st\<lparr>ob_spans := (ob_spans st)[i := Some s'], ob_metrics := ms\<rparr>)))"

definition objects0 :: "metrics \<Rightarrow> objects" where
  "objects0 ms = \<lparr>ob_spans = [], ob_metrics = ms, ob_reports = [], ob_born = 0\<rparr>"

definition object_run :: "object_op list \<Rightarrow> objects \<Rightarrow> objects" where
  "object_run ops st = fold object_step ops st"

section \<open>Every object is reported once\<close>

primrec to_report :: "span option \<Rightarrow> bool" where
  "to_report None = False"
| "to_report (Some s) = unreported s"

definition pending_reports :: "objects \<Rightarrow> nat" where
  "pending_reports st = length (filter to_report (ob_spans st))"

definition objects_inv :: "objects \<Rightarrow> bool" where
  "objects_inv st \<longleftrightarrow>
     length (ob_reports st) + pending_reports st = ob_born st \<and>
     list_all (\<lambda>s. isFinished s \<and> sp_tracer s \<noteq> None) (ob_reports st)"

lemma pending_update:
  assumes "object_at i st = Some s" and "ob_spans st' = (ob_spans st)[i := so]"
  shows "pending_reports st' + of_bool (unreported s) =
    pending_reports st + of_bool (to_report so)"
proof -
  have "i < length (ob_spans st)" "ob_spans st ! i = Some s" using assms(1) by (auto simp: object_at_def split: if_splits)
  with filter_update [of i "ob_spans st" to_report so] show ?thesis by (simp add: pending_reports_def assms(2))
qed

lemma Span_destroy_reports:
  "Span_destroy now s = (s', rep) \<Longrightarrow> rep = unreported s \<and> (rep \<longrightarrow> isFinished s' \<and> sp_tracer s' \<noteq> None)"
  by (auto simp: Span_destroy_def FinishWithOptions_def unreported_def isFinished_def Let_def split: if_splits)

lemma span_step_reports:
  assumes "span_step op (s, ms) = (s', ms', rep)"
  shows "of_bool (unreported s) = of_bool rep + (of_bool (unreported s') :: nat)"
    and "rep \<Longrightarrow> isFinished s' \<and> sp_tracer s' \<noteq> None"
proof -
  have tr: "sp_tracer s' = sp_tracer s"
    using span_step_identity [OF assms] by (simp add: span_identity_def)
  show "of_bool (unreported s) = of_bool rep + (of_bool (unreported s') :: nat)"
    and "rep \<Longrightarrow> isFinished s' \<and> sp_tracer s' \<noteq> None"
    using tr span_step_finished [OF _ assms] span_step_finish [OF _ assms]
    by (cases "isFinished s"; auto simp: unreported_def)+
qed

lemma reported_simps [simp]:
  "ob_spans (reported r st) = ob_spans st" "ob_born (reported r st) = ob_born st"
  "ob_reports (reported (s, rep) st) = ob_reports st @ (if rep then [s] else [])"
  by (simp_all add: reported_def split: prod.split)

lemma pending_simps [simp]:
  "pending_reports (reported r st) = pending_reports st" "pending_reports (add_object s st) = pending_reports st + of_bool (unreported s)"
  by (simp_all add: pending_reports_def add_object_def)

lemma objects_inv_add: "objects_inv st \<Longrightarrow> objects_inv (add_object s st)"
  by (simp add: objects_inv_def) (simp add: add_object_def)

lemma objects_inv_step: "objects_inv st \<Longrightarrow> objects_inv (object_step op st)"
proof (cases op)
  case (Assign i j now)
  assume inv: "objects_inv st"
  show ?thesis
  proof (cases "object_at i st = None \<or> object_at j st = None")
    case False
    then obtain s rhs where o: "object_at i st = Some s" "object_at j st = Some rhs" by auto
    obtain s' rep where d: "Span_destroy now s = (s', rep)" by fastforce
    let ?st = "st\<lparr>ob_spans := (ob_spans st)[i := Some rhs], ob_born := ob_born st + of_bool (unreported rhs)\<rparr>"
    from pending_update [OF o(1), of ?st "Some rhs"] show ?thesis
      using inv Span_destroy_reports [OF d] by (auto simp: Assign o d objects_inv_def)
  qed (use inv in \<open>auto simp: Assign split: option.split\<close>)
next
  case (Destroy i now)
  assume inv: "objects_inv st"
  show ?thesis
  proof (cases "object_at i st")
    case (Some s)
    obtain s' rep where d: "Span_destroy now s = (s', rep)" by fastforce
    from pending_update [OF Some, of "st\<lparr>ob_spans := (ob_spans st)[i := None]\<rparr>" None] show ?thesis
      using inv Span_destroy_reports [OF d] by (auto simp: Destroy Some d objects_inv_def)
  qed (use inv in \<open>simp add: Destroy\<close>)
next
  case (Work i op)
  assume inv: "objects_inv st"
  show ?thesis
  proof (cases "object_at i st")
    case (Some s)
    obtain s' ms rep where d: "span_step op (s, ob_metrics st) = (s', ms, rep)" by (metis prod_cases3)
    from pending_update [OF Some, of "st\<lparr>ob_spans := (ob_spans st)[i := Some s'], ob_metrics := ms\<rparr>" "Some s'"] show ?thesis
      using inv span_step_reports [OF d] by (auto simp: Work Some d objects_inv_def)
  qed (use inv in \<open>simp add: Work\<close>)
qed (auto intro: objects_inv_add split: option.split)

lemma objects_inv_run: "objects_inv st \<Longrightarrow> objects_inv (object_run ops st)"
  unfolding object_run_def by (induction ops arbitrary: st) (auto intro: objects_inv_step)

lemma objects_inv_new: "objects_inv (objects0 ms)"
  by (simp add: objects_inv_def objects0_def pending_reports_def)

text \<open>A copy that a reporter keeps is one of a finished span: nothing it goes through reports it.\<close>

lemma finished_copy_silent:
  "isFinished s \<Longrightarrow> Span_destroy now (Span_copy s) = (s, False)"
  by (simp add: Span_destroy_def FinishWithOptions_def)

section \<open>Properties\<close>

text \<open>C20. However span objects are copied, assigned, worked on and destroyed, as many reports are made
  as objects came into being unfinished and with a tracer, less those that are still so: once all
  are destroyed, each was reported exactly once, as a finished span, and a copy of a finished span
  never.\<close>

theorem span_objects_reported:
  fixes ops ms
  defines "st \<equiv> object_run ops (objects0 ms)"
  shows "length (ob_reports st) + pending_reports st = ob_born st \<and>
    list_all (\<lambda>s. isFinished s \<and> sp_tracer s \<noteq> None) (ob_reports st) \<and>
    (set (ob_spans st) \<subseteq> {None} \<longrightarrow> length (ob_reports st) = ob_born st)"
proof -
  have "objects_inv st" unfolding st_def by (rule objects_inv_run [OF objects_inv_new])
  moreover have "set (ob_spans st) \<subseteq> {None} \<longrightarrow> pending_reports st = 0"
    by (auto simp: pending_reports_def filter_empty_conv)
  ultimately show ?thesis by (auto simp: objects_inv_def)
qed

text \<open>An unfinished span that is copied is reported twice, a finished one not again.\<close>

theorem span_objects_reported_witness:
  "length (ob_reports (object_run
     [Construct (Some ''svc'') SpanContext0 ''op'' 1 2 [] [], Copy 0, Work 0 (OpFinish 9 0 []), Copy 0,
      Assign 1 2 9, Destroy 0 9, Destroy 1 9, Destroy 2 9] (objects0 metrics0))) = 2"
proof -
  let ?ops = "[Construct (Some ''svc'') SpanContext0 ''op'' 1 2 [] [], Copy 0, Work 0 (OpFinish 9 0 []), Copy 0,
      Assign 1 2 9, Destroy 0 9, Destroy 1 9, Destroy 2 9]"
  have "ob_spans (object_run ?ops (objects0 metrics0)) = [None, None, None]"
    and "ob_born (object_run ?ops (objects0 metrics0)) = 2"
    by (simp_all add: object_run_def objects0_def add_object_def reported_def object_at_def unreported_def
        isFinished_def Span_def Span_destroy_def FinishWithOptions_def span_step_def)
  with span_objects_reported [of ?ops metrics0] show ?thesis by simp
qed

end
