(* ===== verification/Sample.thy ===== *)
theory Sample
  imports Factory SpanObjects
begin

text \<open>
  The sample program (\<^verbatim>\<open>src/examples/App.cpp\<close>): it sets up a tracer from a file, starts a span and a
  child of it, each of which ends with its scope, and closes the tracer. The thread of a remote
  reporter sweeps meanwhile, as often as it likes; a span between its being pushed and counted is
  not distinguished here.
\<close>

section \<open>The program\<close>

text \<open>What the clocks say when a span starts and ends, and the rounds the thread makes before it ends;
  under \<open>''main''\<close>, those before the tracer is closed. \<open>su_close\<close> is what sending meets while it is.\<close>

record 'o surroundings =
  su_start :: "string \<Rightarrow> start_env"
  su_end :: "string \<Rightarrow> time"
  su_rounds :: "string \<Rightarrow> ('o \<times> time) list"
  su_close :: 'o

definition worker_round ::
  "('o \<Rightarrow> span \<Rightarrow> 's \<Rightarrow> (exception + int) \<times> 's) \<Rightarrow> ('o \<Rightarrow> 's \<Rightarrow> (exception + int) \<times> 's) \<Rightarrow>
   'o \<times> time \<Rightarrow> 's remote_reporter \<Rightarrow> 's remote_reporter" where
  "worker_round app fls w r =
     (if rr_crashed r \<or> \<not> rr_worker r then r else sweepQueue_round app fls (fst w) (snd w) r)"

fun worker_rounds ::
  "('o \<Rightarrow> span \<Rightarrow> 's \<Rightarrow> (exception + int) \<times> 's) \<Rightarrow> ('o \<Rightarrow> 's \<Rightarrow> (exception + int) \<times> 's) \<Rightarrow>
   ('o \<times> time) list \<Rightarrow> 's reporter \<Rightarrow> 's reporter" where
  "worker_rounds app fls ws (RemoteReporterPtr r) = RemoteReporterPtr (fold (worker_round app fls) ws r)"
| "worker_rounds app fls ws (CompositeReporter rs) = CompositeReporter (map (worker_rounds app fls ws) rs)"
| "worker_rounds app fls ws rep = rep"

definition meanwhile ::
  "('o \<Rightarrow> span \<Rightarrow> 's \<Rightarrow> (exception + int) \<times> 's) \<Rightarrow> ('o \<Rightarrow> 's \<Rightarrow> (exception + int) \<times> 's) \<Rightarrow>
   ('o \<times> time) list \<Rightarrow> 's tracer \<Rightarrow> 's tracer" where
  "meanwhile app fls ws t = t\<lparr>t_reporter := worker_rounds app fls ws (t_reporter t)\<rparr>"

text \<open>The end of the scope of a pointer to a span, which is null if no span was started.\<close>

definition scope_end :: "time \<Rightarrow> span option \<Rightarrow> 's tracer \<Rightarrow> 's tracer" where
  "scope_end now s t =
     (case s of None \<Rightarrow> t
      | Some sp \<Rightarrow> (case Span_destroy now sp of (sp', rep) \<Rightarrow> if rep then reportSpan sp' t else t))"

definition options_of :: "(reference_type \<times> span_context option) list \<Rightarrow> start_options" where
  "options_of refs = \<lparr>opt_references = refs, opt_tags = [], opt_start_system = 0, opt_start_steady = 0\<rparr>"

definition tracedSubroutine ::
  "nat \<Rightarrow> ('o \<Rightarrow> span \<Rightarrow> 's \<Rightarrow> (exception + int) \<times> 's) \<Rightarrow> ('o \<Rightarrow> 's \<Rightarrow> (exception + int) \<times> 's) \<Rightarrow>
   'o surroundings \<Rightarrow> span \<Rightarrow> 's tracer \<Rightarrow> 's tracer option" where
  "tracedSubroutine ld app fls su parentSpan t =
     do {
       (s, t1) \<leftarrow> StartSpanWithOptions ld (su_start su ''tracedSubroutine'') ''tracedSubroutine''
                    (options_of [(ChildOfRef, Some (sp_context parentSpan))]) t;
       let t2 = meanwhile app fls (su_rounds su ''tracedSubroutine'') t1;
       Some (scope_end (su_end su ''tracedSubroutine'') s t2)
     }"

text \<open>
  \<^term>\<open>None\<close> if the random numbers run out, \<^term>\<open>Some None\<close> if the null pointer is dereferenced that
  stands for a span that could not be started.
\<close>

definition tracedFunction ::
  "nat \<Rightarrow> ('o \<Rightarrow> span \<Rightarrow> 's \<Rightarrow> (exception + int) \<times> 's) \<Rightarrow> ('o \<Rightarrow> 's \<Rightarrow> (exception + int) \<times> 's) \<Rightarrow>
   'o surroundings \<Rightarrow> 's tracer \<Rightarrow> 's tracer option option" where
  "tracedFunction ld app fls su t =
     do {
       (s, t1) \<leftarrow> StartSpanWithOptions ld (su_start su ''tracedFunction'') ''tracedFunction'' (options_of []) t;
       (case s of
          None \<Rightarrow> Some None
        | Some sp \<Rightarrow> do {
            t2 \<leftarrow> tracedSubroutine ld app fls su sp t1;
            let t3 = meanwhile app fls (su_rounds su ''tracedFunction'') t2;
            Some (Some (scope_end (su_end su ''tracedFunction'') s t3))
          })
     }"

text \<open>Nothing is caught: what the parser or the configuration throws ends the process.\<close>

definition setUpTracer ::
  "'n yaml \<Rightarrow> nat \<Rightarrow> platform \<Rightarrow> time \<Rightarrow> 'n yaml_load \<Rightarrow> made_tracer option" where
  "setUpTracer Y ld pl now loaded =
     (case loaded of
        Loaded configYAML \<Rightarrow>
          (case bindE (Config_parse Y configYAML) (\<lambda>config.
                  Tracer_make ld pl now ''example-service'' config
                    (if cfg_traceId128Bit config then kGen128BitOption else 0)) of
             Inl e \<Rightarrow> None
           | Inr tracer \<Rightarrow> Some tracer)
      | _ \<Rightarrow> None)"

datatype sample_end =
    Usage string
  | Terminated
  | NullPointer
  | ExitWith made_tracer

definition sample_main ::
  "'n yaml \<Rightarrow> (string \<Rightarrow> 'n yaml_load) \<Rightarrow> nat \<Rightarrow> platform \<Rightarrow> time \<Rightarrow> thrift_sizes \<Rightarrow>
   (thrift_batch \<Rightarrow> exception option) surroundings \<Rightarrow> string list \<Rightarrow> sample_end option" where
  "sample_main Y load ld pl now sz su argv =
     (case argv of
        [] \<Rightarrow> Some NullPointer
      | [program] \<Rightarrow> Some (Usage (''usage: '' @ program @ '' <config-yaml-path>'' @ [CHR 10]))
      | program # configFilePath # args \<Rightarrow>
          (case setUpTracer Y ld pl now (load configFilePath) of
             None \<Rightarrow> Some Terminated
           | Some NoopTracer \<Rightarrow> Some (ExitWith NoopTracer)
           | Some TracerWithoutSampler \<Rightarrow> Some NullPointer
           | Some (JaegerTracer transport t) \<Rightarrow>
               let app = (\<lambda>emit sp. ThriftSender_append sz (t_serviceName t) (t_tags t) emit sp) in do {
                 traced \<leftarrow> tracedFunction ld app ThriftSender_flush su t;
                 (case traced of
                    None \<Rightarrow> Some NullPointer
                  | Some t1 \<Rightarrow>
                      let t2 = meanwhile app ThriftSender_flush (su_rounds su ''main'') t1;
                          now' = su_end su ''main''
                      in Some (ExitWith (JaegerTracer transport (Tracer_close app ThriftSender_flush (su_close su) now' t2))))
               }))"

section \<open>What a span is started as\<close>

lemma followed_valid:
  "isValid c \<Longrightarrow> followed [(ChildOfRef, Some c)] = [(ChildOfRef, c)] \<and> choose_self [(ChildOfRef, Some c)] = None \<and>
   choose_parent [(ChildOfRef, c)] = Some c"
  by (simp add: followed_def choose_self_def choose_parent_def usable_def)

lemma followed_Nil: "followed [] = []" "choose_self [] = None" "choose_parent [] = None"
  by (simp_all add: followed_def choose_self_def choose_parent_def)

text \<open>A span as \<^verbatim>\<open>StartSpanWithOptions\<close> makes it, apart from its context.\<close>

lemma started_span:
  assumes "choose_self (opt_references opts) = None" and "rng_live (t_rng t)"
    and "StartSpanWithOptions ld env operation opts t = Some (s, t')"
  obtains sp where "s = Some sp" "sp_tracer sp \<noteq> None" "\<not> isFinished sp" "sp_operationName sp = operation"
    "sp_references sp = map (\<lambda>(ty, c). Reference c ty) (followed (opt_references opts))"
    "t_reporter t' = t_reporter t" "rng_live (t_rng t')"
proof -
  note a = analyzeReferences_eq [of "opt_references opts"]
  let ?t = "t\<lparr>t_log := t_log t @ snd (analyzeReferences (opt_references opts))\<rparr>"
  have self: "ar_self (fst (analyzeReferences (opt_references opts))) = None" using assms(1) by (simp add: a)
  from start_span_eq [OF disjI1 [OF self] assms(3)] obtain ctx tags newTrace t1 sp where st:
    "start_context ld env operation (choose_parent (followed (opt_references opts))) None ?t = Some (ctx, tags, newTrace, t1)"
    "s = Some sp"
    "(sp, t') = startSpanInternal ctx operation (fst (determineStartTimes env opts)) (snd (determineStartTimes env opts))
       tags (opt_tags opts) newTrace (map (\<lambda>(ty, c). Reference c ty) (followed (opt_references opts))) t1"
    using assms(1) by (auto simp: a)
  have "t_reporter t1 = t_reporter t"
    using start_context_returns [of ?t ld env operation "choose_parent (followed (opt_references opts))" None] assms(2) st(1)
    by auto
  then show ?thesis
    using that [OF st(2)] arg_cong [OF st(3), of fst, unfolded startSpanInternal_span]
      arg_cong [OF st(3), of "\<lambda>x. t_reporter (snd x)"] start_span_live [OF assms(3,2)]
    by (auto simp: Span_def isFinished_def)
qed

lemma scope_end_reports:
  assumes "sp_tracer sp \<noteq> None" and "\<not> isFinished sp"
  obtains sp' where "scope_end now (Some sp) t = reportSpan sp' t" "isFinished sp'" "sp_context sp' = sp_context sp"
    "sp_operationName sp' = sp_operationName sp" "sp_references sp' = sp_references sp"
proof -
  obtain sp' rep where d: "Span_destroy now sp = (sp', rep)" by fastforce
  have "rep \<and> isFinished sp'" using Span_destroy_reports [OF d] assms by (simp add: unreported_def)
  moreover have "sp_context sp' = sp_context sp" "sp_operationName sp' = sp_operationName sp" "sp_references sp' = sp_references sp"
    using d by (auto simp: Span_destroy_def FinishWithOptions_def Let_def split: if_splits)
  ultimately show ?thesis using that by (simp add: scope_end_def d)
qed

section \<open>The reporter meanwhile\<close>

definition rep_reaches ::
  "('o \<Rightarrow> span \<Rightarrow> 's \<Rightarrow> (exception + int) \<times> 's) \<Rightarrow> ('o \<Rightarrow> 's \<Rightarrow> (exception + int) \<times> 's) \<Rightarrow>
   's remote_reporter \<Rightarrow> 's reporter \<Rightarrow> 's remote_reporter \<Rightarrow> bool" where
  "rep_reaches app fls r0 rep r \<longleftrightarrow>
     rr_reach app fls r0 r \<and>
     (rep = RemoteReporterPtr r \<or> (\<exists>out. rep = CompositeReporter [RemoteReporterPtr r, LoggingReporter out]))"

text \<open>The remote reporter is open, and has accepted these spans.\<close>

definition rep_open :: "'s remote_reporter \<Rightarrow> span list \<Rightarrow> bool" where
  "rep_open r acc \<longleftrightarrow> \<not> rr_crashed r \<and> rr_running r \<and> rr_worker r \<and> rr_accepted r = acc"

lemma all_convert: "\<forall>sp \<in> set acc. \<exists>t. conv sp = Inr t \<Longrightarrow> length (converts conv acc) = length acc"
  by (induction acc) (auto split: sum.split)

context accountable_sender
begin

lemma reached_inv:
  "rep_reaches append flush r0 rep r \<Longrightarrow> remote_inv emitted pending conv ms r0 \<Longrightarrow> remote_inv emitted pending conv ms r"
  by (auto simp: rep_reaches_def intro: reach_inv)

lemma convertible_alive:
  assumes "remote_inv emitted pending conv ms r" and "\<forall>sp \<in> set (rr_accepted r). \<exists>t. conv sp = Inr t"
  shows "\<not> rr_crashed r"
  using crash_inv [OF assms(1)] assms(2) by (force simp: list_ex_iff)

lemma report_open:
  assumes "rep_reaches append flush r0 rep r" and "remote_inv emitted pending conv ms r0" and "rep_open r acc"
    and "int (length acc) < rr_fixedQueueSize r"
  obtains r' where "rep_reaches append flush r0 (Reporter_report sp rep) r'" "rep_open r' (acc @ [sp])"
    "rr_fixedQueueSize r' = rr_fixedQueueSize r"
proof -
  have "remote_inv emitted pending conv ms r" by (rule reached_inv [OF assms(1,2)])
  then have "length (rr_queue r) \<le> length acc" using assms(3) by (auto simp: remote_inv_def rep_open_def)
  then have q: "int (length (rr_queue r)) < rr_fixedQueueSize r" using assms(4) by simp
  let ?r' = "rr_increment (rr_report sp r)"
  have n: "\<not> rr_crashed r" "\<not> rr_crashed (rr_report sp r)" "0 < rr_pushed (rr_report sp r)"
    using assms(3) q by (simp_all add: rep_open_def rr_report_def)
  have "rr_reach append flush r0 ?r'"
    using assms(1) by (intro rr_reach.step [OF rr_reach.step [OF _ rr_step.report] rr_step.increment] n) (simp add: rep_reaches_def)
  moreover have "rr_pushed r < rr_pushed (rr_report sp r)" using q by (simp add: rr_report_def)
  ultimately have "rep_reaches append flush r0 (Reporter_report sp rep) ?r'"
    using assms(1) by (auto simp: rep_reaches_def Let_def)
  moreover have "rep_open ?r' (acc @ [sp])" "rr_fixedQueueSize ?r' = rr_fixedQueueSize r"
    using assms(3) q by (simp_all add: rep_open_def rr_increment_def rr_report_def)
  ultimately show ?thesis using that by blast
qed

lemma round_open:
  assumes "rr_reach append flush r0 r" and "remote_inv emitted pending conv ms r0" and "rep_open r acc"
    and "\<forall>sp \<in> set acc. \<exists>t. conv sp = Inr t"
  shows "rr_reach append flush r0 (worker_round append flush w r) \<and> rep_open (worker_round append flush w r) acc \<and>
    rr_fixedQueueSize (worker_round append flush w r) = rr_fixedQueueSize r"
proof -
  let ?r' = "sweepQueue_round append flush (fst w) (snd w) r"
  have r': "worker_round append flush w r = ?r'" using assms(3) by (simp add: worker_round_def rep_open_def)
  have reach: "rr_reach append flush r0 ?r'"
    using assms(3) by (intro rr_reach.step [OF assms(1) rr_step.sweep]) (simp_all add: rep_open_def)
  have "\<not> rr_crashed ?r'"
    using assms(3,4) by (intro convertible_alive [OF reach_inv [OF reach assms(2)]]) (simp add: sweep_frame rep_open_def)
  moreover have "rr_worker ?r'" "rr_fixedQueueSize ?r' = rr_fixedQueueSize r"
    using assms(3) by (auto simp: sweepQueue_round_def rep_open_def split: list.split)
  ultimately show ?thesis using reach assms(3) by (simp add: r' rep_open_def sweep_frame)
qed

lemma rounds_open:
  assumes "rep_reaches append flush r0 rep r" and "remote_inv emitted pending conv ms r0" and "rep_open r acc"
    and "\<forall>sp \<in> set acc. \<exists>t. conv sp = Inr t"
  obtains r' where "rep_reaches append flush r0 (worker_rounds append flush ws rep) r'" "rep_open r' acc"
    "rr_fixedQueueSize r' = rr_fixedQueueSize r"
proof -
  have "rr_reach append flush r0 r \<Longrightarrow> rep_open r acc \<Longrightarrow>
      rr_reach append flush r0 (fold (worker_round append flush) ws r) \<and> rep_open (fold (worker_round append flush) ws r) acc \<and>
      rr_fixedQueueSize (fold (worker_round append flush) ws r) = rr_fixedQueueSize r"
  proof (induction ws arbitrary: r)
    case (Cons w ws)
    from round_open [OF Cons.prems(1) assms(2) Cons.prems(2) assms(4), of w] Cons.IH show ?case by simp
  qed simp
  then show ?thesis using assms(1,3) that [of "fold (worker_round append flush) ws r"] by (auto simp: rep_reaches_def)
qed

lemma close_open:
  fixes out now
  assumes "rep_reaches append flush r0 rep r" and "remote_inv emitted pending conv ms r0" and "rep_open r acc"
    and "\<forall>sp \<in> set acc. \<exists>t. conv sp = Inr t"
  defines "r' \<equiv> rr_close append flush out now r"
  shows "rep_reaches append flush r0 (Reporter_close append flush out now rep) r'" "\<not> rr_crashed r'" "\<not> rr_worker r'"
    "rr_queue r' = []" "rr_accepted r' = acc" "subseq (emitted (rr_sender r')) (converts conv acc)"
    "int (length acc) \<le> int (length (emitted (rr_sender r'))) + (rr_metrics r' ReporterFailure - ms ReporterFailure)"
proof -
  have r: "\<not> rr_crashed r" "rr_running r" "rr_worker r" "rr_accepted r = acc" using assms(3) by (simp_all add: rep_open_def)
  have reach: "rr_reach append flush r0 r'"
    unfolding r'_def using assms(1) r by (intro close_reach) (simp_all add: rep_reaches_def)
  then show "rep_reaches append flush r0 (Reporter_close append flush out now rep) r'"
    using assms(1) by (auto simp: rep_reaches_def r'_def)
  have inv: "remote_inv emitted pending conv ms r'" by (rule reach_inv [OF reach assms(2)])
  show acc: "rr_accepted r' = acc" by (simp add: r'_def close_accepted r)
  show c: "\<not> rr_crashed r'" using convertible_alive [OF inv] assms(4) by (simp add: acc)
  show "\<not> rr_worker r'" and q: "rr_queue r' = []"
    using close_ends [OF r(2,3) c [unfolded r'_def]] by (simp_all add: r'_def)
  have "subseq (emitted (rr_sender r') @ pending (rr_sender r')) (converts conv acc)"
    using inv_conserves [OF inv] q acc by simp
  then show "subseq (emitted (rr_sender r')) (converts conv acc)"
    by (rule subseq_order.trans [OF prefix_imp_subseq, rotated]) simp
  show "int (length acc) \<le> int (length (emitted (rr_sender r'))) + (rr_metrics r' ReporterFailure - ms ReporterFailure)"
    using close_accounts [OF reached_inv [OF assms(1,2)] r(1,2) c [unfolded r'_def]] all_convert [OF assms(4)]
    by (simp add: r'_def r)
qed

end

section \<open>A span and its child\<close>

lemma sampled_report:
  "isSampled (sp_context sp) \<Longrightarrow> t_reporter (reportSpan sp t) = Reporter_report sp (t_reporter t)"
  by (simp add: reportSpan_def Let_def)

lemma root_sampled:
  assumes "t_sampler t = SConst (ConstSampler True)" and "StartSpanWithOptions ld env operation (options_of []) t = Some (Some sp, t')"
  shows "isValid (sp_context sp) \<and> isSampled (sp_context sp) \<and> parentID (sp_context sp) = 0"
proof -
  have o: "opt_references (options_of []) = []" "opt_tags (options_of []) = []" by (simp_all add: options_of_def)
  from start_root [of "options_of []" ld env operation t "Some sp" t'] assms show ?thesis
    by (auto simp: o followed_Nil Let_def Const_isSampled_def SamplingStatus_def ConstSampler_def)
qed

lemma child_context:
  assumes "isValid g" and "StartSpanWithOptions ld env operation (options_of [(ChildOfRef, Some g)]) t = Some (Some sp, t')"
  shows "traceID (sp_context sp) = traceID g \<and> parentID (sp_context sp) = spanID g \<and> spanID (sp_context sp) \<noteq> 0 \<and>
    isSampled (sp_context sp) = isSampled g"
proof -
  have o: "opt_references (options_of [(ChildOfRef, Some g)]) = [(ChildOfRef, Some g)]" by (simp add: options_of_def)
  from start_from_parent [OF assms(1) o assms(2)] obtain sp' where c: "Some sp = Some sp'" "spanID (sp_context sp') \<noteq> 0"
      "sp_context sp' = SpanContext (traceID g) (spanID (sp_context sp')) (spanID g) (flags g) (baggage g) [] []" by blast
  from c(3) have "traceID (sp_context sp') = traceID g" "parentID (sp_context sp') = spanID g" "flags (sp_context sp') = flags g"
    by (metis SpanContext_def span_context.select_convs)+
  with c(1,2) show ?thesis by (simp add: isSampled_def)
qed

text \<open>What the two spans of the program are to each other.\<close>

definition span_and_child :: "span \<Rightarrow> span \<Rightarrow> bool" where
  "span_and_child parent child \<longleftrightarrow>
     isFinished parent \<and> isFinished child \<and>
     sp_operationName parent = ''tracedFunction'' \<and> sp_operationName child = ''tracedSubroutine'' \<and>
     traceID (sp_context child) = traceID (sp_context parent) \<and>
     parentID (sp_context child) = spanID (sp_context parent) \<and> parentID (sp_context parent) = 0 \<and>
     sp_references parent = [] \<and> map ref_type (sp_references child) = [ChildOfRef] \<and>
     map (spanID \<circ> ref_context) (sp_references child) = [spanID (sp_context parent)]"

lemma span_and_child_convert:
  "span_and_child parent child \<Longrightarrow> \<forall>sp \<in> set [child, parent]. \<exists>t. Span_thrift sp = Inr t"
  unfolding Span_thrift_total by (auto simp: span_and_child_def)

lemma tracedSubroutine_reports:
  fixes sz service tgs
  defines "app \<equiv> \<lambda>emit sp. ThriftSender_append sz service tgs emit sp"
  assumes "isValid (sp_context parent)" and "isSampled (sp_context parent)" and "rng_live (t_rng t)"
    and "rep_reaches app ThriftSender_flush r0 (t_reporter t) r"
    and "remote_inv sender_emitted ts_spanBuffer Span_thrift ms r0" and "rep_open r []" and "2 \<le> rr_fixedQueueSize r"
  obtains t' r' child where "tracedSubroutine ld app ThriftSender_flush su parent t = Some t'"
    "rep_reaches app ThriftSender_flush r0 (t_reporter t') r'" "rep_open r' [child]" "rr_fixedQueueSize r' = rr_fixedQueueSize r"
    "isFinished child" "sp_operationName child = ''tracedSubroutine''"
    "traceID (sp_context child) = traceID (sp_context parent)" "parentID (sp_context child) = spanID (sp_context parent)"
    "sp_references child = [\<lparr>ref_context = sp_context parent, ref_type = ChildOfRef\<rparr>]"
proof -
  let ?o = "options_of [(ChildOfRef, Some (sp_context parent))]"
  let ?env = "su_start su ''tracedSubroutine''"
  have o: "opt_references ?o = [(ChildOfRef, Some (sp_context parent))]" by (simp add: options_of_def)
  note f = followed_valid [OF assms(2)]
  obtain s t1 where st: "StartSpanWithOptions ld ?env ''tracedSubroutine'' ?o t = Some (s, t1)"
    using start_span_returns [OF assms(4)] by blast
  obtain sp where sp: "s = Some sp" "sp_tracer sp \<noteq> None" "\<not> isFinished sp" "sp_operationName sp = ''tracedSubroutine''"
      "sp_references sp = map (\<lambda>(ty, c). Reference c ty) (followed (opt_references ?o))" "t_reporter t1 = t_reporter t"
    by (rule started_span [OF _ assms(4) st]) (use f o in auto)
  have c: "traceID (sp_context sp) = traceID (sp_context parent) \<and> parentID (sp_context sp) = spanID (sp_context parent) \<and>
      isSampled (sp_context sp)"
    using child_context [OF assms(2)] st sp(1) assms(3) by blast
  obtain r1 where r1: "rep_reaches app ThriftSender_flush r0 (worker_rounds app ThriftSender_flush (su_rounds su ''tracedSubroutine'') (t_reporter t)) r1"
      "rep_open r1 []" "rr_fixedQueueSize r1 = rr_fixedQueueSize r"
    using thrift_accountable.rounds_open [OF assms(5) [unfolded app_def] assms(6,7)] unfolding app_def by auto
  let ?t2 = "meanwhile app ThriftSender_flush (su_rounds su ''tracedSubroutine'') t1"
  obtain sp' where sp': "scope_end (su_end su ''tracedSubroutine'') (Some sp) ?t2 = reportSpan sp' ?t2" "isFinished sp'"
      "sp_context sp' = sp_context sp" "sp_operationName sp' = sp_operationName sp" "sp_references sp' = sp_references sp"
    by (rule scope_end_reports [OF sp(2,3)])
  obtain r2 where r2: "rep_reaches app ThriftSender_flush r0 (Reporter_report sp' (t_reporter ?t2)) r2" "rep_open r2 [sp']"
      "rr_fixedQueueSize r2 = rr_fixedQueueSize r1"
    using thrift_accountable.report_open [OF r1(1) [unfolded app_def] assms(6) r1(2), of sp'] r1(3) assms(8) sp(6)
    unfolding app_def by (auto simp: meanwhile_def)
  have "tracedSubroutine ld app ThriftSender_flush su parent t = Some (reportSpan sp' ?t2)"
    by (simp add: tracedSubroutine_def st sp(1) sp'(1))
  then show ?thesis
    using r2 r1(3) sp' c sp(4,5) f o
    by (intro that [of "reportSpan sp' ?t2" r2 sp']) (auto simp: sampled_report Reference_def)
qed

lemma tracedFunction_reports:
  fixes sz service tgs
  defines "app \<equiv> \<lambda>emit sp. ThriftSender_append sz service tgs emit sp"
  assumes "t_sampler t = SConst (ConstSampler True)" and "rng_live (t_rng t)"
    and "rep_reaches app ThriftSender_flush r0 (t_reporter t) r"
    and "remote_inv sender_emitted ts_spanBuffer Span_thrift ms r0" and "rep_open r []" and "2 \<le> rr_fixedQueueSize r"
  obtains t' r' parent child where "tracedFunction ld app ThriftSender_flush su t = Some (Some t')"
    "rep_reaches app ThriftSender_flush r0 (t_reporter t') r'" "rep_open r' [child, parent]" "span_and_child parent child"
proof -
  have o: "opt_references (options_of []) = []" by (simp add: options_of_def)
  obtain s t1 where st: "StartSpanWithOptions ld (su_start su ''tracedFunction'') ''tracedFunction'' (options_of []) t = Some (s, t1)"
    using start_span_returns [OF assms(3)] by blast
  obtain sp where sp: "s = Some sp" "sp_tracer sp \<noteq> None" "\<not> isFinished sp" "sp_operationName sp = ''tracedFunction''"
      "sp_references sp = map (\<lambda>(ty, c). Reference c ty) (followed (opt_references (options_of [])))"
      "t_reporter t1 = t_reporter t" "rng_live (t_rng t1)"
    by (rule started_span [OF _ assms(3) st]) (auto simp: o followed_Nil)
  have c: "isValid (sp_context sp)" "isSampled (sp_context sp)" "parentID (sp_context sp) = 0"
    using root_sampled [OF assms(2)] st sp(1) by blast+
  obtain t2 r2 child where t2: "tracedSubroutine ld app ThriftSender_flush su sp t1 = Some t2"
      "rep_reaches app ThriftSender_flush r0 (t_reporter t2) r2" "rep_open r2 [child]" "rr_fixedQueueSize r2 = rr_fixedQueueSize r"
      "isFinished child" "sp_operationName child = ''tracedSubroutine''"
      "traceID (sp_context child) = traceID (sp_context sp)" "parentID (sp_context child) = spanID (sp_context sp)"
      "sp_references child = [\<lparr>ref_context = sp_context sp, ref_type = ChildOfRef\<rparr>]"
    unfolding app_def
    by (rule tracedSubroutine_reports [OF c(1,2) sp(7) assms(4) [folded sp(6), unfolded app_def] assms(5-7)])
  have conv: "\<forall>x \<in> set [child]. \<exists>y. Span_thrift x = Inr y" using t2(9) by (simp add: Span_thrift_total)
  obtain r3 where r3: "rep_reaches app ThriftSender_flush r0 (worker_rounds app ThriftSender_flush (su_rounds su ''tracedFunction'') (t_reporter t2)) r3"
      "rep_open r3 [child]" "rr_fixedQueueSize r3 = rr_fixedQueueSize r"
    using thrift_accountable.rounds_open [OF t2(2) [unfolded app_def] assms(5) t2(3) conv] t2(4) unfolding app_def by auto
  let ?t3 = "meanwhile app ThriftSender_flush (su_rounds su ''tracedFunction'') t2"
  obtain sp' where sp': "scope_end (su_end su ''tracedFunction'') (Some sp) ?t3 = reportSpan sp' ?t3" "isFinished sp'"
      "sp_context sp' = sp_context sp" "sp_operationName sp' = sp_operationName sp" "sp_references sp' = sp_references sp"
    by (rule scope_end_reports [OF sp(2,3)])
  obtain r4 where r4: "rep_reaches app ThriftSender_flush r0 (Reporter_report sp' (t_reporter ?t3)) r4" "rep_open r4 [child, sp']"
    using thrift_accountable.report_open [OF r3(1) [unfolded app_def] assms(5) r3(2), of sp'] r3(3) assms(7)
    unfolding app_def by (auto simp: meanwhile_def)
  have "tracedFunction ld app ThriftSender_flush su t = Some (Some (reportSpan sp' ?t3))"
    by (simp add: tracedFunction_def st sp(1) t2(1) sp'(1))
  then show ?thesis
    using r4 sp' c sp(4,5) t2(5-9) o
    by (intro that [of "reportSpan sp' ?t3" r4 child sp'])
      (auto simp: sampled_report span_and_child_def followed_Nil)
qed

section \<open>Properties\<close>

text \<open>C6. Run with a file that samples every trace, the sample program ends having reported its trace,
  however its reporter's thread is scheduled and sending fares: the remote reporter accepted the
  span of the subroutine first and then that of the function, of the same trace, the one a child of
  the other and both finished; its thread has ended with nothing left in the queue, and each of the
  two spans was sent, in that order, or is in the count of failures.\<close>

theorem sample_reports_trace:
  assumes "load file = Loaded node" and "Config_parse Y node = Inr c" and "\<not> cfg_disabled c"
    and "map to_lower (sc_type (cfg_sampler c)) = kSamplerTypeConst" and "sc_param (cfg_sampler c) \<noteq> 0"
    and "2 \<le> rc_queueSize (cfg_reporter c)" and "pl_connect pl = (\<lambda>_. None)" and "rng_live (pl_random pl)"
  shows "\<exists>transport t r parent child.
    sample_main Y load ld pl now sz su [program, file] = Some (ExitWith (JaegerTracer transport t)) \<and>
    (t_reporter t = RemoteReporterPtr r \<or> (\<exists>out. t_reporter t = CompositeReporter [RemoteReporterPtr r, LoggingReporter out])) \<and>
    rr_accepted r = [child, parent] \<and> span_and_child parent child \<and>
    \<not> rr_crashed r \<and> \<not> rr_worker r \<and> rr_queue r = [] \<and>
    subseq (sender_emitted (rr_sender r)) (converts Span_thrift [child, parent]) \<and>
    2 \<le> int (length (sender_emitted (rr_sender r))) + rr_metrics r ReporterFailure"
proof -
  let ?options = "if cfg_traceId128Bit c then kGen128BitOption else 0"
  have s: "makeSampler ld now (cfg_sampler c) = (Inr (Some (SConst (ConstSampler True))), [])"
    using assms(4,5) by (simp add: makeSampler_def Let_def)
  obtain transport mx rep out2 where m: "makeReporter (pl_connect pl) now (cfg_reporter c) metrics0 = (Inr (transport, rep), out2)"
    and rep: "rep = RemoteReporterPtr (RemoteReporter (rc_bufferFlushInterval (cfg_reporter c)) (rc_queueSize (cfg_reporter c))
        (ThriftSender mx) metrics0 now) \<or>
      rep = CompositeReporter [RemoteReporterPtr (RemoteReporter (rc_bufferFlushInterval (cfg_reporter c)) (rc_queueSize (cfg_reporter c))
        (ThriftSender mx) metrics0 now), LoggingReporter []]"
    by (cases "rc_logSpans (cfg_reporter c)") (auto simp: makeReporter_def Let_def assms(7))
  let ?r0 = "RemoteReporter (rc_bufferFlushInterval (cfg_reporter c)) (rc_queueSize (cfg_reporter c)) (ThriftSender mx) metrics0 now"
  obtain tags out3 where tg: "tracer_tags pl (cfg_tags c) = (tags, out3)" by fastforce
  define t0 where "t0 = \<lparr>t_serviceName = ''example-service'', t_sampler = SConst (ConstSampler True), t_reporter = rep,
    t_metrics = metrics0, t_log = out2 @ out3, t_rng = pl_random pl, t_format = cfg_propagationFormat c,
    t_headers = cfg_headers c, t_tags = tags, t_restrictionManager = DefaultRestrictionManager 0, t_options = ?options\<rparr>"
  let ?app = "\<lambda>emit sp. ThriftSender_append sz (t_serviceName t0) (t_tags t0) emit sp"
  have make: "setUpTracer Y ld pl now (load file) = Some (JaegerTracer transport t0)"
    using assms(1-3) s m tg by (simp add: setUpTracer_def Tracer_make_def t0_def)
  have t0: "t_sampler t0 = SConst (ConstSampler True)" "rng_live (t_rng t0)" by (simp_all add: t0_def assms(8))
  have r0: "rep_reaches ?app ThriftSender_flush ?r0 (t_reporter t0) ?r0" "rep_open ?r0 []" "2 \<le> rr_fixedQueueSize ?r0"
    using rep assms(6) by (auto simp: rep_reaches_def rep_open_def RemoteReporter_def t0_def intro: rr_reach.init)
  have inv: "remote_inv sender_emitted ts_spanBuffer Span_thrift metrics0 ?r0"
    by (rule thrift_accountable.new_inv [OF thrift_sender_new])
  obtain t1 r1 parent child where t1: "tracedFunction ld ?app ThriftSender_flush su t0 = Some (Some t1)"
      "rep_reaches ?app ThriftSender_flush ?r0 (t_reporter t1) r1" "rep_open r1 [child, parent]" "span_and_child parent child"
    by (rule tracedFunction_reports [OF t0 r0(1) inv r0(2,3)])
  note conv = span_and_child_convert [OF t1(4)]
  obtain r2 where r2: "rep_reaches ?app ThriftSender_flush ?r0
      (worker_rounds ?app ThriftSender_flush (su_rounds su ''main'') (t_reporter t1)) r2" "rep_open r2 [child, parent]"
    by (rule thrift_accountable.rounds_open [OF t1(2) inv t1(3) conv])
  let ?t2 = "Tracer_close ?app ThriftSender_flush (su_close su) (su_end su ''main'')
      (meanwhile ?app ThriftSender_flush (su_rounds su ''main'') t1)"
  note closed = thrift_accountable.close_open [OF r2(1) inv r2(2) conv, of "su_close su" "su_end su ''main''"]
  have "sample_main Y load ld pl now sz su [program, file] = Some (ExitWith (JaegerTracer transport ?t2))"
    by (simp add: sample_main_def make t1(1) Let_def)
  moreover have "t_reporter ?t2 = Reporter_close ?app ThriftSender_flush (su_close su) (su_end su ''main'')
      (worker_rounds ?app ThriftSender_flush (su_rounds su ''main'') (t_reporter t1))"
    by (simp add: Tracer_close_def meanwhile_def)
  ultimately show ?thesis
    using closed t1(4) by (intro exI conjI) (auto simp: rep_reaches_def metrics0_def)
qed

text \<open>The file that comes with the program, \<^verbatim>\<open>src/examples/config.yml\<close>; a node is known by the keys that lead to it.\<close>

definition sample_scalars :: "string list \<Rightarrow> string option" where
  "sample_scalars =
     [[''disabled''] \<mapsto> ''false'', [''reporter'', ''logSpans''] \<mapsto> ''true'', [''sampler'', ''type''] \<mapsto> ''const'',
      [''sampler'', ''param''] \<mapsto> ''1'']"

definition sample_yaml :: "string list yaml" where
  "sample_yaml =
     \<lparr>y_isDefined = (\<lambda>n. n \<in> {[], [''reporter''], [''sampler'']} \<or> sample_scalars n \<noteq> None),
      y_isMap = (\<lambda>n. n \<in> {[], [''reporter''], [''sampler'']}), y_at = (\<lambda>n key. n @ [key]),
      y_string = (\<lambda>n. case sample_scalars n of None \<Rightarrow> Inl (RuntimeError ''bad conversion'') | Some s \<Rightarrow> Inr s),
      y_bool = (\<lambda>n. if sample_scalars n = Some ''true'' then Inr True
         else if sample_scalars n = Some ''false'' then Inr False else Inl (RuntimeError ''bad conversion'')),
      y_int = (\<lambda>n. if sample_scalars n = Some ''1'' then Inr 1 else Inl (RuntimeError ''bad conversion'')),
      y_double = (\<lambda>n. if sample_scalars n = Some ''1'' then Inr 1 else Inl (RuntimeError ''bad conversion'')),
      y_items = (\<lambda>_. [])\<rparr>"

definition sample_surroundings :: "(thrift_batch \<Rightarrow> exception option) surroundings" where
  "sample_surroundings =
     \<lparr>su_start = (\<lambda>_. example_env), su_end = (\<lambda>_. 100), su_rounds = (\<lambda>_. [(\<lambda>_. None, 50)]), su_close = (\<lambda>_. None)\<rparr>"

lemma sample_config:
  "\<exists>c. Config_parse sample_yaml [] = Inr c \<and> \<not> cfg_disabled c \<and> sc_type (cfg_sampler c) = ''const'' \<and>
     sc_param (cfg_sampler c) = 1 \<and> rc_queueSize (cfg_reporter c) = 100 \<and> rc_logSpans (cfg_reporter c)"
  by (simp add: Config_parse_def SamplerConfig_parse_def ReporterConfig_parse_def HeadersConfig_parse_def
      RestrictionsConfig_parse_def findOrDefault_def Let_def sample_yaml_def sample_scalars_def Config_def
      SamplerConfig_def ReporterConfig_def kDefaultQueueSize_def)

theorem sample_reports_trace_witness:
  "\<exists>transport t. sample_main sample_yaml (\<lambda>_. Loaded []) 64 example_platform 0 example_sizes sample_surroundings
     [''app'', ''config.yml''] = Some (ExitWith (JaegerTracer transport t))"
proof -
  obtain c where c: "Config_parse sample_yaml [] = Inr c" "\<not> cfg_disabled c" "sc_type (cfg_sampler c) = ''const''"
      "sc_param (cfg_sampler c) = 1" "rc_queueSize (cfg_reporter c) = 100" using sample_config by blast
  have "map to_lower ''const'' = ''const''" by code_simp
  then have ty: "map to_lower (sc_type (cfg_sampler c)) = kSamplerTypeConst" by (simp add: c(3) kSamplerTypeConst_def)
  have "rng_live (pl_random example_platform)" "pl_connect example_platform = (\<lambda>_. None)"
    using example_tracer_live by (simp_all add: example_platform_def example_tracer_def)
  with sample_reports_trace [where load = "\<lambda>_. Loaded []" and node = "[]", OF refl c(1,2) ty] c(4,5) show ?thesis
    by fastforce
qed

end
