(* ===== verification/Listening.thy ===== *)
theory Listening
  imports Addresses
begin

text \<open>
  The threads that listen: \<^verbatim>\<open>Server::SocketListener\<close> of the interoperability server
  (\<^verbatim>\<open>crossdock/Server.cpp\<close>) and those of the \<^verbatim>\<open>MockAgent\<close> (\<^verbatim>\<open>testutils/MockAgent.cpp\<close>). What they answer is
  in \<open>Crossdock\<close> and \<open>TestAgent\<close>; here it is how they are started and stopped. An event is one step of one
  thread; it has no result, \<^term>\<open>None\<close>, where the thread cannot make that step, because it is not there or
  because it is blocked.
\<close>

section \<open>The listener\<close>

text \<open>\<open>Died\<close> is an exception that leaves the function of the thread, which ends the process.\<close>

datatype listener_thread = NotStarted | Opening | TestRunning | Accepting | Collecting | ThreadDone | Died

datatype listener_caller = Idle | AwaitsStart | Stopping | Stopped

record listener =
  sl_thread :: listener_thread
  sl_running :: bool
  sl_socket :: bool
  sl_clients :: nat
  sl_tasks :: "bool list"
  sl_caller :: listener_caller

definition SocketListener :: listener where
  "SocketListener =
     \<lparr>sl_thread = NotStarted, sl_running = False, sl_socket = False, sl_clients = 0, sl_tasks = [], sl_caller = Idle\<rparr>"

text \<open>A client is handled by a task of its own, which the thread waits for at its end.\<close>

datatype listener_event =
    CallStart
  | StartReturns
  | ThreadStep
  | CallFails
  | ClientConnects
  | TaskEnds nat
  | CallStop
  | StopReturns

definition listener_start :: "listener \<Rightarrow> listener option" where
  "listener_start p =
     (if sl_caller p = Idle \<and> sl_thread p = NotStarted
      then Some (p\<lparr>sl_thread := Opening, sl_caller := AwaitsStart\<rparr>) else None)"

definition listener_started :: "listener \<Rightarrow> listener option" where
  "listener_started p =
     (if sl_caller p = AwaitsStart \<and> sl_thread p \<notin> {Opening, Died} then Some (p\<lparr>sl_caller := Idle\<rparr>) else None)"

definition listener_open :: "listener \<Rightarrow> listener" where
  "listener_open p = p\<lparr>sl_thread := TestRunning, sl_running := True, sl_socket := True\<rparr>"

definition listener_accept :: "listener \<Rightarrow> listener option" where
  "listener_accept p =
     (case sl_clients p of
        0 \<Rightarrow> None
      | Suc n \<Rightarrow> Some (p\<lparr>sl_thread := TestRunning, sl_clients := n, sl_tasks := sl_tasks p @ [False]\<rparr>))"

definition listener_collect :: "listener \<Rightarrow> listener option" where
  "listener_collect p = (if list_all id (sl_tasks p) then Some (p\<lparr>sl_thread := ThreadDone\<rparr>) else None)"

definition listener_thread_step :: "listener \<Rightarrow> listener option" where
  "listener_thread_step p =
     (case sl_thread p of
        Opening \<Rightarrow> Some (listener_open p)
      | TestRunning \<Rightarrow> Some (p\<lparr>sl_thread := if sl_running p then Accepting else Collecting\<rparr>)
      | Accepting \<Rightarrow> listener_accept p
      | Collecting \<Rightarrow> listener_collect p
      | _ \<Rightarrow> None)"

definition listener_call_fails :: "listener \<Rightarrow> listener option" where
  "listener_call_fails p = (if sl_thread p \<in> {Opening, Accepting} then Some (p\<lparr>sl_thread := Died\<rparr>) else None)"

definition listener_stop :: "listener \<Rightarrow> listener option" where
  "listener_stop p =
     (if sl_caller p \<noteq> Idle then None
      else Some (if sl_running p then p\<lparr>sl_running := False, sl_caller := Stopping\<rparr> else p))"

definition listener_stopped :: "listener \<Rightarrow> listener option" where
  "listener_stopped p =
     (if sl_caller p = Stopping \<and> sl_thread p = ThreadDone
      then Some (p\<lparr>sl_socket := False, sl_caller := Stopped\<rparr>) else None)"

fun listener_do :: "listener_event \<Rightarrow> listener \<Rightarrow> listener option" where
  "listener_do CallStart p = listener_start p"
| "listener_do StartReturns p = listener_started p"
| "listener_do ThreadStep p = listener_thread_step p"
| "listener_do CallFails p = listener_call_fails p"
| "listener_do ClientConnects p = (if sl_socket p then Some (p\<lparr>sl_clients := sl_clients p + 1\<rparr>) else None)"
| "listener_do (TaskEnds i) p =
     (if i < length (sl_tasks p) then Some (p\<lparr>sl_tasks := (sl_tasks p)[i := True]\<rparr>) else None)"
| "listener_do CallStop p = listener_stop p"
| "listener_do StopReturns p = listener_stopped p"

fun listener_run :: "listener_event list \<Rightarrow> listener \<Rightarrow> listener option" where
  "listener_run [] p = Some p"
| "listener_run (e # es) p = (case listener_do e p of None \<Rightarrow> None | Some p' \<Rightarrow> listener_run es p')"

lemmas listener_defs = listener_start_def listener_started_def listener_open_def listener_accept_def
  listener_collect_def listener_thread_step_def listener_call_fails_def
  listener_stop_def listener_stopped_def

lemma listener_run_append:
  "listener_run (es @ fs) p = Option.bind (listener_run es p) (listener_run fs)"
  by (induction es arbitrary: p) (auto split: option.split)

definition listener_inv :: "listener \<Rightarrow> bool" where
  "listener_inv p \<longleftrightarrow>
     (case sl_thread p of
        NotStarted \<Rightarrow> \<not> sl_running p \<and> sl_caller p = Idle
      | Opening \<Rightarrow> \<not> sl_running p \<and> sl_caller p = AwaitsStart
      | Died \<Rightarrow> True
      | Collecting \<Rightarrow> \<not> sl_running p \<and> sl_socket p \<and> sl_caller p \<noteq> Stopped
      | ThreadDone \<Rightarrow> \<not> sl_running p
      | _ \<Rightarrow> sl_socket p \<and> sl_caller p \<noteq> Stopped \<and> (sl_running p \<longrightarrow> sl_caller p \<noteq> Stopping))"

lemma listener_inv_new: "listener_inv SocketListener"
  by (simp add: listener_inv_def SocketListener_def)

lemma listener_inv_do:
  assumes "listener_do e p = Some p'" and "listener_inv p"
  shows "listener_inv p'"
  using assms
  by (cases e; cases "sl_thread p"; cases "sl_clients p")
    (simp_all add: listener_inv_def listener_defs split: if_split_asm, (auto split: if_split_asm)?)

lemma listener_inv_run: "listener_run es p = Some p' \<Longrightarrow> listener_inv p \<Longrightarrow> listener_inv p'"
  by (induction es arbitrary: p) (auto split: option.splits dest: listener_inv_do)

text \<open>A thread that accepts stays there as long as no client connects.\<close>

lemma stays_accepting:
  assumes "listener_run es p = Some q" and "ClientConnects \<notin> set es"
    and "sl_caller p = Stopping" and "sl_thread p \<in> {Accepting, Died}" and "sl_clients p = 0"
  shows "sl_caller q = Stopping \<and> sl_thread q \<in> {Accepting, Died}"
  using assms
proof (induction es arbitrary: p)
  case (Cons e es)
  then obtain p1 where 1: "listener_do e p = Some p1" "listener_run es p1 = Some q" by (auto split: option.splits)
  have "sl_caller p1 = Stopping \<and> sl_thread p1 \<in> {Accepting, Died} \<and> sl_clients p1 = 0"
    using 1(1) Cons.prems by (cases e) (auto simp: listener_defs split: if_splits)
  then show ?case using Cons.IH 1(2) Cons.prems(2) by auto
qed simp

text \<open>Every task ends.\<close>

lemma tasks_end:
  assumes "k \<le> length (sl_tasks p)"
  shows "listener_run (map TaskEnds [0..<k]) p = Some (p\<lparr>sl_tasks := replicate k True @ drop k (sl_tasks p)\<rparr>)"
  using assms
proof (induction k)
  case (Suc k)
  then have "(replicate k True @ drop k (sl_tasks p))[k := True] = replicate (Suc k) True @ drop (Suc k) (sl_tasks p)"
    by (simp add: list_update_append Cons_nth_drop_Suc [symmetric] replicate_append_same)
  then show ?case using Suc by (simp add: listener_run_append)
qed simp

lemma stops_after_client:
  assumes "listener_inv p" and "sl_caller p = Stopping" and "sl_thread p = Accepting" and "sl_clients p = 0"
  shows "listener_run ([ClientConnects, ThreadStep, ThreadStep] @ map TaskEnds [0..<Suc (length (sl_tasks p))] @ [ThreadStep, StopReturns]) p =
    Some (p\<lparr>sl_thread := ThreadDone, sl_socket := False, sl_caller := Stopped,
      sl_tasks := replicate (Suc (length (sl_tasks p))) True\<rparr>)"
proof -
  have n: "\<not> sl_running p" "sl_socket p" using assms(1-3) by (auto simp: listener_inv_def)
  let ?q = "p\<lparr>sl_thread := Collecting, sl_tasks := sl_tasks p @ [False]\<rparr>"
  have q: "listener_run [ClientConnects, ThreadStep, ThreadStep] p = Some ?q"
    using assms n by (simp add: listener_thread_step_def listener_accept_def)
  have t: "listener_run (map TaskEnds [0..<Suc (length (sl_tasks p))]) ?q =
      Some (?q\<lparr>sl_tasks := replicate (Suc (length (sl_tasks p))) True\<rparr>)"
    using tasks_end [of "Suc (length (sl_tasks p))" ?q] by (simp del: upt_Suc)
  have e: "listener_run [ThreadStep, StopReturns] (?q\<lparr>sl_tasks := replicate (Suc (length (sl_tasks p))) True\<rparr>) =
      Some (p\<lparr>sl_thread := ThreadDone, sl_socket := False, sl_caller := Stopped,
        sl_tasks := replicate (Suc (length (sl_tasks p))) True\<rparr>)"
    using assms(2) by (simp add: listener_defs list_all_iff)
  show ?thesis by (simp only: listener_run_append q t e bind.bind_lunit)
qed

text \<open>The server starts one of its listeners after the other.\<close>

definition Server_serve :: "listener_event list \<Rightarrow> listener \<times> listener \<Rightarrow> (listener \<times> listener) option" where
  "Server_serve es ls =
     (case ls of (client, server) \<Rightarrow>
        Option.bind (listener_run (CallStart # es @ [StartReturns]) client) (\<lambda>client'.
        map_option (\<lambda>server'. (client', server')) (listener_run [CallStart] server)))"

lemma Server_serve_starts:
  "Server_serve [ThreadStep] (SocketListener, SocketListener) =
     Some (SocketListener\<lparr>sl_thread := TestRunning, sl_running := True, sl_socket := True\<rparr>,
       SocketListener\<lparr>sl_thread := Opening, sl_caller := AwaitsStart\<rparr>)"
  by (simp add: Server_serve_def listener_defs SocketListener_def)

section \<open>The mock agent\<close>

text \<open>
  The agent has a thread for packets and one for HTTP. The first holds a shared pointer to the agent
  while it serves. \<open>wakes\<close> tells whether closing a socket wakes a thread that receives from it, which
  is up to the system. What is in \<^verbatim>\<open>_servingHTTP\<close> before the thread sets it is unknown.
\<close>

datatype serving_thread = NoThread | SettingUp | TestServing | Receiving | Returned

datatype agent_closer = NotClosing | JoinsUDP | JoinsHTTP | Closed

record agent_threads =
  ag_references :: nat
  ag_udp :: serving_thread
  ag_http :: serving_thread
  ag_servingUDP :: bool
  ag_servingHTTP :: bool
  ag_transport :: bool
  ag_packets :: nat
  ag_clients :: nat
  ag_closer :: agent_closer

definition agent_make :: "bool \<Rightarrow> agent_threads" where
  "agent_make unknown =
     \<lparr>ag_references = 1, ag_udp = NoThread, ag_http = NoThread, ag_servingUDP = False, ag_servingHTTP = unknown,
      ag_transport = True, ag_packets = 0, ag_clients = 0, ag_closer = NotClosing\<rparr>"

definition agent_start :: "agent_threads \<Rightarrow> agent_threads option" where
  "agent_start a =
     (if 0 < ag_references a \<and> ag_udp a = NoThread \<and> ag_http a = NoThread
      then Some (a\<lparr>ag_udp := SettingUp, ag_http := SettingUp\<rparr>) else None)"

definition serveUDP :: "bool \<Rightarrow> agent_threads \<Rightarrow> agent_threads option" where
  "serveUDP wakes a =
     (case ag_udp a of
        SettingUp \<Rightarrow> Some (a\<lparr>ag_udp := TestServing, ag_servingUDP := True\<rparr>)
      | TestServing \<Rightarrow> Some (a\<lparr>ag_udp := if ag_servingUDP a then Receiving else Returned\<rparr>)
      | Receiving \<Rightarrow>
          if ag_transport a \<and> 0 < ag_packets a then Some (a\<lparr>ag_udp := TestServing, ag_packets := ag_packets a - 1\<rparr>)
          else if \<not> ag_transport a \<and> wakes then Some (a\<lparr>ag_udp := TestServing\<rparr>)
          else None
      | _ \<Rightarrow> None)"

definition serveHTTP :: "agent_threads \<Rightarrow> agent_threads option" where
  "serveHTTP a =
     (case ag_http a of
        SettingUp \<Rightarrow> Some (a\<lparr>ag_http := TestServing, ag_servingHTTP := True\<rparr>)
      | TestServing \<Rightarrow> Some (a\<lparr>ag_http := if ag_servingHTTP a then Receiving else Returned\<rparr>)
      | Receiving \<Rightarrow>
          if 0 < ag_clients a then Some (a\<lparr>ag_http := TestServing, ag_clients := ag_clients a - 1\<rparr>) else None
      | _ \<Rightarrow> None)"

text \<open>\<^verbatim>\<open>close\<close>, up to the first thread it joins, and from there on; the second part again up to the join.\<close>

definition agent_close_http :: "agent_threads \<Rightarrow> agent_threads" where
  "agent_close_http a =
     (if ag_servingHTTP a then a\<lparr>ag_servingHTTP := False, ag_closer := JoinsHTTP\<rparr> else a\<lparr>ag_closer := Closed\<rparr>)"

definition agent_close :: "agent_threads \<Rightarrow> agent_threads option" where
  "agent_close a =
     (if ag_closer a \<noteq> NotClosing then None
      else Some (if ag_servingUDP a then a\<lparr>ag_servingUDP := False, ag_transport := False, ag_closer := JoinsUDP\<rparr>
                 else agent_close_http a))"

definition agent_joined :: "agent_threads \<Rightarrow> agent_threads option" where
  "agent_joined a =
     (case ag_closer a of
        JoinsUDP \<Rightarrow> if ag_udp a = Returned then Some (agent_close_http a) else None
      | JoinsHTTP \<Rightarrow> if ag_http a = Returned then Some (a\<lparr>ag_closer := Closed\<rparr>) else None
      | _ \<Rightarrow> None)"

text \<open>The destructor, which calls \<^verbatim>\<open>close\<close>, runs when nothing refers to the agent any more.\<close>

definition holds_agent :: "agent_threads \<Rightarrow> bool" where
  "holds_agent a \<longleftrightarrow> ag_udp a \<in> {TestServing, Receiving}"

definition agent_destroy :: "agent_threads \<Rightarrow> agent_threads option" where
  "agent_destroy a = (if ag_references a = 0 \<and> \<not> holds_agent a then agent_close a else None)"

datatype agent_event =
    AgentStart
  | UDPStep
  | HTTPStep
  | PacketArrives
  | HTTPClient
  | AgentCopy
  | AgentRelease
  | AgentClose
  | AgentJoined
  | AgentDestroy

fun agent_do :: "bool \<Rightarrow> agent_event \<Rightarrow> agent_threads \<Rightarrow> agent_threads option" where
  "agent_do wakes AgentStart a = agent_start a"
| "agent_do wakes UDPStep a = serveUDP wakes a"
| "agent_do wakes HTTPStep a = serveHTTP a"
| "agent_do wakes PacketArrives a = (if ag_transport a then Some (a\<lparr>ag_packets := ag_packets a + 1\<rparr>) else None)"
| "agent_do wakes HTTPClient a = Some (a\<lparr>ag_clients := ag_clients a + 1\<rparr>)"
| "agent_do wakes AgentCopy a =
     (if 0 < ag_references a then Some (a\<lparr>ag_references := ag_references a + 1\<rparr>) else None)"
| "agent_do wakes AgentRelease a =
     (if 0 < ag_references a then Some (a\<lparr>ag_references := ag_references a - 1\<rparr>) else None)"
| "agent_do wakes AgentClose a = (if 0 < ag_references a then agent_close a else None)"
| "agent_do wakes AgentJoined a = agent_joined a"
| "agent_do wakes AgentDestroy a = agent_destroy a"

fun agent_run :: "bool \<Rightarrow> agent_event list \<Rightarrow> agent_threads \<Rightarrow> agent_threads option" where
  "agent_run wakes [] a = Some a"
| "agent_run wakes (e # es) a = (case agent_do wakes e a of None \<Rightarrow> None | Some a' \<Rightarrow> agent_run wakes es a')"

lemmas agent_defs = agent_start_def serveUDP_def serveHTTP_def agent_close_def agent_close_http_def agent_joined_def
  agent_destroy_def holds_agent_def

lemma serving_agent_do:
  assumes "agent_do wakes e a = Some a'" and "e \<noteq> AgentClose"
    and "ag_servingUDP a" and "holds_agent a" and "ag_closer a = NotClosing"
  shows "ag_servingUDP a' \<and> holds_agent a' \<and> ag_closer a' = NotClosing"
  using assms by (cases e; cases "ag_udp a"; cases "ag_http a") (auto simp: agent_defs split: if_split_asm)

lemma serving_agent_run:
  assumes "agent_run wakes es a = Some a'" and "AgentClose \<notin> set es"
    and "ag_servingUDP a" and "holds_agent a" and "ag_closer a = NotClosing"
  shows "ag_servingUDP a' \<and> holds_agent a' \<and> ag_closer a' = NotClosing"
  using assms
proof (induction es arbitrary: a)
  case (Cons e es)
  then obtain a1 where 1: "agent_do wakes e a = Some a1" "agent_run wakes es a1 = Some a'" by (auto split: option.splits)
  from serving_agent_do [OF 1(1)] Cons show ?case using 1(2) by auto
qed simp

lemma joins_http_run:
  assumes "agent_run wakes es a = Some a'" and "HTTPClient \<notin> set es"
    and "ag_closer a = JoinsHTTP" and "ag_http a = Receiving" and "ag_clients a = 0" and "ag_udp a \<noteq> NoThread"
  shows "ag_closer a' = JoinsHTTP"
  using assms
proof (induction es arbitrary: a)
  case (Cons e es)
  then obtain a1 where 1: "agent_do wakes e a = Some a1" "agent_run wakes es a1 = Some a'" by (auto split: option.splits)
  have "ag_closer a1 = JoinsHTTP \<and> ag_http a1 = Receiving \<and> ag_clients a1 = 0 \<and> ag_udp a1 \<noteq> NoThread"
    using 1(1) Cons.prems by (cases e; cases "ag_udp a") (auto simp: agent_defs split: if_split_asm)
  then show ?case using Cons 1(2) by auto
qed simp

section \<open>The transport of the agent\<close>

text \<open>
  \<^verbatim>\<open>TUDPTransport\<close>: \<open>handle\<close>, \<open>errno\<close> and \<open>sockname\<close> are what \<^verbatim>\<open>socket\<close> and \<^verbatim>\<open>getsockname\<close> give; 2 is the number
  of \<^verbatim>\<open>AF_INET\<close> and of \<^verbatim>\<open>SOCK_DGRAM\<close>. A read is given what \<^verbatim>\<open>recvfrom\<close> returns and the address it fills in.
\<close>

record udp_transport =
  ut_socket :: socket
  ut_serverAddr :: ip_address
  ut_clientAddr :: ip_address

definition TUDPTransport ::
  "system \<Rightarrow> int \<Rightarrow> int \<Rightarrow> (bytes \<times> nat) option \<Rightarrow> ip_address \<Rightarrow> exception + udp_transport" where
  "TUDPTransport N handle errno sockname addr =
     bindE (Socket_open handle errno 2 2 Socket0) (\<lambda>s.
     bindE (Socket_bind N addr) (\<lambda>_.
     Inr \<lparr>ut_socket = s,
       ut_serverAddr =
         (if IPAddress_port addr = 0
          then (case sockname of Some (addrStorage, addrLen) \<Rightarrow> IPAddress_storage addrStorage addrLen | None \<Rightarrow> addr)
          else addr),
       ut_clientAddr = IPAddress0\<rparr>))"

definition TUDPTransport_isOpen :: "udp_transport \<Rightarrow> bool" where
  "TUDPTransport_isOpen t \<longleftrightarrow> so_handle (ut_socket t) \<ge> 0"

definition TUDPTransport_close :: "udp_transport \<Rightarrow> udp_transport" where
  "TUDPTransport_close t =
     (if so_handle (ut_socket t) \<ge> 0 then t\<lparr>ut_socket := ut_socket t\<lparr>so_handle := -1\<rparr>\<rparr> else t)"

definition TUDPTransport_receive :: "int \<Rightarrow> bytes \<times> nat \<Rightarrow> udp_transport \<Rightarrow> int \<times> udp_transport" where
  "TUDPTransport_receive numRead from t =
     (max 0 numRead, t\<lparr>ut_clientAddr := IPAddress_storage (fst from) (snd from)\<rparr>)"

definition TUDPTransport_write :: "bytes \<Rightarrow> udp_transport \<Rightarrow> int \<times> bytes \<times> bytes" where
  "TUDPTransport_write buf t =
     (so_handle (ut_socket t), buf, take (ia_addrLen (ut_clientAddr t)) (ia_addr (ut_clientAddr t)))"

text \<open>An answer goes to whom the last packet came from; asked for any port, the transport knows the one it got.\<close>

lemma udp_answers_sender:
  "TUDPTransport_receive n (storage, len) t = (k, t') \<Longrightarrow>
   TUDPTransport_write buf t' = (so_handle (ut_socket t), buf, take len storage)"
  by (auto simp: TUDPTransport_receive_def TUDPTransport_write_def IPAddress_storage_def)

lemma udp_knows_port:
  assumes "TUDPTransport N handle errno (Some (storage, len)) addr = Inr t" and "IPAddress_port addr = 0"
  shows "TUDPTransport_isOpen t \<and> ut_serverAddr t = IPAddress_storage storage len \<and>
    \<not> TUDPTransport_isOpen (TUDPTransport_close t)"
  using assms
  by (auto simp: TUDPTransport_def TUDPTransport_isOpen_def TUDPTransport_close_def Socket_open_def isHandleInvalid_def
      bindE_Inr split: if_splits)

section \<open>Properties\<close>

text \<open>C17. Stopping a listener of the interoperability server takes a client: while its thread accepts and
  none connects, \<^verbatim>\<open>stop\<close> does not return, whatever else happens; after one more client it can, with every
  task ended and the socket closed.\<close>

theorem listener_stop_needs_client:
  assumes "listener_run es SocketListener = Some p" and "sl_caller p = Stopping"
    and "sl_thread p = Accepting" and "sl_clients p = 0"
  shows "(\<forall>fs q. listener_run fs p = Some q \<and> ClientConnects \<notin> set fs \<longrightarrow> sl_caller q = Stopping) \<and>
    (\<exists>fs q. listener_run (ClientConnects # fs) p = Some q \<and> ClientConnects \<notin> set fs \<and>
      sl_caller q = Stopped \<and> \<not> sl_socket q \<and> list_all id (sl_tasks q) \<and> length (sl_tasks q) = Suc (length (sl_tasks p)))"
proof
  show "\<forall>fs q. listener_run fs p = Some q \<and> ClientConnects \<notin> set fs \<longrightarrow> sl_caller q = Stopping"
    using stays_accepting [OF _ _ assms(2) _ assms(4)] assms(3) by blast
next
  have "listener_inv p" by (rule listener_inv_run [OF assms(1) listener_inv_new])
  from stops_after_client [OF this assms(2-4)] show "\<exists>fs q. listener_run (ClientConnects # fs) p = Some q \<and> ClientConnects \<notin> set fs \<and>
      sl_caller q = Stopped \<and> \<not> sl_socket q \<and> list_all id (sl_tasks q) \<and> length (sl_tasks q) = Suc (length (sl_tasks p))"
    by (intro exI [of _ "[ThreadStep, ThreadStep] @ map TaskEnds [0..<Suc (length (sl_tasks p))] @ [ThreadStep, StopReturns]"])
      (auto simp: list_all_iff simp del: upt_Suc)
qed

theorem listener_stop_needs_client_witness:
  "\<exists>p. listener_run [CallStart, ThreadStep, StartReturns, ThreadStep, CallStop] SocketListener = Some p \<and>
     (\<forall>fs q. listener_run fs p = Some q \<and> ClientConnects \<notin> set fs \<longrightarrow> sl_caller q = Stopping)"
proof -
  let ?p = "SocketListener\<lparr>sl_thread := Accepting, sl_socket := True, sl_caller := Stopping\<rparr>"
  have r: "listener_run [CallStart, ThreadStep, StartReturns, ThreadStep, CallStop] SocketListener = Some ?p"
    by (simp add: listener_defs SocketListener_def)
  from listener_stop_needs_client [OF r] r show ?thesis by (simp add: SocketListener_def)
qed

text \<open>A mock agent that was started is never destroyed unless \<^verbatim>\<open>close\<close> is called: its own thread refers to
  it until \<^verbatim>\<open>close\<close> lets the thread end, and the destructor, which would call \<^verbatim>\<open>close\<close>, waits for that.\<close>

lemma started_agent_not_destroyed:
  assumes "ag_servingUDP a" and "holds_agent a" and "ag_closer a = NotClosing"
    and "agent_run wakes es a = Some a'" and "AgentClose \<notin> set es"
  shows "agent_do wakes AgentDestroy a' = None \<and> ag_closer a' = NotClosing"
  using serving_agent_run [OF assms(4,5,1-3)] by (simp add: agent_destroy_def)

text \<open>Closed while no client connects and its other thread accepts, it waits for ever.\<close>

lemma agent_close_needs_client:
  assumes "ag_closer a = JoinsHTTP" and "ag_http a = Receiving" and "ag_clients a = 0" and "ag_udp a \<noteq> NoThread"
    and "agent_run wakes es a = Some a'" and "HTTPClient \<notin> set es"
  shows "ag_closer a' = JoinsHTTP"
  by (rule joins_http_run [OF assms(5,6,1-4)])

lemma example_agent_abandoned:
  "\<exists>a. agent_run False [AgentStart, UDPStep, HTTPStep, AgentRelease] (agent_make True) = Some a \<and>
     ag_references a = 0 \<and> agent_do False AgentDestroy a = None"
proof -
  let ?a = "(agent_make True)\<lparr>ag_udp := TestServing, ag_http := TestServing, ag_servingUDP := True\<rparr>"
  have "agent_run False [AgentStart, UDPStep, HTTPStep] (agent_make True) = Some ?a"
    by (simp add: agent_defs agent_make_def)
  moreover have "agent_run False [AgentRelease] ?a = Some (?a\<lparr>ag_references := 0\<rparr>)" by (simp add: agent_make_def)
  moreover have "agent_do False AgentDestroy (?a\<lparr>ag_references := 0\<rparr>) = None"
    using started_agent_not_destroyed [of ?a False "[AgentRelease]"] calculation(2)
    by (simp add: agent_make_def holds_agent_def)
  ultimately show ?thesis by (simp add: agent_defs agent_make_def)
qed

end
