(* ===== verification/UnitTests.thy ===== *)
theory UnitTests
  imports SamplerLaws Addresses Loggers Configs BinaryFormat
begin

text \<open>
  The unit tests (\<^verbatim>\<open>*Test.cpp\<close>) of the components below the tracer, each a definition over the
  model that says whether its assertions hold, and a lemma that they do. What a test takes from a
  clock, a random generator or the host is an argument of it.
\<close>

section \<open>Trace identifiers and contexts\<close>

definition TraceID_testPrintWithouthHigh :: bool where
  "TraceID_testPrintWithouthHigh \<longleftrightarrow> TraceID_print (TraceID 0 10) = ''000000000000000a''"

definition TraceID_testPrintWithHigh :: bool where
  "TraceID_testPrintWithHigh \<longleftrightarrow> TraceID_print (TraceID 1 10) = ''0000000000000001000000000000000a''"

definition FromStreamTestCases :: "(string \<times> bool) list" where
  "FromStreamTestCases =
     [('''', False), (''abcd'', False), (''ABCD'', False), (''x:1:1:1'', False), (''1:x:1:1'', False),
      (''1:1:x:1'', False), (''1:1:1:x'', False),
      (''01234567890123456789012345678901234:1:1:1'', False),
      (''01234567890123456789012345678901:1:1:1'', True),
      (''01234_67890123456789012345678901:1:1:1'', False),
      (''0123456789012345678901_345678901:1:1:1'', False),
      (''1:0123456789012345:1:1'', True), (''1:01234567890123456:1:1'', False),
      (''10000000000000001:1:1:1'', True), (''10000000000000001:1:1'', False), (''1:1:1:1'', True)]"

definition SpanContext_testFromStream :: bool where
  "SpanContext_testFromStream \<longleftrightarrow>
     list_all (\<lambda>(input, success).
       let spanContext = fst (SpanContext_fromStream (istream_of input));
           spanContextFromStreamOp = fst (SpanContext_fromStream (istream_of input))
       in isValid spanContext = success \<and> SpanContext_eq spanContext spanContextFromStreamOp)
       FromStreamTestCases"

definition SpanContext_testFormatting :: bool where
  "SpanContext_testFormatting \<longleftrightarrow>
     SpanContext_print (SpanContext (TraceID 255 255) 0 0 0 [] [] []) =
       ''00000000000000ff00000000000000ff:0000000000000000:0000000000000000:0''"

text \<open>The map has the two items in an order of its own.\<close>

definition SpanContext_testBaggage :: "strmap \<Rightarrow> bool" where
  "SpanContext_testBaggage items \<longleftrightarrow>
     (let spanContext = SpanContext (TraceID 0 0) 0 0 0 items [] [];
          (keyCopy, valueCopy) = forEachBaggageItem (\<lambda>key value st. (False, key, value)) (baggage spanContext) ([], [])
      in (keyCopy = ''key1'' \<or> keyCopy = ''key2'') \<and>
         (if keyCopy = ''key1'' then valueCopy = ''value1'' else valueCopy = ''value2''))"

definition SpanContext_testDebug :: bool where
  "SpanContext_testDebug \<longleftrightarrow> \<not> isDebug SpanContext0 \<and> \<not> isDebugIDContainerOnly SpanContext0"

lemma trace_id_tests: "TraceID_testPrintWithouthHigh" "TraceID_testPrintWithHigh"
  by code_simp+

lemma from_stream_cases:
  "list_all (\<lambda>(input, success). isValid (fst (SpanContext_fromStream (istream_of input))) = success) FromStreamTestCases"
  by code_simp

lemma span_context_testFromStream: "SpanContext_testFromStream"
  using from_stream_cases by (simp add: SpanContext_testFromStream_def Let_def)

lemma span_context_testFormatting: "SpanContext_testFormatting"
  by code_simp

lemma span_context_testDebug: "SpanContext_testDebug"
  by code_simp

lemma span_context_testBaggage:
  assumes "set items = {(''key1'', ''value1''), (''key2'', ''value2'')}"
  shows "SpanContext_testBaggage items"
proof -
  obtain kv rest where items: "items = kv # rest" using assms by (cases items) auto
  then have "kv \<in> set items" by simp
  then have "kv = (''key1'', ''value1'') \<or> kv = (''key2'', ''value2'')" using assms by simp
  then show ?thesis by (elim disjE) (simp_all add: items SpanContext_testBaggage_def SpanContext_def)
qed

section \<open>URIs\<close>

definition URI_testMatch :: bool where
  "URI_testMatch \<longleftrightarrow>
     port (URI_parse ''http://localhost'') = 0 \<and> port (URI_parse ''http://localhost:80'') = 80"

definition URI_testAuthority :: bool where
  "URI_testAuthority \<longleftrightarrow>
     URI_authority (URI_parse ''http://localhost'') = ''localhost'' \<and>
     URI_authority (URI_parse ''http://localhost:80'') = ''localhost:80''"

definition URI_testPrint :: bool where
  "URI_testPrint \<longleftrightarrow>
     URI_print (URI_parse ''localhost'') =
       ''{ scheme='' @ [CHR 34, CHR 34] @ '', host='' @ [CHR 34, CHR 34] @ '', port=0'' @
       '', path='' @ [CHR 34] @ ''localhost'' @ [CHR 34] @ '', query='' @ [CHR 34, CHR 34] @ '' }''"

definition URI_queryEscape :: bool where
  "URI_queryEscape \<longleftrightarrow>
     queryEscape ''hello world'' = ''hello%20world'' \<and> queryEscape ''hello-world'' = ''hello-world'' \<and>
     queryEscape ''hello.world'' = ''hello.world'' \<and> queryEscape ''hello_world'' = ''hello_world'' \<and>
     queryEscape ''hello~world'' = ''hello~world'' \<and> queryEscape ''hello:world'' = ''hello%3Aworld''"

definition URI_queryUnescape :: bool where
  "URI_queryUnescape \<longleftrightarrow>
     queryUnescape ''hello%20world'' = ''hello world'' \<and> queryUnescape ''hello%2world'' = ''hello%2world'' \<and>
     queryUnescape ''hello%world'' = ''hello%world'' \<and> queryUnescape ''hello w%6Frld'' = ''hello world'' \<and>
     queryUnescape ''hello w%6frld'' = ''hello world''"

text \<open>\<^verbatim>\<open>equal_range\<close> of a multimap, in the order it has them.\<close>

definition equal_range :: "'k \<Rightarrow> ('k \<times> 'v) list \<Rightarrow> ('k \<times> 'v) list" where
  "equal_range k values = filter (\<lambda>kv. fst kv = k) values"

definition URI_testParseQueryValues :: bool where
  "URI_testParseQueryValues \<longleftrightarrow>
     (let values = parseQueryValues (URI_parse ''http://example.com?test1=1&test2=%6F&test2=r&test3&test4'');
          test1 = equal_range ''test1'' values;
          test2 = equal_range ''test2'' values;
          first = snd (test2 ! 0);
          nextTest2Value = (if first = ''o'' then ''r'' else ''o'');
          test3 = equal_range ''test3'' values;
          test4 = equal_range ''test4'' values
      in length values = 5 \<and>
         length test1 = 1 \<and> fst (hd test1) = ''test1'' \<and> snd (hd test1) = ''1'' \<and>
         length test2 = 2 \<and> fst (test2 ! 0) = ''test2'' \<and> (first = ''o'' \<or> first = ''r'') \<and>
         fst (test2 ! 1) = ''test2'' \<and> snd (test2 ! 1) = nextTest2Value \<and>
         length test3 = 1 \<and> fst (hd test3) = ''test3'' \<and> snd (hd test3) = [] \<and>
         length test4 = 1 \<and> fst (hd test4) = ''test4'' \<and> snd (hd test4) = []) \<and>
     parseQueryValues (URI_parse ''http://example.com'') = [] \<and>
     (let values = parseQueryValues (URI_parse ''http://example.com?key=value'')
      in length values = 1 \<and> fst (hd values) = ''key'' \<and> snd (hd values) = ''value'')"

lemma uri_testMatch: "URI_testMatch" by code_simp
lemma uri_testAuthority: "URI_testAuthority" by code_simp
lemma uri_testPrint: "URI_testPrint" by code_simp
lemma uri_queryEscape: "URI_queryEscape" by code_simp
lemma uri_queryUnescape: "URI_queryUnescape" by code_simp

lemma uri_testParseQueryValues: "URI_testParseQueryValues"
  by code_simp

section \<open>HTTP\<close>

text \<open>The lines for which the body of the loop runs, if it ends within so many calls.\<close>

fun readLines :: "nat \<Rightarrow> istream \<Rightarrow> string list option" where
  "readLines 0 i = None"
| "readLines (Suc fuel) i =
     (case readLineCRLF i of (line, i') \<Rightarrow>
        if failed i' then Some [] else map_option (Cons line) (readLines fuel i'))"

definition Header_readLine :: bool where
  "Header_readLine \<longleftrightarrow>
     (case readLines 2 (istream_of (''test'' @ [CR] @ ''123'' @ [CR, LF])) of
        None \<Rightarrow> False
      | Some ls \<Rightarrow> list_all (\<lambda>line. line = ''test'' @ [CR] @ ''123'') ls)"

definition Header_readHeaders :: bool where
  "Header_readHeaders \<longleftrightarrow> isl (readHeaders (istream_of (''Bad Header'' @ [CR, LF])) [])"

definition Method_testParse :: bool where
  "Method_testParse \<longleftrightarrow>
     parseMethod ''OPTIONS'' = OPTIONS \<and> parseMethod ''GET'' = GET \<and> parseMethod ''HEAD'' = HEAD \<and>
     parseMethod ''POST'' = POST \<and> parseMethod ''PUT'' = PUT \<and> parseMethod ''DELETE'' = DELETE \<and>
     parseMethod ''TRACE'' = TRACE \<and> parseMethod ''CONNECT'' = CONNECT \<and> parseMethod ''post'' = EXTENSION"

lemma http_tests: "Header_readLine" "Header_readHeaders" "Method_testParse"
  by code_simp+

section \<open>The rate limiter\<close>

text \<open>The calls of \<^verbatim>\<open>checkCredit\<close>, each with the mock clock's time and its cost: their results.\<close>

fun credits :: "(time \<times> double) list \<Rightarrow> rate_limiter \<Rightarrow> bool list" where
  "credits [] r = []"
| "credits ((now, cost) # calls) r = (case checkCredit cost now r of (ok, r') \<Rightarrow> ok # credits calls r')"

definition milliseconds :: "int \<Rightarrow> time" where
  "milliseconds n = n * 1000000"

definition RateLimiter_testRateLimiter :: "time \<Rightarrow> bool" where
  "RateLimiter_testRateLimiter instant \<longleftrightarrow>
     credits
       [(instant, 1), (instant, 1), (instant, 1),
        (instant + milliseconds 250, 1),
        (instant + milliseconds 750, 1), (instant + milliseconds 750, 1),
        (instant + nanoseconds 5, 1), (instant + nanoseconds 5, 1), (instant + nanoseconds 5, 1),
        (instant + nanoseconds 5, 1), (instant + nanoseconds 5, 1)]
       (RateLimiter 2 2 instant) =
     [True, True, False, False, True, False, True, True, False, False, False]"

definition RateLimiter_testMaxBalance :: "time \<Rightarrow> bool" where
  "RateLimiter_testMaxBalance instant \<longleftrightarrow>
     credits [(instant, 1), (instant + nanoseconds 20, 1), (instant + nanoseconds 20, 1)]
       (RateLimiter (fl 53 (1 / 10)) 1 instant) = [True, True, False]"

text \<open>Only the differences of the times matter.\<close>

lemma checkCredit_shift:
  "checkCredit cost (c + now) r =
     (case checkCredit cost now (r\<lparr>lastTick := lastTick r - c\<rparr>) of (ok, r') \<Rightarrow> (ok, r'\<lparr>lastTick := c + now\<rparr>))"
proof -
  have time: "now - (t - c) = c + now - t" for t by simp
  show ?thesis by (cases r) (simp add: checkCredit_def Let_def time)
qed

lemma checkCredit_lastTick: "checkCredit cost now r = (ok, r') \<Longrightarrow> lastTick r' = now"
  by (auto simp: checkCredit_def Let_def split: if_splits)

lemma credits_shift:
  "credits (map (\<lambda>(now, cost). (c + now, cost)) calls) r = credits calls (r\<lparr>lastTick := lastTick r - c\<rparr>)"
proof (induction calls arbitrary: r)
  case (Cons call calls)
  obtain now cost where call: "call = (now, cost)" by (cases call)
  obtain ok r' where check: "checkCredit cost now (r\<lparr>lastTick := lastTick r - c\<rparr>) = (ok, r')" by fastforce
  have "(r'\<lparr>lastTick := c + now\<rparr>)\<lparr>lastTick := c + now - c\<rparr> = r'"
    using checkCredit_lastTick[OF check] by (cases r') simp
  then show ?case using checkCredit_shift[of cost c now r] by (simp add: call check Cons)
qed simp

lemma RateLimiter_shift: "(RateLimiter a b t)\<lparr>lastTick := lastTick (RateLimiter a b t) - t\<rparr> = RateLimiter a b 0"
  by (simp add: RateLimiter_def)

lemma fl_fraction:
  assumes "0 < n" and "n \<le> 2 ^ p" and "0 < p"
  shows "fl p (of_int n / 2 ^ k) = of_int n / 2 ^ k"
proof -
  have x: "rat_of_int n / 2 ^ k = of_int n * pow2 (- int k)" by (simp add: pow2_def)
  have "\<not> rat_of_int n * pow2 (- int k) < 0" using assms(1) by (simp add: not_less less_imp_le)
  then show ?thesis unfolding x using fl_pos_exact[OF refl assms] by (simp add: fl_def)
qed

lemma fl53_values:
  "fl 53 1 = 1" "fl 53 2 = 2" "fl 53 9 = 9" "fl 53 20 = 20" "fl 53 (1 / 2) = 1 / 2" "fl 53 (1 / 4) = 1 / 4"
  "fl 53 (3 / 2) = 3 / 2" "fl 53 (17 / 4) = 17 / 4" "fl 53 (17 / 2) = 17 / 2" "fl 53 (3 / 32) = 3 / 32"
  "fl 53 250000000 = 250000000" "fl 53 500000000 = 500000000" "fl 53 4250000000 = 4250000000"
  "fl 53 20000000000 = 20000000000"
  using fl_fraction[of 1 53 1] fl_fraction[of 1 53 2] fl_fraction[of 3 53 1] fl_fraction[of 17 53 2]
    fl_fraction[of 17 53 1] fl_fraction[of 3 53 5] fl_of_int[of 53 1] fl_of_int[of 53 2] fl_of_int[of 53 9]
    fl_of_int[of 53 20] fl_of_int[of 53 250000000] fl_of_int[of 53 500000000] fl_of_int[of 53 4250000000]
    fl_of_int[of 53 20000000000] by simp_all

lemma refilled_in_20_seconds: "1 < fl 53 (20 * fl 53 (1 / 10))"
proof -
  have "3 / 32 \<le> fl 53 (1 / 10)" using fl_mono[of 53 "3 / 32" "1 / 10"] by (simp add: fl53_values)
  then have "3 / 2 \<le> 20 * fl 53 (1 / 10)" by simp
  then show ?thesis using fl_mono[of 53 "3 / 2" "20 * fl 53 (1 / 10)"] by (simp add: fl53_values)
qed

lemma rate_limiter_tests_at_0: "RateLimiter_testRateLimiter 0" "RateLimiter_testMaxBalance 0"
  by (simp_all add: RateLimiter_testRateLimiter_def RateLimiter_testMaxBalance_def milliseconds_def
      nanoseconds_def RateLimiter_def checkCredit_def Let_def seconds_def fl53_values refilled_in_20_seconds fl_idem)

lemma rate_limiter_testRateLimiter: "RateLimiter_testRateLimiter instant"
  using rate_limiter_tests_at_0(1)
    credits_shift[of instant "[(0, 1), (0, 1), (0, 1), (milliseconds 250, 1), (milliseconds 750, 1),
      (milliseconds 750, 1), (nanoseconds 5, 1), (nanoseconds 5, 1), (nanoseconds 5, 1), (nanoseconds 5, 1),
      (nanoseconds 5, 1)]" "RateLimiter 2 2 instant"]
  unfolding RateLimiter_shift RateLimiter_testRateLimiter_def by simp

lemma rate_limiter_testMaxBalance: "RateLimiter_testMaxBalance instant"
  using rate_limiter_tests_at_0(2)
    credits_shift[of instant "[(0, 1), (nanoseconds 20, 1), (nanoseconds 20, 1)]"
      "RateLimiter (fl 53 (1 / 10)) 1 instant"]
  unfolding RateLimiter_shift RateLimiter_testMaxBalance_def by simp

section \<open>Errors, references and spans\<close>

text \<open>A logger that keeps the last error, and the \<^verbatim>\<open>what\<close> of the library's error category.\<close>

definition TestLogger_error :: "string \<Rightarrow> string \<Rightarrow> string" where
  "TestLogger_error message state = message"

definition endsWith :: "string \<Rightarrow> string \<Rightarrow> bool" where
  "endsWith str ending \<longleftrightarrow>
     (if length str < length ending then False else ending = drop (length str - length ending) str)"

definition ErrorUtil_test :: "string \<Rightarrow> string \<Rightarrow> bool" where
  "ErrorUtil_test what logged \<longleftrightarrow>
     (let logError = (\<lambda>e. TestLogger_error (logError_text ''test'' e))
      in logError (RuntimeError ''runtime error'') logged = ''test: runtime error'' \<and>
         endsWith (logError (SysError what (-1)) logged) '', code=-1'' \<and>
         logError (SenderException ''test'' 5) logged = ''test: test, numFailed=5'' \<and>
         logError UnknownException logged = ''test'')"

lemma endsWith_append [simp]: "endsWith (s @ t) t"
  by (simp add: endsWith_def)

lemma error_util_test: "ErrorUtil_test what logged"
proof -
  have "int_str (-1) = ''-1''" "int_str 5 = ''5''" by code_simp+
  moreover have "endsWith (''test: '' @ what @ '', code=-1'') '', code=-1''"
    using endsWith_append[of "''test: '' @ what" "'', code=-1''"] by simp
  ultimately show ?thesis
    by (simp add: ErrorUtil_test_def TestLogger_error_def logError_text_def exception_what_def)
qed

definition throws_invalid_argument :: "exception + 'a \<Rightarrow> bool" where
  "throws_invalid_argument r \<longleftrightarrow> (case r of Inl (InvalidArgument w) \<Rightarrow> True | _ \<Rightarrow> False)"

definition Reference_testThriftConversion :: bool where
  "Reference_testThriftConversion \<longleftrightarrow>
     \<not> isl (Reference_thrift (Reference SpanContext0 ChildOfRef)) \<and>
     \<not> isl (Reference_thrift (Reference SpanContext0 FollowsFromRef)) \<and>
     throws_invalid_argument (Reference_thrift (Reference SpanContext0 (OtherRef (-1))))"

definition Span_testThriftConversion :: "time \<Rightarrow> time \<Rightarrow> bool" where
  "Span_testThriftConversion systemNow steadyNow \<longleftrightarrow>
     (let span = Span None SpanContext0 [] systemNow steadyNow [] []
      in serviceName span = [] \<and> sp_operationName span = [] \<and> \<not> isl (Span_thrift span))"

lemma reference_testThriftConversion: "Reference_testThriftConversion"
  by code_simp

lemma span_testThriftConversion: "Span_testThriftConversion systemNow steadyNow"
  by (simp add: Span_testThriftConversion_def Span_def serviceName_def Span_thrift_def)

section \<open>Samplers\<close>

definition kTestOperationName :: string where "kTestOperationName = ''op''"
definition kTestFirstTimeOperationName :: string where "kTestFirstTimeOperationName = ''firstTimeOp''"
definition kTestDefaultSamplingProbability :: double where "kTestDefaultSamplingProbability = 1 / 2"
definition kTestMaxID :: u64 where "kTestMaxID = 0xFFFFFFFFFFFFFFFF div 2 + 1"
definition kTestDefaultMaxOperations :: nat where "kTestDefaultMaxOperations = 10"

definition testProbablisticExpectedTags :: "tag list" where
  "testProbablisticExpectedTags =
     [Tag ''sampler.type'' (VCString ''probabilistic''), Tag ''sampler.param'' (VDouble (1 / 2))]"

definition testLowerBoundExpectedTags :: "tag list" where
  "testLowerBoundExpectedTags =
     [Tag ''sampler.type'' (VCString ''lowerbound''), Tag ''sampler.param'' (VDouble (1 / 2))]"

definition CMP_TAGS :: "tag list \<Rightarrow> tag list \<Rightarrow> bool" where
  "CMP_TAGS tagArr tagVec \<longleftrightarrow>
     length tagArr = length tagVec \<and>
     list_all2 (\<lambda>a v. Tag_thrift a thrift_tag0 = Tag_thrift v thrift_tag0) tagArr tagVec"

text \<open>The loop over the tags of one decision: its count, or \<^term>\<open>None\<close> if an assertion in it fails.\<close>

fun count_sampler_tags :: "string \<Rightarrow> tag_value \<Rightarrow> tag list \<Rightarrow> nat option" where
  "count_sampler_tags samplerType samplerParam [] = Some 0"
| "count_sampler_tags samplerType samplerParam (tg # tgs) =
     (if tkey tg = kSamplerTypeTagKey then
        (if tvalue tg = VCString samplerType then map_option Suc (count_sampler_tags samplerType samplerParam tgs)
         else None)
      else if tkey tg = kSamplerParamTagKey then
        (if tvalue tg = samplerParam then map_option Suc (count_sampler_tags samplerType samplerParam tgs)
         else None)
      else count_sampler_tags samplerType samplerParam tgs)"

definition Sampler_testSamplerTags :: "nat \<Rightarrow> time \<Rightarrow> time \<Rightarrow> bool" where
  "Sampler_testSamplerTags ld made now \<longleftrightarrow>
     (let tenth = fl 53 (1 / 10);
          tests =
            [(SConst (ConstSampler True), ''const'', VBool True),
             (SConst (ConstSampler False), ''const'', VBool False),
             (SProbabilistic (ProbabilisticSampler ld tenth), ''probabilistic'', VDouble tenth),
             (SRateLimiting (RateLimitingSampler tenth made), ''ratelimiting'', VDouble tenth)]
      in list_all (\<lambda>(smp, samplerType, samplerParam).
           count_sampler_tags samplerType samplerParam
             (st_tags (fst (Sampler_isSampled ld made now (TraceID 0 0) kTestOperationName smp))) = Some 2) tests)"

definition Sampler_testProbabilisticSamplerErrors :: "nat \<Rightarrow> bool" where
  "Sampler_testProbabilisticSamplerErrors ld \<longleftrightarrow>
     (let low = ProbabilisticSampler ld (fl 53 (- (1 / 10)));
          high = ProbabilisticSampler ld (fl 53 (11 / 10))
      in 0 \<le> samplingRate low \<and> 1 \<ge> samplingRate low \<and> 0 \<le> samplingRate high \<and> 1 \<ge> samplingRate high)"

definition Sampler_testProbabilisticSampler :: "nat \<Rightarrow> bool" where
  "Sampler_testProbabilisticSampler ld \<longleftrightarrow>
     (let half = ProbabilisticSampler ld (1 / 2);
          above = Prob_isSampled (TraceID 0 (kTestMaxID + 10)) half;
          below = Prob_isSampled (TraceID 0 (kTestMaxID - 20)) half
      in \<not> st_isSampled above \<and> CMP_TAGS testProbablisticExpectedTags (st_tags above) \<and>
         st_isSampled below \<and> CMP_TAGS testProbablisticExpectedTags (st_tags below)) \<and>
     (let all = ProbabilisticSampler ld 1
      in st_isSampled (Prob_isSampled (TraceID 0 kTestMaxID) all) \<and>
         st_isSampled (Prob_isSampled (TraceID 0 (kTestMaxID - 20)) all))"

definition Sampler_testProbabilisticSamplerInvalidRate :: "nat \<Rightarrow> time \<Rightarrow> bool" where
  "Sampler_testProbabilisticSamplerInvalidRate ld now \<longleftrightarrow>
     (let samplerConfig1 = SamplerConfig kSamplerTypeProbabilistic (fl 53 (11 / 10)) [] 0 0;
          samplerConfig2 = SamplerConfig kSamplerTypeProbabilistic (fl 53 (- (1 / 10))) [] 0 0
      in throws_invalid_argument (fst (makeSampler ld now samplerConfig1)) \<and>
         throws_invalid_argument (fst (makeSampler ld now samplerConfig2)))"

text \<open>The decisions of a rate limiting sampler made and asked at these times.\<close>

fun rate_decisions :: "time list \<Rightarrow> rate_limiting_sampler \<Rightarrow> bool list" where
  "rate_decisions [] s = []"
| "rate_decisions (now # nows) s = (case Rate_isSampled now s of (st, s') \<Rightarrow> st_isSampled st # rate_decisions nows s')"

definition Sampler_testRateLimitingSampler :: "time \<Rightarrow> time list \<Rightarrow> time \<Rightarrow> time list \<Rightarrow> bool" where
  "Sampler_testRateLimitingSampler made calls made' calls' \<longleftrightarrow>
     rate_decisions calls (RateLimitingSampler 2 made) = [True, True, False] \<and>
     rate_decisions calls' (RateLimitingSampler (fl 53 (1 / 10)) made') = [True, False]"

definition Sampler_testGuaranteedThroughputProbabilisticSamplerUpdate :: "nat \<Rightarrow> time \<Rightarrow> bool" where
  "Sampler_testGuaranteedThroughputProbabilisticSamplerUpdate ld now \<longleftrightarrow>
     (let s = GuaranteedSampler ld 2 (1 / 2) now;
          newSamplingRate = fl 53 (6 / 10);
          s1 = Guaranteed_update ld 1 newSamplingRate now s;
          s2 = Guaranteed_update ld 1 (fl 53 (11 / 10)) now s1
      in g_lowerBound s = 2 \<and> g_samplingRate s = 1 / 2 \<and>
         g_lowerBound s1 = 1 \<and> g_samplingRate s1 = newSamplingRate \<and> g_samplingRate s2 = 1)"

text \<open>The clock reads \<open>now\<close> throughout.\<close>

definition Sampler_testAdaptiveSampler :: "nat \<Rightarrow> time \<Rightarrow> bool" where
  "Sampler_testAdaptiveSampler ld now \<longleftrightarrow>
     (let strategies = \<lparr>defaultSamplingProbability = kTestDefaultSamplingProbability,
            defaultLowerBoundTracesPerSecond = 1,
            perOperationStrategies = [\<lparr>os_operation = kTestOperationName,
              os_samplingRate = kTestDefaultSamplingProbability\<rparr>],
            defaultUpperBoundTracesPerSecond = None\<rparr>;
          s0 = AdaptiveSampler ld strategies kTestDefaultMaxOperations now;
          (r1, s1) = Adaptive_isSampled ld now now (TraceID 0 (kTestMaxID + 10)) kTestOperationName s0;
          (r2, s2) = Adaptive_isSampled ld now now (TraceID 0 (kTestMaxID - 20)) kTestOperationName s1;
          (r3, s3) = Adaptive_isSampled ld now now (TraceID 0 (kTestMaxID + 10)) kTestOperationName s2;
          (r4, s4) = Adaptive_isSampled ld now now (TraceID 0 (kTestMaxID - 20)) kTestFirstTimeOperationName s3
      in st_isSampled r1 \<and> CMP_TAGS testLowerBoundExpectedTags (st_tags r1) \<and>
         st_isSampled r2 \<and> CMP_TAGS testProbablisticExpectedTags (st_tags r2) \<and>
         \<not> st_isSampled r3 \<and>
         st_isSampled r4 \<and> CMP_TAGS testProbablisticExpectedTags (st_tags r4))"

lemma sampler_testSamplerTags: "Sampler_testSamplerTags ld made now"
proof -
  have "0 \<le> fl 53 (1 / 10)" "fl 53 (1 / 10) \<le> 1"
    using fl_mono[of 53 0 "1 / 10"] fl_mono[of 53 "1 / 10" 1] by (simp_all add: fl53_values)
  then show ?thesis
    by (simp add: Sampler_testSamplerTags_def Let_def Const_isSampled_def ConstSampler_def SamplingStatus_def
        sampler_constants Prob_isSampled_def ProbabilisticSampler_def Rate_isSampled_def RateLimitingSampler_def
        split: prod.split)
qed

lemma sampler_testProbabilisticSamplerErrors: "Sampler_testProbabilisticSamplerErrors ld"
  by (simp add: Sampler_testProbabilisticSamplerErrors_def ProbabilisticSampler_def Let_def)

text \<open>\<^verbatim>\<open>long double\<close> as a double, an extended double or a quadruple.\<close>

lemma max_random_rounded:
  "fl 53 18446744073709551615 = 18446744073709551616"
  "fl 64 18446744073709551615 = 18446744073709551615" "fl 113 18446744073709551615 = 18446744073709551615"
proof -
  have log: "ilog2 18446744073709551615 = 63" by (rule ilog2_unique) (simp_all add: pow2_def)
  have "\<lfloor>18446744073709551615 / 2048 :: rat\<rfloor> = 9007199254740991" by (rule floor_unique) simp_all
  then have "round_even (18446744073709551615 / 2048) = 9007199254740992" by (simp add: round_even_def)
  then show "fl 53 18446744073709551615 = 18446744073709551616"
    by (simp add: fl_def fl_pos_def log pow2_def)
  show "fl 64 18446744073709551615 = 18446744073709551615" "fl 113 18446744073709551615 = 18446744073709551615"
    using fl_of_int[of 64 18446744073709551615] fl_of_int[of 113 18446744073709551615] by simp_all
qed

lemma half_random_rounded:
  "fl 53 9223372036854775808 = 9223372036854775808" "fl 64 (18446744073709551615 / 2) = 18446744073709551615 / 2"
  "fl 113 (18446744073709551615 / 2) = 18446744073709551615 / 2"
  using fl_pow2[of 53 63] fl_fraction[of 18446744073709551615 64 1] fl_fraction[of 18446744073709551615 113 1]
  by simp_all

lemma half_boundary:
  assumes "ld = 53 \<or> ld = 64 \<or> ld = 113"
  shows "computeSamplingBoundary ld (1 / 2) \<in> {9223372036854775807, 9223372036854775808}"
    "computeSamplingBoundary ld 1 = kMaxRandomNumber"
proof -
  have "\<lfloor>18446744073709551615 / 2 :: rat\<rfloor> = 9223372036854775807" by (rule floor_unique) simp_all
  then show "computeSamplingBoundary ld (1 / 2) \<in> {9223372036854775807, 9223372036854775808}"
    "computeSamplingBoundary ld 1 = kMaxRandomNumber"
    using assms max_random_rounded fl_idem[of 53 18446744073709551615]
    by (auto simp: computeSamplingBoundary_def kMaxRandomNumber_def Let_def half_random_rounded)
qed

lemma sampler_testProbabilisticSampler:
  "ld = 53 \<or> ld = 64 \<or> ld = 113 \<Longrightarrow> Sampler_testProbabilisticSampler ld"
  using half_boundary[of ld]
  by (auto simp: kTestMaxID_def Sampler_testProbabilisticSampler_def ProbabilisticSampler_def Prob_isSampled_def SamplingStatus_def
      Let_def CMP_TAGS_def testProbablisticExpectedTags_def sampler_constants TraceID_def kMaxRandomNumber_def)

lemma outside_the_unit_interval: "1 < fl 53 (11 / 10)" "fl 53 (- (1 / 10)) < 0" "- 1 < fl 53 (- (1 / 10))"
proof -
  have "fl 53 (17 / 16) = 17 / 16" using fl_fraction[of 17 53 4] by simp
  then show "1 < fl 53 (11 / 10)" using fl_mono[of 53 "17 / 16" "11 / 10"] by simp
  have "fl 53 (- (3 / 32)) = - (3 / 32)" using fl53_values(10) by (simp add: fl_def)
  then show "fl 53 (- (1 / 10)) < 0" using fl_mono[of 53 "- (1 / 10)" "- (3 / 32)"] by simp
  have "fl 53 (- (1 / 2)) = - (1 / 2)" using fl53_values(5) by (simp add: fl_def)
  then show "- 1 < fl 53 (- (1 / 10))" using fl_mono[of 53 "- (1 / 2)" "- (1 / 10)"] by simp
qed

lemma sampler_testProbabilisticSamplerInvalidRate: "Sampler_testProbabilisticSamplerInvalidRate ld now"
  using outside_the_unit_interval
  by (simp add: Sampler_testProbabilisticSamplerInvalidRate_def makeSampler_def makeProbabilistic_def SamplerConfig_def
      Let_def throws_invalid_argument_def kSamplerTypeProbabilistic_def kSamplerTypeConst_def to_lower_def isupper_def)

text \<open>The clock of this test is the real one: it passes if its calls follow each other closely enough,
  and fails if the third call comes a second after the first.\<close>

lemma sampler_testRateLimitingSampler: "Sampler_testRateLimitingSampler t [t, t, t] t' [t', t']"
proof -
  have "fl 53 (1 / 10) \<le> 1" using fl_mono[of 53 "1 / 10" 1] by (simp add: fl53_values)
  then show ?thesis
    by (simp add: Sampler_testRateLimitingSampler_def Rate_isSampled_def RateLimitingSampler_def RateLimiter_def
        SamplingStatus_def checkCredit_def Let_def seconds_def fl53_values)
qed

lemma sampler_testRateLimitingSampler_late:
  "\<not> Sampler_testRateLimitingSampler t [t, t, t + nanoseconds 1] t' calls'"
proof -
  have "fl 53 1000000000 = 1000000000" using fl_of_int[of 53 1000000000] by simp
  then show ?thesis
    by (simp add: Sampler_testRateLimitingSampler_def Rate_isSampled_def RateLimitingSampler_def RateLimiter_def
        SamplingStatus_def checkCredit_def Let_def seconds_def fl53_values nanoseconds_def)
qed

lemma sampler_testGuaranteedThroughputProbabilisticSamplerUpdate:
  "Sampler_testGuaranteedThroughputProbabilisticSamplerUpdate ld now"
proof -
  have "0 \<le> fl 53 (6 / 10)" "fl 53 (6 / 10) \<le> 1"
    using fl_mono[of 53 0 "6 / 10"] fl_mono[of 53 "6 / 10" 1] by (simp_all add: fl53_values)
  then show ?thesis using outside_the_unit_interval
    by (simp add: Sampler_testGuaranteedThroughputProbabilisticSamplerUpdate_def GuaranteedSampler_def
        ProbabilisticSampler_def Guaranteed_update_def Let_def)
qed

lemma sampler_testAdaptiveSampler:
  assumes "ld = 53 \<or> ld = 64 \<or> ld = 113"
  shows "Sampler_testAdaptiveSampler ld now"
proof -
  have half: "computeSamplingBoundary ld (1 / 2) = 9223372036854775807 \<or>
      computeSamplingBoundary ld (1 / 2) = 9223372036854775808"
    using half_boundary(1)[OF assms] by blast
  show ?thesis
    using half
    by (elim disjE)
      (simp_all add: Sampler_testAdaptiveSampler_def AdaptiveSampler_def samplersFromStrategies_def
        Adaptive_isSampled_def Guaranteed_isSampled_def GuaranteedSampler_def ProbabilisticSampler_def
        Prob_isSampled_def Rate_isSampled_def RateLimitingSampler_def RateLimiter_def SamplingStatus_def
        checkCredit_def seconds_def fl53_values Let_def TraceID_def kTestMaxID_def kTestOperationName_def
        kTestFirstTimeOperationName_def kTestDefaultSamplingProbability_def kTestDefaultMaxOperations_def
        CMP_TAGS_def testProbablisticExpectedTags_def testLowerBoundExpectedTags_def lower_bound_tags_def
        sampler_constants)
qed

section \<open>Addresses\<close>

definition throws_runtime_error :: "exception + 'a \<Rightarrow> bool" where
  "throws_runtime_error r \<longleftrightarrow> (case r of Inl (RuntimeError w) \<Rightarrow> True | _ \<Rightarrow> False)"

definition has_authority :: "system \<Rightarrow> string \<Rightarrow> exception + ip_address \<Rightarrow> bool" where
  "has_authority N text r \<longleftrightarrow> (case r of Inl e \<Rightarrow> False | Inr a \<Rightarrow> IPAddress_authority N a = text)"

definition IPAddress_testParseFail :: "system \<Rightarrow> bool" where
  "IPAddress_testParseFail N \<longleftrightarrow> throws_runtime_error (IPAddress_v4 N [] 0)"

definition IPAddress_testAuthority :: "system \<Rightarrow> bool" where
  "IPAddress_testAuthority N \<longleftrightarrow>
     has_authority N ''127.0.0.1'' (IPAddress_v4 N ''127.0.0.1'' 0) \<and>
     has_authority N ''127.0.0.1:1234'' (IPAddress_v4 N ''127.0.0.1'' 1234)"

definition IPAddress_testIPv6 :: "system \<Rightarrow> bool" where
  "IPAddress_testIPv6 N \<longleftrightarrow>
     has_authority N ''2001:db8:ac10:fe01::'' (IPAddress_v6 N ''2001:db8:ac10:fe01::'' 0)"

text \<open>The two tests of texts that are addresses pass if the host reads and prints them alike.\<close>

lemma ip_address_testParseFail:
  assumes "sys_pton N AF_INET [] = None" and "sys_getaddrinfo N [] [] AF_INET = Inl message"
  shows "IPAddress_testParseFail N"
  using assms
  by (simp add: IPAddress_testParseFail_def IPAddress_v4_def versionFromString_def resolveAddress_def throws_runtime_error_def)

lemma ip_address_testAuthority:
  assumes "length (sys_family N AF_INET) = 2" and pton: "sys_pton N AF_INET ''127.0.0.1'' = Some bs" "length bs = 4"
    and ntop: "sys_ntop N AF_INET bs = Some ''127.0.0.1''"
  shows "IPAddress_testAuthority N"
proof -
  have "int_str 1234 = ''1234''" by code_simp
  moreover obtain a b where ab: "IPAddress_v4 N ''127.0.0.1'' 0 = Inr a" "IPAddress_v4 N ''127.0.0.1'' 1234 = Inr b"
    using pton by (simp add: IPAddress_v4_def versionFromString_def Let_def)
  moreover note v4_fields[OF assms(1) pton _ _ ab(1)] v4_fields[OF assms(1) pton _ _ ab(2)]
  ultimately show ?thesis
    using ntop by (simp add: IPAddress_testAuthority_def has_authority_def IPAddress_authority_def IPAddress_host_def)
qed

lemma ip_address_testIPv6:
  assumes fam: "length (sys_family N AF_INET6) = 2"
    and pton: "sys_pton N AF_INET6 ''2001:db8:ac10:fe01::'' = Some bs" "length bs = 16"
    and ntop: "sys_ntop N AF_INET6 bs = Some ''2001:db8:ac10:fe01::''"
  shows "IPAddress_testIPv6 N"
proof -
  let ?a = "\<lparr>ia_addr = sys_family N AF_INET6 @ [0, 0] @ replicate 4 0 @ bs @ replicate 104 0, ia_addrLen = sockaddr_in6_size\<rparr>"
  have "IPAddress_v6 N ''2001:db8:ac10:fe01::'' 0 = Inr ?a"
    using fam pton by (simp add: IPAddress_v6_def versionFromString_def IPAddress_storage_def memcpy_def htons_def)
  moreover have "IPAddress_family ?a = AF_INET6" "slice 8 16 (ia_addr ?a) = bs" "IPAddress_port ?a = 0"
    using fam pton(2) by (simp_all add: IPAddress_family_def slice_def IPAddress_port_def ntohs_def)
  ultimately show ?thesis
    using ntop by (simp add: IPAddress_testIPv6_def has_authority_def IPAddress_authority_def IPAddress_host_def)
qed

section \<open>Metrics\<close>

definition only_entry :: "string \<Rightarrow> int \<Rightarrow> value_map \<Rightarrow> bool" where
  "only_entry k v m \<longleftrightarrow> length m = 1 \<and> map_of m k = Some v"

definition Metrics_testCounter :: bool where
  "Metrics_testCounter \<longleftrightarrow>
     (let counter = createMetric StatsFactoryImpl ''jaeger.test-counter'' [];
          r = Metric_report InMemory_incCounter counter 3 in_memory0
      in only_entry ''jaeger.test-counter'' 3 (counters r))"

definition Metrics_testGauge :: bool where
  "Metrics_testGauge \<longleftrightarrow>
     (let gauge = createMetric StatsFactoryImpl ''jaeger.test-gauge'' [];
          r = Metric_report InMemory_updateGauge gauge 3 in_memory0
      in only_entry ''jaeger.test-gauge'' 3 (gauges r))"

definition Metrics_testTimer :: bool where
  "Metrics_testTimer \<longleftrightarrow>
     (let timer = createMetric StatsFactoryImpl ''jaeger.test-timer'' [];
          r = Metric_report InMemory_recordTimer timer 5 in_memory0
      in only_entry ''jaeger.test-timer'' 5 (timers r))"

definition Metrics_testReset :: bool where
  "Metrics_testReset \<longleftrightarrow>
     (let r1 = Metric_report InMemory_incCounter (Metrics_make StatsFactoryImpl TracesStartedSampled) 1 in_memory0;
          r2 = Metric_report InMemory_updateGauge (Metrics_make StatsFactoryImpl ReporterQueueLength) 1 r1;
          r3 = InMemory_recordTimer ''jaeger.test-timer'' 1 [] r2;
          r4 = InMemory_reset r3
      in length (counters r1) = 1 \<and> length (gauges r2) = 1 \<and> length (timers r3) = 1 \<and>
         counters r4 = [] \<and> gauges r4 = [] \<and> timers r4 = [])"

lemma metrics_tests: "Metrics_testCounter" "Metrics_testGauge" "Metrics_testTimer" "Metrics_testReset"
  by code_simp+

end
