(* ===== verification/ConfigTests.thy ===== *)
theory ConfigTests
  imports UnitTests Factory
begin

text \<open>
  The unit tests of the configuration and of the tracer factory (\<^verbatim>\<open>ConfigTest.cpp\<close>,
  \<^verbatim>\<open>reporters/ConfigTest.cpp\<close>, \<^verbatim>\<open>TracerFactoryTest.cpp\<close>), in the form of \<open>UnitTests\<close>. The documents are
  given as the trees they stand for, since the YAML parser is a parameter of the model.
\<close>

section \<open>Documents\<close>

datatype document = Undefined | Null | Scalar string | Mapping "(string \<times> document) list"

definition bad_conversion :: "exception + 'a" where
  "bad_conversion = Inl (RuntimeError ''bad conversion'')"

fun scalar :: "(string \<Rightarrow> 'a option) \<Rightarrow> document \<Rightarrow> exception + 'a" where
  "scalar f (Scalar s) = (case f s of None \<Rightarrow> bad_conversion | Some v \<Rightarrow> Inr v)"
| "scalar f n = bad_conversion"

definition scalar_bool :: "string \<Rightarrow> bool option" where
  "scalar_bool s = (if s = ''true'' then Some True else if s = ''false'' then Some False else None)"

definition yaml_documents :: "document yaml" where
  "yaml_documents =
     \<lparr>y_isDefined = (\<lambda>n. n \<noteq> Undefined), y_isMap = (\<lambda>n. case n of Mapping _ \<Rightarrow> True | _ \<Rightarrow> False),
      y_at = (\<lambda>n key. case n of Mapping kvs \<Rightarrow> (case map_of kvs key of None \<Rightarrow> Undefined | Some v \<Rightarrow> v) | _ \<Rightarrow> Undefined),
      y_string = scalar Some, y_bool = scalar scalar_bool,
      y_int = scalar (\<lambda>s. case extract_int s of (ok, n) \<Rightarrow> if ok then Some n else None),
      y_double = scalar extract_double,
      y_items = (\<lambda>n. case n of Mapping kvs \<Rightarrow> map (\<lambda>(k, v). (Scalar k, v)) kvs | _ \<Rightarrow> [])\<rparr>"

section \<open>The configuration\<close>

definition kConfigYAML :: document where
  "kConfigYAML = Mapping
     [(''disabled'', Scalar ''true''), (''traceid_128bit'', Scalar ''true''),
      (''sampler'', Mapping [(''type'', Scalar ''probabilistic''), (''param'', Scalar ''0.001'')]),
      (''reporter'', Mapping [(''queueSize'', Scalar ''100''), (''bufferFlushInterval'', Scalar ''10''),
         (''logSpans'', Scalar ''false''), (''localAgentHostPort'', Scalar ''127.0.0.1:6831'')]),
      (''headers'', Mapping [(''jaegerDebugHeader'', Scalar ''debug-id''), (''jaegerBaggageHeader'', Scalar ''baggage''),
         (''TraceContextHeaderName'', Scalar ''trace-id''), (''traceBaggageHeaderPrefix'', Scalar ''testctx-'')]),
      (''baggage_restrictions'', Mapping [(''denyBaggageOnInitializationFailure'', Scalar ''false''),
         (''hostPort'', Scalar ''127.0.0.1:5778''), (''refreshInterval'', Scalar ''60'')])]"

definition Config_testParse :: bool where
  "Config_testParse \<longleftrightarrow>
     (case Config_parse yaml_documents kConfigYAML of
        Inl e \<Rightarrow> False
      | Inr c \<Rightarrow> sc_type (cfg_sampler c) = ''probabilistic'' \<and>
          jaegerDebugHeader (cfg_headers c) = ''debug-id'' \<and> jaegerBaggageHeader (cfg_headers c) = ''baggage'' \<and>
          traceContextHeaderName (cfg_headers c) = ''trace-id'' \<and> traceBaggageHeaderPrefix (cfg_headers c) = ''testctx-'') \<and>
     \<not> isl (Config_parse yaml_documents (Mapping
       [(''disabled'', Scalar ''false''), (''traceid_128bit'', Scalar ''false''), (''sampler'', Scalar ''1''),
        (''reporter'', Scalar ''2''), (''headers'', Scalar ''3''), (''baggage_restrictions'', Scalar ''4'')]))"

definition Config_testDefaultSamplingProbability :: bool where
  "Config_testDefaultSamplingProbability \<longleftrightarrow> kDefaultSamplingProbability = sc_param (cfg_sampler Config0)"

definition Config_testDefaultSamplingServerURL :: bool where
  "Config_testDefaultSamplingServerURL \<longleftrightarrow>
     sc_samplingServerURL (cfg_sampler Config0) = ''http://127.0.0.1:5778/sampling''"

definition parsed :: "document \<Rightarrow> (config \<Rightarrow> bool) \<Rightarrow> bool" where
  "parsed doc asserts \<longleftrightarrow> (case Config_parse yaml_documents doc of Inl e \<Rightarrow> False | Inr c \<Rightarrow> asserts c)"

definition Config_testZeroSamplingParam :: bool where
  "Config_testZeroSamplingParam \<longleftrightarrow>
     parsed (Mapping [(''sampler'', Mapping [(''param'', Scalar ''0'')])]) (\<lambda>c. sc_param (cfg_sampler c) = 0)"

definition Config_testPropagationFormat :: bool where
  "Config_testPropagationFormat \<longleftrightarrow>
     parsed (Mapping [(''propagation_format'', Scalar ''w3c'')]) (\<lambda>c. cfg_propagationFormat c = FormatW3C)"

definition Config_testTags :: bool where
  "Config_testTags \<longleftrightarrow>
     parsed (Mapping [(''tags'', Mapping [(''foo'', Scalar ''bar'')])]) (\<lambda>c. cfg_tags c = [Tag ''foo'' (VString ''bar'')])"

definition ReporterConfig_testLoadConfig :: bool where
  "ReporterConfig_testLoadConfig \<longleftrightarrow>
     (let configYAML = Mapping
        [(''disabled'', Scalar ''false''),
         (''reporter'', Mapping [(''logSpans'', Scalar ''true''), (''bufferFlushInterval'', Scalar ''88''),
            (''localAgentHostPort'', Scalar ''ahost:22''), (''endpoint'', Scalar ''http://somehost:33/api/traces'')]),
         (''sampler'', Mapping [(''type'', Scalar ''const''), (''param'', Scalar ''1'')])]
      in case ReporterConfig_parse yaml_documents (y_at yaml_documents configYAML ''reporter'') of
           Inl e \<Rightarrow> False
         | Inr c \<Rightarrow> rc_logSpans c \<and> rc_bufferFlushInterval c = nanoseconds 88 \<and>
             rc_localAgentHostPort c = ''ahost:22'' \<and> rc_endpoint c = ''http://somehost:33/api/traces'')"

lemmas parse_defs = Config_parse_def SamplerConfig_parse_def ReporterConfig_parse_def HeadersConfig_parse_def
  RestrictionsConfig_parse_def findOrDefault_def yaml_documents_def scalar_bool_def bad_conversion_def

lemma scalar_numbers:
  "extract_int ''100'' = (True, 100)" "extract_int ''10'' = (True, 10)" "extract_int ''60'' = (True, 60)"
  "extract_int ''88'' = (True, 88)"
  "extract_double ''0.001'' \<noteq> None" "extract_double ''0'' = Some 0"
  by code_simp+

lemma config_testParse: "Config_testParse"
proof -
  obtain param where param: "extract_double ''0.001'' = Some param" using scalar_numbers(5) by auto
  show ?thesis
    by (simp add: Config_testParse_def kConfigYAML_def parse_defs Let_def scalar_numbers(1-4) param Config_def SamplerConfig_def
        HeadersConfig_def)
qed

lemma config_defaults: "Config_testDefaultSamplingProbability" "Config_testDefaultSamplingServerURL"
  by (simp_all add: Config_testDefaultSamplingProbability_def Config_testDefaultSamplingServerURL_def Config0_def Config_def
      SamplerConfig0_def SamplerConfig_def kDefaultSamplingServerURL_def)

lemma config_testZeroSamplingParam: "Config_testZeroSamplingParam"
  by (simp add: Config_testZeroSamplingParam_def parsed_def parse_defs Let_def scalar_numbers Config_def SamplerConfig_def)

lemma config_testPropagationFormat: "Config_testPropagationFormat"
  by (simp add: Config_testPropagationFormat_def parsed_def parse_defs Let_def Config_def parsePropagationFormat_def)

lemma config_testTags: "Config_testTags"
  by (simp add: Config_testTags_def parsed_def parse_defs Let_def Config_def)

lemma reporter_config_testLoadConfig: "ReporterConfig_testLoadConfig"
  by (simp add: ReporterConfig_testLoadConfig_def parse_defs Let_def scalar_numbers ReporterConfig_def nanoseconds_def)

section \<open>The environment\<close>

definition setEnv :: "string \<Rightarrow> string \<Rightarrow> environment \<Rightarrow> environment" where
  "setEnv variable val env = env(variable \<mapsto> val)"

definition setEnvs :: "(string \<times> string) list \<Rightarrow> environment \<Rightarrow> environment" where
  "setEnvs assignments env = foldl (\<lambda>e (variable, val). setEnv variable val e) env assignments"

definition env_test_config :: config where
  "env_test_config =
     Config False False (SamplerConfig ''probabilistic'' (fl 53 (7 / 10)) ''http://host34:57/sampling'' 0 0)
       (ReporterConfig 10 (milliseconds 100) False ''host35:77'' ''http://host36:56568'')
       HeadersConfig0 RestrictionsConfig0 ''test-service''
       [Tag ''hostname'' (VString ''foo''), Tag ''my.app.version'' (VString ''1.2.3'')] FormatJAEGER"

definition test_assignments :: "(string \<times> string) list" where
  "test_assignments =
     [(''JAEGER_AGENT_HOST'', ''host33''), (''JAEGER_AGENT_PORT'', ''45''), (''JAEGER_ENDPOINT'', ''http://host34:56567''),
      (''JAEGER_REPORTER_MAX_QUEUE_SIZE'', ''33''), (''JAEGER_REPORTER_FLUSH_INTERVAL'', ''45''),
      (''JAEGER_REPORTER_LOG_SPANS'', ''true''),
      (''JAEGER_SAMPLER_TYPE'', ''remote''), (''JAEGER_SAMPLER_PARAM'', ''0.33''),
      (''JAEGER_SAMPLING_ENDPOINT'', ''http://myagent:1234''),
      (''JAEGER_SERVICE_NAME'', ''AService''), (''JAEGER_TAGS'', ''hostname=foobar,my.app.version=4.5.6''),
      (''JAEGER_TRACEID_128BIT'', ''true'')]"

definition test_resets :: "(string \<times> string) list" where
  "test_resets =
     [(''JAEGER_AGENT_HOST'', []), (''JAEGER_AGENT_PORT'', []), (''JAEGER_ENDPOINT'', []),
      (''JAEGER_REPORTER_MAX_QUEUE_SIZE'', []), (''JAEGER_REPORTER_FLUSH_INTERVAL'', []),
      (''JAEGER_REPORTER_LOG_SPANS'', []), (''JAEGER_SAMPLER_PARAM'', []), (''JAEGER_SAMPLER_TYPE'', []),
      (''JAEGER_SERVICE_NAME'', []), (''JAEGER_TAGS'', []), (''JAEGER_DISABLED'', []),
      (''JAEGER_TRACE_ID_128BIT'', []), (''JAEGER_PROPAGATION'', [])]"

text \<open>Whether the assertions hold, and the environment the test leaves behind.\<close>

definition Config_testFromEnv :: "environment \<Rightarrow> bool \<times> environment" where
  "Config_testFromEnv env0 =
     (let c1 = Config_fromEnv env0 env_test_config;
          ok1 = (rc_endpoint (cfg_reporter c1) = ''http://host36:56568'' \<and>
            rc_localAgentHostPort (cfg_reporter c1) = ''host35:77'' \<and>
            rc_queueSize (cfg_reporter c1) = 10 \<and> rc_bufferFlushInterval (cfg_reporter c1) = milliseconds 100 \<and>
            \<not> rc_logSpans (cfg_reporter c1) \<and>
            sc_param (cfg_sampler c1) = fl 53 (7 / 10) \<and> sc_type (cfg_sampler c1) = ''probabilistic'');
          env1 = setEnvs test_assignments env0;
          c2 = Config_fromEnv env1 c1;
          ok2 = (rc_endpoint (cfg_reporter c2) = ''http://host34:56567'' \<and>
            rc_localAgentHostPort (cfg_reporter c2) = ''host33:45'' \<and>
            rc_queueSize (cfg_reporter c2) = 33 \<and> rc_bufferFlushInterval (cfg_reporter c2) = milliseconds 45 \<and>
            rc_logSpans (cfg_reporter c2) \<and>
            sc_type (cfg_sampler c2) = ''remote'' \<and> sc_param (cfg_sampler c2) = fl 53 (33 / 100) \<and>
            sc_samplingServerURL (cfg_sampler c2) = ''http://myagent:1234'' \<and>
            cfg_serviceName c2 = ''AService'' \<and>
            cfg_tags c2 = [Tag ''hostname'' (VString ''foo''), Tag ''my.app.version'' (VString ''1.2.3''),
              Tag ''hostname'' (VString ''foobar''), Tag ''my.app.version'' (VString ''4.5.6'')] \<and>
            \<not> cfg_disabled c2 \<and> cfg_traceId128Bit c2);
          env2 = setEnvs [(''JAEGER_DISABLED'', ''TRue''), (''JAEGER_AGENT_PORT'', ''445'')] env1;
          c3 = Config_fromEnv env2 c2;
          ok3 = (cfg_disabled c3 \<and> rc_localAgentHostPort (cfg_reporter c3) = ''host33:445'');
          env3 = setEnv ''JAEGER_PROPAGATION'' ''w3c'' env2;
          c4 = Config_fromEnv env3 c3;
          ok4 = (cfg_propagationFormat c4 = FormatW3C)
      in (ok1 \<and> ok2 \<and> ok3 \<and> ok4, setEnvs test_resets env3))"

lemma getStringVariable_setEnv:
  "getStringVariable (setEnv variable val env) v = (if v = variable then val else getStringVariable env v)"
  by (simp add: setEnv_def getStringVariable_def)

lemma setEnvs_simps [simp]:
  "setEnvs [] env = env"
  "setEnvs ((variable, val) # assignments) env = setEnvs assignments (setEnv variable val env)"
  by (simp_all add: setEnvs_def)

text \<open>The variables that are read: without them a configuration stays as it is.\<close>

definition jaeger_variables :: "string list" where
  "jaeger_variables =
     [''JAEGER_DISABLED'', ''JAEGER_TRACEID_128BIT'', ''JAEGER_PROPAGATION'', ''JAEGER_SERVICE_NAME'', ''JAEGER_TAGS'',
      ''JAEGER_AGENT_HOST'', ''JAEGER_AGENT_PORT'', ''JAEGER_ENDPOINT'', ''JAEGER_REPORTER_LOG_SPANS'',
      ''JAEGER_REPORTER_FLUSH_INTERVAL'', ''JAEGER_REPORTER_MAX_QUEUE_SIZE'', ''JAEGER_SAMPLER_TYPE'',
      ''JAEGER_SAMPLER_PARAM'', ''JAEGER_SAMPLING_ENDPOINT'']"

definition no_jaeger_variables :: "environment \<Rightarrow> bool" where
  "no_jaeger_variables env \<longleftrightarrow> list_all (\<lambda>v. getStringVariable env v = []) jaeger_variables"

lemmas fromEnv_defs = Config_fromEnv_def ReporterConfig_fromEnv_def SamplerConfig_fromEnv_def getBoolVariable_def
  getIntVariable_def

lemma fromEnv_unset: "no_jaeger_variables env \<Longrightarrow> Config_fromEnv env c = c"
  by (simp add: no_jaeger_variables_def jaeger_variables_def fromEnv_defs Let_def)

lemma env_values:
  "extract_int ''45'' = (True, 45)" "extract_int ''33'' = (True, 33)" "extract_int ''445'' = (True, 445)"
  "int_str 77 = ''77''" "int_str 45 = ''45''" "int_str 445 = ''445''"
  "IPAddress_parse ''host35:77'' = (''host35'', 77)" "IPAddress_parse ''host33:77'' = (''host33'', 77)"
  "IPAddress_parse ''host33:45'' = (''host33'', 45)"
  "map to_lower ''true'' = ''true''" "map to_lower ''TRue'' = ''true''"
  by code_simp+

lemma env_tags:
  "List.map_filter parse_env_tag (getlines (CHR '','') ''hostname=foobar,my.app.version=4.5.6'') =
     [Tag ''hostname'' (VString ''foobar''), Tag ''my.app.version'' (VString ''4.5.6'')]"
proof -
  have "getlines (CHR '','') ''hostname=foobar,my.app.version=4.5.6'' = [''hostname=foobar'', ''my.app.version=4.5.6'']"
    by code_simp
  then show ?thesis by (simp add: List.map_filter_def parse_env_tag_def getline_def)
qed

lemma env_param: "extract_double ''0.33'' = Some (fl 53 (33 / 100))"
proof -
  have "\<not> isspace (CHR ''0'')" "isdigit (CHR ''0'')" "isdigit (CHR ''3'')" "\<not> isdigit (CHR ''.'')" "dec_value ''033'' = 33"
    by code_simp+
  then show ?thesis by (simp add: extract_double_def scan_sign_def Let_def pow10_def)
qed

lemma lower_case_true:
  "to_lower (CHR ''t'') = CHR ''t''" "to_lower (CHR ''r'') = CHR ''r''" "to_lower (CHR ''u'') = CHR ''u''"
  "to_lower (CHR ''e'') = CHR ''e''" "to_lower (CHR ''T'') = CHR ''t''" "to_lower (CHR ''R'') = CHR ''r''"
  by code_simp+

text \<open>The configurations that are read one after the other.\<close>

abbreviation test_environment :: "environment \<Rightarrow> environment" where
  "test_environment env \<equiv> setEnvs test_assignments env"

abbreviation disabling_environment :: "environment \<Rightarrow> environment" where
  "disabling_environment env \<equiv> setEnvs [(''JAEGER_DISABLED'', ''TRue''), (''JAEGER_AGENT_PORT'', ''445'')] (test_environment env)"

definition second_config :: config where
  "second_config =
     Config False True (SamplerConfig ''remote'' (fl 53 (33 / 100)) ''http://myagent:1234'' 0 0)
       (ReporterConfig 33 (milliseconds 45) True ''host33:45'' ''http://host34:56567'')
       HeadersConfig0 RestrictionsConfig0 ''AService''
       [Tag ''hostname'' (VString ''foo''), Tag ''my.app.version'' (VString ''1.2.3''),
        Tag ''hostname'' (VString ''foobar''), Tag ''my.app.version'' (VString ''4.5.6'')] FormatJAEGER"

lemma not_the_default: "fl 53 (33 / 100) \<noteq> - 1" "fl 53 (7 / 10) \<noteq> - 1"
  using fl_mono[of 53 0 "33 / 100"] fl_mono[of 53 0 "7 / 10"] by auto

lemma second_config_fields:
  "rc_endpoint (cfg_reporter second_config) = ''http://host34:56567''"
  "rc_localAgentHostPort (cfg_reporter second_config) = ''host33:45''"
  "rc_queueSize (cfg_reporter second_config) = 33"
  "rc_bufferFlushInterval (cfg_reporter second_config) = milliseconds 45"
  "rc_logSpans (cfg_reporter second_config)"
  "sc_type (cfg_sampler second_config) = ''remote''" "sc_param (cfg_sampler second_config) = fl 53 (33 / 100)"
  "sc_samplingServerURL (cfg_sampler second_config) = ''http://myagent:1234''"
  "cfg_serviceName second_config = ''AService''"
  "cfg_tags second_config = [Tag ''hostname'' (VString ''foo''), Tag ''my.app.version'' (VString ''1.2.3''),
     Tag ''hostname'' (VString ''foobar''), Tag ''my.app.version'' (VString ''4.5.6'')]"
  "\<not> cfg_disabled second_config" "cfg_traceId128Bit second_config"
  by (simp_all add: second_config_def Config_def SamplerConfig_def ReporterConfig_def milliseconds_def not_the_default)

lemma test_environment_values:
  assumes "no_jaeger_variables env"
  shows "getStringVariable (test_environment env) ''JAEGER_DISABLED'' = []"
    "getStringVariable (test_environment env) ''JAEGER_PROPAGATION'' = []"
    "getStringVariable (test_environment env) ''JAEGER_AGENT_HOST'' = ''host33''"
    "getStringVariable (test_environment env) ''JAEGER_AGENT_PORT'' = ''45''"
    "getStringVariable (test_environment env) ''JAEGER_ENDPOINT'' = ''http://host34:56567''"
    "getStringVariable (test_environment env) ''JAEGER_REPORTER_MAX_QUEUE_SIZE'' = ''33''"
    "getStringVariable (test_environment env) ''JAEGER_REPORTER_FLUSH_INTERVAL'' = ''45''"
    "getStringVariable (test_environment env) ''JAEGER_REPORTER_LOG_SPANS'' = ''true''"
    "getStringVariable (test_environment env) ''JAEGER_SAMPLER_TYPE'' = ''remote''"
    "getStringVariable (test_environment env) ''JAEGER_SAMPLER_PARAM'' = ''0.33''"
    "getStringVariable (test_environment env) ''JAEGER_SAMPLING_ENDPOINT'' = ''http://myagent:1234''"
    "getStringVariable (test_environment env) ''JAEGER_SERVICE_NAME'' = ''AService''"
    "getStringVariable (test_environment env) ''JAEGER_TAGS'' = ''hostname=foobar,my.app.version=4.5.6''"
    "getStringVariable (test_environment env) ''JAEGER_TRACEID_128BIT'' = ''true''"
  using assms
  by (simp_all add: no_jaeger_variables_def jaeger_variables_def test_assignments_def getStringVariable_setEnv)

lemma test_sampler:
  assumes "no_jaeger_variables env"
  shows "SamplerConfig_fromEnv (test_environment env) (cfg_sampler env_test_config) = cfg_sampler second_config"
  by (simp add: SamplerConfig_fromEnv_def test_environment_values[OF assms] env_param Let_def env_test_config_def
      second_config_def Config_def SamplerConfig_def not_the_default)

lemma test_reporter:
  assumes "no_jaeger_variables env"
  shows "ReporterConfig_fromEnv (test_environment env) (cfg_reporter env_test_config) = cfg_reporter second_config"
  by (simp add: ReporterConfig_fromEnv_def getBoolVariable_def getIntVariable_def test_environment_values[OF assms]
      env_values lower_case_true Let_def env_test_config_def second_config_def Config_def ReporterConfig_def
      milliseconds_def)

lemma from_test_environment:
  assumes "no_jaeger_variables env"
  shows "Config_fromEnv (test_environment env) env_test_config = second_config"
  using test_sampler[OF assms] test_reporter[OF assms]
  by (simp add: Config_fromEnv_def getBoolVariable_def test_environment_values[OF assms] env_tags lower_case_true Let_def
      env_test_config_def second_config_def Config_def)

lemma from_disabling_environment:
  assumes "no_jaeger_variables env"
  shows "cfg_disabled (Config_fromEnv (disabling_environment env) second_config)"
    "rc_localAgentHostPort (cfg_reporter (Config_fromEnv (disabling_environment env) second_config)) = ''host33:445''"
  by (simp_all add: Config_fromEnv_def ReporterConfig_fromEnv_def getBoolVariable_def getIntVariable_def
      getStringVariable_setEnv test_environment_values[OF assms] env_values lower_case_true Let_def second_config_def
      Config_def ReporterConfig_def)

lemma propagation_fromEnv:
  "getStringVariable env ''JAEGER_PROPAGATION'' = ''w3c'' \<Longrightarrow> cfg_propagationFormat (Config_fromEnv env c) = FormatW3C"
  by (simp add: Config_fromEnv_def Let_def parsePropagationFormat_def split: prod.split)

text \<open>The test passes in an environment that sets none of the variables.\<close>

lemma config_testFromEnv:
  assumes "no_jaeger_variables env"
  shows "fst (Config_testFromEnv env)"
  unfolding Config_testFromEnv_def Let_def fst_conv fromEnv_unset[OF assms] from_test_environment[OF assms]
  using from_disabling_environment[OF assms]
  by (simp add: second_config_fields propagation_fromEnv getStringVariable_setEnv env_test_config_def Config_def
      SamplerConfig_def ReporterConfig_def milliseconds_def not_the_default)

text \<open>
  It does not clean up: it clears \<^verbatim>\<open>JAEGER_TRACE_ID_128BIT\<close>, a variable nothing reads, and not the
  two it has set besides. A configuration that a later test reads from the environment has them.
\<close>

lemma config_testFromEnv_leaks:
  "getStringVariable (snd (Config_testFromEnv env)) ''JAEGER_TRACEID_128BIT'' = ''true''"
  "getStringVariable (snd (Config_testFromEnv env)) ''JAEGER_SAMPLING_ENDPOINT'' = ''http://myagent:1234''"
  by (simp_all add: Config_testFromEnv_def Let_def test_assignments_def test_resets_def getStringVariable_setEnv)

lemma leaked_environment:
  "cfg_traceId128Bit (Config_fromEnv (snd (Config_testFromEnv env)) c)"
    "sc_samplingServerURL (cfg_sampler (Config_fromEnv (snd (Config_testFromEnv env)) c)) = ''http://myagent:1234''"
  using config_testFromEnv_leaks[of env]
  by (simp_all add: Config_fromEnv_def SamplerConfig_fromEnv_def getBoolVariable_def lower_case_true Let_def split: prod.split option.split)

section \<open>The tracer factory\<close>

definition fails_with_message :: "((factory_error + made_tracer) \<times> string) option \<Rightarrow> bool" where
  "fails_with_message r \<longleftrightarrow> (case r of Some (Inl e, errorMessage) \<Rightarrow> errorMessage \<noteq> [] | _ \<Rightarrow> False)"

definition makes_tracer :: "((factory_error + made_tracer) \<times> string) option \<Rightarrow> (made_tracer \<Rightarrow> bool) \<Rightarrow> bool" where
  "makes_tracer r asserts \<longleftrightarrow>
     (case r of Some (Inr tracer, errorMessage) \<Rightarrow> errorMessage = [] \<and> asserts tracer | _ \<Rightarrow> False)"

definition named :: "string \<Rightarrow> made_tracer \<Rightarrow> bool" where
  "named service tracer \<longleftrightarrow>
     (case tracer of JaegerTracer transport t \<Rightarrow> t_serviceName t = service | _ \<Rightarrow> False)"

text \<open>A call with a document the parser reads like this; \<open>what\<close> is what it says of one that is no YAML.\<close>

definition MakeTracer_from ::
  "document yaml_load \<Rightarrow> nat \<Rightarrow> platform \<Rightarrow> time \<Rightarrow> environment \<Rightarrow> bool \<Rightarrow> ((factory_error + made_tracer) \<times> string) option" where
  "MakeTracer_from loaded ld pl now env readFromEnv =
     MakeTracer True yaml_documents (\<lambda>_. loaded) ld pl now env (TracerFactory readFromEnv) [] []"

definition TracerFactory_testInvalidConfig :: "nat \<Rightarrow> platform \<Rightarrow> time \<Rightarrow> environment \<Rightarrow> string \<Rightarrow> bool" where
  "TracerFactory_testInvalidConfig ld pl now env what \<longleftrightarrow>
     list_all (\<lambda>invalidConfig. fails_with_message (MakeTracer_from invalidConfig ld pl now env True))
       [Loaded Null, ParserException what, Loaded (Mapping [(''service_name'', Mapping [])])]"

definition TracerFactory_testValidConfig :: "nat \<Rightarrow> platform \<Rightarrow> time \<Rightarrow> environment \<Rightarrow> bool" where
  "TracerFactory_testValidConfig ld pl now env \<longleftrightarrow>
     (let config = Mapping
        [(''service_name'', Scalar ''test''), (''disabled'', Scalar ''true''),
         (''sampler'', Mapping [(''type'', Scalar ''probabilistic''), (''param'', Scalar ''0.001'')]),
         (''reporter'', Mapping [(''queueSize'', Scalar ''100''), (''bufferFlushInterval'', Scalar ''10''),
            (''logSpans'', Scalar ''false''), (''localAgentHostPort'', Scalar ''127.0.0.1:6831'')]),
         (''headers'', Mapping [(''jaegerDebugHeader'', Scalar ''debug-id''), (''jaegerBaggageHeader'', Scalar ''baggage''),
            (''TraceContextHeaderName'', Scalar ''trace-id''), (''traceBaggageHeaderPrefix'', Scalar ''testctx-'')]),
         (''baggage_restrictions'', Mapping [(''denyBaggageOnInitializationFailure'', Scalar ''false''),
            (''hostPort'', Scalar ''127.0.0.1:5778''), (''refreshInterval'', Scalar ''60'')])]
      in makes_tracer (MakeTracer_from (Loaded config) ld pl now env True) (\<lambda>tracer. True))"

definition TracerFactory_testWithoutReadFromEnv :: "nat \<Rightarrow> platform \<Rightarrow> time \<Rightarrow> environment \<Rightarrow> bool" where
  "TracerFactory_testWithoutReadFromEnv ld pl now env \<longleftrightarrow>
     fails_with_message (MakeTracer_from (Loaded Null) ld pl now (setEnv ''JAEGER_SERVICE_NAME'' ''AService'' env) False)"

definition TracerFactory_testWithReadFromEnv :: "nat \<Rightarrow> platform \<Rightarrow> time \<Rightarrow> environment \<Rightarrow> bool" where
  "TracerFactory_testWithReadFromEnv ld pl now env \<longleftrightarrow>
     makes_tracer (MakeTracer_from (Loaded Null) ld pl now (setEnv ''JAEGER_SERVICE_NAME'' ''AService'' env) True)
       (named ''AService'')"

definition TracerFactory_testEnvTakesPrecedence :: "nat \<Rightarrow> platform \<Rightarrow> time \<Rightarrow> environment \<Rightarrow> bool" where
  "TracerFactory_testEnvTakesPrecedence ld pl now env \<longleftrightarrow>
     makes_tracer (MakeTracer_from (Loaded (Mapping [(''service_name'', Scalar ''Ignored'')])) ld pl now
         (setEnv ''JAEGER_SERVICE_NAME'' ''test'' env) True)
       (named ''test'')"

definition TracerFactory_failsWithoutYAML :: "nat \<Rightarrow> platform \<Rightarrow> time \<Rightarrow> environment \<Rightarrow> bool" where
  "TracerFactory_failsWithoutYAML ld pl now env \<longleftrightarrow>
     fails_with_message (MakeTracer False yaml_documents (\<lambda>_. Loaded Null) ld pl now env (TracerFactory True) [] [])"

lemmas factory_defs = MakeTracer_from_def MakeTracer_def MakeTracer_body_def TracerFactory_def fails_with_message_def
  makes_tracer_def

lemma parse_null: "Config_parse yaml_documents Null = Inr Config0"
  by (simp add: Config_parse_def yaml_documents_def)

lemma Config0_serviceName [simp]: "cfg_serviceName Config0 = []"
  by (simp add: Config0_def Config_def)

lemma factory_testInvalidConfig:
  assumes "no_jaeger_variables env" and "what \<noteq> []"
  shows "TracerFactory_testInvalidConfig ld pl now env what"
proof -
  have "Config_parse yaml_documents (Mapping [(''service_name'', Mapping [])]) = Inl (RuntimeError ''bad conversion'')"
    by (simp add: parse_defs Let_def)
  then show ?thesis using assms(2)
    by (simp add: TracerFactory_testInvalidConfig_def factory_defs parse_null fromEnv_unset[OF assms(1)] exception_what_def)
qed

lemma factory_testWithoutReadFromEnv: "TracerFactory_testWithoutReadFromEnv ld pl now env"
  by (simp add: TracerFactory_testWithoutReadFromEnv_def factory_defs parse_null)

lemma factory_failsWithoutYAML: "TracerFactory_failsWithoutYAML ld pl now env"
  by (simp add: TracerFactory_failsWithoutYAML_def factory_defs)

lemma factory_testValidConfig:
  assumes "no_jaeger_variables env"
  shows "TracerFactory_testValidConfig ld pl now env"
proof -
  obtain param where param: "extract_double ''0.001'' = Some param" using scalar_numbers(5) by auto
  show ?thesis
    by (simp add: TracerFactory_testValidConfig_def factory_defs fromEnv_unset[OF assms] parse_defs Let_def
        scalar_numbers(1-4) param Config_def Tracer_make_config_def Tracer_make_def)
qed

text \<open>A configuration that is read from nothing but the name of the service makes a tracer.\<close>

lemma service_name_only:
  assumes "no_jaeger_variables env" and "service \<noteq> []"
  shows "Config_fromEnv (setEnv ''JAEGER_SERVICE_NAME'' service env) c = c\<lparr>cfg_serviceName := service\<rparr>"
  using assms
  by (simp add: no_jaeger_variables_def jaeger_variables_def fromEnv_defs getStringVariable_setEnv Let_def)

lemma default_tracer_made:
  assumes "pl_connect pl = (\<lambda>_. None)" and "cfg_sampler c = SamplerConfig0" and "\<not> cfg_disabled c" and "cfg_serviceName c \<noteq> []"
  shows "\<exists>transport t. Tracer_make_config ld pl now c = Inr (JaegerTracer transport t) \<and> t_serviceName t = cfg_serviceName c"
proof -
  have p: "0 \<le> kDefaultSamplingProbability" "kDefaultSamplingProbability \<le> 1"
    using fl_mono[of 53 0 "1 / 1000"] fl_mono[of 53 "1 / 1000" 1] by (simp_all add: kDefaultSamplingProbability_def fl53_values)
  have ty: "map to_lower (sc_type SamplerConfig0) = kSamplerTypeRemote" by code_simp
  have param: "sc_param SamplerConfig0 = kDefaultSamplingProbability" by (simp add: SamplerConfig0_def SamplerConfig_def)
  have names: "kSamplerTypeRemote \<noteq> kSamplerTypeConst" "kSamplerTypeRemote \<noteq> kSamplerTypeProbabilistic"
    "kSamplerTypeRemote \<noteq> kSamplerTypeRateLimiting" by code_simp+
  obtain smp out where s: "makeSampler ld now (cfg_sampler c) = (Inr (Some smp), out)"
    unfolding assms(2) using p by (simp add: makeSampler_def makeProbabilistic_def ty names param Let_def)
  obtain transport rep out' where r: "makeReporter (pl_connect pl) now (cfg_reporter c) metrics0 = (Inr (transport, rep), out')"
    by (rule make_reporter_connected [where connect = "pl_connect pl"]) (simp add: assms(1))
  show ?thesis using s r assms(3,4) by (auto simp: Tracer_make_config_def Tracer_make_def split: prod.splits)
qed

lemma factory_testWithReadFromEnv:
  assumes "no_jaeger_variables env" and "pl_connect pl = (\<lambda>_. None)"
  shows "TracerFactory_testWithReadFromEnv ld pl now env"
proof -
  let ?c = "Config0\<lparr>cfg_serviceName := ''AService''\<rparr>"
  obtain transport t where "Tracer_make_config ld pl now ?c = Inr (JaegerTracer transport t)" "t_serviceName t = ''AService''"
    using default_tracer_made[OF assms(2), of ?c ld now] by (auto simp: Config0_def Config_def)
  then show ?thesis
    by (simp add: TracerFactory_testWithReadFromEnv_def factory_defs parse_null service_name_only[OF assms(1)] Let_def named_def)
qed

lemma factory_testEnvTakesPrecedence:
  assumes "no_jaeger_variables env" and "pl_connect pl = (\<lambda>_. None)"
  shows "TracerFactory_testEnvTakesPrecedence ld pl now env"
proof -
  let ?c = "Config0\<lparr>cfg_serviceName := ''test''\<rparr>"
  obtain transport t where t: "Tracer_make_config ld pl now ?c = Inr (JaegerTracer transport t)" "t_serviceName t = ''test''"
    using default_tracer_made[OF assms(2), of ?c ld now] by (auto simp: Config0_def Config_def)
  have "Config_parse yaml_documents (Mapping [(''service_name'', Scalar ''Ignored'')]) = Inr (Config0\<lparr>cfg_serviceName := ''Ignored''\<rparr>)"
    by (simp add: parse_defs Let_def Config0_def Config_def parsePropagationFormat_def)
  with t show ?thesis
    by (simp add: TracerFactory_testEnvTakesPrecedence_def factory_defs service_name_only[OF assms(1)] Let_def named_def)
qed

end
