(* ===== verification/CarrierTests.thy ===== *)
theory CarrierTests
  imports UnitTests
begin

text \<open>
  The unit tests of the propagators and of the reporters (\<^verbatim>\<open>propagation/*Test.cpp\<close>,
  \<^verbatim>\<open>reporters/ReporterTest.cpp\<close>), in the form of \<open>UnitTests\<close>.
\<close>

section \<open>Carriers\<close>

text \<open>The mock writer: each \<^verbatim>\<open>Set\<close> assigns to the entry of its key.\<close>

definition WriterMock :: "strmap \<Rightarrow> strmap \<Rightarrow> strmap" where
  "WriterMock writes keyValuePairs = foldl (\<lambda>m (key, value). AList.update key value m) keyValuePairs writes"

definition W3CExtractTestCases :: "(string \<times> bool) list" where
  "W3CExtractTestCases =
     [(''00-0af7651916cd43dd8448eb211c80319c-b9c7c989f97918e1-01'', True),
      (''00-0af7651916cd43dd8448eb211c80319c-b9c7c989f97918e1-00'', True),
      (''00-11111111111111111111111111111111-2222222222222222-01'', True),
      (''00-AAAAAAAAAAAAAAAAAAAAAAAAAAAAAAAA-BBBBBBBBBBBBBBBB-01'', True),
      ('''', False),
      (''000af7651916cd43dd8448eb211c80319cb9c7c989f97918e101'', False),
      (''000af7651916cd43dd8448eb211c80319c-b9c7c989f97918e1-01'', False),
      (''00-0af7651916cd43dd8448eb211c80319cb9c7c989f97918e1-01'', False),
      (''00-0af7651916cd43dd8448eb211c80319c-b9c7c989f97918e101'', False),
      (''000af7651916cd43dd8448eb211c80319cb9c7c989f97918e1-01'', False),
      (''00-0af7651916cd43dd8448eb211c80319cb9c7c989f97918e101'', False),
      (''01-0af7651916cd43dd8448eb211c80319c-b9c7c989f97918e1-01'', False),
      (''-0af7651916cd43dd8448eb211c80319c-b9c7c989f97918e1-01'', False),
      (''0af7651916cd43dd8448eb211c80319c-b9c7c989f97918e1-01'', False),
      (''0-0af7651916cd43dd8448eb211c80319c-b9c7c989f97918e1-01'', False),
      (''000-0af7651916cd43dd8448eb211c80319c-b9c7c989f97918e1-01'', False),
      (''0k-0af7651916cd43dd8448eb211c80319c-b9c7c989f97918e1-01'', False),
      (''k0-0af7651916cd43dd8448eb211c80319c-b9c7c989f97918e1-01'', False),
      (''00-00000000000000000000000000000000-b9c7c989f97918e1-01'', False),
      (''01-0af7651916cd43dd8448eb211c80319-b9c7c989f97918e1-01'', False),
      (''01-0af7651916cd43dd8448eb211c80319cc-b9c7c989f97918e1-01'', False),
      (''00-0af7651916cd43dd8448eb211c80319c-0000000000000000-01'', False)]"

text \<open>The second map has its two headers in an order of its own.\<close>

definition W3C_extract_asserts :: "codec \<Rightarrow> strmap \<Rightarrow> bool" where
  "W3C_extract_asserts cd m \<longleftrightarrow>
     (let spanContext = fst (w3c_extract HeadersConfig0 cd m metrics0)
      in isValid spanContext \<and> traceState spanContext = ''foo=bar'')"

definition W3CPropagator_testExtract :: "strmap \<Rightarrow> bool" where
  "W3CPropagator_testExtract m \<longleftrightarrow>
     list_all (\<lambda>(input, success).
       isValid (fst (w3c_extract HeadersConfig0 text_map_codec [(kW3CTraceParentHeaderName, input)] metrics0)) = success \<and>
       isValid (fst (w3c_extract HeadersConfig0 http_codec [(kW3CTraceParentHeaderName, input)] metrics0)) = success)
       W3CExtractTestCases \<and>
     W3C_extract_asserts text_map_codec m \<and> W3C_extract_asserts http_codec m"

definition W3CPropagator_testInject :: bool where
  "W3CPropagator_testInject \<longleftrightarrow>
     (let spanContext = SpanContext (TraceID 255 1) 2 3 1 [] [] ''foo=bar'';
          textMap = WriterMock (w3c_doInject spanContext []) [];
          httpHeaderMap = WriterMock (w3c_doInject spanContext []) []
      in map_of textMap kW3CTraceParentHeaderName = Some ''00-00000000000000ff0000000000000001-0000000000000002-01'' \<and>
         map_of textMap kW3CTraceStateHeaderName = Some ''foo=bar'' \<and>
         map_of httpHeaderMap kW3CTraceParentHeaderName =
           Some ''00-00000000000000ff0000000000000001-0000000000000002-01'' \<and>
         map_of textMap kW3CTraceStateHeaderName = Some ''foo=bar'')"

lemma ForeachKey_one: "ForeachKey f [kv] st = f kv st"
  by (simp split: option.split)

lemma w3c_extract_one:
  "isValid (fst (w3c_extract HeadersConfig0 text_map_codec [(kW3CTraceParentHeaderName, input)] ms)) =
    (case readTraceParent (istream_of input) of (c, i) \<Rightarrow> \<not> failed i \<and> isValid c)"
proof -
  have invalid: "\<not> isValid c" if "SpanContext_eq c SpanContext0" for c
    using that by (auto simp: SpanContext_eq_def isValid_def SpanContext0_def TraceID_eq_def TraceID_def
        TraceID_isValid_def split: if_splits)
  obtain c i where r: "readTraceParent (istream_of input) = (c, i)" by fastforce
  have header: "kW3CTraceParentHeaderName \<noteq> jaegerDebugHeader HeadersConfig0" by code_simp
  have empty: "\<not> isValid SpanContext0" by code_simp
  have "fst (w3c_extract HeadersConfig0 text_map_codec [(kW3CTraceParentHeaderName, input)] ms) =
      (if failed i \<or> SpanContext_eq c SpanContext0 \<or> \<not> TraceID_isValid (traceID c) then SpanContext0
       else SpanContext (traceID c) (spanID c) (parentID c) (flags c) [] [] [])"
    by (simp del: ForeachKey.simps add: ForeachKey_one w3c_extract_def Propagator_extract_def find_debugID_def
        w3c_doExtract_def w3c_step_def Let_def text_map_codec_def r header SpanContext_def SpanContext0_def
        TraceID_def TraceID_isValid_def)
  then show ?thesis
    using invalid[of c] by (auto simp: r empty isValid_def SpanContext_def)
qed

lemma w3c_read_cases:
  "list_all (\<lambda>(input, success).
     (case readTraceParent (istream_of input) of (c, i) \<Rightarrow> \<not> failed i \<and> isValid c) = success) W3CExtractTestCases"
  by code_simp

lemma w3c_extract_text_cases:
  "list_all (\<lambda>(input, success).
     isValid (fst (w3c_extract HeadersConfig0 text_map_codec [(kW3CTraceParentHeaderName, input)] metrics0)) = success)
     W3CExtractTestCases"
  using w3c_read_cases by (auto simp: list_all_iff w3c_extract_one split_def)

text \<open>The HTTP codec leaves a header alone that holds no percent sign.\<close>

lemma w3c_extract_http:
  assumes "CHR ''%'' \<notin> set input"
  shows "w3c_extract hk http_codec [(kW3CTraceParentHeaderName, input)] ms =
    w3c_extract hk text_map_codec [(kW3CTraceParentHeaderName, input)] ms"
proof -
  have "map to_lower kW3CTraceParentHeaderName = kW3CTraceParentHeaderName" by code_simp
  then show ?thesis
    using queryUnescape_plain[OF assms]
    by (simp del: ForeachKey.simps add: ForeachKey_one w3c_extract_def Propagator_extract_def find_debugID_def w3c_doExtract_def
        w3c_step_def Let_def http_codec_def text_map_codec_def)
qed

lemma w3c_extract_http_cases:
  "list_all (\<lambda>(input, success).
     isValid (fst (w3c_extract HeadersConfig0 http_codec [(kW3CTraceParentHeaderName, input)] metrics0)) = success)
     W3CExtractTestCases"
proof -
  have "list_all (\<lambda>(input, success). CHR ''%'' \<notin> set input) W3CExtractTestCases" by code_simp
  then show ?thesis
    using w3c_extract_text_cases by (auto simp: list_all_iff split_def w3c_extract_http)
qed

abbreviation w3c_test_map :: strmap where
  "w3c_test_map \<equiv> [(kW3CTraceParentHeaderName, ''00-00000000000000ff0000000000000001-0000000000000002-01''),
     (kW3CTraceStateHeaderName, ''foo=bar'')]"

lemma w3c_test_map_injected:
  "w3c_doInject (SpanContext (TraceID 255 1) 2 p 1 [] [] ''foo=bar'') [] = w3c_test_map"
proof -
  have "writeTraceParent (SpanContext (TraceID 255 1) 2 0 1 [] [] []) =
      ''00-00000000000000ff0000000000000001-0000000000000002-01''" by code_simp
  then show ?thesis by (simp add: w3c_doInject_def Let_def writeTraceParent_def SpanContext_def)
qed

lemma w3c_extract_state:
  assumes "mset m = mset w3c_test_map"
  shows "W3C_extract_asserts text_map_codec m" "W3C_extract_asserts http_codec m"
proof -
  let ?c = "SpanContext (TraceID 255 1) 2 0 1 [] [] ''foo=bar''"
  have headers: "lowercase kW3CTraceParentHeaderName" "lowercase kW3CTraceStateHeaderName"
    "jaegerDebugHeader HeadersConfig0 \<notin> {kW3CTraceParentHeaderName, kW3CTraceStateHeaderName}"
    by code_simp+
  have c: "TraceID_isValid (traceID ?c)" "CHR ''%'' \<notin> set (traceState ?c)" "traceState ?c = ''foo=bar''"
    by (simp_all add: SpanContext_def TraceID_def TraceID_isValid_def)
  have m: "mset m = mset (w3c_doInject ?c []) + mset []" using assms by (simp add: w3c_test_map_injected)
  have valid: "isValid (SpanContext (traceID ?c) (spanID ?c) 0 (flags ?c) [] [] (traceState ?c))"
    by (simp add: isValid_def SpanContext_def TraceID_def TraceID_isValid_def)
  show "W3C_extract_asserts text_map_codec m"
    using text_codec.w3c_extract_injected[OF TrueI TrueI headers(3) c(1,2) _ m] valid
    by (simp add: W3C_extract_asserts_def c(3))
  show "W3C_extract_asserts http_codec m"
    using headers_codec.w3c_extract_injected[OF headers c(1,2) _ m] valid
    by (simp add: W3C_extract_asserts_def c(3))
qed

lemma w3c_propagator_testExtract:
  assumes "mset m = mset w3c_test_map"
  shows "W3CPropagator_testExtract m"
  unfolding W3CPropagator_testExtract_def
  using w3c_extract_text_cases w3c_extract_http_cases w3c_extract_state[OF assms]
  by (simp add: list_all_iff split_def)

lemma w3c_propagator_testInject: "W3CPropagator_testInject"
proof -
  have "kW3CTraceParentHeaderName \<noteq> kW3CTraceStateHeaderName" by code_simp
  then show ?thesis by (simp add: W3CPropagator_testInject_def Let_def WriterMock_def w3c_test_map_injected)
qed

text \<open>The binary test draws its context from a random engine.\<close>

definition kLetters :: string where
  "kLetters = ''abcdefghijklmnopqrstuvwxyz'' @ ''ABCDEFGHIJKLMNOPQRSTUVWXYZ'' @ ''0123456789''"

fun random_letters :: "nat \<Rightarrow> nat stream \<Rightarrow> string \<times> nat stream" where
  "random_letters 0 gen = ([], gen)"
| "random_letters (Suc n) gen =
     (case random_letters n (stl gen) of (s, gen') \<Rightarrow> (kLetters ! (shd gen mod length kLetters) # s, gen'))"

definition randomStr :: "nat stream \<Rightarrow> string \<times> nat stream" where
  "randomStr gen = random_letters (shd gen mod 10) (stl gen)"

fun random_baggage :: "nat \<Rightarrow> nat stream \<Rightarrow> strmap \<Rightarrow> strmap \<times> nat stream" where
  "random_baggage 0 engine bag = (bag, engine)"
| "random_baggage (Suc n) engine bag =
     (let (key, engine1) = randomStr engine; (value, engine2) = randomStr engine1
      in random_baggage n engine2 (AList.update key value bag))"

definition Propagator_testBinaryPropagation :: "bool \<Rightarrow> nat stream \<Rightarrow> bool" where
  "Propagator_testBinaryPropagation le engine \<longleftrightarrow>
     (let kMaxNumBaggageItems = 10;
          numBaggageItems = shd engine mod (kMaxNumBaggageItems - 1) + 1;
          (bag, g) = random_baggage numBaggageItems (stl engine) [];
          ctx = SpanContext (TraceID (of_nat (g !! 0)) (of_nat (g !! 1))) (of_nat (g !! 2)) (of_nat (g !! 3)) 0 bag [] []
      in SpanContext_eq ctx (fst (binary_extract le (istream_of (binary_inject le ctx)) metrics0)))"

lemma length_random_letters: "length (fst (random_letters n gen)) = n"
  by (induction n arbitrary: gen) (auto split: prod.split simp: prod_eq_iff)

lemma length_randomStr: "randomStr gen = (s, gen') \<Longrightarrow> length s < 10"
  using length_random_letters[of "shd gen mod 10" "stl gen"] by (simp add: randomStr_def)

lemma set_update_subset: "set (AList.update k v m) \<subseteq> insert (k, v) (set m)"
proof (induction m)
  case (Cons kv m)
  then show ?case by (cases kv) auto
qed simp

lemma random_baggage_small:
  assumes "random_baggage n engine bag = (bag', engine')" and "strmap_ok bag"
    and "\<forall>kv \<in> set bag. length (fst kv) < 10 \<and> length (snd kv) < 10"
  shows "strmap_ok bag' \<and> length bag' \<le> length bag + n \<and>
    (\<forall>kv \<in> set bag'. length (fst kv) < 10 \<and> length (snd kv) < 10)"
  using assms
proof (induction n arbitrary: engine bag)
  case (Suc n)
  obtain key engine1 where key: "randomStr engine = (key, engine1)" by fastforce
  obtain val engine2 where val: "randomStr engine1 = (val, engine2)" by fastforce
  let ?bag = "AList.update key val bag"
  have run: "random_baggage n engine2 ?bag = (bag', engine')" using Suc.prems(1) by (simp add: key val)
  have ok: "strmap_ok ?bag" using Suc.prems(2) by (simp add: strmap_ok_def AList.distinct_update)
  have small: "\<forall>kv \<in> set ?bag. length (fst kv) < 10 \<and> length (snd kv) < 10"
    using Suc.prems(3) length_randomStr[OF key] length_randomStr[OF val] set_update_subset[of key val bag] by fastforce
  have "length ?bag \<le> Suc (length bag)" by (simp add: length_update)
  with Suc.IH[OF run ok small] show ?case by simp
qed simp

text \<open>The test passes whatever the engine produces, on machines of either byte order.\<close>

lemma propagator_testBinaryPropagation: "Propagator_testBinaryPropagation le engine"
proof -
  obtain bag g where run: "random_baggage (shd engine mod (10 - 1) + 1) (stl engine) [] = (bag, g)" by fastforce
  have small: "strmap_ok bag" "length bag \<le> shd engine mod 9 + 1"
    "\<forall>kv \<in> set bag. length (fst kv) < 10 \<and> length (snd kv) < 10"
    using random_baggage_small[OF run] by (simp_all add: strmap_ok_def)
  have big: "n < 10 \<Longrightarrow> n < 2 ^ 32" for n :: nat by simp
  have "shd engine mod 9 < 9" by simp
  with small(2) have "length bag < 10" by linarith
  with small(3) have "fits32 bag" unfolding fits32_def using big by blast
  then show ?thesis
    using binary_extract_inject[of "SpanContext t s p f bag [] []" le "[]" metrics0 for t s p f] small(1) run
    by (simp add: Propagator_testBinaryPropagation_def) (simp add: SpanContext_def)
qed

section \<open>Reporters\<close>

text \<open>The mock transport keeps the spans; what it meets when sending does not matter.\<close>

definition FakeTransport_append :: "unit \<Rightarrow> span \<Rightarrow> span list \<Rightarrow> (exception + int) \<times> span list" where
  "FakeTransport_append out sp spans = (Inr 1, spans @ [sp])"

definition FakeTransport_flush :: "unit \<Rightarrow> span list \<Rightarrow> (exception + int) \<times> span list" where
  "FakeTransport_flush out spans = (Inr 0, spans)"

definition report_call :: "span \<Rightarrow> 's remote_reporter \<Rightarrow> 's remote_reporter" where
  "report_call sp r = (let r' = rr_report sp r in if rr_pushed r' > rr_pushed r then rr_increment r' else r')"

text \<open>For each report, the times of the rounds the sweeping thread makes while the test sleeps.\<close>

fun report_and_sleep :: "span \<Rightarrow> time list list \<Rightarrow> span list remote_reporter \<Rightarrow> span list remote_reporter" where
  "report_and_sleep sp [] r = r"
| "report_and_sleep sp (rounds # sleeps) r =
     report_and_sleep sp sleeps
       (fold (sweepQueue_round FakeTransport_append FakeTransport_flush ()) rounds (report_call sp r))"

definition Reporter_testRemoteReporter :: "span \<Rightarrow> time \<Rightarrow> time list list \<Rightarrow> time \<Rightarrow> bool" where
  "Reporter_testRemoteReporter sp made sleeps ended \<longleftrightarrow>
     (let kFixedQueueSize = 10; kNumReports = 100;
          reporter = RemoteReporter 1000000 kFixedQueueSize [] metrics0 made;
          spans = rr_sender (rr_close FakeTransport_append FakeTransport_flush () ended
            (report_and_sleep sp (take kNumReports sleeps) reporter))
      in length spans = kNumReports)"

definition Reporter_testInMemoryReporter :: "span \<Rightarrow> bool" where
  "Reporter_testInMemoryReporter sp \<longleftrightarrow>
     (let kNumReports = 100; r = (Reporter_report sp ^^ kNumReports) (InMemoryReporter [] :: unit reporter)
      in spansSubmitted r = kNumReports \<and> spansSubmitted (InMemoryReporter_reset r) = 0)"

definition Reporter_testCompositeReporter :: "span \<Rightarrow> bool" where
  "Reporter_testCompositeReporter sp \<longleftrightarrow>
     (case Reporter_report sp (CompositeReporter [InMemoryReporter [], InMemoryReporter []] :: unit reporter) of
        CompositeReporter [r0, r1] \<Rightarrow> spansSubmitted r0 = 1 \<and> spansSubmitted r1 = 1
      | _ \<Rightarrow> False)"

text \<open>A reporter that has sent all of the spans given to it.\<close>

definition caught_up :: "nat \<Rightarrow> span list remote_reporter \<Rightarrow> bool" where
  "caught_up n r \<longleftrightarrow> rr_queue r = [] \<and> rr_running r \<and> rr_worker r \<and> \<not> rr_crashed r \<and>
     rr_fixedQueueSize r = 10 \<and> length (rr_sender r) = n"

lemma idle_round: "caught_up n r \<Longrightarrow> caught_up n (sweepQueue_round FakeTransport_append FakeTransport_flush () now r)"
  by (simp add: caught_up_def sweepQueue_round_def rr_flush_def FakeTransport_flush_def Let_def)

lemma idle_rounds:
  "caught_up n r \<Longrightarrow> caught_up n (fold (sweepQueue_round FakeTransport_append FakeTransport_flush ()) rounds r)"
  by (induction rounds arbitrary: r) (simp_all add: idle_round)

lemma sending_round:
  "caught_up n r \<Longrightarrow> caught_up (Suc n)
    (sweepQueue_round FakeTransport_append FakeTransport_flush () now (report_call sp r))"
  by (simp add: caught_up_def report_call_def sweepQueue_round_def rr_report_def rr_increment_def sendSpan_def FakeTransport_append_def Let_def)

lemma report_and_sleep_caught_up:
  assumes "\<forall>rounds \<in> set sleeps. rounds \<noteq> []" and "caught_up n r"
  shows "caught_up (n + length sleeps) (report_and_sleep sp sleeps r)"
  using assms
proof (induction sleeps arbitrary: n r)
  case (Cons rounds sleeps)
  then obtain now rest where "rounds = now # rest" by (cases rounds) auto
  then show ?case
    using Cons.IH[OF _ idle_rounds[OF sending_round[OF Cons.prems(2), of now sp], of rest]] Cons.prems(1) by simp
qed simp

lemma close_caught_up:
  assumes "caught_up n r"
  shows "length (rr_sender (rr_close FakeTransport_append FakeTransport_flush () now r)) = n"
  using assms
  by (simp add: caught_up_def rr_close_def rr_close_begin_def sweepQueue_round_def Let_def rr_close_end_def
      rr_flush_def FakeTransport_flush_def)

text \<open>
  The test passes if the thread makes a round during every sleep; it sleeps for the time it is to
  wait for that, so the test depends on the scheduler. If the thread does not get to run before
  \<^verbatim>\<open>close\<close>, the queue has been full after ten spans.
\<close>

lemma reporter_testRemoteReporter:
  assumes "length sleeps = 100" and "\<forall>rounds \<in> set sleeps. rounds \<noteq> []"
  shows "Reporter_testRemoteReporter sp made sleeps ended"
proof -
  have "caught_up 0 (RemoteReporter 1000000 10 [] metrics0 made)" by (simp add: caught_up_def RemoteReporter_def)
  from close_caught_up[OF report_and_sleep_caught_up[OF assms(2) this]] assms(1) show ?thesis
    by (simp add: Reporter_testRemoteReporter_def)
qed

lemma reports_without_rounds:
  "length (rr_queue r) \<le> 10 \<Longrightarrow> rr_fixedQueueSize r = 10 \<Longrightarrow> rr_running r \<Longrightarrow> \<not> rr_crashed r \<Longrightarrow>
   (let r' = report_and_sleep sp (replicate n []) r
    in length (rr_queue r') \<le> 10 \<and> rr_running r' \<and> \<not> rr_crashed r' \<and> rr_sender r' = rr_sender r)"
proof (induction n arbitrary: r)
  case (Suc n)
  let ?r = "report_call sp r"
  have "length (rr_queue ?r) \<le> 10" "rr_fixedQueueSize ?r = 10" "rr_running ?r" "\<not> rr_crashed ?r" "rr_sender ?r = rr_sender r"
    using Suc.prems by (simp_all add: report_call_def Let_def rr_report_def rr_increment_def)
  with Suc.IH[of ?r] show ?case by (simp add: Let_def)
qed (simp add: Let_def)

lemma round_sends_one:
  "length (rr_sender (sweepQueue_round FakeTransport_append FakeTransport_flush () now r))
     + length (rr_queue (sweepQueue_round FakeTransport_append FakeTransport_flush () now r))
   = length (rr_sender r) + length (rr_queue r)"
  by (auto simp: sweepQueue_round_def sendSpan_def rr_flush_def FakeTransport_append_def FakeTransport_flush_def Let_def
      split: list.split)

lemma drain_sends:
  "length (rr_sender (rr_drain FakeTransport_append FakeTransport_flush () now n r)) \<le> length (rr_sender r) + length (rr_queue r)"
proof (induction n arbitrary: r)
  case (Suc n)
  show ?case
    using Suc.IH[of "sweepQueue_round FakeTransport_append FakeTransport_flush () now r"] round_sends_one[of now r] by simp
qed simp

lemma reporter_testRemoteReporter_starved: "\<not> Reporter_testRemoteReporter sp made (replicate 100 []) ended"
proof -
  let ?r = "report_and_sleep sp (replicate 100 []) (RemoteReporter 1000000 10 [] metrics0 made)"
  have r: "length (rr_queue ?r) \<le> 10" "rr_running ?r" "rr_sender ?r = []"
    using reports_without_rounds[of "RemoteReporter 1000000 10 [] metrics0 made" sp 100]
    by (simp_all add: RemoteReporter_def Let_def)
  have "length (rr_sender (rr_close FakeTransport_append FakeTransport_flush () ended ?r)) \<le> 10"
    using drain_sends[of ended "Suc (length (rr_queue ?r))" "rr_close_begin ?r"] r
    by (auto simp: rr_close_def rr_close_begin_def rr_close_end_def rr_flush_def FakeTransport_flush_def Let_def
        simp del: rr_drain.simps)
  then show ?thesis by (simp add: Reporter_testRemoteReporter_def)
qed

lemma in_memory_reports:
  "(Reporter_report sp ^^ n) (InMemoryReporter spans) = InMemoryReporter (spans @ replicate n sp)"
  by (induction n) (simp_all add: InMemoryReporter_report_def replicate_append_same)

lemma reporter_testInMemoryReporter: "Reporter_testInMemoryReporter sp"
  unfolding Reporter_testInMemoryReporter_def Let_def in_memory_reports
  by (simp add: spansSubmitted_def InMemoryReporter_reset_def)

lemma reporter_testCompositeReporter: "Reporter_testCompositeReporter sp"
  by (simp add: Reporter_testCompositeReporter_def spansSubmitted_def InMemoryReporter_report_def)

end
