(* ===== verification/TracerTests.thy ===== *)
theory TracerTests
  imports CarrierTests TestAgent Sample Polling
begin

text \<open>
  The unit tests of the tracer (\<^verbatim>\<open>TracerTest.cpp\<close>) and of the default restrictions of baggage, in the
  form of \<open>UnitTests\<close>. The body of a test is a predicate of the tracer it installs.
\<close>

section \<open>The tracer of the tests\<close>

definition with_tracer :: "exception + made_tracer \<Rightarrow> (thrift_sender tracer \<Rightarrow> bool) \<Rightarrow> bool" where
  "with_tracer made body \<longleftrightarrow> (case made of Inr (JaegerTracer transport t) \<Rightarrow> body t | _ \<Rightarrow> False)"

lemma installed_tracer:
  assumes "pl_connect pl = (\<lambda>_. None)"
  shows "\<exists>transport t. installGlobalTracer ld pl now bits fmt samplingAuthority spanAuthority = Inr (JaegerTracer transport t) \<and>
    t_rng t = pl_random pl \<and> t_format t = fmt \<and> t_headers t = HeadersConfig0 \<and> t_sampler t = SConst (ConstSampler True) \<and>
    t_restrictionManager t = DefaultRestrictionManager 0 \<and> t_options t = (if bits then kGen128BitOption else 0) \<and>
    t_tags t = fst (tracer_tags pl [])"
proof -
  let ?c = "test_config bits fmt samplingAuthority spanAuthority"
  have ty: "map to_lower ''const'' = kSamplerTypeConst" by code_simp
  have s: "makeSampler ld now (cfg_sampler ?c) = (Inr (Some (SConst (ConstSampler True))), [])"
    using ty by (simp add: test_config_def Config_def SamplerConfig_def makeSampler_def Let_def)
  obtain transport rep out' where r: "makeReporter (pl_connect pl) now (cfg_reporter ?c) metrics0 = (Inr (transport, rep), out')"
    by (rule make_reporter_connected [where connect = "pl_connect pl"]) (simp add: assms)
  have "\<not> cfg_disabled ?c" "cfg_headers ?c = HeadersConfig0" "cfg_propagationFormat ?c = fmt" "cfg_tags ?c = []"
    by (simp_all add: test_config_def Config_def)
  with s r show ?thesis by (auto simp: installGlobalTracer_def Tracer_make_def split: prod.splits)
qed

section \<open>Starting spans\<close>

definition Tracer_testConstructorFailure :: "nat \<Rightarrow> platform \<Rightarrow> time \<Rightarrow> bool" where
  "Tracer_testConstructorFailure ld pl now \<longleftrightarrow> throws_invalid_argument (Tracer_make ld pl now [] Config0 0)"

definition Tracer_testDisabledConfig :: "nat \<Rightarrow> platform \<Rightarrow> time \<Rightarrow> bool" where
  "Tracer_testDisabledConfig ld pl now \<longleftrightarrow>
     (let config = Config True False SamplerConfig0 ReporterConfig0 HeadersConfig0 RestrictionsConfig0 [] [] FormatJAEGER
      in case Tracer_make ld pl now ''test-service'' config 0 of
           Inl e \<Rightarrow> False
         | Inr (JaegerTracer transport t) \<Rightarrow> False
         | Inr TracerWithoutSampler \<Rightarrow> False
         | Inr NoopTracer \<Rightarrow> True)"

definition Tracer_testTracerTags :: "nat \<Rightarrow> platform \<Rightarrow> time \<Rightarrow> bool" where
  "Tracer_testTracerTags ld pl now \<longleftrightarrow>
     (let tags = [Tag ''hostname'' (VString ''foobar''), Tag ''my.app.version'' (VString ''1.2.3'')];
          config = Config False False (SamplerConfig ''const'' 1 [] 0 0) (ReporterConfig 0 (milliseconds 100) False [] [])
            HeadersConfig0 RestrictionsConfig0 ''test-service'' tags FormatJAEGER
      in with_tracer (Tracer_make_config ld pl now config) (\<lambda>t.
           Tag ''hostname'' (VString ''foobar'') \<in> set (t_tags t) \<and>
           Tag ''my.app.version'' (VString ''1.2.3'') \<in> set (t_tags t) \<and> t_serviceName t = ''test-service''))"

text \<open>A span started with these references: the test goes on with the pointer, which may be null.\<close>

definition started ::
  "nat \<Rightarrow> start_env \<Rightarrow> string \<Rightarrow> (reference_type \<times> span_context option) list \<Rightarrow> 's tracer \<Rightarrow>
   (span option \<Rightarrow> 's tracer \<Rightarrow> bool) \<Rightarrow> bool" where
  "started ld env operation refs t body \<longleftrightarrow>
     (case StartSpanWithOptions ld env operation (options_of refs) t of None \<Rightarrow> False | Some (s, t') \<Rightarrow> body s t')"

definition Tracer_testTracerSimpleChild :: "nat \<Rightarrow> start_env \<Rightarrow> 's tracer \<Rightarrow> bool" where
  "Tracer_testTracerSimpleChild ld env t \<longleftrightarrow>
     started ld env ''test-simple-root'' [] t (\<lambda>spanRoot t1.
       case spanRoot of None \<Rightarrow> False
       | Some spanRoot1 \<Rightarrow> started ld env ''test-simple-child'' [(ChildOfRef, Some (sp_context spanRoot1))] t1
           (\<lambda>spanChild t2. spanChild \<noteq> None))"

definition self_context :: "u64 \<Rightarrow> span_context" where
  "self_context n = SpanContext (TraceID 1 2) n 0 0 [] [] []"

definition Tracer_testTracerSpanSelfRef :: "nat \<Rightarrow> start_env \<Rightarrow> 's tracer \<Rightarrow> bool" where
  "Tracer_testTracerSpanSelfRef ld env t \<longleftrightarrow>
     started ld env ''test-root-self-ref'' [SelfRef (Some (self_context 3))] t (\<lambda>spanRoot t1.
       case spanRoot of None \<Rightarrow> False
       | Some spanRoot1 \<Rightarrow>
           TraceID_eq (traceID (sp_context spanRoot1)) (TraceID 1 2) \<and> spanID (sp_context spanRoot1) = 3 \<and>
           started ld env ''test-child-self-ref'' [(ChildOfRef, Some (sp_context spanRoot1))] t1 (\<lambda>spanChild t2.
             case spanChild of None \<Rightarrow> False
             | Some child \<Rightarrow>
                 TraceID_eq (traceID (sp_context child)) (TraceID 1 2) \<and> spanID (sp_context child) \<noteq> 3))"

definition Tracer_testTracerSpanSelfRefWithOtherRefs :: "nat \<Rightarrow> start_env \<Rightarrow> 's tracer \<Rightarrow> bool" where
  "Tracer_testTracerSpanSelfRefWithOtherRefs ld env t \<longleftrightarrow>
     started ld env ''test-root-self-ref'' [SelfRef (Some (self_context 3))] t (\<lambda>spanRoot t1.
       case spanRoot of None \<Rightarrow> False
       | Some spanRoot1 \<Rightarrow>
           TraceID_eq (traceID (sp_context spanRoot1)) (TraceID 1 2) \<and> spanID (sp_context spanRoot1) = 3 \<and>
           started ld env ''test-child-self-ref''
             [(ChildOfRef, Some (sp_context spanRoot1)), SelfRef (Some (self_context 4))] t1
             (\<lambda>spanChild t2. spanChild = None))"

definition Tracer_testTracerWithTraceId128Bit :: "nat \<Rightarrow> start_env \<Rightarrow> 's tracer \<Rightarrow> bool" where
  "Tracer_testTracerWithTraceId128Bit ld env t \<longleftrightarrow>
     started ld env ''test-operation'' [] t (\<lambda>span t1.
       case span of None \<Rightarrow> False | Some sp \<Rightarrow> high (traceID (sp_context sp)) > 0)"

lemma tracer_testConstructorFailure: "Tracer_testConstructorFailure ld pl now"
  by (simp add: Tracer_testConstructorFailure_def Tracer_make_def throws_invalid_argument_def)

lemma tracer_testDisabledConfig: "Tracer_testDisabledConfig ld pl now"
  by (simp add: Tracer_testDisabledConfig_def Tracer_make_def Config_def)

lemma tracer_testTracerTags:
  assumes "pl_connect pl = (\<lambda>_. None)"
  shows "Tracer_testTracerTags ld pl now"
proof -
  let ?tags = "[Tag ''hostname'' (VString ''foobar''), Tag ''my.app.version'' (VString ''1.2.3'')]"
  let ?c = "Config False False (SamplerConfig ''const'' 1 [] 0 0) (ReporterConfig 0 (milliseconds 100) False [] [])
      HeadersConfig0 RestrictionsConfig0 ''test-service'' ?tags FormatJAEGER"
  have "map to_lower ''const'' = kSamplerTypeConst" by code_simp
  then have s: "makeSampler ld now (cfg_sampler ?c) = (Inr (Some (SConst (ConstSampler True))), [])"
    by (simp add: Config_def SamplerConfig_def makeSampler_def Let_def)
  obtain transport rep out' where r: "makeReporter (pl_connect pl) now (cfg_reporter ?c) metrics0 = (Inr (transport, rep), out')"
    by (rule make_reporter_connected [where connect = "pl_connect pl"]) (simp add: assms)
  have c: "\<not> cfg_disabled ?c" "cfg_serviceName ?c = ''test-service''" "cfg_tags ?c = ?tags"
    by (simp_all add: Config_def)
  have tags: "set ?tags \<subseteq> set (fst (tracer_tags pl ?tags))" by (auto simp: tracer_tags_def)
  show ?thesis
    using s r c tags
    by (auto simp: Tracer_testTracerTags_def Let_def with_tracer_def Tracer_make_config_def Tracer_make_def split: prod.splits)
qed

text \<open>What a start gives: a root, a span with the self context it is given, a child.\<close>

lemma started_root:
  assumes "rng_live (t_rng t)"
    and "\<And>sp t'. rng_live (t_rng t') \<Longrightarrow> tracer_config t' = tracer_config t \<Longrightarrow> isValid (sp_context sp) \<Longrightarrow>
      (high (traceID (sp_context sp)) \<noteq> 0 \<longleftrightarrow> t_options t AND kGen128BitOption \<noteq> 0) \<Longrightarrow> body (Some sp) t'"
  shows "started ld env operation [] t body"
proof -
  obtain s t' where st: "StartSpanWithOptions ld env operation (options_of []) t = Some (s, t')"
    using start_span_returns[OF assms(1)] by blast
  have "choose_parent (followed (opt_references (options_of []))) = None" "choose_self (opt_references (options_of [])) = None"
    by (simp_all add: options_of_def followed_def choose_parent_def choose_self_def)
  then obtain sp where "s = Some sp" "isValid (sp_context sp)"
    "high (traceID (sp_context sp)) \<noteq> 0 \<longleftrightarrow> t_options t AND kGen128BitOption \<noteq> 0"
    using start_root[OF _ _ st] by (auto simp: Let_def)
  then show ?thesis
    using assms(2)[OF start_span_live[OF st assms(1)] start_span_config[OF st]] by (simp add: started_def st)
qed

lemma started_child:
  assumes "rng_live (t_rng t)" and "isValid p"
    and "\<And>sp t'. rng_live (t_rng t') \<Longrightarrow> traceID (sp_context sp) = traceID p \<Longrightarrow>
      randomID (t_rng t) = Some (spanID (sp_context sp), t_rng t') \<Longrightarrow> body (Some sp) t'"
  shows "started ld env operation [(ChildOfRef, Some p)] t body"
proof -
  obtain v g where r: "randomID (t_rng t) = Some (v, g)" "rng_live g"
    using randomID_returns[OF assms(1)] randomID_live assms(1) by blast
  have refs: "analyzeReferences [(ChildOfRef, Some p)] =
      (\<lparr>ar_parent = Some p, ar_self = None, ar_references = [Reference p ChildOfRef]\<rparr>, [])"
    using assms(2) by (simp add: analyzeReferences_def analyze_step_def)
  let ?opts = "options_of [(ChildOfRef, Some p)]"
  define ctx where "ctx = (let c = SpanContext (traceID p) v (spanID p) (flags p) [] [] []
    in if baggage p \<noteq> [] then withBaggage c (baggage p) else c)"
  have c: "start_context ld env operation (Some p) None t = Some (ctx, [], False, t\<lparr>t_rng := g\<rparr>)"
    using r(1) assms(2) by (simp add: start_context_def ctx_def Let_def)
  obtain sys steady where times: "determineStartTimes env ?opts = (sys, steady)" by fastforce
  obtain sp t' where sp: "startSpanInternal ctx operation sys steady [] [] False [Reference p ChildOfRef] (t\<lparr>t_rng := g\<rparr>) = (sp, t')"
    by fastforce
  have "StartSpanWithOptions ld env operation ?opts t = Some (Some sp, t')"
    using times by (simp add: StartSpanWithOptions_def options_of_def refs c Let_def sp)
  moreover have "sp_context sp = ctx"
    using startSpanInternal_span[of ctx operation sys steady "[]" "[]" False "[Reference p ChildOfRef]" "t\<lparr>t_rng := g\<rparr>"] sp
    by (simp add: Span_def)
  moreover have "t_rng t' = g"
    using startSpanInternal_frame(1)[of ctx operation sys steady "[]" "[]" False "[Reference p ChildOfRef]" "t\<lparr>t_rng := g\<rparr>"] sp
    by simp
  moreover have "traceID ctx = traceID p" "spanID ctx = v"
    by (simp_all add: ctx_def Let_def withBaggage_def SpanContext_def)
  ultimately show ?thesis using assms(3) r by (simp add: started_def)
qed
lemma started_self:
  assumes "rng_live (t_rng t)" and "n \<noteq> 0"
    and "\<And>sp t'. t_rng t' = t_rng t \<Longrightarrow> traceID (sp_context sp) = TraceID 1 2 \<Longrightarrow> spanID (sp_context sp) = n \<Longrightarrow>
      body (Some sp) t'"
  shows "started ld env operation [SelfRef (Some (self_context n))] t body"
proof -
  let ?opts = "options_of [SelfRef (Some (self_context n))]"
  have c: "isValid (self_context n)" using assms(2)
    by (simp add: self_context_def isValid_def SpanContext_def TraceID_def TraceID_isValid_def)
  have refs: "choose_parent (followed (opt_references ?opts)) = None" "choose_self (opt_references ?opts) = Some (self_context n)"
    "followed (opt_references ?opts) = []"
    using c by (simp_all add: options_of_def SelfRef_def followed_def choose_parent_def choose_self_def usable_def)
  note a = analyzeReferences_eq[of "opt_references ?opts"]
  obtain s t' where st: "StartSpanWithOptions ld env operation ?opts t = Some (s, t')"
    using start_span_returns[OF assms(1)] by blast
  obtain ctx tags newTrace t1 sp where x: "start_context ld env operation None (Some (self_context n))
        (t\<lparr>t_log := t_log t @ snd (analyzeReferences (opt_references ?opts))\<rparr>) = Some (ctx, tags, newTrace, t1)"
      "s = Some sp"
      "(sp, t') = startSpanInternal ctx operation (fst (determineStartTimes env ?opts)) (snd (determineStartTimes env ?opts))
        tags (opt_tags ?opts) newTrace [] t1"
    using start_span_eq[OF _ st] refs by (auto simp: a)
  have "traceID ctx = TraceID 1 2" "spanID ctx = n" "t_rng t1 = t_rng t"
    using start_context_self[OF x(1)] by (simp_all add: self_context_def SpanContext_def)
  moreover have "sp_context sp = ctx" "t_rng t' = t_rng t1"
    using arg_cong[OF x(3), of fst, unfolded startSpanInternal_span] arg_cong[OF x(3), of "\<lambda>y. t_rng (snd y)"]
    by (simp_all add: Span_def)
  ultimately show ?thesis using assms(3)[of t' sp] by (simp add: started_def st x(2))
qed

lemma started_self_and_reference:
  assumes "isValid p" and "\<And>t'. body None t'"
  shows "started ld env operation [(ChildOfRef, Some p), SelfRef (Some (self_context 4))] t body"
proof -
  have "isValid (self_context 4)"
    by (simp add: self_context_def isValid_def SpanContext_def TraceID_def TraceID_isValid_def)
  then have "analyzeReferences [(ChildOfRef, Some p), SelfRef (Some (self_context 4))] =
      (\<lparr>ar_parent = Some p, ar_self = Some (self_context 4), ar_references = [Reference p ChildOfRef]\<rparr>, [])"
    using assms(1) by (simp add: analyzeReferences_def analyze_step_def SelfRef_def)
  then show ?thesis using assms(2) by (simp add: started_def StartSpanWithOptions_def options_of_def Let_def)
qed

lemma tracer_testTracerSimpleChild:
  assumes "rng_live (t_rng t)"
  shows "Tracer_testTracerSimpleChild ld env t"
  unfolding Tracer_testTracerSimpleChild_def
proof (rule started_root[OF assms])
  fix spanRoot :: span and t' :: "'a tracer"
  assume "rng_live (t_rng t')" "isValid (sp_context spanRoot)"
  then show "case Some spanRoot of None \<Rightarrow> False
    | Some spanRoot1 \<Rightarrow> started ld env ''test-simple-child'' [(ChildOfRef, Some (sp_context spanRoot1))] t'
        (\<lambda>spanChild t2. spanChild \<noteq> None)"
    by (auto intro!: started_child)
qed

text \<open>
  The child's identifier is drawn at random: the test passes unless the generator yields 3, and fails if
  it does.
\<close>

lemma self_ref_child:
  assumes "rng_live (t_rng t)"
  shows "Tracer_testTracerSpanSelfRef ld env t \<longleftrightarrow> map_option fst (randomID (t_rng t)) \<noteq> Some 3"
proof -
  have valid: "isValid c" if "traceID c = TraceID 1 2" "spanID c = 3" for c
    using that by (simp add: isValid_def TraceID_def TraceID_isValid_def)
  show ?thesis
  proof
    assume "map_option fst (randomID (t_rng t)) \<noteq> Some 3"
    then show "Tracer_testTracerSpanSelfRef ld env t"
      unfolding Tracer_testTracerSpanSelfRef_def
      by (intro started_self[OF assms]) (auto simp: TraceID_eq_def assms valid intro!: started_child)
  next
    assume "Tracer_testTracerSpanSelfRef ld env t"
    then obtain s t1 where st: "StartSpanWithOptions ld env ''test-root-self-ref'' (options_of [SelfRef (Some (self_context 3))]) t =
        Some (s, t1)" by (auto simp: Tracer_testTracerSpanSelfRef_def started_def split: option.splits)
    have "started ld env ''test-root-self-ref'' [SelfRef (Some (self_context 3))] t
        (\<lambda>s t1. \<exists>sp. s = Some sp \<and> t_rng t1 = t_rng t \<and> traceID (sp_context sp) = TraceID 1 2 \<and> spanID (sp_context sp) = 3)"
      by (intro started_self[OF assms]) auto
    then obtain sp where sp: "s = Some sp" "t_rng t1 = t_rng t" "traceID (sp_context sp) = TraceID 1 2" "spanID (sp_context sp) = 3"
      by (auto simp: started_def st)
    have "started ld env ''test-child-self-ref'' [(ChildOfRef, Some (sp_context sp))] t1
        (\<lambda>s t2. \<exists>child. s = Some child \<and> map_option fst (randomID (t_rng t)) = Some (spanID (sp_context child)))"
      using assms sp valid by (intro started_child) auto
    then show "map_option fst (randomID (t_rng t)) \<noteq> Some 3"
      using \<open>Tracer_testTracerSpanSelfRef ld env t\<close>
      by (auto simp: Tracer_testTracerSpanSelfRef_def started_def st sp split: option.splits prod.splits)
  qed
qed

lemma tracer_testTracerSpanSelfRefWithOtherRefs:
  assumes "rng_live (t_rng t)"
  shows "Tracer_testTracerSpanSelfRefWithOtherRefs ld env t"
  unfolding Tracer_testTracerSpanSelfRefWithOtherRefs_def
  by (intro started_self[OF assms])
    (auto simp: TraceID_eq_def isValid_def TraceID_def TraceID_isValid_def intro!: started_self_and_reference)

lemma tracer_testTracerWithTraceId128Bit:
  assumes "rng_live (t_rng t)" and "t_options t AND kGen128BitOption \<noteq> 0"
  shows "Tracer_testTracerWithTraceId128Bit ld env t"
  unfolding Tracer_testTracerWithTraceId128Bit_def
  by (rule started_root[OF assms(1)]) (use assms(2) in \<open>simp add: word_neq_0_conv\<close>)

section \<open>Propagation through the tracer\<close>

definition FakeSpanContext :: "span_context option" where
  "FakeSpanContext = None"

definition carrier_after :: "propagation_error + strmap \<Rightarrow> strmap \<Rightarrow> strmap" where
  "carrier_after injected carrier = (case injected of Inl e \<Rightarrow> carrier | Inr writes \<Rightarrow> WriterMock writes carrier)"

text \<open>A context of this class is extracted, and these assertions hold of it.\<close>

definition extracted :: "span_context option \<times> 's tracer \<Rightarrow> (span_context \<Rightarrow> bool) \<Rightarrow> bool" where
  "extracted result asserts \<longleftrightarrow> (case fst result of None \<Rightarrow> False | Some ctx \<Rightarrow> asserts ctx)"

definition Tracer_testDebugSpan :: "nat \<Rightarrow> start_env \<Rightarrow> 's tracer \<Rightarrow> bool" where
  "Tracer_testDebugSpan ld env t \<longleftrightarrow>
     (let correlationID = ''debug-id'';
          headers = [(kJaegerDebugHeader, correlationID)];
          headers' = carrier_after (Inject_HTTPHeaders t FakeSpanContext []) headers;
          (ctx, t1) = Extract_HTTPHeaders headers' t
      in started ld env ''name'' [(ChildOfRef, ctx)] t1 (\<lambda>s t2.
           case s of None \<Rightarrow> False
           | Some sp \<Rightarrow>
               (case List.find (\<lambda>tg. tkey tg = kJaegerDebugHeader) (sp_tags sp) of
                  None \<Rightarrow> False
                | Some tg \<Rightarrow> tvalue tg = VString correlationID)))"

text \<open>The parts of \<^verbatim>\<open>testPropagation\<close>, of the context of the span it starts and gives an item of baggage.\<close>

definition propagates_binary :: "bool \<Rightarrow> span_context \<Rightarrow> 's tracer \<Rightarrow> bool" where
  "propagates_binary le ctx t \<longleftrightarrow>
     (case Inject_binary le (Some ctx) [] of
        Inl e \<Rightarrow> False
      | Inr bytes \<Rightarrow>
          (case Extract_binary le (istream_of bytes) t of
             (None, rd, t') \<Rightarrow> False
           | (Some got, rd, t') \<Rightarrow> SpanContext_eq ctx got)) \<and>
     isl (Inject_binary le FakeSpanContext [])"

definition propagates_text_map :: "span_context \<Rightarrow> 's tracer \<Rightarrow> bool" where
  "propagates_text_map ctx t \<longleftrightarrow>
     \<not> isl (Inject_TextMap t (Some ctx) []) \<and>
     (let textMap = carrier_after (Inject_TextMap t (Some ctx) []) []
      in length textMap = 2 \<and>
         map_of textMap kTraceContextHeaderName = Some (SpanContext_print ctx) \<and>
         map_of textMap (kTraceBaggageHeaderPrefix @ ''test-baggage-item-key'') = Some ''test baggage item value'' \<and>
         extracted (Extract_TextMap textMap t) (\<lambda>got. SpanContext_eq ctx got))"

definition propagates_headers :: "span_context \<Rightarrow> 's tracer \<Rightarrow> bool" where
  "propagates_headers ctx t \<longleftrightarrow>
     \<not> isl (Inject_HTTPHeaders t (Some ctx) []) \<and>
     (let headerMap = carrier_after (Inject_HTTPHeaders t (Some ctx) []) []
      in length headerMap = 2 \<and>
         map_of headerMap kTraceContextHeaderName = Some (SpanContext_print ctx) \<and>
         map_of headerMap (kTraceBaggageHeaderPrefix @ ''test-baggage-item-key'') = Some ''test%20baggage%20item%20value'' \<and>
         extracted (Extract_HTTPHeaders headerMap t) (\<lambda>got. SpanContext_eq ctx got))"

definition propagates_debug_header :: "span_context \<Rightarrow> 's tracer \<Rightarrow> bool" where
  "propagates_debug_header ctx t \<longleftrightarrow>
     (let headerMap = carrier_after (Inject_HTTPHeaders t (Some ctx) []) [(kJaegerDebugHeader, ''yes'')];
          expected = SpanContext (traceID ctx) (spanID ctx) (parentID ctx) (flags ctx OR kDebug) (baggage ctx) ''yes'' []
      in extracted (Extract_HTTPHeaders headerMap t) (\<lambda>got. \<not> SpanContext_eq ctx got \<and> SpanContext_eq expected got))"

definition rejects_bad_headers :: "'s tracer \<Rightarrow> bool" where
  "rejects_bad_headers t \<longleftrightarrow>
     fst (Extract_HTTPHeaders [(kTraceContextHeaderName, ''12345678'')] t) = None \<and>
     fst (Extract_HTTPHeaders [] t) = None"

definition is_baggage_header :: "string \<Rightarrow> bool" where
  "is_baggage_header k \<longleftrightarrow> take (length kTraceBaggageHeaderPrefix) k = kTraceBaggageHeaderPrefix"

definition propagates_alternative_baggage :: "span_context \<Rightarrow> 's tracer \<Rightarrow> bool" where
  "propagates_alternative_baggage c t \<longleftrightarrow>
     (let ctx = SpanContext (traceID c) (spanID c) (parentID c) (flags c) [(''a'', ''x''), (''b'', ''y''), (''c'', ''z'')] [] [];
          headerMap = carrier_after (Inject_HTTPHeaders t (Some ctx) []) [];
          headerMap1 = filter (\<lambda>kv. \<not> is_baggage_header (fst kv)) headerMap;
          headerMap2 = AList.update kJaegerBaggageHeader ''a=x,b=y,c=z'' headerMap1
      in extracted (Extract_HTTPHeaders headerMap2 t) (\<lambda>got. length (baggage got) = 3 \<and> SpanContext_eq ctx got))"

definition Tracer_testPropagation :: "bool \<Rightarrow> nat \<Rightarrow> start_env \<Rightarrow> time \<Rightarrow> 's tracer \<Rightarrow> bool" where
  "Tracer_testPropagation le ld env now t \<longleftrightarrow>
     started ld env ''test-inject'' [] t (\<lambda>s t1.
       case s of None \<Rightarrow> False
       | Some sp0 \<Rightarrow>
           (case SetBaggageItem (t_restrictionManager t1) now ''test-baggage-item-key'' ''test baggage item value'' sp0
                   (t_metrics t1) of
              (sp, ms) \<Rightarrow>
                let t2 = t1\<lparr>t_metrics := ms\<rparr>; ctx = sp_context sp
                in propagates_binary le ctx t2 \<and> propagates_text_map ctx t2 \<and> propagates_headers ctx t2 \<and>
                   propagates_debug_header ctx t2 \<and> rejects_bad_headers t2 \<and> propagates_alternative_baggage ctx t2))"

definition Tracer_testPropagationWithW3CHeaderAndFormat :: "'s tracer \<Rightarrow> bool" where
  "Tracer_testPropagationWithW3CHeaderAndFormat t \<longleftrightarrow>
     (let spanContext = SpanContext (TraceID 1 2) 3 0 kSampled [] [] [];
          headerMap = carrier_after (Inject_HTTPHeaders t (Some spanContext) []) []
      in \<not> isl (Inject_HTTPHeaders t (Some spanContext) []) \<and> length headerMap = 1 \<and>
         map_of headerMap kW3CTraceParentHeaderName = Some ''00-00000000000000010000000000000002-0000000000000003-01'' \<and>
         extracted (Extract_HTTPHeaders headerMap t) (\<lambda>got. SpanContext_eq spanContext got))"

definition Tracer_testPropagationWithW3CTraceState :: "strmap \<Rightarrow> 's tracer \<Rightarrow> bool" where
  "Tracer_testPropagationWithW3CTraceState headerMap t \<longleftrightarrow>
     extracted (Extract_HTTPHeaders headerMap t) (\<lambda>ctx.
       traceState ctx = ''foo=bar'' \<and>
       (let headerMap' = carrier_after (Inject_HTTPHeaders t (Some ctx) []) []
        in length headerMap' = 2 \<and> map_of headerMap' kW3CTraceStateHeaderName = Some ''foo=bar''))"

lemma tracer_testDebugSpan:
  assumes "rng_live (t_rng t)" and "t_format t = FormatJAEGER" and "t_headers t = HeadersConfig0"
  shows "Tracer_testDebugSpan ld env t"
proof -
  have hk: "kJaegerDebugHeader = jaegerDebugHeader HeadersConfig0" "kJaegerDebugHeader \<noteq> traceContextHeaderName HeadersConfig0"
    "kJaegerDebugHeader \<noteq> jaegerBaggageHeader HeadersConfig0"
    "take (length (traceBaggageHeaderPrefix HeadersConfig0)) kJaegerDebugHeader \<noteq> traceBaggageHeaderPrefix HeadersConfig0"
    "map to_lower kJaegerDebugHeader = kJaegerDebugHeader"
    by code_simp+
  let ?ctx = "SpanContext (TraceID 0 0) 0 0 (kDebug OR kSampled) [] ''debug-id'' []"
  have x: "jaeger_extract HeadersConfig0 http_codec [(kJaegerDebugHeader, ''debug-id'')] ms = (?ctx, ms)" for ms
    using hk(2-5)
    by (simp add: jaeger_extract_def Propagator_extract_def jaeger_doExtract_def jaeger_step_def find_debugID_def Let_def
        http_codec_def flip: hk(1))
  have "\<not> SpanContext_eq ?ctx SpanContext0" by (simp add: SpanContext_eq_def SpanContext_def SpanContext0_def)
  then have e: "Extract_HTTPHeaders [(kJaegerDebugHeader, ''debug-id'')] t = (Some ?ctx, t)"
    using assms(2,3) by (simp add: Extract_HTTPHeaders_def Extract_text_def x nonempty_context_def)
  have ctx: "\<not> isValid ?ctx" "isDebugIDContainerOnly ?ctx" "debugID ?ctx = ''debug-id''"
    by (simp_all add: isValid_def isDebugIDContainerOnly_def SpanContext_def TraceID_def TraceID_isValid_def)
  let ?opts = "options_of [(ChildOfRef, Some ?ctx)]"
  obtain s t' where st: "StartSpanWithOptions ld env ''name'' ?opts t = Some (s, t')"
    using start_span_returns[OF assms(1)] by blast
  have refs: "choose_parent (followed (opt_references ?opts)) = Some ?ctx" "choose_self (opt_references ?opts) = None"
    using ctx(2) by (simp_all add: options_of_def followed_def choose_parent_def choose_self_def usable_def)
  note a = analyzeReferences_eq[of "opt_references ?opts"]
  obtain c tags newTrace t1 sp where y: "s = Some sp"
    "start_context ld env ''name'' (Some ?ctx) None (t\<lparr>t_log := t_log t @ snd (analyzeReferences (opt_references ?opts))\<rparr>)
       = Some (c, tags, newTrace, t1)"
    "(sp, t') = startSpanInternal c ''name'' (fst (determineStartTimes env ?opts)) (snd (determineStartTimes env ?opts))
       tags (opt_tags ?opts) newTrace (map (\<lambda>(ty, c). Reference c ty) (followed (opt_references ?opts))) t1"
    using start_span_eq[OF _ st] refs by (auto simp: a)
  have "tags = [Tag kJaegerDebugHeader (VString ''debug-id'')]"
    using start_context_root[of "Some ?ctx", OF _ y(2)] ctx by (auto simp: sample_trace_def)
  then have "sp_tags sp = [Tag kJaegerDebugHeader (VString ''debug-id'')]"
    using arg_cong[OF y(3), of fst, unfolded startSpanInternal_span] by (simp add: Span_def options_of_def)
  then show ?thesis
    by (simp add: Tracer_testDebugSpan_def FakeSpanContext_def Inject_HTTPHeaders_def Inject_text_def carrier_after_def Let_def e
        started_def st y(1))
qed

lemma SpanContext_eq_sym: "SpanContext_eq a b \<longleftrightarrow> SpanContext_eq b a"
  by (auto simp: SpanContext_eq_def strmap_eq_iff TraceID_eq_def)

lemma valid_not_empty: "isValid c \<Longrightarrow> \<not> SpanContext_eq c SpanContext0"
  by (auto simp: SpanContext_eq_def isValid_def SpanContext0_def TraceID_eq_def TraceID_def TraceID_isValid_def split: if_splits)

text \<open>The headers of the default configuration.\<close>

lemma default_headers:
  "headers_ok HeadersConfig0" "lowercase (traceContextHeaderName HeadersConfig0)"
  "traceContextHeaderName HeadersConfig0 = kTraceContextHeaderName"
  "traceBaggageHeaderPrefix HeadersConfig0 = kTraceBaggageHeaderPrefix"
  "jaegerBaggageHeader HeadersConfig0 = kJaegerBaggageHeader" "jaegerDebugHeader HeadersConfig0 = kJaegerDebugHeader"
  by code_simp+

lemma default_names:
  "kTraceContextHeaderName \<noteq> kTraceBaggageHeaderPrefix @ ''test-baggage-item-key''"
  "kJaegerDebugHeader \<noteq> kTraceContextHeaderName" "kJaegerDebugHeader \<noteq> kTraceBaggageHeaderPrefix @ ''test-baggage-item-key''"
  "kJaegerDebugHeader \<noteq> kJaegerBaggageHeader" "map to_lower kJaegerDebugHeader = kJaegerDebugHeader"
  "map to_lower kTraceContextHeaderName = kTraceContextHeaderName"
  "map to_lower (kTraceBaggageHeaderPrefix @ ''test-baggage-item-key'') = kTraceBaggageHeaderPrefix @ ''test-baggage-item-key''"
  "\<not> is_baggage_header kJaegerDebugHeader" "\<not> is_baggage_header kTraceContextHeaderName"
  "\<not> is_baggage_header kJaegerBaggageHeader" "is_baggage_header (kTraceBaggageHeaderPrefix @ k)"
  "map to_lower kJaegerBaggageHeader = kJaegerBaggageHeader" "kTraceContextHeaderName \<noteq> kJaegerBaggageHeader"
  "queryEscape ''test baggage item value'' = ''test%20baggage%20item%20value''"
proof -
  show "is_baggage_header (kTraceBaggageHeaderPrefix @ k)" by (simp add: is_baggage_header_def)
qed code_simp+

abbreviation test_baggage :: strmap where
  "test_baggage \<equiv> [(''test-baggage-item-key'', ''test baggage item value'')]"

lemma test_baggage_carried:
  "\<forall>kv \<in> set test_baggage. lowercase (addBaggageKeyPrefix HeadersConfig0 (fst kv)) \<and> escapable_string (snd kv)"
  by code_simp

text \<open>The context of the span the test starts, after the item of baggage is set.\<close>

definition item_context :: "trace_id \<Rightarrow> u64 \<Rightarrow> span_context" where
  "item_context tid s = SpanContext tid s 0 kSampled test_baggage [] []"

lemma item_context_sel [simp]:
  "traceID (item_context tid s) = tid" "spanID (item_context tid s) = s" "parentID (item_context tid s) = 0"
  "flags (item_context tid s) = kSampled" "baggage (item_context tid s) = test_baggage" "debugID (item_context tid s) = []"
  "traceState (item_context tid s) = []"
  "(item_context tid s)\<lparr>debugID := [], traceState := []\<rparr> = item_context tid s"
  by (simp_all add: item_context_def SpanContext_def)

lemma item_context_ok: "strmap_ok test_baggage" "fits32 test_baggage"
  by (simp_all add: strmap_ok_def fits32_def)

lemma item_context_valid: "TraceID_isValid tid \<Longrightarrow> s \<noteq> 0 \<Longrightarrow> isValid (item_context tid s)"
  by (simp add: isValid_def)

definition jaeger_tracer :: "'s tracer \<Rightarrow> bool" where
  "jaeger_tracer t \<longleftrightarrow> t_format t = FormatJAEGER \<and> t_headers t = HeadersConfig0"

lemma jaeger_Extract_text:
  assumes "jaeger_tracer t" and "isValid c" and "SpanContext_eq (fst (jaeger_extract HeadersConfig0 cd hs (t_metrics t))) c"
  shows "extracted (Extract_text cd hs t) (\<lambda>got. got = fst (jaeger_extract HeadersConfig0 cd hs (t_metrics t)))"
proof -
  obtain g ms where g: "jaeger_extract HeadersConfig0 cd hs (t_metrics t) = (g, ms)" by fastforce
  have "isValid g" using assms(2,3) g by (auto simp: SpanContext_eq_def isValid_def TraceID_eq_def TraceID_isValid_def split: if_splits)
  then show ?thesis
    using assms(1) g valid_not_empty[of g] by (simp add: extracted_def Extract_text_def jaeger_tracer_def nonempty_context_def)
qed

lemma extracted_mono: "extracted r P \<Longrightarrow> (\<And>c. P c \<Longrightarrow> Q c) \<Longrightarrow> extracted r Q"
  by (auto simp: extracted_def split: option.splits)

lemma binary_propagated:
  assumes "TraceID_isValid tid" and "s \<noteq> 0"
  shows "propagates_binary le (item_context tid s) t"
proof -
  let ?c = "item_context tid s"
  have "binary_extract le (istream_of (binary_inject le ?c)) (t_metrics t) = (?c, t_metrics t, istream_of [])"
    using binary_extract_inject[of ?c le "[]" "t_metrics t"] item_context_ok by simp
  then show ?thesis
    using valid_not_empty[OF item_context_valid[OF assms]]
    by (simp add: propagates_binary_def Inject_binary_def Extract_binary_def nonempty_context_def
        FakeSpanContext_def)
qed

lemma injected_item:
  "jaeger_tracer t \<Longrightarrow> Inject_text cd t (Some (item_context tid s)) [] =
    Inr [(kTraceContextHeaderName, SpanContext_print (item_context tid s)),
      (kTraceBaggageHeaderPrefix @ ''test-baggage-item-key'', encodeValue cd ''test baggage item value'')]"
  by (simp add: jaeger_tracer_def Inject_text_def jaeger_doInject_eq jaeger_pair_def addBaggageKeyPrefix_def default_headers)

lemma text_map_propagated:
  assumes "jaeger_tracer t" and "TraceID_isValid tid" and "s \<noteq> 0"
  shows "propagates_text_map (item_context tid s) t"
proof -
  let ?c = "item_context tid s"
  let ?hs = "[(kTraceContextHeaderName, SpanContext_print ?c),
      (kTraceBaggageHeaderPrefix @ ''test-baggage-item-key'', ''test baggage item value'')]"
  have inj: "Inject_TextMap t (Some ?c) [] = Inr ?hs"
    using injected_item[OF assms(1), of text_map_codec tid s] by (simp add: Inject_TextMap_def text_map_codec_def)
  then have hs: "?hs = jaeger_doInject HeadersConfig0 text_map_codec ?c []"
    using assms(1) by (simp add: Inject_TextMap_def Inject_text_def jaeger_tracer_def)
  have eq: "SpanContext_eq (fst (jaeger_extract HeadersConfig0 text_map_codec ?hs (t_metrics t))) ?c"
    using text_codec.extract_injected[OF default_headers(1) TrueI, of ?c "[]" ?hs "t_metrics t"] assms(2) item_context_ok(1)
    by (simp add: hs)
  have "extracted (Extract_TextMap ?hs t) (SpanContext_eq ?c)"
    using jaeger_Extract_text[OF assms(1) item_context_valid[OF assms(2,3)] eq] eq unfolding Extract_TextMap_def
    by (elim extracted_mono) (simp add: SpanContext_eq_sym[of ?c])
  then show ?thesis using default_names(1) by (simp add: propagates_text_map_def inj carrier_after_def WriterMock_def Let_def)
qed

lemma headers_propagated:
  assumes "jaeger_tracer t" and "TraceID_isValid tid" and "s \<noteq> 0"
  shows "propagates_headers (item_context tid s) t"
proof -
  let ?c = "item_context tid s"
  let ?hs = "[(kTraceContextHeaderName, SpanContext_print ?c),
      (kTraceBaggageHeaderPrefix @ ''test-baggage-item-key'', ''test%20baggage%20item%20value'')]"
  have inj: "Inject_HTTPHeaders t (Some ?c) [] = Inr ?hs"
    using injected_item[OF assms(1), of http_codec tid s] by (simp add: Inject_HTTPHeaders_def http_codec_def default_names)
  then have hs: "?hs = jaeger_doInject HeadersConfig0 http_codec ?c []"
    using assms(1) by (simp add: Inject_HTTPHeaders_def Inject_text_def jaeger_tracer_def)
  have eq: "SpanContext_eq (fst (jaeger_extract HeadersConfig0 http_codec ?hs (t_metrics t))) ?c"
    using headers_codec.extract_injected[OF default_headers(1,2), of ?c "[]" ?hs "t_metrics t"] assms(2) item_context_ok(1)
      test_baggage_carried by (simp add: hs)
  have "extracted (Extract_HTTPHeaders ?hs t) (SpanContext_eq ?c)"
    using jaeger_Extract_text[OF assms(1) item_context_valid[OF assms(2,3)] eq] eq unfolding Extract_HTTPHeaders_def
    by (elim extracted_mono) (simp add: SpanContext_eq_sym[of ?c])
  then show ?thesis using default_names(1) by (simp add: propagates_headers_def inj carrier_after_def WriterMock_def Let_def)
qed

text \<open>The debug header goes by the loop over the headers; the baggage header is split at its commas.\<close>

lemma step_debug_header: "jaeger_step HeadersConfig0 http_codec (kJaegerDebugHeader, v) st = Some st"
  using default_names(2,4,5,8)
  by (cases st) (simp add: jaeger_step_def Let_def http_codec_def default_headers is_baggage_header_def)

lemma step_test_item:
  "jaeger_step HeadersConfig0 http_codec
     (kTraceBaggageHeaderPrefix @ ''test-baggage-item-key'', ''test%20baggage%20item%20value'') (ctx, []) = Some (ctx, test_baggage)"
  using headers_codec.step_baggage[OF default_headers(1), of "(''test-baggage-item-key'', ''test baggage item value'')" ctx "[]"]
    test_baggage_carried
  by (simp add: jaeger_pair_def addBaggageKeyPrefix_def default_headers http_codec_def default_names)

lemma step_baggage_header:
  "jaeger_step HeadersConfig0 http_codec (kJaegerBaggageHeader, ''a=x,b=y,c=z'') (ctx, []) =
    Some (ctx, [(''a'', ''x''), (''b'', ''y''), (''c'', ''z'')])"
proof -
  have "parseCommaSeparatedMap ''a=x,b=y,c=z'' = [(''a'', ''x''), (''b'', ''y''), (''c'', ''z'')]" by code_simp
  then show ?thesis
    using default_names(12,13) by (simp add: jaeger_step_def Let_def http_codec_def default_headers)
qed

lemma step_context_header:
  "TraceID_isValid (traceID c) \<Longrightarrow>
   jaeger_step HeadersConfig0 http_codec (kTraceContextHeaderName, SpanContext_print c) (ctx, bag) =
     Some (SpanContext (traceID c) (spanID c) (parentID c) (flags c) [] [] [], bag)"
  using headers_codec.step_context[OF default_headers(2), of c ctx bag] by (simp add: default_headers)

lemma debug_header_propagated:
  assumes "jaeger_tracer t" and "TraceID_isValid tid" and "s \<noteq> 0"
  shows "propagates_debug_header (item_context tid s) t"
proof -
  let ?c = "item_context tid s"
  let ?hs = "[(kJaegerDebugHeader, ''yes''), (kTraceContextHeaderName, SpanContext_print ?c),
      (kTraceBaggageHeaderPrefix @ ''test-baggage-item-key'', ''test%20baggage%20item%20value'')]"
  let ?e = "SpanContext tid s 0 (kSampled OR kDebug) test_baggage ''yes'' []"
  have w: "carrier_after (Inject_HTTPHeaders t (Some ?c) []) [(kJaegerDebugHeader, ''yes'')] = ?hs"
    using injected_item[OF assms(1), of http_codec tid s] default_names
    by (simp add: carrier_after_def Inject_HTTPHeaders_def WriterMock_def http_codec_def)
  have steps: "ForeachKey (jaeger_step HeadersConfig0 http_codec) ?hs (SpanContext0, []) =
      Some (SpanContext tid s 0 kSampled [] [] [], test_baggage)"
    using step_context_header[of ?c] assms(2) by (simp add: step_debug_header step_test_item)
  have debug: "find_debugID HeadersConfig0 http_codec ?hs = ''yes''"
    using default_names by (simp add: find_debugID_def http_codec_def default_headers)
  have flags: "kSampled OR (kDebug OR kSampled) = kSampled OR kDebug" by (simp add: kSampled_def kDebug_def)
  have x: "jaeger_extract HeadersConfig0 http_codec ?hs (t_metrics t) = (?e, t_metrics t)"
    unfolding jaeger_extract_def Propagator_extract_def jaeger_doExtract_def debug steps
    by (simp add: Let_def SpanContext_def flags)
  have "isValid ?e" using assms(2,3) by (simp add: isValid_def SpanContext_def)
  then have "fst (Extract_HTTPHeaders ?hs t) = Some ?e"
    using assms(1) valid_not_empty by (simp add: jaeger_tracer_def Extract_HTTPHeaders_def Extract_text_def x nonempty_context_def)
  moreover have "\<not> SpanContext_eq ?c ?e" by (simp add: SpanContext_eq_def SpanContext_def)
  ultimately show ?thesis by (simp add: propagates_debug_header_def Let_def w extracted_def)
qed

lemma bad_headers_rejected:
  assumes "jaeger_tracer t"
  shows "rejects_bad_headers t"
proof -
  have "jaeger_step HeadersConfig0 http_codec (kTraceContextHeaderName, ''12345678'') (SpanContext0, []) = None" by code_simp
  moreover have "find_debugID HeadersConfig0 http_codec [(kTraceContextHeaderName, ''12345678'')] = []"
    using default_names by (simp add: find_debugID_def http_codec_def default_headers)
  moreover have "find_debugID HeadersConfig0 http_codec [] = []" by (simp add: find_debugID_def)
  moreover have "\<not> TraceID_isValid (traceID SpanContext0)" "baggage SpanContext0 = []"
    by (simp_all add: SpanContext0_def TraceID_def TraceID_isValid_def)
  ultimately show ?thesis
    using assms
    by (simp add: rejects_bad_headers_def jaeger_tracer_def Extract_HTTPHeaders_def Extract_text_def jaeger_extract_def
        Propagator_extract_def jaeger_doExtract_def nonempty_context_def Let_def
        SpanContext_def TraceID_isValid_def split: prod.split)
qed

lemma alternative_baggage_propagated:
  assumes "jaeger_tracer t" and "TraceID_isValid tid" and "s \<noteq> 0"
  shows "propagates_alternative_baggage (item_context tid s) t"
proof -
  let ?bag = "[(''a'', ''x''), (''b'', ''y''), (''c'', ''z'')]"
  let ?c = "SpanContext tid s 0 kSampled ?bag [] []"
  let ?p = "(kTraceContextHeaderName, SpanContext_print ?c)"
  have sel: "traceID ?c = tid" "spanID ?c = s" "parentID ?c = 0" "flags ?c = kSampled" "baggage ?c = ?bag"
    by (simp_all add: SpanContext_def)
  have inj: "Inject_HTTPHeaders t (Some ?c) [] =
      Inr (?p # map (\<lambda>(k, v). (kTraceBaggageHeaderPrefix @ k, queryEscape v)) ?bag)"
    using assms(1) by (simp add: jaeger_tracer_def Inject_HTTPHeaders_def Inject_text_def jaeger_doInject_eq jaeger_pair_def
        addBaggageKeyPrefix_def default_headers http_codec_def sel(5))
  have names: "kTraceContextHeaderName \<noteq> kTraceBaggageHeaderPrefix @ k" for k
    using default_names(9) default_names(11)[of k] by metis
  have w: "filter (\<lambda>kv. \<not> is_baggage_header (fst kv)) (carrier_after (Inject_HTTPHeaders t (Some ?c) []) []) = [?p]"
    using default_names(9,11) names by (simp add: inj carrier_after_def WriterMock_def)
  have steps: "ForeachKey (jaeger_step HeadersConfig0 http_codec) [?p, (kJaegerBaggageHeader, ''a=x,b=y,c=z'')] (SpanContext0, []) =
      Some (SpanContext tid s 0 kSampled [] [] [], ?bag)"
    using step_context_header[of ?c] assms(2) by (simp add: step_baggage_header sel)
  have debug: "find_debugID HeadersConfig0 http_codec [?p, (kJaegerBaggageHeader, ''a=x,b=y,c=z'')] = []"
    using default_names(2,4,6,12) by (simp add: find_debugID_def http_codec_def default_headers)
  have x: "jaeger_extract HeadersConfig0 http_codec [?p, (kJaegerBaggageHeader, ''a=x,b=y,c=z'')] (t_metrics t) =
      (?c, t_metrics t)"
    unfolding jaeger_extract_def Propagator_extract_def jaeger_doExtract_def debug steps
    using assms(2) by (simp add: Let_def SpanContext_def)
  have "isValid ?c" using assms(2,3) by (simp add: isValid_def sel)
  then have "fst (Extract_HTTPHeaders [?p, (kJaegerBaggageHeader, ''a=x,b=y,c=z'')] t) = Some ?c"
    using assms(1) valid_not_empty by (simp add: jaeger_tracer_def Extract_HTTPHeaders_def Extract_text_def x nonempty_context_def)
  then show ?thesis
    using default_names(13) by (simp add: propagates_alternative_baggage_def Let_def w extracted_def sel)
qed

text \<open>The root the test starts, and the item it sets.\<close>

lemma started_sampled_root:
  assumes "rng_live (t_rng t)" and "t_sampler t = SConst (ConstSampler True)"
    and "\<And>sp t' tid. sp_context sp = SpanContext tid (low tid) 0 kSampled [] [] [] \<Longrightarrow> low tid \<noteq> 0 \<Longrightarrow>
      tracer_config t' = tracer_config t \<Longrightarrow> body (Some sp) t'"
  shows "started ld env operation [] t body"
proof -
  let ?opts = "options_of []"
  obtain s t' where st: "StartSpanWithOptions ld env operation ?opts t = Some (s, t')"
    using start_span_returns[OF assms(1)] by blast
  have refs: "choose_parent (followed (opt_references ?opts)) = None" "choose_self (opt_references ?opts) = None"
    by (simp_all add: options_of_def followed_def choose_parent_def choose_self_def)
  note a = analyzeReferences_eq[of "opt_references ?opts"]
  obtain ctx tags newTrace t1 sp where x: "s = Some sp"
    "start_context ld env operation None None (t\<lparr>t_log := t_log t @ snd (analyzeReferences (opt_references ?opts))\<rparr>)
       = Some (ctx, tags, newTrace, t1)"
    "(sp, t') = startSpanInternal ctx operation (fst (determineStartTimes env ?opts)) (snd (determineStartTimes env ?opts))
       tags (opt_tags ?opts) newTrace (map (\<lambda>(ty, c). Reference c ty) (followed (opt_references ?opts))) t1"
    using start_span_eq[OF _ st] refs by (auto simp: a)
  obtain tid t2 where n: "new_trace_id None (t\<lparr>t_log := t_log t @ snd (analyzeReferences (opt_references ?opts))\<rparr>) = Some (tid, t2)"
    using x(2) by (auto simp: start_context_def bind_eq_Some_conv)
  have low: "low tid \<noteq> 0" "t_sampler t2 = SConst (ConstSampler True)" using kGen128BitOption_cases[OF n] assms(2) by simp_all
  then have "ctx = SpanContext tid (low tid) 0 kSampled [] [] []"
    using x(2) n by (simp add: start_context_def sample_trace_def Const_isSampled_def ConstSampler_def SamplingStatus_def)
  moreover have "sp_context sp = ctx"
    using arg_cong[OF x(3), of fst, unfolded startSpanInternal_span] by (simp add: Span_def)
  ultimately show ?thesis
    using assms(3)[OF _ low(1) start_span_config[OF st], of sp] by (simp add: started_def st x(1))
qed

lemma item_set:
  assumes "sp_context sp = SpanContext tid s 0 kSampled [] [] []"
  shows "sp_context (fst (SetBaggageItem (DefaultRestrictionManager 0) now ''test-baggage-item-key'' ''test baggage item value'' sp ms))
    = item_context tid s"
  using assms
  by (simp add: SetBaggageItem_def setBaggage_def getRestriction_def DefaultRestrictionManager_def kDefaultMaxValueLength_def
      Let_def item_context_def withBaggage_def logFieldsNoLocking_def SpanContext_def split: option.split)

lemma tracer_testPropagation:
  assumes "rng_live (t_rng t)" and "jaeger_tracer t" and "t_sampler t = SConst (ConstSampler True)"
    and "t_restrictionManager t = DefaultRestrictionManager 0"
  shows "Tracer_testPropagation le ld env now t"
  unfolding Tracer_testPropagation_def
proof (rule started_sampled_root[OF assms(1,3)], goal_cases)
  case (1 sp0 t1 tid)
  have m: "t_restrictionManager t1 = DefaultRestrictionManager 0" and j: "jaeger_tracer t1"
    using 1(3) assms(2,4) by (simp_all add: tracer_config_def jaeger_tracer_def)
  obtain sp ms where set: "SetBaggageItem (t_restrictionManager t1) now ''test-baggage-item-key'' ''test baggage item value'' sp0
      (t_metrics t1) = (sp, ms)" by fastforce
  have ctx: "sp_context sp = item_context tid (low tid)"
    using item_set[OF 1(1), of now "t_metrics t1"] set by (simp add: m)
  have v: "TraceID_isValid tid" using 1(2) by (simp add: TraceID_isValid_def)
  have j2: "jaeger_tracer (t1\<lparr>t_metrics := ms\<rparr>)" using j by (simp add: jaeger_tracer_def)
  show ?case
    using binary_propagated[OF v 1(2)] text_map_propagated[OF j2 v 1(2)] headers_propagated[OF j2 v 1(2)]
      debug_header_propagated[OF j2 v 1(2)] bad_headers_rejected[OF j2] alternative_baggage_propagated[OF j2 v 1(2)]
    by (simp add: set ctx Let_def)
qed

lemma w3c_Extract:
  assumes "t_format t = FormatW3C" and "t_headers t = HeadersConfig0" and "TraceID_isValid (traceID c)" and "spanID c \<noteq> 0"
    and "CHR ''%'' \<notin> set (traceState c)" and "mset hs = mset (w3c_doInject c [])"
  shows "fst (Extract_HTTPHeaders hs t) = Some (SpanContext (traceID c) (spanID c) 0 (flags c) [] [] (traceState c))"
proof -
  have headers: "lowercase kW3CTraceParentHeaderName" "lowercase kW3CTraceStateHeaderName"
    "jaegerDebugHeader HeadersConfig0 \<notin> {kW3CTraceParentHeaderName, kW3CTraceStateHeaderName}"
    by code_simp+
  let ?g = "SpanContext (traceID c) (spanID c) 0 (flags c) [] [] (traceState c)"
  have "w3c_extract HeadersConfig0 http_codec hs (t_metrics t) = (?g, t_metrics t)"
    using headers_codec.w3c_extract_injected[OF headers assms(3,5), of "[]" hs "t_metrics t"] assms(6) by simp
  moreover have "isValid ?g" using assms(3,4) by (simp add: isValid_def SpanContext_def)
  ultimately show ?thesis
    using assms(1,2) valid_not_empty[of ?g] by (simp add: Extract_HTTPHeaders_def Extract_text_def nonempty_context_def)
qed

lemma tracer_testPropagationWithW3CHeaderAndFormat:
  assumes "t_format t = FormatW3C" and "t_headers t = HeadersConfig0"
  shows "Tracer_testPropagationWithW3CHeaderAndFormat t"
proof -
  let ?c = "SpanContext (TraceID 1 2) 3 0 kSampled [] [] []"
  have p: "writeTraceParent ?c = ''00-00000000000000010000000000000002-0000000000000003-01''" by code_simp
  have c: "TraceID_isValid (traceID ?c)" "spanID ?c \<noteq> 0" "traceState ?c = []"
    "SpanContext (traceID ?c) (spanID ?c) 0 (flags ?c) [] [] (traceState ?c) = ?c"
    by (simp_all add: SpanContext_def TraceID_def TraceID_isValid_def)
  have w: "w3c_doInject ?c [] = [(kW3CTraceParentHeaderName, ''00-00000000000000010000000000000002-0000000000000003-01'')]"
    by (simp add: w3c_doInject_def Let_def p c(3))
  have e: "fst (Extract_HTTPHeaders (w3c_doInject ?c []) t) = Some ?c"
    using w3c_Extract[OF assms c(1,2), of "w3c_doInject ?c []"] c(3,4) by simp
  show ?thesis
    using e
    by (simp add: Tracer_testPropagationWithW3CHeaderAndFormat_def Inject_HTTPHeaders_def Inject_text_def assms(1) w carrier_after_def
        WriterMock_def extracted_def)
qed

lemma tracer_testPropagationWithW3CTraceState:
  assumes "t_format t = FormatW3C" and "t_headers t = HeadersConfig0"
    and "mset headerMap = mset [(kW3CTraceParentHeaderName, ''00-00000000000000000000000000000001-0000000000000001-01''),
      (kW3CTraceStateHeaderName, ''foo=bar'')]"
  shows "Tracer_testPropagationWithW3CTraceState headerMap t"
proof -
  let ?c = "SpanContext (TraceID 0 1) 1 0 1 [] [] ''foo=bar''"
  have p: "writeTraceParent (SpanContext (TraceID 0 1) 1 0 1 [] [] []) = ''00-00000000000000000000000000000001-0000000000000001-01''"
    by code_simp
  have c: "TraceID_isValid (traceID ?c)" "spanID ?c \<noteq> 0" "traceState ?c = ''foo=bar''"
    "SpanContext (traceID ?c) (spanID ?c) 0 (flags ?c) [] [] (traceState ?c) = ?c"
    by (simp_all add: SpanContext_def TraceID_def TraceID_isValid_def)
  have "writeTraceParent ?c = ''00-00000000000000000000000000000001-0000000000000001-01''"
    using p by (simp add: writeTraceParent_def SpanContext_def)
  then have w: "w3c_doInject ?c [] = [(kW3CTraceParentHeaderName, ''00-00000000000000000000000000000001-0000000000000001-01''),
      (kW3CTraceStateHeaderName, ''foo=bar'')]"
    by (simp add: w3c_doInject_def Let_def c(3))
  have "fst (Extract_HTTPHeaders headerMap t) = Some ?c"
    using w3c_Extract[OF assms(1,2) c(1,2), of headerMap] assms(3) c(3,4) w by simp
  moreover have "kW3CTraceParentHeaderName \<noteq> kW3CTraceStateHeaderName" by code_simp
  ultimately show ?thesis
    using w c(3)
    by (simp add: Tracer_testPropagationWithW3CTraceState_def extracted_def Inject_HTTPHeaders_def Inject_text_def assms(1)
        carrier_after_def WriterMock_def Let_def)
qed

section \<open>The tests pass\<close>

text \<open>
  On a host to which the agent's address can be connected, and with a generator that does not run into
  zeros: the tests with the tracer they install.
\<close>

lemma with_installed_tracer:
  assumes "pl_connect pl = (\<lambda>_. None)"
    and "\<And>t. t_rng t = pl_random pl \<Longrightarrow> t_format t = fmt \<Longrightarrow> t_headers t = HeadersConfig0 \<Longrightarrow>
      t_sampler t = SConst (ConstSampler True) \<Longrightarrow> t_restrictionManager t = DefaultRestrictionManager 0 \<Longrightarrow>
      t_options t = (if bits then kGen128BitOption else 0) \<Longrightarrow> body t"
  shows "with_tracer (installGlobalTracer ld pl now bits fmt samplingAuthority spanAuthority) body"
proof -
  obtain transport t where "installGlobalTracer ld pl now bits fmt samplingAuthority spanAuthority = Inr (JaegerTracer transport t)"
    and t: "t_rng t = pl_random pl" "t_format t = fmt" "t_headers t = HeadersConfig0" "t_sampler t = SConst (ConstSampler True)"
      "t_restrictionManager t = DefaultRestrictionManager 0" "t_options t = (if bits then kGen128BitOption else 0)"
    using installed_tracer[OF assms(1)] by metis
  with assms(2)[OF t] show ?thesis by (simp add: with_tracer_def)
qed

lemma tracer_tests:
  assumes "pl_connect pl = (\<lambda>_. None)" and "rng_live (pl_random pl)"
  shows "with_tracer (installGlobalTracer ld pl now False FormatJAEGER samplingAuthority spanAuthority)
      (\<lambda>t. Tracer_testPropagation le ld env now' t)"
    and "with_tracer (installGlobalTracer ld pl now False FormatJAEGER samplingAuthority spanAuthority) (Tracer_testDebugSpan ld env)"
    and "with_tracer (installGlobalTracer ld pl now False FormatJAEGER samplingAuthority spanAuthority) (Tracer_testTracerSimpleChild ld env)"
    and "with_tracer (installGlobalTracer ld pl now False FormatJAEGER samplingAuthority spanAuthority)
      (Tracer_testTracerSpanSelfRefWithOtherRefs ld env)"
    and "with_tracer (installGlobalTracer ld pl now True FormatJAEGER samplingAuthority spanAuthority)
      (Tracer_testTracerWithTraceId128Bit ld env)"
    and "with_tracer (installGlobalTracer ld pl now False FormatW3C samplingAuthority spanAuthority)
      Tracer_testPropagationWithW3CHeaderAndFormat"
  by (rule with_installed_tracer[OF assms(1)];
      simp add: tracer_testPropagation tracer_testDebugSpan tracer_testTracerSimpleChild
        tracer_testTracerSpanSelfRefWithOtherRefs tracer_testPropagationWithW3CHeaderAndFormat
        tracer_testTracerWithTraceId128Bit assms(2) jaeger_tracer_def kGen128BitOption_def)+

section \<open>Restrictions of baggage\<close>

definition Baggage_testRemoteRestrictionManagerDefaults :: "time \<Rightarrow> bool" where
  "Baggage_testRemoteRestrictionManagerDefaults now \<longleftrightarrow>
     (let manager = restriction_poller0 ''test-service'' False 0 metrics0 now
      in defaultRefreshInterval = rp_refreshInterval manager \<and>
         Restriction True kDefaultMaxValueLength =
           getRestriction (RemoteManager (rp_manager manager)) ''test-service'' ''abc'')"

lemma baggage_testRemoteRestrictionManagerDefaults: "Baggage_testRemoteRestrictionManagerDefaults now"
  by (simp add: Baggage_testRemoteRestrictionManagerDefaults_def restriction_poller0_def getRestriction_def)

end
