(* ===== verification/Spec2Isabelle.thy ===== *)
theory Spec2Isabelle
  imports Configs ThriftSampling RemoteJSON CrossdockLaws TestAgent Addresses Factory ThriftConcurrent Polling Sample Listening
    ConfigTests TracerTests
begin

text \<open>
  The Jaeger client library for C++: a tracer starts spans, propagates their contexts between
  processes, and reports finished spans to an agent or a collector.

  Paths are relative to \<^verbatim>\<open>src/jaegertracing\<close>, those of \<^verbatim>\<open>crossdock\<close> to the root.

  \<^bold>\<open>Parts and theories\<close>, lowest first.

  \<^item> \<open>Prelude\<close>: characters, the string stream (\<open>istream\<close>), \<^verbatim>\<open>std::getline\<close>, decimal integers.
  \<^item> \<open>HexParsing\<close>: \<^verbatim>\<open>utils/HexParsing.h\<close>.
  \<^item> \<open>SpanContexts\<close>: \<^verbatim>\<open>TraceID.*\<close>, \<^verbatim>\<open>SpanContext.*\<close>, their text form and its parser.
  \<^item> \<open>URI\<close>, \<open>Http\<close>: \<^verbatim>\<open>net/URI.*\<close>, \<^verbatim>\<open>net/http/*\<close>: the parsers, escaping, a GET request.
  \<^item> \<open>Metrics\<close>: \<^verbatim>\<open>metrics/*\<close>. The abstract state \<open>metrics\<close> is a function from the 21 metrics to
    integers; the locale \<open>stats_reporter\<close> says what a reporter keeps of it.
  \<^item> \<open>Propagation\<close>, \<open>PropagationLaws\<close>, \<open>BinaryFormat\<close>: \<^verbatim>\<open>propagation/*\<close>, \<^verbatim>\<open>platform/Endian.h\<close>. The
    locale \<open>lossless_codec\<close> is what the formats need of a carrier's encoding.
  \<^item> \<open>Floating\<close>: \<^verbatim>\<open>double\<close> and \<^verbatim>\<open>long double\<close> arithmetic as exact arithmetic rounded to nearest;
    the locale \<open>rounding\<close> is what its clients use.
  \<^item> \<open>Tags\<close>: \<^verbatim>\<open>Tag.*\<close>, \<^verbatim>\<open>LogRecord.*\<close>, \<^verbatim>\<open>Reference.*\<close> and the Thrift records they fill in.
  \<^item> \<open>Samplers\<close>, \<open>SamplerLaws\<close>: \<^verbatim>\<open>samplers/*\<close>, \<^verbatim>\<open>utils/RateLimiter.h\<close>. The locale
    \<open>sampler_contract\<close> is the virtual interface.
  \<^item> \<open>Baggage\<close>: \<^verbatim>\<open>baggage/*\<close>. The locale \<open>restriction_provider\<close> is a restriction manager.
  \<^item> \<open>Spans\<close>, \<open>SpanObjects\<close>: \<^verbatim>\<open>Span.*\<close>. \<open>span_run\<close> runs any sequence of operations on a span, \<open>object_run\<close> one
    on spans that are also copied, assigned and destroyed.
  \<^item> \<open>Senders\<close>: \<^verbatim>\<open>ThriftSender.*\<close>, \<^verbatim>\<open>utils/UDPTransporter.*\<close>, \<^verbatim>\<open>utils/HTTPTransporter.*\<close>. The
    locale \<open>span_sender\<close> is \<^verbatim>\<open>Sender\<close>, interpreted by the Thrift sender.
  \<^item> \<open>Reporters\<close>: \<^verbatim>\<open>reporters/*\<close>. \<open>rr_step\<close> interleaves the threads of a remote reporter; the locale
    \<open>accountable_sender\<close> extends \<open>span_sender\<close> by the accounting of failures.
  \<^item> \<open>Tracer\<close>, \<open>TracerLaws\<close>: \<^verbatim>\<open>Tracer.*\<close>. \<open>program_run\<close> runs an application that starts spans and
    works on them.
  \<^item> \<open>Loggers\<close>: \<^verbatim>\<open>Logging.*\<close>, \<^verbatim>\<open>utils/ErrorUtil.h\<close>. The locale \<open>append_only\<close> is what a log keeps.
  \<^item> \<open>Addresses\<close>: \<^verbatim>\<open>net/IPAddress.*\<close>, \<^verbatim>\<open>net/Socket.*\<close>, \<^verbatim>\<open>platform/Hostname.h\<close>, over what a \<open>system\<close>
    answers. \<open>socket_step\<close> runs any sequence of operations on sockets, with the handles that are open.
  \<^item> \<open>Configs\<close>: the \<^verbatim>\<open>Config\<close> classes, \<^verbatim>\<open>utils/EnvVariable.h\<close>, \<^verbatim>\<open>utils/YAML.h\<close>, \<^verbatim>\<open>Tracer::make\<close>.
  \<^item> \<open>ThriftStructs\<close>, \<open>ThriftLaws\<close>, \<open>ThriftSampling\<close>: the readers and writers of
    \<^verbatim>\<open>thrift-gen/jaeger_types.cpp\<close>, \<^verbatim>\<open>thrift-gen/sampling_types.cpp\<close>, \<^verbatim>\<open>thrift-gen/baggage_types.cpp\<close>,
    and the call \<^verbatim>\<open>emitBatch\<close> of \<^verbatim>\<open>thrift-gen/Agent.cpp\<close>, over any protocol \<open>P\<close>. \<open>tokens\<close> is a concrete one.
  \<^item> \<open>ThriftCalls\<close>, \<open>TracedThrift\<close>, \<open>Zipkin\<close>: the other structures of \<^verbatim>\<open>thrift-gen\<close> and the clients and
    processors of its services. The locale \<open>remote_method\<close> is the contract of a method, interpreted by
    each of them: what the client gets is what the handler did.
  \<^item> \<open>ThriftConcurrent\<close>: the clients that several threads share. \<open>connection_step\<close> is a turn of one of them;
    the locale \<open>concurrent_service\<close> is what a service keeps of its answers, interpreted by each service.
  \<^item> \<open>RemoteJSON\<close>: \<^verbatim>\<open>samplers/RemoteSamplingJSON.h\<close>, \<^verbatim>\<open>baggage/RemoteRestrictionJSON.h\<close> and the
    \<^verbatim>\<open>HTTPSamplingManager\<close>, over any JSON library \<open>J\<close>. \<open>documents\<close> is a concrete one.
  \<^item> \<open>Polling\<close>: the threads that poll an agent, with their construction and \<^verbatim>\<open>close\<close>, as step relations. The
    locale \<open>ending_thread\<close> is why a thread that is asked to ends, but for an answer that does not come,
    interpreted by both. The answers of the agent are events of their own, as no request has a time limit.
  \<^item> \<open>Factory\<close>: \<^verbatim>\<open>TracerFactory.*\<close> and \<^verbatim>\<open>DynamicLoad.cpp\<close>, how a program that knows only OpenTracing
    gets a tracer.
  \<^item> \<open>TestAgent\<close>: \<^verbatim>\<open>testutils/*\<close>, the other end of the client's polls and packets.
  \<^item> \<open>Listening\<close>: the threads of \<^verbatim>\<open>testutils/MockAgent.*\<close> and of the listeners of \<^verbatim>\<open>crossdock/Server.cpp\<close>, and
    \<^verbatim>\<open>testutils/TUDPTransport.h\<close>. \<open>listener_run\<close> and \<open>agent_run\<close> run any sequence of events.
  \<^item> \<open>Sample\<close>: \<^verbatim>\<open>examples/App.cpp\<close> of \<^verbatim>\<open>src\<close>, the library from the configuration file to the reported spans.
  \<^item> \<open>JsonDocuments\<close>, \<open>Crossdock\<close>, \<open>CrossdockLaws\<close>: \<^verbatim>\<open>crossdock/Server.*\<close>, servers that hand a trace on
    to each other over HTTP. \<open>act\<close> is what a thread does to the world of servers, \<open>network\<close> lets them
    call each other.
  \<^item> \<open>UnitTests\<close>, \<open>CarrierTests\<close>, \<open>ConfigTests\<close>, \<open>TracerTests\<close>: the unit tests (\<^verbatim>\<open>*Test.cpp\<close>) as
    checks over the model, in the order of their assertions.
  \<^item> This theory: what holds of the parts together.

  \<^bold>\<open>How the code is read.\<close> A class is a record of its fields, a method a function that returns the
  object after it; an exception is the left of a sum; a mutex makes what it guards atomic. Of
  concurrent behaviour, the remote reporter, the polling threads, the threads that listen and those that
  share a client are modelled as step relations or sequences of events. A \<^verbatim>\<open>uint64_t\<close> or \<^verbatim>\<open>unsigned char\<close> is a word, an \<^verbatim>\<open>int\<close> an
  integer, reduced by \<open>int32\<close> where a wider number is converted to it or where its overflow decides what
  is sent (that one is undefined in C++ and wraps around on the compilers in use). Between the unlock in
  \<^verbatim>\<open>Span::FinishWithOptions\<close> and the copy that \<^verbatim>\<open>reportSpan\<close> takes, another thread could add a log record to the span; the model has no such step.

  \<^bold>\<open>Parameters.\<close> What Thrift serializes to (\<open>thrift_sizes\<close>, \<open>serialize\<close>) and its protocols
  (\<open>protocol\<close>, and \<open>app_format\<close> for its exceptions), the JSON and YAML libraries, the clocks, the random
  generator (the stream of its outputs, \<open>rng_live\<close> if a number other than zero always comes again,
  which is so for the Mersenne twister), the host's name and address (\<open>platform\<close>, of which \<open>system\<close> has the details), the hosts of the
  servers (\<open>host_env\<close>), the byte order, the precision of \<^verbatim>\<open>long double\<close>, and what the kernel answers to
  sends and receives.

  \<^bold>\<open>Bounds and fuel.\<close> \<open>rr_drain\<close> is given one round more than the queue is long, which
  \<open>drain_ends\<close> shows to be enough. \<open>randomID\<close> and \<open>read_fields\<close> are partial functions;
  \<open>randomID_returns\<close> and \<open>returns_fields\<close> show that they return, the second on a finite input.
  \<open>network\<close> is given one more than the number of servers that a request names, which
  \<open>crossdock_chain\<close> shows to be enough; the readers of the nested JSON structures are partial
  functions, and \<open>crossdock_json_roundtrip\<close> shows that they return on what was written; the nested
  Thrift structures are read as deep as they are (\<open>ds_depth\<close>, \<open>tr_depth\<close>), since reading makes none.
  Every other loop is structural or has a proof of termination.

  \<^bold>\<open>What is shown.\<close> Round trips of every carrier and of the URI and header parsers; the bias of
  the probabilistic sampler and the token bucket's bound under rounding; bounds on baggage,
  queues, packets; that no span is sent twice, reordered or lost without being counted, through
  the sender and through the reporter's threads, and that closing drains the queue; what a new
  span inherits; that the counts of a tracer add up in every program; what a configuration makes;
  that the agent reads a batch as it was sent, and that what it answers is installed and enforced;
  that a remote call gives what the handler returned, and which structures cannot be read back;
  that every server of a chain observes the same trace; that sockets which are not assigned to
  leak no handle; that closing a sampler or a restriction manager loses no wake-up and ends within a few
  steps once the agent has answered a request under way, and not before, and stopping a listener only
  with one more client; that threads which share a connection get their own answers;
  that a span is reported once however it is copied; that the sample program reports its trace.
  The unit tests pass in the model. Some do so only under hypotheses that a run of them need not meet:
  that of the rate-limiting sampler if its calls are made at once, that of the remote reporter if its
  thread gets its turn, those that read the environment if no variable is set from outside, and that
  of a span that refers to itself if the generator does not repeat the identifier in the test.

  \<^bold>\<open>Not modelled.\<close> The system calls themselves, the Windows branches, the generated code's
  byte counts, printing, comparison and swapping, its event handlers, what \<^verbatim>\<open>sync_\<close> of the concurrent clients
  does inside the Thrift library (it is any schedule of turns here), and the unit tests over sockets or
  an agent; also those of \<^verbatim>\<open>TagTest.cpp\<close>, \<^verbatim>\<open>DynamicallyLoadTracerTest.cpp\<close>, \<^verbatim>\<open>metrics/NullStatsFactoryTest.cpp\<close> and of the adaptive
  sampler's errors and update, \<^verbatim>\<open>testTracer\<close> of \<^verbatim>\<open>TracerTest.cpp\<close>, and those that assert nothing.
\<close>

section \<open>A trace continues in the next process\<close>

text \<open>C1. A trace continues across processes: the context of a span that one tracer injects into
  HTTP headers, carried in any order among headers the propagator does not read and extracted by another tracer of the
  same configuration, both in the Jaeger format, is a parent, the only reference, from which that tracer starts a span of the same trace, with the
  sender's span as parent, its flags, hence its sampling decision, and its baggage; nothing is
  counted as a decoding error. The name of the context header and the baggage keys are lower-case, as
  HTTP makes them (a key that is not comes back in lower case), the baggage values consist of
  printable ASCII characters, and no name of a header the client uses is that of another.\<close>

theorem trace_continues:
  assumes "headers_ok hk" and "lowercase (traceContextHeaderName hk)"
    and "t_format a = FormatJAEGER" and "t_headers a = hk" and "t_format b = FormatJAEGER" and "t_headers b = hk"
    and "isValid c" and "strmap_ok (baggage c)"
    and "\<forall>kv \<in> set (baggage c). lowercase (addBaggageKeyPrefix hk (fst kv)) \<and> escapable_string (snd kv)"
    and "\<forall>kv \<in> set extra. irrelevant hk http_codec kv"
    and "Inject_HTTPHeaders a (Some c) [] = Inr w" and "mset hs = mset w + mset extra"
    and "Extract_HTTPHeaders hs b = (got, b1)"
    and "opt_references opts = [(ChildOfRef, got)]"
    and "StartSpanWithOptions ld env operation opts b1 = Some (s, b2)"
  shows "\<exists>sp. s = Some sp \<and> traceID (sp_context sp) = traceID c \<and> parentID (sp_context sp) = spanID c \<and>
    spanID (sp_context sp) \<noteq> 0 \<and> flags (sp_context sp) = flags c \<and>
    map_of (baggage (sp_context sp)) = map_of (baggage c) \<and>
    t_metrics b2 DecodingErrors = t_metrics b DecodingErrors"
proof -
  have w: "w = jaeger_doInject hk http_codec c []"
    using assms(3,4,11) by (simp add: Inject_HTTPHeaders_def Inject_text_def)
  from extract_carried[OF assms(1,2,5-10) assms(12)[unfolded w] assms(13)] obtain g
    where g: "got = Some g" "isValid g" "traceID g = traceID c" "spanID g = spanID c" "flags g = flags c"
      "map_of (baggage g) = map_of (baggage c)" "b1 = b" by blast
  from start_from_parent[OF g(2) assms(14)[unfolded g(1)] assms(15)] obtain sp
    where sp: "s = Some sp" "spanID (sp_context sp) \<noteq> 0"
      "sp_context sp = SpanContext (traceID g) (spanID (sp_context sp)) (spanID g) (flags g) (baggage g) [] []"
      "t_metrics b2 = inc (if isSampled g then SpansSampled else SpansNotSampled) 1 (inc SpansStarted 1 (t_metrics b1))"
    by blast
  from arg_cong[OF sp(3), of traceID] arg_cong[OF sp(3), of parentID] arg_cong[OF sp(3), of flags]
    arg_cong[OF sp(3), of baggage]
  show ?thesis using sp(1,2,4) g by (simp add: SpanContext_def)
qed

theorem trace_continues_witness:
  "traceID (sp_context (the (fst (the (StartSpanWithOptions 64 example_env ''op''
     (example_options [(ChildOfRef, fst (Extract_HTTPHeaders
        (rev (example_extra @ jaeger_doInject HeadersConfig0 http_codec example_context [])) example_tracer))])
     (snd (Extract_HTTPHeaders
        (rev (example_extra @ jaeger_doInject HeadersConfig0 http_codec example_context [])) example_tracer)))))))
   = TraceID 1 0xFF"
proof -
  let ?w = "jaeger_doInject HeadersConfig0 http_codec example_context []"
  let ?hs = "rev (example_extra @ ?w)"
  obtain got b1 where x: "Extract_HTTPHeaders ?hs example_tracer = (got, b1)" by fastforce
  have t: "t_format example_tracer = FormatJAEGER" "t_headers example_tracer = HeadersConfig0"
    by (simp_all add: example_tracer_def)
  have "rng_live (t_rng b1)"
    using x example_tracer_live by (auto simp: Extract_HTTPHeaders_def Extract_text_def split: prod.splits)
  then obtain s b2 where st: "StartSpanWithOptions 64 example_env ''op'' (example_options [(ChildOfRef, got)]) b1 = Some (s, b2)"
    using start_span_returns by blast
  have v: "isValid example_context"
    by (simp add: example_context_def SpanContext_def isValid_def TraceID_isValid_def)
  have w: "Inject_HTTPHeaders example_tracer (Some example_context) [] = Inr ?w"
    by (simp add: Inject_HTTPHeaders_def Inject_text_def t)
  have irr: "\<forall>kv \<in> set example_extra. irrelevant HeadersConfig0 http_codec kv" using example_irrelevant by blast
  have ms: "mset ?hs = mset ?w + mset example_extra" by (simp add: ac_simps)
  have o: "opt_references (example_options [(ChildOfRef, got)]) = [(ChildOfRef, got)]" by (simp add: example_options_def)
  from trace_continues[OF example_headers(1,2) t t v example_headers(4,5) irr w ms x o st]
  show ?thesis unfolding x using st by (auto simp: example_context_def SpanContext_def)
qed

end
